(* ===== verification/Prelude.thy ===== *)
theory Prelude
  imports "HOL-Library.Word" "HOL-Library.Monad_Syntax"
begin

text \<open>
  Shared vocabulary of the development: the fact collections, the option monad that carries
  undefined behaviour (\<open>None\<close>), and generic facts on lists, options and machine words.

  Convention.  A C function that may touch memory is a function into \<open>'a option\<close>.  \<open>None\<close> is
  undefined behaviour of the C abstract machine: a read or a write of an address that is not
  part of an allocated object, or a misaligned multi-byte access.  \<open>Some\<close> is everything the
  code returns, its error codes included.
\<close>

unbundle bit_operations_syntax

named_theorems heap_simps \<open>reads, block writes and address ranges of the byte heap\<close>
named_theorems ub_intros \<open>sufficient conditions for a run without undefined behaviour\<close>
named_theorems frame_simps \<open>what an operation leaves unchanged\<close>

type_synonym byte = "8 word"
type_synonym u16 = "16 word"
type_synonym u32 = "32 word"
type_synonym u64 = "64 word"

subsection \<open>The option monad\<close>

lemma bind_SomeE:
  assumes "Option.bind m f = Some y"
  obtains x where "m = Some x" and "f x = Some y"
  using assms by (auto simp: Option.bind_eq_Some_conv)

lemma bind_cong_fun [fundef_cong]:
  "m = m' \<Longrightarrow> (\<And>x. m' = Some x \<Longrightarrow> f x = g x) \<Longrightarrow> Option.bind m f = Option.bind m' g"
  by (cases m') simp_all

subsection \<open>Lists\<close>

lemma nth_append_shift:
  "i \<ge> length xs \<Longrightarrow> (xs @ ys) ! i = ys ! (i - length xs)"
  by (simp add: nth_append)

lemma map_upt_add: "map f [a..<a + n] = map (\<lambda>i. f (a + i)) [0..<n]"
  by (rule nth_equalityI) simp_all

subsection \<open>Words\<close>

lemma word_and_3: "(w :: 'a::len word) AND 3 = w mod 4" if "LENGTH('a) > 2"
proof -
  have "(3 :: 'a word) = mask 2"
    by (simp add: mask_eq_exp_minus_1)
  then show ?thesis
    by (simp only: take_bit_eq_mask [symmetric]) (simp add: take_bit_eq_mod)
qed

lemma u32_minus_one: "(n :: u32) \<noteq> 0 \<Longrightarrow> unat (n - 1) = unat n - 1"
  by (simp add: unat_minus_one)

lemma unat_of_nat_u32: "n < 2 ^ 32 \<Longrightarrow> unat (of_nat n :: u32) = n"
  by (simp add: unat_of_nat take_bit_nat_eq_self)

lemma unat_of_nat_u64: "n < 2 ^ 64 \<Longrightarrow> unat (of_nat n :: u64) = n"
  by (simp add: unat_of_nat take_bit_nat_eq_self)

end
