(* ===== verification/CMem.thy ===== *)
theory CMem
  imports Prelude
begin

text \<open>
  The memory the C sources run on: a partial map from addresses to bytes.  An address outside
  the domain belongs to no object, so reading or writing it is undefined behaviour.  Pointers are
  natural numbers and \<open>NULL\<close> is 0; pointer arithmetic inside an object never wraps.  Multi-byte
  cells are little-endian (the library is built for x86) and must be aligned.

  \<open>mapped\<close> says a range belongs to an object, \<open>bytes_of\<close> reads a range and \<open>put_bytes\<close> is the
  abstract block write that the correctness theorems of the loops are stated with.
\<close>

type_synonym addr = nat
type_synonym heap = "addr \<rightharpoonup> byte"

abbreviation (input) NULL :: addr where "NULL \<equiv> 0"

definition wr8 :: "heap \<Rightarrow> addr \<Rightarrow> byte \<Rightarrow> heap option" where
  "wr8 h a v = (if h a = None then None else Some (h(a \<mapsto> v)))"

definition rd8 :: "heap \<Rightarrow> addr \<Rightarrow> byte option" where
  "rd8 h a = h a"

definition rd16 :: "heap \<Rightarrow> addr \<Rightarrow> u16 option" where
  "rd16 h a =
     (if a mod 2 \<noteq> 0 then None
      else do { b0 \<leftarrow> h a; b1 \<leftarrow> h (a + 1);
                Some (ucast b0 OR push_bit 8 (ucast b1)) })"

definition wr16 :: "heap \<Rightarrow> addr \<Rightarrow> u16 \<Rightarrow> heap option" where
  "wr16 h a v =
     (if a mod 2 \<noteq> 0 then None
      else do { h1 \<leftarrow> wr8 h a (ucast v); wr8 h1 (a + 1) (ucast (drop_bit 8 v)) })"

definition rd32 :: "heap \<Rightarrow> addr \<Rightarrow> u32 option" where
  "rd32 h a =
     (if a mod 4 \<noteq> 0 then None
      else do { b0 \<leftarrow> h a; b1 \<leftarrow> h (a + 1); b2 \<leftarrow> h (a + 2); b3 \<leftarrow> h (a + 3);
                Some (ucast b0 OR push_bit 8 (ucast b1) OR push_bit 16 (ucast b2)
                      OR push_bit 24 (ucast b3)) })"

definition wr32 :: "heap \<Rightarrow> addr \<Rightarrow> u32 \<Rightarrow> heap option" where
  "wr32 h a v =
     (if a mod 4 \<noteq> 0 then None
      else do { h1 \<leftarrow> wr8 h a (ucast v);
                h2 \<leftarrow> wr8 h1 (a + 1) (ucast (drop_bit 8 v));
                h3 \<leftarrow> wr8 h2 (a + 2) (ucast (drop_bit 16 v));
                wr8 h3 (a + 3) (ucast (drop_bit 24 v)) })"

subsection \<open>Ranges and block writes\<close>

definition mapped :: "heap \<Rightarrow> addr \<Rightarrow> nat \<Rightarrow> bool" where
  "mapped h a n \<longleftrightarrow> (\<forall>i<n. h (a + i) \<noteq> None)"

definition bytes_of :: "heap \<Rightarrow> addr \<Rightarrow> nat \<Rightarrow> byte list" where
  "bytes_of h a n = map (\<lambda>i. the (h (a + i))) [0..<n]"

definition put_bytes :: "heap \<Rightarrow> addr \<Rightarrow> byte list \<Rightarrow> heap" where
  "put_bytes h a bs = (\<lambda>x. if a \<le> x \<and> x < a + length bs then Some (bs ! (x - a)) else h x)"

lemma wr8_mapped [heap_simps]: "h a \<noteq> None \<Longrightarrow> wr8 h a v = Some (h(a \<mapsto> v))"
  by (simp add: wr8_def)

lemma wr8_SomeD: "wr8 h a v = Some h' \<Longrightarrow> h a \<noteq> None \<and> h' = h(a \<mapsto> v)"
  by (simp add: wr8_def split: if_splits)

lemma length_bytes_of [simp]: "length (bytes_of h a n) = n"
  by (simp add: bytes_of_def)

lemma nth_bytes_of [simp]: "i < n \<Longrightarrow> bytes_of h a n ! i = the (h (a + i))"
  by (simp add: bytes_of_def)

lemma mapped_0 [simp]: "mapped h a 0"
  by (simp add: mapped_def)

lemma mapped_mono: "mapped h a n \<Longrightarrow> m \<le> n \<Longrightarrow> mapped h a m"
  by (simp add: mapped_def)

lemma mapped_sub: "mapped h a n \<Longrightarrow> i + m \<le> n \<Longrightarrow> mapped h (a + i) m"
  by (simp add: mapped_def add.assoc)

lemma mapped_at: "mapped h a n \<Longrightarrow> a \<le> x \<Longrightarrow> x < a + n \<Longrightarrow> h x \<noteq> None"
  unfolding mapped_def by (metis add.commute le_add_diff_inverse nat_add_left_cancel_less)

lemma mapped_Some: "mapped h a n \<Longrightarrow> i < n \<Longrightarrow> \<exists>v. h (a + i) = Some v"
  by (auto simp: mapped_def)

lemma mapped_Suc: "mapped h a (Suc n) \<longleftrightarrow> h a \<noteq> None \<and> mapped h (Suc a) n"
  by (auto simp: mapped_def less_Suc_eq_0_disj)

lemma mapped_add: "mapped h a (m + n) \<longleftrightarrow> mapped h a m \<and> mapped h (a + m) n"
proof
  assume "mapped h a m \<and> mapped h (a + m) n"
  then show "mapped h a (m + n)"
    unfolding mapped_def
    by (metis add.assoc le_add_diff_inverse nat_add_left_cancel_less not_less)
qed (auto simp: mapped_def add.assoc)

lemma mapped_dom: "dom h' = dom h \<Longrightarrow> mapped h' a n = mapped h a n"
  by (simp add: mapped_def domIff set_eq_iff)

lemma put_bytes_Nil [simp]: "put_bytes h a [] = h"
  by (rule ext) (auto simp: put_bytes_def)

lemma put_bytes_Cons: "put_bytes h a (b # bs) = put_bytes (h(a \<mapsto> b)) (Suc a) bs"
  by (rule ext) (auto simp: put_bytes_def nth_Cons' Suc_diff_le not_less_eq_eq)

lemma put_bytes_append:
  "put_bytes h a (xs @ ys) = put_bytes (put_bytes h a xs) (a + length xs) ys"
  by (rule ext) (auto simp: put_bytes_def nth_append)

lemma put_bytes_single: "put_bytes h a [b] = h(a \<mapsto> b)"
  by (simp add: put_bytes_Cons)

lemma put_bytes_outside [heap_simps]:
  "x < a \<or> a + length bs \<le> x \<Longrightarrow> put_bytes h a bs x = h x"
  by (auto simp: put_bytes_def)

lemma put_bytes_inside [heap_simps]:
  "i < length bs \<Longrightarrow> put_bytes h a bs (a + i) = Some (bs ! i)"
  by (simp add: put_bytes_def)

lemma mapped_put_bytes [simp]: "mapped h b n \<Longrightarrow> mapped (put_bytes h a bs) b n"
  by (auto simp: mapped_def put_bytes_def)

lemma mapped_put_bytes_self [simp]: "n \<le> length bs \<Longrightarrow> mapped (put_bytes h a bs) a n"
  by (simp add: mapped_def put_bytes_inside)

lemma mapped_put_range:
  "a \<le> b \<Longrightarrow> b + n \<le> a + length bs \<Longrightarrow> mapped (put_bytes h a bs) b n"
  by (auto simp: mapped_def put_bytes_def)

lemma dom_put_bytes: "mapped h a (length bs) \<Longrightarrow> dom (put_bytes h a bs) = dom h"
  by (auto simp: put_bytes_def dom_def dest: mapped_at split: if_splits)

lemma bytes_of_put_same [simp]: "n = length bs \<Longrightarrow> bytes_of (put_bytes h a bs) a n = bs"
  by (rule nth_equalityI) (simp_all add: put_bytes_inside)

lemma bytes_of_put_disjoint:
  "b + n \<le> a \<or> a + length bs \<le> b \<Longrightarrow> bytes_of (put_bytes h a bs) b n = bytes_of h b n"
  by (rule nth_equalityI) (auto simp: put_bytes_def)

lemma bytes_of_add: "bytes_of h a (m + n) = bytes_of h a m @ bytes_of h (a + m) n"
  by (rule nth_equalityI) (auto simp: nth_append add.assoc)

lemma bytes_of_Suc: "bytes_of h a (Suc n) = the (h a) # bytes_of h (Suc a) n"
  by (rule nth_equalityI) (auto simp: nth_Cons split: nat.split)

lemma bytes_of_Suc_right: "bytes_of h a (Suc n) = bytes_of h a n @ [the (h (a + n))]"
  by (simp add: bytes_of_def)


subsection \<open>Block copy\<close>

text \<open>The effect of \<open>memmove\<close>: the bytes of the source range as they were before the copy.\<close>

definition blit :: "heap \<Rightarrow> addr \<Rightarrow> addr \<Rightarrow> nat \<Rightarrow> heap" where
  "blit h d s n = put_bytes h d (bytes_of h s n)"

lemma blit_at: "blit h d s n x = (if d \<le> x \<and> x < d + n then Some (the (h (s + (x - d)))) else h x)"
  by (auto simp: blit_def put_bytes_def)

lemma blit_0 [simp]: "blit h d s 0 = h"
  by (simp add: blit_def bytes_of_def)

lemma mapped_blit [simp]: "mapped h b m \<Longrightarrow> mapped (blit h d s n) b m"
  by (simp add: blit_def)

lemma blit_up: "d \<le> s \<Longrightarrow> blit (blit h d s a) (d + a) (s + a) b = blit h d s (a + b)"
  by (rule ext) (auto simp: blit_at)

lemma blit_down: "s \<le> d \<Longrightarrow> blit (blit h (d + a) (s + a) b) d s a = blit h d s (a + b)"
  by (rule ext) (auto simp: blit_at)

lemma dom_blit: "mapped h d n \<Longrightarrow> dom (blit h d s n) = dom h"
  by (simp add: blit_def dom_put_bytes)

lemma blit_outside [heap_simps]: "x < d \<or> d + n \<le> x \<Longrightarrow> blit h d s n x = h x"
  by (auto simp: blit_at)

lemma bytes_of_blit [simp]: "bytes_of (blit h d s n) d n = bytes_of h s n"
  by (simp add: blit_def)

subsection \<open>Cells\<close>

text \<open>
  The interface between the memory and the unrolled loops of \<open>mem_primitives_lib.c\<close>: a cell of
  \<open>sz\<close> bytes with a read and a write that succeed on aligned mapped addresses and move exactly
  the bytes of the cell.
\<close>

locale cell =
  fixes sz :: nat
    and rd :: "heap \<Rightarrow> addr \<Rightarrow> 'v option"
    and wr :: "heap \<Rightarrow> addr \<Rightarrow> 'v \<Rightarrow> heap option"
    and enc :: "'v \<Rightarrow> byte list"
  assumes size_pos: "0 < sz"
    and enc_length: "length (enc v) = sz"
    and wr_cell: "mapped h a sz \<Longrightarrow> a mod sz = 0 \<Longrightarrow> wr h a v = Some (put_bytes h a (enc v))"
    and rd_cell: "mapped h a sz \<Longrightarrow> a mod sz = 0 \<Longrightarrow> \<exists>v. rd h a = Some v \<and> enc v = bytes_of h a sz"
begin

lemma copy_cell:
  assumes "mapped h d sz" "mapped h s sz" "d mod sz = 0" "s mod sz = 0"
  shows "Option.bind (rd h s) (wr h d) = Some (blit h d s sz)"
  using rd_cell [OF assms(2,4)] wr_cell [OF assms(1,3)] by (auto simp: blit_def)

end

definition enc16 :: "u16 \<Rightarrow> byte list" where
  "enc16 v = [ucast v, ucast (drop_bit 8 v)]"

definition enc32 :: "u32 \<Rightarrow> byte list" where
  "enc32 v = [ucast v, ucast (drop_bit 8 v), ucast (drop_bit 16 v), ucast (drop_bit 24 v)]"

lemma no_bit_above: "8 \<le> n \<Longrightarrow> bit (b :: byte) n = False"
  using bit_imp_le_length [of b n] by auto

lemma enc16_bytes:
  "enc16 (ucast (b0 :: byte) OR push_bit 8 (ucast (b1 :: byte))) = [b0, b1]"
  by (auto simp: enc16_def bit_simps no_bit_above intro!: bit_word_eqI)

lemma enc32_bytes:
  "enc32 (ucast (b0 :: byte) OR push_bit 8 (ucast (b1 :: byte)) OR push_bit 16 (ucast (b2 :: byte))
     OR push_bit 24 (ucast (b3 :: byte))) = [b0, b1, b2, b3]"
  by (auto simp: enc32_def bit_simps no_bit_above intro!: bit_word_eqI)

lemma mapped_small:
  "mapped h a (Suc 0) \<longleftrightarrow> (\<exists>b0. h a = Some b0)"
  "mapped h a 2 \<longleftrightarrow> (\<exists>b0 b1. h a = Some b0 \<and> h (a + 1) = Some b1)"
  "mapped h a 4 \<longleftrightarrow> (\<exists>b0 b1 b2 b3. h a = Some b0 \<and> h (a + 1) = Some b1
     \<and> h (a + 2) = Some b2 \<and> h (a + 3) = Some b3)"
  by (auto simp: mapped_Suc numeral_eq_Suc)

lemma put_bytes_small:
  "put_bytes h a [b0, b1] = h(a \<mapsto> b0, a + 1 \<mapsto> b1)"
  "put_bytes h a [b0, b1, b2, b3] = h(a \<mapsto> b0, a + 1 \<mapsto> b1, a + 2 \<mapsto> b2, a + 3 \<mapsto> b3)"
  by (simp_all add: put_bytes_Cons numeral_eq_Suc)

lemma bytes_of_small:
  "bytes_of h a (Suc 0) = [the (h a)]"
  "bytes_of h a 2 = [the (h a), the (h (a + 1))]"
  "bytes_of h a 4 = [the (h a), the (h (a + 1)), the (h (a + 2)), the (h (a + 3))]"
  by (simp_all add: bytes_of_Suc numeral_eq_Suc) (simp_all add: bytes_of_def)

interpretation cell8: cell 1 rd8 wr8 "\<lambda>v. [v]"
  by unfold_locales
     (auto simp: rd8_def wr8_def mapped_small bytes_of_small put_bytes_single)

interpretation cell16: cell 2 rd16 wr16 enc16
proof unfold_locales
  fix h a v assume "mapped h a 2" "a mod 2 = 0"
  then show "wr16 h a v = Some (put_bytes h a (enc16 v))"
    by (auto simp: wr16_def wr8_def enc16_def mapped_small put_bytes_small)
  from \<open>mapped h a 2\<close> \<open>a mod 2 = 0\<close>
  show "\<exists>v. rd16 h a = Some v \<and> enc16 v = bytes_of h a 2"
    by (auto simp: rd16_def mapped_small bytes_of_small enc16_bytes)
qed (simp_all add: enc16_def)

interpretation cell32: cell 4 rd32 wr32 enc32
proof unfold_locales
  fix h a v assume "mapped h a 4" "a mod 4 = 0"
  then show "wr32 h a v = Some (put_bytes h a (enc32 v))"
    by (auto simp: wr32_def wr8_def enc32_def mapped_small put_bytes_small)
  from \<open>mapped h a 4\<close> \<open>a mod 4 = 0\<close>
  show "\<exists>v. rd32 h a = Some v \<and> enc32 v = bytes_of h a 4"
    by (auto simp: rd32_def mapped_small bytes_of_small enc32_bytes)
qed (simp_all add: enc32_def)

end
