(* ===== verification/Mem_Prims.thy ===== *)
theory Mem_Prims
  imports CMem
begin

text \<open>
  \<open>lib/safeclib/mem_primitives_lib.c\<close>: the unguarded set and move routines.

  The C routines unroll their loops: \<open>while (len != 0) switch (len)\<close> with sixteen stores in the
  \<open>default\<close> case and a fall-through ladder for 15 down to 1.  \<open>set_loop\<close>, \<open>move_up_loop\<close> and
  \<open>move_down_loop\<close> are these loops over a cell type; \<open>store_run\<close>, \<open>copy_run_up\<close> and
  \<open>copy_run_down\<close> are \<open>k\<close> consecutive statements of a ladder.  The counters are 32-bit words, as in
  the source, so a \<open>do ... while (--tsp)\<close> loop entered with a zero counter runs \<open>2 ^ 32\<close> times.

  The lemmas show that each routine equals the abstract block write (\<open>put_bytes\<close>) or block copy
  (\<open>blit\<close>, the effect of \<open>memmove\<close>), overlap included, and never leaves the given ranges.
\<close>

subsection \<open>Ladders of stores and copies\<close>

fun store_run ::
  "(heap \<Rightarrow> addr \<Rightarrow> 'v \<Rightarrow> heap option) \<Rightarrow> nat \<Rightarrow> nat \<Rightarrow> heap \<Rightarrow> addr \<Rightarrow> 'v \<Rightarrow> (heap \<times> addr) option"
where
  "store_run wr sz 0 h dp v = Some (h, dp)"
| "store_run wr sz (Suc k) h dp v = do { h' \<leftarrow> wr h dp v; store_run wr sz k h' (dp + sz) v }"

fun copy_run_up ::
  "(heap \<Rightarrow> addr \<Rightarrow> 'v option) \<Rightarrow> (heap \<Rightarrow> addr \<Rightarrow> 'v \<Rightarrow> heap option) \<Rightarrow> nat
    \<Rightarrow> nat \<Rightarrow> heap \<Rightarrow> addr \<Rightarrow> addr \<Rightarrow> (heap \<times> addr \<times> addr) option"
where
  "copy_run_up rd wr sz 0 h dp sp = Some (h, dp, sp)"
| "copy_run_up rd wr sz (Suc k) h dp sp =
     do { v \<leftarrow> rd h sp; h' \<leftarrow> wr h dp v; copy_run_up rd wr sz k h' (dp + sz) (sp + sz) }"

fun copy_run_down ::
  "(heap \<Rightarrow> addr \<Rightarrow> 'v option) \<Rightarrow> (heap \<Rightarrow> addr \<Rightarrow> 'v \<Rightarrow> heap option) \<Rightarrow> nat
    \<Rightarrow> nat \<Rightarrow> heap \<Rightarrow> addr \<Rightarrow> addr \<Rightarrow> (heap \<times> addr \<times> addr) option"
where
  "copy_run_down rd wr sz 0 h dp sp = Some (h, dp, sp)"
| "copy_run_down rd wr sz (Suc k) h dp sp =
     do { v \<leftarrow> rd h (sp - sz); h' \<leftarrow> wr h (dp - sz) v;
          copy_run_down rd wr sz k h' (dp - sz) (sp - sz) }"

subsection \<open>The unrolled loops\<close>

lemma unat_minus_16: "(len :: u32) > 15 \<Longrightarrow> unat (len - 16) = unat len - 16"
  by (subst unat_sub) (simp_all add: word_le_nat_alt word_less_nat_alt)

lemma split_16:
  assumes "\<not> (len :: u32) \<le> 15"
  obtains k where "unat len = 16 + k" and "unat (len - 16) = k"
proof -
  have "15 < unat len"
    using assms by (simp add: not_le word_less_nat_alt)
  then show ?thesis
    using that [of "unat len - 16"] assms unat_minus_16 [of len] by simp
qed

function set_loop ::
  "(heap \<Rightarrow> addr \<Rightarrow> 'v \<Rightarrow> heap option) \<Rightarrow> nat \<Rightarrow> heap \<Rightarrow> addr \<Rightarrow> u32 \<Rightarrow> 'v \<Rightarrow> (heap \<times> addr) option"
where
  "set_loop wr sz h dp len v =
     (if len = 0 then Some (h, dp)
      else if len \<le> 15 then store_run wr sz (unat len) h dp v
      else do { (h', dp') \<leftarrow> store_run wr sz 16 h dp v; set_loop wr sz h' dp' (len - 16) v })"
  by pat_completeness auto
termination
  by (relation "measure (\<lambda>(wr, sz, h, dp, len, v). unat len)")
     (auto simp: unat_minus_16 not_le word_less_nat_alt)

function move_up_loop ::
  "(heap \<Rightarrow> addr \<Rightarrow> 'v option) \<Rightarrow> (heap \<Rightarrow> addr \<Rightarrow> 'v \<Rightarrow> heap option) \<Rightarrow> nat
    \<Rightarrow> heap \<Rightarrow> addr \<Rightarrow> addr \<Rightarrow> u32 \<Rightarrow> (heap \<times> addr \<times> addr) option"
where
  "move_up_loop rd wr sz h dp sp len =
     (if len = 0 then Some (h, dp, sp)
      else if len \<le> 15 then copy_run_up rd wr sz (unat len) h dp sp
      else do { (h', dp', sp') \<leftarrow> copy_run_up rd wr sz 16 h dp sp;
                move_up_loop rd wr sz h' dp' sp' (len - 16) })"
  by pat_completeness auto
termination
  by (relation "measure (\<lambda>(rd, wr, sz, h, dp, sp, len). unat len)")
     (auto simp: unat_minus_16 not_le word_less_nat_alt)

function move_down_loop ::
  "(heap \<Rightarrow> addr \<Rightarrow> 'v option) \<Rightarrow> (heap \<Rightarrow> addr \<Rightarrow> 'v \<Rightarrow> heap option) \<Rightarrow> nat
    \<Rightarrow> heap \<Rightarrow> addr \<Rightarrow> addr \<Rightarrow> u32 \<Rightarrow> (heap \<times> addr \<times> addr) option"
where
  "move_down_loop rd wr sz h dp sp len =
     (if len = 0 then Some (h, dp, sp)
      else if len \<le> 15 then copy_run_down rd wr sz (unat len) h dp sp
      else do { (h', dp', sp') \<leftarrow> copy_run_down rd wr sz 16 h dp sp;
                move_down_loop rd wr sz h' dp' sp' (len - 16) })"
  by pat_completeness auto
termination
  by (relation "measure (\<lambda>(rd, wr, sz, h, dp, sp, len). unat len)")
     (auto simp: unat_minus_16 not_le word_less_nat_alt)

declare set_loop.simps [simp del] move_up_loop.simps [simp del] move_down_loop.simps [simp del]

text \<open>\<open>do { ... } while (--tsp)\<close>, upwards and downwards.\<close>

lemma unat_pred_less: "(n :: u32) \<noteq> 1 \<Longrightarrow> unat (n - 2) < unat (n - 1)"
  using measure_unat [of "n - 1"] by simp

function do_while_up ::
  "(heap \<Rightarrow> addr \<Rightarrow> 'v option) \<Rightarrow> (heap \<Rightarrow> addr \<Rightarrow> 'v \<Rightarrow> heap option) \<Rightarrow> nat
    \<Rightarrow> heap \<Rightarrow> addr \<Rightarrow> addr \<Rightarrow> u32 \<Rightarrow> (heap \<times> addr \<times> addr) option"
where
  "do_while_up rd wr sz h dp sp tsp =
     do { v \<leftarrow> rd h sp; h' \<leftarrow> wr h dp v;
          if tsp - 1 = 0 then Some (h', dp + sz, sp + sz)
          else do_while_up rd wr sz h' (dp + sz) (sp + sz) (tsp - 1) }"
  by pat_completeness auto
termination
  by (relation "measure (\<lambda>(rd, wr, sz, h, dp, sp, tsp). unat (tsp - 1))")
     (auto simp: unat_pred_less)

function do_while_down ::
  "(heap \<Rightarrow> addr \<Rightarrow> 'v option) \<Rightarrow> (heap \<Rightarrow> addr \<Rightarrow> 'v \<Rightarrow> heap option) \<Rightarrow> nat
    \<Rightarrow> heap \<Rightarrow> addr \<Rightarrow> addr \<Rightarrow> u32 \<Rightarrow> (heap \<times> addr \<times> addr) option"
where
  "do_while_down rd wr sz h dp sp tsp =
     do { v \<leftarrow> rd h (sp - sz); h' \<leftarrow> wr h (dp - sz) v;
          if tsp - 1 = 0 then Some (h', dp - sz, sp - sz)
          else do_while_down rd wr sz h' (dp - sz) (sp - sz) (tsp - 1) }"
  by pat_completeness auto
termination
  by (relation "measure (\<lambda>(rd, wr, sz, h, dp, sp, tsp). unat (tsp - 1))")
     (auto simp: unat_pred_less)

declare do_while_up.simps [simp del] do_while_down.simps [simp del]


subsection \<open>The routines\<close>

definition uintptr :: "addr \<Rightarrow> u64" where
  "uintptr a = of_nat a"

text \<open>The aligning head loop and the trailing byte loop of \<open>mem_prim_set\<close>.\<close>

function set_align :: "heap \<Rightarrow> addr \<Rightarrow> u32 \<Rightarrow> byte \<Rightarrow> (heap \<times> addr \<times> u32) option" where
  "set_align h dp count v =
     (if count \<noteq> 0 \<and> uintptr dp AND 3 \<noteq> 0
      then do { h' \<leftarrow> wr8 h dp v; set_align h' (dp + 1) (count - 1) v }
      else Some (h, dp, count))"
  by pat_completeness auto
termination
  by (relation "measure (\<lambda>(h, dp, count, v). unat count)") (auto simp: measure_unat)

function set_tail :: "heap \<Rightarrow> addr \<Rightarrow> u32 \<Rightarrow> byte \<Rightarrow> heap option" where
  "set_tail h dp count v =
     (if count \<noteq> 0 then do { h' \<leftarrow> wr8 h dp v; set_tail h' (dp + 1) (count - 1) v } else Some h)"
  by pat_completeness auto
termination
  by (relation "measure (\<lambda>(h, dp, count, v). unat count)") (auto simp: measure_unat)

declare set_align.simps [simp del] set_tail.simps [simp del]

definition mem_prim_set :: "heap \<Rightarrow> addr \<Rightarrow> u32 \<Rightarrow> byte \<Rightarrow> heap option" where
  "mem_prim_set h dest len value =
     (let v = ucast value :: u32;
          value32 = v OR push_bit 8 v OR push_bit 16 v OR push_bit 24 v
      in do { (h1, dp, count) \<leftarrow> set_align h dest len value;
              (h2, lp) \<leftarrow> set_loop wr32 4 h1 dp (drop_bit 2 count) value32;
              set_tail h2 lp (count AND 3) value })"

definition mem_prim_set16 :: "heap \<Rightarrow> addr \<Rightarrow> u32 \<Rightarrow> u16 \<Rightarrow> heap option" where
  "mem_prim_set16 h dp len value = map_option fst (set_loop wr16 2 h dp len value)"

definition mem_prim_set32 :: "heap \<Rightarrow> addr \<Rightarrow> u32 \<Rightarrow> u32 \<Rightarrow> heap option" where
  "mem_prim_set32 h dp len value = map_option fst (set_loop wr32 4 h dp len value)"

text \<open>
  \<open>mem_prim_move\<close>: the forward half (destination below source) and the backward half.  The working
  copy \<open>tsp\<close> of the source pointer is a 32-bit word, the destination is widened to 64 bits.
\<close>

definition move_rest_up :: "heap \<Rightarrow> addr \<Rightarrow> addr \<Rightarrow> u32 \<Rightarrow> heap option" where
  "move_rest_up h dp sp len =
     do { (h2, dp2, sp2) \<leftarrow>
            (let tsp = len div 4 in
             if tsp > 0 then do_while_up rd32 wr32 4 h dp sp tsp else Some (h, dp, sp));
          (h3, dp3, sp3) \<leftarrow>
            (let tsp = len AND 3 in
             if tsp > 0 then do_while_up rd8 wr8 1 h2 dp2 sp2 tsp else Some (h2, dp2, sp2));
          Some h3 }"

definition mem_prim_move_up :: "heap \<Rightarrow> addr \<Rightarrow> addr \<Rightarrow> u32 \<Rightarrow> heap option" where
  "mem_prim_move_up h dp sp len =
     (let tsp = (ucast (uintptr sp) :: u32) in
      if (ucast tsp OR uintptr dp) AND 3 \<noteq> 0
      then let n = (if (ucast tsp XOR uintptr dp) AND 3 \<noteq> 0 \<or> len < 4 then len
                    else 4 - (tsp AND 3))
           in do { (h1, dp1, sp1) \<leftarrow> do_while_up rd8 wr8 1 h dp sp n;
                   move_rest_up h1 dp1 sp1 (len - n) }
      else move_rest_up h dp sp len)"

definition move_rest_down :: "heap \<Rightarrow> addr \<Rightarrow> addr \<Rightarrow> u32 \<Rightarrow> heap option" where
  "move_rest_down h dp sp len =
     do { (h2, dp2, sp2) \<leftarrow>
            (let tsp = len div 4 in
             if tsp > 0 then do_while_down rd32 wr32 4 h dp sp tsp else Some (h, dp, sp));
          (h3, dp3, sp3) \<leftarrow>
            (let tsp = len AND 3 in
             if tsp > 0 then do_while_down rd8 wr8 1 h2 dp2 sp2 tsp else Some (h2, dp2, sp2));
          Some h3 }"

definition mem_prim_move_down :: "heap \<Rightarrow> addr \<Rightarrow> addr \<Rightarrow> u32 \<Rightarrow> heap option" where
  "mem_prim_move_down h dest src len =
     (let sp = src + unat len; dp = dest + unat len; tsp = (ucast (uintptr sp) :: u32) in
      if (ucast tsp OR uintptr dp) AND 3 \<noteq> 0
      then let n = (if (ucast tsp XOR uintptr dp) AND 3 \<noteq> 0 \<or> len \<le> 4 then len
                    else tsp AND 3)
           in do { (h1, dp1, sp1) \<leftarrow> do_while_down rd8 wr8 1 h dp sp n;
                   move_rest_down h1 dp1 sp1 (len - n) }
      else move_rest_down h dp sp len)"

definition mem_prim_move :: "heap \<Rightarrow> addr \<Rightarrow> addr \<Rightarrow> u32 \<Rightarrow> heap option" where
  "mem_prim_move h dest src len =
     (if dest < src then mem_prim_move_up h dest src len else mem_prim_move_down h dest src len)"

definition mem_prim_move8 :: "heap \<Rightarrow> addr \<Rightarrow> addr \<Rightarrow> u32 \<Rightarrow> heap option" where
  "mem_prim_move8 h dp sp len =
     (if dp < sp then map_option fst (move_up_loop rd8 wr8 1 h dp sp len)
      else map_option fst (move_down_loop rd8 wr8 1 h (dp + unat len) (sp + unat len) len))"

definition mem_prim_move16 :: "heap \<Rightarrow> addr \<Rightarrow> addr \<Rightarrow> u32 \<Rightarrow> heap option" where
  "mem_prim_move16 h dp sp len =
     (if dp < sp then map_option fst (move_up_loop rd16 wr16 2 h dp sp len)
      else map_option fst (move_down_loop rd16 wr16 2 h (dp + unat len * 2) (sp + unat len * 2) len))"

definition mem_prim_move32 :: "heap \<Rightarrow> addr \<Rightarrow> addr \<Rightarrow> u32 \<Rightarrow> heap option" where
  "mem_prim_move32 h dp sp len =
     (if dp < sp then map_option fst (move_up_loop rd32 wr32 4 h dp sp len)
      else map_option fst (move_down_loop rd32 wr32 4 h (dp + unat len * 4) (sp + unat len * 4) len))"

subsection \<open>Loops over a cell\<close>

context cell begin

lemma store_run_ok:
  "mapped h dp (k * sz) \<Longrightarrow> dp mod sz = 0 \<Longrightarrow>
   store_run wr sz k h dp v = Some (put_bytes h dp (concat (replicate k (enc v))), dp + k * sz)"
proof (induction k arbitrary: h dp)
  case (Suc k)
  then have m: "mapped h dp sz" "mapped h (dp + sz) (k * sz)"
    by (auto simp: mapped_add)
  then show ?case
    using Suc.prems(2) Suc.IH [of "put_bytes h dp (enc v)" "dp + sz"]
    by (simp add: wr_cell put_bytes_append enc_length)
qed simp

lemma copy_run_up_ok:
  "mapped h dp (k * sz) \<Longrightarrow> mapped h sp (k * sz) \<Longrightarrow> dp mod sz = 0 \<Longrightarrow> sp mod sz = 0 \<Longrightarrow> dp \<le> sp \<Longrightarrow>
   copy_run_up rd wr sz k h dp sp = Some (blit h dp sp (k * sz), dp + k * sz, sp + k * sz)"
proof (induction k arbitrary: h dp sp)
  case (Suc k)
  then have m: "mapped h dp sz" "mapped h (dp + sz) (k * sz)" "mapped h sp sz"
      "mapped h (sp + sz) (k * sz)"
    by (auto simp: mapped_add)
  from rd_cell [OF m(3) Suc.prems(4)] wr_cell [OF m(1) Suc.prems(3)]
  obtain v where v: "rd h sp = Some v" "wr h dp v = Some (blit h dp sp sz)"
    by (auto simp: blit_def)
  show ?case
    using m Suc.prems Suc.IH [of "blit h dp sp sz" "dp + sz" "sp + sz"]
    by (simp add: v blit_up)
qed simp

lemma copy_run_down_ok:
  "mapped h dp (k * sz) \<Longrightarrow> mapped h sp (k * sz) \<Longrightarrow> dp mod sz = 0 \<Longrightarrow> sp mod sz = 0 \<Longrightarrow> sp \<le> dp \<Longrightarrow>
   copy_run_down rd wr sz k h (dp + k * sz) (sp + k * sz) = Some (blit h dp sp (k * sz), dp, sp)"
proof (induction k arbitrary: h)
  case (Suc k)
  then have m: "mapped h (dp + k * sz) sz" "mapped h dp (k * sz)" "mapped h (sp + k * sz) sz"
      "mapped h sp (k * sz)"
    by (auto simp: mapped_add add.commute [of sz])
  have al: "(dp + k * sz) mod sz = 0" "(sp + k * sz) mod sz = 0"
    using Suc.prems by simp_all
  from rd_cell [OF m(3) al(2)] wr_cell [OF m(1) al(1)]
  obtain v where v: "rd h (sp + k * sz) = Some v"
      "wr h (dp + k * sz) v = Some (blit h (dp + k * sz) (sp + k * sz) sz)"
    by (auto simp: blit_def)
  have sub: "dp + (sz + k * sz) - sz = dp + k * sz" "sp + (sz + k * sz) - sz = sp + k * sz"
    by simp_all
  show ?case
    using m Suc.prems Suc.IH [of "blit h (dp + k * sz) (sp + k * sz) sz"]
    by (simp add: sub v blit_down add.commute [of sz])
qed simp

lemma set_loop_ok:
  "mapped h dp (unat len * sz) \<Longrightarrow> dp mod sz = 0 \<Longrightarrow>
   set_loop wr sz h dp len v
     = Some (put_bytes h dp (concat (replicate (unat len) (enc v))), dp + unat len * sz)"
proof (induction len arbitrary: h dp rule: measure_induct_rule [of unat])
  case (less len)
  show ?case
  proof (cases "len \<le> 15")
    case True
    then show ?thesis
      using less.prems by (simp add: set_loop.simps [of wr sz h dp len v] store_run_ok)
  next
    case False
    then obtain k where k: "unat len = 16 + k" "unat (len - 16) = k"
      by (rule split_16)
    then have "mapped h dp (16 * sz)" "mapped h (dp + 16 * sz) (k * sz)"
      using less.prems(1) by (simp_all only: k add_mult_distrib mapped_add)
    with False less.prems(2) less.IH [of "len - 16"] show ?thesis
      by (auto simp: k set_loop.simps [of wr sz h dp len v] store_run_ok replicate_add
            put_bytes_append length_concat sum_list_replicate enc_length add_mult_distrib)
  qed
qed

lemma move_up_loop_ok:
  "mapped h dp (unat len * sz) \<Longrightarrow> mapped h sp (unat len * sz) \<Longrightarrow> dp mod sz = 0 \<Longrightarrow> sp mod sz = 0
   \<Longrightarrow> dp \<le> sp \<Longrightarrow>
   move_up_loop rd wr sz h dp sp len
     = Some (blit h dp sp (unat len * sz), dp + unat len * sz, sp + unat len * sz)"
proof (induction len arbitrary: h dp sp rule: measure_induct_rule [of unat])
  case (less len)
  show ?case
  proof (cases "len \<le> 15")
    case True
    then show ?thesis
      using less.prems by (simp add: move_up_loop.simps [of rd wr sz h dp sp len] copy_run_up_ok)
  next
    case False
    then obtain k where k: "unat len = 16 + k" "unat (len - 16) = k"
      by (rule split_16)
    then have "mapped h dp (16 * sz)" "mapped h (dp + 16 * sz) (k * sz)"
        "mapped h sp (16 * sz)" "mapped h (sp + 16 * sz) (k * sz)"
      using less.prems(1,2) by (simp_all only: k add_mult_distrib mapped_add)
    with False k less.prems less.IH [of "len - 16"] show ?thesis
      by (auto simp: move_up_loop.simps [of rd wr sz h dp sp len] copy_run_up_ok blit_up
            algebra_simps)
  qed
qed

lemma move_down_loop_ok:
  "mapped h dp (unat len * sz) \<Longrightarrow> mapped h sp (unat len * sz) \<Longrightarrow> dp mod sz = 0 \<Longrightarrow> sp mod sz = 0
   \<Longrightarrow> sp \<le> dp \<Longrightarrow>
   move_down_loop rd wr sz h (dp + unat len * sz) (sp + unat len * sz) len
     = Some (blit h dp sp (unat len * sz), dp, sp)"
proof (induction len arbitrary: h rule: measure_induct_rule [of unat])
  case (less len)
  let ?l = "move_down_loop rd wr sz h (dp + unat len * sz) (sp + unat len * sz) len"
  show ?case
  proof (cases "len \<le> 15")
    case True
    then show ?thesis
      using less.prems by (subst move_down_loop.simps) (auto simp: copy_run_down_ok)
  next
    case False
    then obtain k where k: "unat len = k + 16" "unat (len - 16) = k"
      by (rule split_16) simp
    then have m: "mapped h dp (k * sz)" "mapped h (dp + k * sz) (16 * sz)"
        "mapped h sp (k * sz)" "mapped h (sp + k * sz) (16 * sz)"
      using less.prems(1,2) by (auto simp: add_mult_distrib mapped_add)
    have "copy_run_down rd wr sz 16 h (dp + k * sz + 16 * sz) (sp + k * sz + 16 * sz)
        = Some (blit h (dp + k * sz) (sp + k * sz) (16 * sz), dp + k * sz, sp + k * sz)"
      using m less.prems by (intro copy_run_down_ok) auto
    with False k m less.prems less.IH [of "len - 16"] show ?thesis
      by (subst move_down_loop.simps) (auto simp: blit_down add_mult_distrib add.assoc)
  qed
qed

end

subsection \<open>The \<open>do ... while\<close> loops\<close>

lemma do_while_up_run:
  "do_while_up rd wr sz h dp sp n = copy_run_up rd wr sz (Suc (unat (n - 1))) h dp sp"
proof (induction n arbitrary: h dp sp rule: measure_induct_rule [of "\<lambda>n. unat (n - 1)"])
  case (less n)
  show ?case
  proof (cases "n = 1")
    case True
    then show ?thesis by (simp add: do_while_up.simps)
  next
    case False
    then have "unat (n - 1) = Suc (unat (n - 1 - 1))"
      using u32_minus_one [of "n - 1"] unat_gt_0 [of "n - 1"] by simp
    then show ?thesis
      using False less.IH [of "n - 1"]
      by (simp add: do_while_up.simps [of rd wr sz h dp sp n] unat_pred_less)
  qed
qed

lemma do_while_down_run:
  "do_while_down rd wr sz h dp sp n = copy_run_down rd wr sz (Suc (unat (n - 1))) h dp sp"
proof (induction n arbitrary: h dp sp rule: measure_induct_rule [of "\<lambda>n. unat (n - 1)"])
  case (less n)
  show ?case
  proof (cases "n = 1")
    case True
    then show ?thesis by (simp add: do_while_down.simps)
  next
    case False
    then have "unat (n - 1) = Suc (unat (n - 1 - 1))"
      using u32_minus_one [of "n - 1"] unat_gt_0 [of "n - 1"] by simp
    then show ?thesis
      using False less.IH [of "n - 1"]
      by (simp add: do_while_down.simps [of rd wr sz h dp sp n] unat_pred_less)
  qed
qed

lemma Suc_unat_pred: "(n :: u32) \<noteq> 0 \<Longrightarrow> Suc (unat (n - 1)) = unat n"
  using u32_minus_one [of n] unat_gt_0 [of n] by simp


subsection \<open>Alignment tests\<close>

lemma and_3_bits: "(w :: 'a::len word) AND 3 = 0 \<longleftrightarrow> \<not> bit w 0 \<and> \<not> bit w 1" if "LENGTH('a) > 2"
proof -
  have m: "(3 :: 'a word) = mask 2"
    by (simp add: mask_eq_exp_minus_1)
  have "w AND 3 = 0 \<longleftrightarrow> (\<forall>n<LENGTH('a). \<not> (n < 2 \<and> bit w n))"
    unfolding m by (auto simp: bit_eq_iff bit_simps)
  also have "\<dots> \<longleftrightarrow> \<not> bit w 0 \<and> \<not> bit w 1"
    using that by (auto simp: less_2_cases_iff not_less dest: spec [of _ "Suc 0"] intro!: gr0I)
  finally show ?thesis .
qed

lemma bit_uintptr [simp]:
  "bit (uintptr a) 0 = odd a" "bit (uintptr a) (Suc 0) = odd (a div 2)"
  unfolding uintptr_def bit_of_nat_iff by (simp_all add: bit_iff_odd)

lemma mod4_bits: "(a :: nat) mod 4 = 0 \<longleftrightarrow> even a \<and> even (a div 2)"
  by presburger

lemma mod4_eq_bits: "(a :: nat) mod 4 = b mod 4 \<longleftrightarrow> odd a = odd b \<and> odd (a div 2) = odd (b div 2)"
  using mod_mult2_eq [of a 2 2] mod_mult2_eq [of b 2 2]
  by (auto simp: mod_2_eq_odd)

lemma uintptr_aligned: "uintptr a AND 3 = 0 \<longleftrightarrow> a mod 4 = 0"
  by (simp add: and_3_bits mod4_bits)

lemma both_aligned:
  "(ucast (ucast (uintptr s) :: u32) OR uintptr d) AND 3 = 0 \<longleftrightarrow> s mod 4 = 0 \<and> d mod 4 = 0"
  by (auto simp: and_3_bits mod4_bits bit_simps)

lemma same_alignment:
  "(ucast (ucast (uintptr s) :: u32) XOR uintptr d) AND 3 = 0 \<longleftrightarrow> s mod 4 = d mod 4"
  by (auto simp: and_3_bits mod4_eq_bits bit_simps)

lemma unat_and_3: "unat ((n :: u32) AND 3) = unat n mod 4"
  by (simp add: word_and_3 unat_mod)

lemma unat_div_4: "unat ((n :: u32) div 4) = unat n div 4"
  by (subst unat_div_distrib) simp

lemma unat_tsp: "unat ((ucast (uintptr s) :: u32) AND 3) = s mod 4"
proof -
  have "unat (ucast (uintptr s) :: u32) = s mod 2 ^ 32"
    by (simp add: uintptr_def unsigned_ucast_eq unat_of_nat take_bit_eq_mod mod_mod_cancel)
  then show ?thesis
    by (simp add: unat_and_3 mod_mod_cancel)
qed

lemma drop_bit_2_u32: "unat (drop_bit 2 (n :: u32)) = unat n div 4"
  by (simp add: drop_bit_eq_div unat_div_4)


subsection \<open>Correctness of the set routines\<close>

lemma set_tail_ok:
  "mapped h dp (unat count) \<Longrightarrow>
   set_tail h dp count v = Some (put_bytes h dp (replicate (unat count) v))"
proof (induction "unat count" arbitrary: h dp count)
  case 0
  then show ?case by (subst set_tail.simps) (simp add: unsigned_eq_0_iff)
next
  case (Suc k)
  have nz: "count \<noteq> 0"
    using Suc.hyps(2) by auto
  then have k: "unat (count - 1) = k"
    using Suc.hyps(2) u32_minus_one [of count] by simp
  have m: "h dp \<noteq> None" "mapped (h(dp \<mapsto> v)) (Suc dp) k"
    using Suc.prems unfolding Suc.hyps(2) [symmetric] mapped_Suc
    by (auto simp: mapped_put_bytes simp flip: put_bytes_single)
  show ?case
    using Suc.hyps(1) [of "count - 1" "h(dp \<mapsto> v)" "Suc dp"] nz k m
    by (simp add: set_tail.simps [of h dp count v] wr8_mapped put_bytes_Cons
          Suc.hyps(2) [symmetric])
qed

lemma set_align_ok:
  "mapped h dp (unat count) \<Longrightarrow>
   \<exists>m \<le> unat count. set_align h dp count v
        = Some (put_bytes h dp (replicate m v), dp + m, count - of_nat m)
     \<and> (m = unat count \<or> (dp + m) mod 4 = 0)"
proof (induction "unat count" arbitrary: h dp count)
  case 0
  then show ?case by (subst set_align.simps) (simp add: unsigned_eq_0_iff)
next
  case (Suc k)
  have nz: "count \<noteq> 0"
    using Suc.hyps(2) by auto
  then have k: "unat (count - 1) = k"
    using Suc.hyps(2) u32_minus_one [of count] by simp
  have m: "h dp \<noteq> None" "mapped (h(dp \<mapsto> v)) (Suc dp) k"
    using Suc.prems unfolding Suc.hyps(2) [symmetric] mapped_Suc
    by (auto simp: mapped_put_bytes simp flip: put_bytes_single)
  show ?case
  proof (cases "uintptr dp AND 3 = 0")
    case True
    then show ?thesis
      by (intro exI [of _ 0]) (simp add: set_align.simps [of h dp count v] uintptr_aligned)
  next
    case False
    from Suc.hyps(1) [of "count - 1" "h(dp \<mapsto> v)" "Suc dp"] k m(2)
    obtain j where "j \<le> k"
      "set_align (h(dp \<mapsto> v)) (Suc dp) (count - 1) v
         = Some (put_bytes (h(dp \<mapsto> v)) (Suc dp) (replicate j v), Suc dp + j, count - 1 - of_nat j)"
      "j = k \<or> (Suc dp + j) mod 4 = 0"
      by auto
    with False nz m(1) show ?thesis
      by (intro exI [of _ "Suc j"])
         (simp add: set_align.simps [of h dp count v] wr8_mapped put_bytes_Cons
            Suc.hyps(2) [symmetric] algebra_simps)
  qed
qed

lemma unat_minus_of_nat:
  assumes "m \<le> unat (n :: u32)"
  shows "unat (n - of_nat m) = unat n - m"
proof -
  have "unat n < 2 ^ 32"
    using unsigned_less [of n] by simp
  with assms have "unat (of_nat m :: u32) = m"
    by (intro unat_of_nat_u32) simp
  then show ?thesis
    using assms by (simp add: unat_sub word_le_nat_alt)
qed

lemma enc32_repeat:
  fixes b :: byte
  defines "v \<equiv> ucast b :: u32"
  shows "enc32 (v OR push_bit 8 v OR push_bit 16 v OR push_bit 24 v) = replicate 4 b"
  unfolding v_def enc32_bytes by (simp add: numeral_eq_Suc)

lemma concat_replicate_replicate:
  "concat (replicate k (replicate n x)) = replicate (k * n) x"
  by (induction k) (simp_all add: replicate_add)

lemma set_loop_bytes:
  assumes "mapped h dp (unat len * 4)" "len = 0 \<or> dp mod 4 = 0" "enc32 w = replicate 4 v"
  shows "set_loop wr32 4 h dp len w
    = Some (put_bytes h dp (replicate (unat len * 4) v), dp + unat len * 4)"
proof (cases "len = 0")
  case False
  with assms cell32.set_loop_ok [of h dp len w] show ?thesis
    by (simp add: concat_replicate_replicate)
qed (simp add: set_loop.simps)

lemma mem_prim_set_ok:
  assumes "mapped h dest (unat len)"
  shows "mem_prim_set h dest len v = Some (put_bytes h dest (replicate (unat len) v))"
proof -
  obtain m where m: "m \<le> unat len"
      "set_align h dest len v = Some (put_bytes h dest (replicate m v), dest + m, len - of_nat m)"
      "m = unat len \<or> (dest + m) mod 4 = 0"
    using set_align_ok [OF assms, of v] by (elim exE conjE) (rule that)
  define c where "c = len - of_nat m"
  have c: "unat c = unat len - m"
    unfolding c_def using m(1) by (rule unat_minus_of_nat)
  define k where "k = unat c div 4"
  define r where "r = unat c mod 4"
  have split: "unat len = m + (k * 4 + r)"
    using m(1) c div_mult_mod_eq [of "unat c" 4] unfolding k_def r_def by linarith
  have cnt: "unat (drop_bit 2 c) = k" "unat (c AND 3) = r"
    by (simp_all add: drop_bit_2_u32 unat_and_3 k_def r_def)
  have al: "drop_bit 2 c = 0 \<or> (dest + m) mod 4 = 0"
    using m(3) c cnt(1) by (auto simp: k_def unsigned_eq_0_iff)
  have mp: "mapped h (dest + m) (k * 4)" "mapped h (dest + m + k * 4) r"
    using assms unfolding split by (simp_all add: mapped_add)
  show ?thesis
    using m(2) set_loop_bytes [OF _ al enc32_repeat [of v], of "put_bytes h dest (replicate m v)"]
      set_tail_ok [of _ "dest + m + k * 4" "c AND 3" v] mp
    by (simp add: mem_prim_set_def Let_def cnt split replicate_add put_bytes_append
          flip: c_def del: push_bit_numeral)
qed

lemma mem_prim_set16_ok:
  "mapped h dp (unat len * 2) \<Longrightarrow> dp mod 2 = 0 \<Longrightarrow>
   mem_prim_set16 h dp len v = Some (put_bytes h dp (concat (replicate (unat len) (enc16 v))))"
  by (simp add: mem_prim_set16_def cell16.set_loop_ok)

lemma mem_prim_set32_ok:
  "mapped h dp (unat len * 4) \<Longrightarrow> dp mod 4 = 0 \<Longrightarrow>
   mem_prim_set32 h dp len v = Some (put_bytes h dp (concat (replicate (unat len) (enc32 v))))"
  by (simp add: mem_prim_set32_def cell32.set_loop_ok)


subsection \<open>Correctness of the move routines\<close>

context cell begin

lemma do_while_up_ok:
  "n \<noteq> 0 \<Longrightarrow> mapped h d (unat n * sz) \<Longrightarrow> mapped h s (unat n * sz) \<Longrightarrow> d mod sz = 0 \<Longrightarrow> s mod sz = 0
   \<Longrightarrow> d \<le> s \<Longrightarrow>
   do_while_up rd wr sz h d s n = Some (blit h d s (unat n * sz), d + unat n * sz, s + unat n * sz)"
  using copy_run_up_ok [of h d "unat n" s] by (simp add: do_while_up_run Suc_unat_pred)

lemma do_while_down_ok:
  "n \<noteq> 0 \<Longrightarrow> mapped h d (unat n * sz) \<Longrightarrow> mapped h s (unat n * sz) \<Longrightarrow> d mod sz = 0 \<Longrightarrow> s mod sz = 0
   \<Longrightarrow> s \<le> d \<Longrightarrow>
   do_while_down rd wr sz h (d + unat n * sz) (s + unat n * sz) n = Some (blit h d s (unat n * sz), d, s)"
  using copy_run_down_ok [of h d "unat n" s] by (simp add: do_while_down_run Suc_unat_pred)

end

lemma opt_up:
  fixes n :: u32
  assumes "cell sz rd wr enc" "mapped h d (unat n * sz)" "mapped h s (unat n * sz)" "d \<le> s"
    "n = 0 \<or> d mod sz = 0 \<and> s mod sz = 0"
  shows "(if n > 0 then do_while_up rd wr sz h d s n else Some (h, d, s))
    = Some (blit h d s (unat n * sz), d + unat n * sz, s + unat n * sz)"
  using cell.do_while_up_ok [OF assms(1) _ assms(2,3)] assms(4,5)
  by (auto simp: word_neq_0_conv [symmetric])

lemma opt_down:
  fixes n :: u32
  assumes "cell sz rd wr enc" "mapped h d (unat n * sz)" "mapped h s (unat n * sz)" "s \<le> d"
    "n = 0 \<or> d mod sz = 0 \<and> s mod sz = 0"
  shows "(if n > 0 then do_while_down rd wr sz h (d + unat n * sz) (s + unat n * sz) n
          else Some (h, d + unat n * sz, s + unat n * sz))
    = Some (blit h d s (unat n * sz), d, s)"
  using cell.do_while_down_ok [OF assms(1) _ assms(2,3)] assms(4,5)
  by (auto simp: word_neq_0_conv [symmetric])

lemma len_split: "unat (len :: u32) = unat (len div 4) * 4 + unat (len AND 3)"
  by (simp add: unat_div_4 unat_and_3)

lemma move_rest_up_ok:
  assumes "mapped h d (unat len)" "mapped h s (unat len)" "d \<le> s"
    "len < 4 \<or> d mod 4 = 0 \<and> s mod 4 = 0"
  shows "move_rest_up h d s len = Some (blit h d s (unat len))"
proof -
  let ?w = "len div 4" and ?t = "len AND 3"
  have m: "mapped h d (unat ?w * 4)" "mapped h (d + unat ?w * 4) (unat ?t)"
      "mapped h s (unat ?w * 4)" "mapped h (s + unat ?w * 4) (unat ?t)"
    using assms(1,2) by (simp_all add: len_split [of len] mapped_add)
  have al: "?w = 0 \<or> d mod 4 = 0 \<and> s mod 4 = 0"
    using assms(4) unat_div_4 [of len] by (auto simp: word_less_nat_alt unsigned_eq_0_iff)
  have "move_rest_up h d s len
    = Some (blit (blit h d s (unat ?w * 4)) (d + unat ?w * 4) (s + unat ?w * 4) (unat ?t))"
    unfolding move_rest_up_def Let_def
    using opt_up [OF cell32.cell_axioms m(1,3) assms(3) al]
      opt_up [OF cell8.cell_axioms, of "blit h d s (unat ?w * 4)" "d + unat ?w * 4" ?t
        "s + unat ?w * 4"] m assms(3)
    by simp
  also have "\<dots> = Some (blit h d s (unat len))"
    using assms(3) by (simp add: blit_up len_split [of len])
  finally show ?thesis .
qed


lemma move_rest_down_ok:
  assumes "mapped h d (unat len)" "mapped h s (unat len)" "s \<le> d"
    "len < 4 \<or> (d + unat len) mod 4 = 0 \<and> (s + unat len) mod 4 = 0"
  shows "move_rest_down h (d + unat len) (s + unat len) len = Some (blit h d s (unat len))"
proof -
  let ?w = "len div 4" and ?t = "len AND 3"
  have len: "unat len = unat ?t + unat ?w * 4"
    by (simp add: len_split [of len])
  have m: "mapped h d (unat ?t)" "mapped h (d + unat ?t) (unat ?w * 4)"
      "mapped h s (unat ?t)" "mapped h (s + unat ?t) (unat ?w * 4)"
    using assms(1,2) by (simp_all add: len mapped_add)
  have "len < 4 \<Longrightarrow> ?w = 0"
    using unat_div_4 [of len] by (simp add: word_less_nat_alt unsigned_eq_0_iff)
  moreover have "(a + unat len) mod 4 = (a + unat ?t) mod 4" for a
    unfolding len add.assoc [symmetric] by (rule mod_mult_self1)
  ultimately have al: "?w = 0 \<or> (d + unat ?t) mod 4 = 0 \<and> (s + unat ?t) mod 4 = 0"
    using assms(4) by metis
  have "move_rest_down h (d + unat len) (s + unat len) len
    = Some (blit (blit h (d + unat ?t) (s + unat ?t) (unat ?w * 4)) d s (unat ?t))"
    unfolding move_rest_down_def Let_def len add.assoc [symmetric]
      opt_down [OF cell32.cell_axioms m(2,4) add_right_mono [OF assms(3)] al]
      Option.bind.simps prod.case
    using opt_down [OF cell8.cell_axioms _ _ assms(3),
        of "blit h (d + unat ?t) (s + unat ?t) (unat ?w * 4)" ?t, unfolded mult.right_neutral] m
    by (simp only: mapped_blit mod_by_1 simp_thms Option.bind.simps prod.case)
  also have "\<dots> = Some (blit h d s (unat len))"
    using assms(3) by (simp add: blit_down len)
  finally show ?thesis .
qed

text \<open>The byte prefix of \<open>mem_prim_move\<close> that aligns both operands.\<close>

lemma align_up_count:
  assumes "\<not> (s mod 4 = 0 \<and> d mod 4 = 0)" "(len :: u32) \<noteq> 0"
    and n: "n = (if s mod 4 \<noteq> d mod 4 \<or> len < 4 then len
                 else 4 - ((ucast (uintptr s) :: u32) AND 3))"
  shows "n \<noteq> 0 \<and> n \<le> len
    \<and> (len - n = 0 \<or> (d + unat n) mod 4 = 0 \<and> (s + unat n) mod 4 = 0)"
proof (cases "s mod 4 \<noteq> d mod 4 \<or> len < 4")
  case False
  then have sd: "s mod 4 = d mod 4" "s mod 4 \<noteq> 0" and l: "4 \<le> unat len"
    using assms(1) by (auto simp: word_less_nat_alt)
  have u: "unat n = 4 - s mod 4"
    using False n unat_tsp [of s] by (auto simp: unat_sub word_le_nat_alt)
  have "(s + (4 - s mod 4)) mod 4 = 0" "(d + (4 - d mod 4)) mod 4 = 0"
    by presburger+
  then show ?thesis
    using u sd l by (auto simp: word_le_nat_alt)
qed (use assms in auto)

lemma align_down_count:
  assumes "\<not> (s mod 4 = 0 \<and> d mod 4 = 0)" "(len :: u32) \<noteq> 0"
    and n: "n = (if s mod 4 \<noteq> d mod 4 \<or> len \<le> 4 then len
                 else (ucast (uintptr s) :: u32) AND 3)"
  shows "n \<noteq> 0 \<and> n \<le> len
    \<and> (len - n = 0 \<or> (d - unat n) mod 4 = 0 \<and> (s - unat n) mod 4 = 0)"
proof (cases "s mod 4 \<noteq> d mod 4 \<or> len \<le> 4")
  case False
  then have sd: "s mod 4 = d mod 4" "s mod 4 \<noteq> 0" and l: "4 < unat len"
    using assms(1) by (auto simp: word_le_nat_alt)
  have u: "unat n = s mod 4"
    using False n unat_tsp [of s] by auto
  have "(s - s mod 4) mod 4 = 0" "(d - d mod 4) mod 4 = 0" "s mod 4 < 4"
    by presburger+
  then show ?thesis
    using u sd l by (auto simp: word_le_nat_alt)
qed (use assms in auto)

lemma unat_split:
  assumes "(n :: u32) \<le> len"
  shows "unat len = unat n + unat (len - n)" "unat len = unat (len - n) + unat n"
  using assms by (simp_all add: unat_sub word_le_nat_alt)

lemma mem_prim_move_up_ok:
  assumes "mapped h d (unat len)" "mapped h s (unat len)" "d \<le> s"
    "len \<noteq> 0 \<or> d mod 4 = 0 \<and> s mod 4 = 0"
  shows "mem_prim_move_up h d s len = Some (blit h d s (unat len))"
proof (cases "s mod 4 = 0 \<and> d mod 4 = 0")
  case True
  then show ?thesis
    using assms by (simp add: mem_prim_move_up_def both_aligned move_rest_up_ok)
next
  case False
  define n where "n = (if s mod 4 \<noteq> d mod 4 \<or> len < 4 then len
                       else 4 - ((ucast (uintptr s) :: u32) AND 3))"
  have "len \<noteq> 0"
    using assms(4) False by auto
  then have n: "n \<noteq> 0" "n \<le> len"
      "len - n = 0 \<or> (d + unat n) mod 4 = 0 \<and> (s + unat n) mod 4 = 0"
    using align_up_count [OF False _ n_def] by simp_all
  have m: "mapped h d (unat n)" "mapped h (d + unat n) (unat (len - n))"
      "mapped h s (unat n)" "mapped h (s + unat n) (unat (len - n))"
    using assms(1,2) unfolding unat_split(1) [OF n(2)] by (simp_all add: mapped_add)
  have "mem_prim_move_up h d s len
    = do { (h1, dp1, sp1) \<leftarrow> do_while_up rd8 wr8 1 h d s n; move_rest_up h1 dp1 sp1 (len - n) }"
    using False unfolding mem_prim_move_up_def both_aligned same_alignment Let_def n_def by simp
  also have "\<dots> = Some (blit (blit h d s (unat n)) (d + unat n) (s + unat n) (unat (len - n)))"
    using cell8.do_while_up_ok [of n h d s] n m assms(3)
      move_rest_up_ok [of "blit h d s (unat n)" "d + unat n" "len - n" "s + unat n"]
    by auto
  finally show ?thesis
    using assms(3) by (simp add: blit_up flip: unat_split(1) [OF n(2)])
qed

lemma mem_prim_move_down_ok:
  assumes "mapped h d (unat len)" "mapped h s (unat len)" "s \<le> d"
    "len \<noteq> 0 \<or> d mod 4 = 0 \<and> s mod 4 = 0"
  shows "mem_prim_move_down h d s len = Some (blit h d s (unat len))"
proof (cases "(s + unat len) mod 4 = 0 \<and> (d + unat len) mod 4 = 0")
  case True
  then show ?thesis
    using assms by (simp add: mem_prim_move_down_def both_aligned move_rest_down_ok)
next
  case False
  define n where "n = (if (s + unat len) mod 4 \<noteq> (d + unat len) mod 4 \<or> len \<le> 4 then len
                       else (ucast (uintptr (s + unat len)) :: u32) AND 3)"
  define r where "r = len - n"
  have "len \<noteq> 0"
    using assms(4) False by auto
  then have n: "n \<noteq> 0" "n \<le> len"
      "len - n = 0 \<or> (d + unat len - unat n) mod 4 = 0 \<and> (s + unat len - unat n) mod 4 = 0"
    using align_down_count [OF False _ n_def] by blast+
  have len: "unat len = unat r + unat n"
    unfolding r_def by (rule unat_split(2) [OF n(2)])
  have al: "r < 4 \<or> (d + unat r) mod 4 = 0 \<and> (s + unat r) mod 4 = 0"
    using n(3) by (auto simp: len simp flip: r_def)
  have m: "mapped h d (unat r)" "mapped h (d + unat r) (unat n)"
      "mapped h s (unat r)" "mapped h (s + unat r) (unat n)"
    using assms(1,2) unfolding len by (simp_all add: mapped_add)
  have "mem_prim_move_down h d s len
    = do { (h1, dp1, sp1) \<leftarrow> do_while_down rd8 wr8 1 h (d + unat len) (s + unat len) n;
           move_rest_down h1 dp1 sp1 r }"
    using False unfolding mem_prim_move_down_def both_aligned same_alignment Let_def n_def r_def
    by simp
  also have "\<dots> = Some (blit (blit h (d + unat r) (s + unat r) (unat n)) d s (unat r))"
    unfolding len add.assoc [symmetric]
    using cell8.do_while_down_ok [of n h "d + unat r" "s + unat r"] n(1) m assms(3)
      move_rest_down_ok [of "blit h (d + unat r) (s + unat r) (unat n)" d r s] al
    by auto
  finally show ?thesis
    using assms(3) by (simp add: blit_down flip: len)
qed

lemma mem_prim_move_ok:
  assumes "mapped h d (unat len)" "mapped h s (unat len)" "len \<noteq> 0 \<or> d mod 4 = 0 \<and> s mod 4 = 0"
  shows "mem_prim_move h d s len = Some (blit h d s (unat len))"
  using assms by (simp add: mem_prim_move_def mem_prim_move_up_ok mem_prim_move_down_ok)

lemma mem_prim_move8_ok:
  "mapped h d (unat len) \<Longrightarrow> mapped h s (unat len) \<Longrightarrow>
   mem_prim_move8 h d s len = Some (blit h d s (unat len))"
  using cell8.move_up_loop_ok [of h d len s] cell8.move_down_loop_ok [of h d len s]
  by (auto simp: mem_prim_move8_def)

lemma mem_prim_move16_ok:
  "mapped h d (unat len * 2) \<Longrightarrow> mapped h s (unat len * 2) \<Longrightarrow> d mod 2 = 0 \<Longrightarrow> s mod 2 = 0 \<Longrightarrow>
   mem_prim_move16 h d s len = Some (blit h d s (unat len * 2))"
  using cell16.move_up_loop_ok [of h d len s] cell16.move_down_loop_ok [of h d len s]
  by (auto simp: mem_prim_move16_def)

lemma mem_prim_move32_ok:
  "mapped h d (unat len * 4) \<Longrightarrow> mapped h s (unat len * 4) \<Longrightarrow> d mod 4 = 0 \<Longrightarrow> s mod 4 = 0 \<Longrightarrow>
   mem_prim_move32 h d s len = Some (blit h d s (unat len * 4))"
  using cell32.move_up_loop_ok [of h d len s] cell32.move_down_loop_ok [of h d len s]
  by (auto simp: mem_prim_move32_def)

subsection \<open>Properties\<close>



text \<open>
  \<open>mem_prim_set\<close> writes exactly the \<open>len\<close> bytes from \<open>dest\<close>, through its aligning head loop,
  the unrolled word loop and the byte tail, for every alignment and length.
\<close>
theorem mem_prim_set_fills:
  assumes "mapped h dest (unat len)"
  shows "mem_prim_set h dest len v = Some (put_bytes h dest (replicate (unat len) v))"
  using assms by (rule mem_prim_set_ok)

theorem mem_prim_set_fills_witness:
  "mem_prim_set (put_bytes Map.empty 15 [1, 2, 3, 4, 5, 6, 7]) 15 6 9
     = Some (put_bytes (put_bytes Map.empty 15 [1, 2, 3, 4, 5, 6, 7]) 15 (replicate 6 9))"
  using mem_prim_set_fills [of "put_bytes Map.empty 15 [1, 2, 3, 4, 5, 6, 7]" 15 6 9]
  by (simp add: mapped_put_range)

text \<open>
  The 16-bit and 32-bit moves and fills, whose unrolled loops run in either direction, equal
  the block operations on aligned ranges.
\<close>
theorem mem_prim_wide_moves:
  assumes "mapped h dp (unat len * 4)" "mapped h sp (unat len * 4)"
    and "dp mod 4 = 0" "sp mod 4 = 0"
  shows "mem_prim_move32 h dp sp len = Some (blit h dp sp (unat len * 4))
    \<and> mem_prim_move16 h dp sp len = Some (blit h dp sp (unat len * 2))
    \<and> mem_prim_move8 h dp sp len = Some (blit h dp sp (unat len))
    \<and> mem_prim_set32 h dp len v
        = Some (put_bytes h dp (concat (replicate (unat len) (enc32 v))))"
proof -
  have "mapped h dp (unat len * 2)" "mapped h sp (unat len * 2)"
    "mapped h dp (unat len)" "mapped h sp (unat len)"
    using assms(1,2) by (auto elim: mapped_mono)
  moreover have "dp mod 2 = 0" "sp mod 2 = 0"
    using assms(3,4) by presburger+
  ultimately show ?thesis
    using assms
    by (simp add: mem_prim_move32_ok mem_prim_move16_ok mem_prim_move8_ok mem_prim_set32_ok)
qed

theorem mem_prim_wide_moves_witness:
  "mem_prim_move32 (put_bytes Map.empty 16 [1, 2, 3, 4, 5, 6, 7, 8]) 20 16 1
     = Some (blit (put_bytes Map.empty 16 [1, 2, 3, 4, 5, 6, 7, 8]) 20 16 4)"
  using mem_prim_wide_moves [of "put_bytes Map.empty 16 [1, 2, 3, 4, 5, 6, 7, 8]" 20 1 16 0]
  by (simp add: mapped_put_range)

end
