(* ===== verification/Constraint.thy ===== *)
theory Constraint
  imports CMem
begin

text \<open>
  The run-time constraint machinery of \<open>lib/safeclib\<close>: error codes (\<open>safe_lib_errno.h\<close>), the two
  handlers the library ships (\<open>abort_handler_s.c\<close>, \<open>ignore_handler_s.c\<close>), and the registration and
  invocation of the current handler (\<open>safe_mem_constraint.c\<close>, \<open>safe_str_constraint.c\<close>).

  The state of a run is the heap, the two static handler pointers and the trace of handler calls.
  The handlers a program can register are the two of the library; nothing in the repository
  registers another one.  Printing (stderr, and the debug print of \<open>ignore_handler_s\<close>) is the trace.
  A call either returns a value or does not return because \<open>abort()\<close> ended the process.
\<close>

datatype errno =
    EOK | ESNULLP | ESZEROL | ESLEMIN | ESLEMAX | ESOVRLP | ESEMPTY | ESNOSPC | ESUNTERM
  | ESNODIFF | ESNOTFND | ESBADFMT | ESFMTTYP

fun errno_code :: "errno \<Rightarrow> int" where
  "errno_code EOK = 0"
| "errno_code ESNULLP = 400"
| "errno_code ESZEROL = 401"
| "errno_code ESLEMIN = 402"
| "errno_code ESLEMAX = 403"
| "errno_code ESOVRLP = 404"
| "errno_code ESEMPTY = 405"
| "errno_code ESNOSPC = 406"
| "errno_code ESUNTERM = 407"
| "errno_code ESNODIFF = 408"
| "errno_code ESNOTFND = 409"
| "errno_code ESBADFMT = 410"
| "errno_code ESFMTTYP = 411"

datatype handler = Abort_handler_s | Ignore_handler_s

abbreviation (input) sl_default_handler :: handler where
  "sl_default_handler \<equiv> Ignore_handler_s"

record handler_call =
  called :: handler
  message :: string
  code :: errno

record cstate =
  mem :: heap
  mem_handler :: "handler option"
  str_handler :: "handler option"
  calls :: "handler_call list"

datatype 'a outcome = Returned 'a | Aborted

type_synonym 'a crun = "('a outcome \<times> cstate) option"

subsection \<open>Handlers\<close>

definition abort_handler_s :: "string \<Rightarrow> errno \<Rightarrow> cstate \<Rightarrow> unit outcome \<times> cstate" where
  "abort_handler_s msg e s =
     (Aborted, s\<lparr>calls := calls s @ [\<lparr>called = Abort_handler_s, message = msg, code = e\<rparr>]\<rparr>)"

definition ignore_handler_s :: "string \<Rightarrow> errno \<Rightarrow> cstate \<Rightarrow> unit outcome \<times> cstate" where
  "ignore_handler_s msg e s =
     (Returned (), s\<lparr>calls := calls s @ [\<lparr>called = Ignore_handler_s, message = msg, code = e\<rparr>]\<rparr>)"

fun run_handler :: "handler \<Rightarrow> string \<Rightarrow> errno \<Rightarrow> cstate \<Rightarrow> unit outcome \<times> cstate" where
  "run_handler Abort_handler_s msg e s = abort_handler_s msg e s"
| "run_handler Ignore_handler_s msg e s = ignore_handler_s msg e s"

definition set_mem_constraint_handler_s :: "handler option \<Rightarrow> cstate \<Rightarrow> handler option \<times> cstate" where
  "set_mem_constraint_handler_s handler s =
     (let prev_handler = mem_handler s in
      case handler of
        None \<Rightarrow> (prev_handler, s\<lparr>mem_handler := Some sl_default_handler\<rparr>)
      | Some h \<Rightarrow> (prev_handler, s\<lparr>mem_handler := Some h\<rparr>))"

definition set_str_constraint_handler_s :: "handler option \<Rightarrow> cstate \<Rightarrow> handler option \<times> cstate" where
  "set_str_constraint_handler_s handler s =
     (let prev_handler = str_handler s in
      case handler of
        None \<Rightarrow> (prev_handler, s\<lparr>str_handler := Some sl_default_handler\<rparr>)
      | Some h \<Rightarrow> (prev_handler, s\<lparr>str_handler := Some h\<rparr>))"

definition invoke_safe_mem_constraint_handler ::
  "string \<Rightarrow> errno \<Rightarrow> cstate \<Rightarrow> unit outcome \<times> cstate" where
  "invoke_safe_mem_constraint_handler msg e s =
     (case mem_handler s of Some h \<Rightarrow> run_handler h msg e s
      | None \<Rightarrow> run_handler sl_default_handler msg e s)"

definition invoke_safe_str_constraint_handler ::
  "string \<Rightarrow> errno \<Rightarrow> cstate \<Rightarrow> unit outcome \<times> cstate" where
  "invoke_safe_str_constraint_handler msg e s =
     (case str_handler s of Some h \<Rightarrow> run_handler h msg e s
      | None \<Rightarrow> run_handler sl_default_handler msg e s)"

text \<open>\<open>invoke_..._handler(msg, NULL, e); return v;\<close>, the tail of every failing branch.\<close>

fun then_return :: "unit outcome \<times> cstate \<Rightarrow> 'a \<Rightarrow> 'a outcome \<times> cstate" where
  "then_return (Returned _, s) v = (Returned v, s)"
| "then_return (Aborted, s) v = (Aborted, s)"

definition mem_fail :: "string \<Rightarrow> errno \<Rightarrow> 'a \<Rightarrow> cstate \<Rightarrow> 'a outcome \<times> cstate" where
  "mem_fail msg e v s = then_return (invoke_safe_mem_constraint_handler msg e s) v"

definition str_fail :: "string \<Rightarrow> errno \<Rightarrow> 'a \<Rightarrow> cstate \<Rightarrow> 'a outcome \<times> cstate" where
  "str_fail msg e v s = then_return (invoke_safe_str_constraint_handler msg e s) v"

subsection \<open>What a handler call can do\<close>

named_theorems fail_simps \<open>outcomes of constraint violations\<close>

text \<open>The handler in force: the registered one, or the default when none was registered.\<close>

definition active :: "handler option \<Rightarrow> handler" where
  "active ho = (case ho of Some h \<Rightarrow> h | None \<Rightarrow> sl_default_handler)"

definition handler_outcome :: "handler \<Rightarrow> 'a \<Rightarrow> 'a outcome" where
  "handler_outcome h v = (case h of Abort_handler_s \<Rightarrow> Aborted | Ignore_handler_s \<Rightarrow> Returned v)"

lemma handler_outcome_simps [simp]:
  "handler_outcome Abort_handler_s v = Aborted"
  "handler_outcome Ignore_handler_s v = Returned v"
  by (simp_all add: handler_outcome_def)

lemma mem_fail_eq [fail_simps]:
  "mem_fail msg e v s =
     (handler_outcome (active (mem_handler s)) v,
      s\<lparr>calls := calls s @ [\<lparr>called = active (mem_handler s), message = msg, code = e\<rparr>]\<rparr>)"
proof (cases "active (mem_handler s)")
  case Abort_handler_s
  then show ?thesis
    by (auto simp: mem_fail_def invoke_safe_mem_constraint_handler_def active_def
          abort_handler_s_def split: option.splits)
next
  case Ignore_handler_s
  then show ?thesis
    by (auto simp: mem_fail_def invoke_safe_mem_constraint_handler_def active_def
          ignore_handler_s_def split: option.splits)
qed

lemma str_fail_eq [fail_simps]:
  "str_fail msg e v s =
     (handler_outcome (active (str_handler s)) v,
      s\<lparr>calls := calls s @ [\<lparr>called = active (str_handler s), message = msg, code = e\<rparr>]\<rparr>)"
proof (cases "active (str_handler s)")
  case Abort_handler_s
  then show ?thesis
    by (auto simp: str_fail_def invoke_safe_str_constraint_handler_def active_def
          abort_handler_s_def split: option.splits)
next
  case Ignore_handler_s
  then show ?thesis
    by (auto simp: str_fail_def invoke_safe_str_constraint_handler_def active_def
          ignore_handler_s_def split: option.splits)
qed

lemma mem_fail_mem [simp]: "mem (snd (mem_fail msg e v s)) = mem s"
  by (simp add: mem_fail_eq)

lemma str_fail_mem [simp]: "mem (snd (str_fail msg e v s)) = mem s"
  by (simp add: str_fail_eq)

text \<open>A state in which no handler was registered, for concrete runs.\<close>

definition demo_state :: "heap \<Rightarrow> cstate" where
  "demo_state h = \<lparr>mem = h, mem_handler = None, str_handler = None, calls = []\<rparr>"

lemma demo_state_simps [simp]:
  "mem (demo_state h) = h" "mem_handler (demo_state h) = None" "str_handler (demo_state h) = None"
  "calls (demo_state h) = []"
  by (simp_all add: demo_state_def)

end
