(* ===== verification/Safe_Mem.thy ===== *)
theory Safe_Mem
  imports Mem_Prims Constraint "HOL-Library.List_Lexorder"
begin

text \<open>
  The bounds-checked memory functions \<open>memcpy_s\<close>, \<open>memmove_s\<close>, \<open>memset_s\<close>, \<open>memzero_s\<close> and
  \<open>memcmp_s\<close> of \<open>lib/safeclib\<close>, with every constraint check in the source's order.  \<open>rsize_t\<close>
  arguments are natural numbers; the primitives take them as 32-bit words, which loses nothing
  because the checks bound them by \<open>RSIZE_MAX_MEM\<close> first.
\<close>

definition RSIZE_MAX_MEM :: nat where
  "RSIZE_MAX_MEM = 256 * 2 ^ 20"

definition memcpy_s :: "addr \<Rightarrow> nat \<Rightarrow> addr \<Rightarrow> nat \<Rightarrow> cstate \<Rightarrow> errno crun" where
  "memcpy_s dest dmax src smax s =
     (let clear = mem_prim_set (mem s) dest (of_nat dmax) 0 in
      if dest = NULL then Some (mem_fail ''memcpy_s: dest is NULL'' ESNULLP ESNULLP s)
      else if dmax = 0 then Some (mem_fail ''memcpy_s: dmax is 0'' ESZEROL ESZEROL s)
      else if dmax > RSIZE_MAX_MEM then
        Some (mem_fail ''memcpy_s: dmax exceeds max'' ESLEMAX ESLEMAX s)
      else if smax = 0 then
        do { m \<leftarrow> clear; Some (mem_fail ''memcpy_s: smax is 0'' ESZEROL ESZEROL (s\<lparr>mem := m\<rparr>)) }
      else if smax > dmax then
        do { m \<leftarrow> clear;
             Some (mem_fail ''memcpy_s: smax exceeds dmax'' ESLEMAX ESLEMAX (s\<lparr>mem := m\<rparr>)) }
      else if src = NULL then
        do { m \<leftarrow> clear; Some (mem_fail ''memcpy_s: src is NULL'' ESNULLP ESNULLP (s\<lparr>mem := m\<rparr>)) }
      else if (dest > src \<and> dest < src + smax) \<or> (src > dest \<and> src < dest + dmax) then
        do { m \<leftarrow> clear;
             Some (mem_fail ''memcpy_s: overlap undefined'' ESOVRLP ESOVRLP (s\<lparr>mem := m\<rparr>)) }
      else
        do { m \<leftarrow> mem_prim_move (mem s) dest src (of_nat smax);
             Some (Returned EOK, s\<lparr>mem := m\<rparr>) })"

definition memmove_s :: "addr \<Rightarrow> nat \<Rightarrow> addr \<Rightarrow> nat \<Rightarrow> cstate \<Rightarrow> errno crun" where
  "memmove_s dest dmax src smax s =
     (let clear = mem_prim_set (mem s) dest (of_nat dmax) 0 in
      if dest = NULL then Some (mem_fail ''memmove_s: dest is null'' ESNULLP ESNULLP s)
      else if dmax = 0 then Some (mem_fail ''memmove_s: dmax is 0'' ESZEROL ESZEROL s)
      else if dmax > RSIZE_MAX_MEM then
        Some (mem_fail ''memmove_s: dmax exceeds max'' ESLEMAX ESLEMAX s)
      else if smax = 0 then
        do { m \<leftarrow> clear; Some (mem_fail ''memmove_s: smax is 0'' ESZEROL ESZEROL (s\<lparr>mem := m\<rparr>)) }
      else if smax > dmax then
        do { m \<leftarrow> clear;
             Some (mem_fail ''memmove_s: smax exceeds max'' ESLEMAX ESLEMAX (s\<lparr>mem := m\<rparr>)) }
      else if src = NULL then
        do { m \<leftarrow> clear; Some (mem_fail ''memmove_s: src is null'' ESNULLP ESNULLP (s\<lparr>mem := m\<rparr>)) }
      else
        do { m \<leftarrow> mem_prim_move (mem s) dest src (of_nat smax);
             Some (Returned EOK, s\<lparr>mem := m\<rparr>) })"

definition memset_s :: "addr \<Rightarrow> nat \<Rightarrow> byte \<Rightarrow> cstate \<Rightarrow> errno crun" where
  "memset_s dest len v s =
     (if dest = NULL then Some (mem_fail ''memset_s: dest is null'' ESNULLP ESNULLP s)
      else if len = 0 then Some (mem_fail ''memset_s: len is 0'' ESZEROL ESZEROL s)
      else if len > RSIZE_MAX_MEM then
        Some (mem_fail ''memset_s: len exceeds max'' ESLEMAX ESLEMAX s)
      else do { m \<leftarrow> mem_prim_set (mem s) dest (of_nat len) v; Some (Returned EOK, s\<lparr>mem := m\<rparr>) })"

definition memzero_s :: "addr \<Rightarrow> nat \<Rightarrow> cstate \<Rightarrow> errno crun" where
  "memzero_s dest len s =
     (if dest = NULL then Some (mem_fail ''memzero_s: dest is null'' ESNULLP ESNULLP s)
      else if len = 0 then Some (mem_fail ''memzero_s: len is 0'' ESZEROL ESZEROL s)
      else if len > RSIZE_MAX_MEM then
        Some (mem_fail ''memzero_s: len exceeds max'' ESLEMAX ESLEMAX s)
      else do { m \<leftarrow> mem_prim_set (mem s) dest (of_nat len) 0; Some (Returned EOK, s\<lparr>mem := m\<rparr>) })"

text \<open>
  \<open>memcmp_s\<close> writes its result through \<open>diff\<close>; the model returns the value stored there beside the
  error code (\<open>None\<close> when \<open>diff\<close> is a null pointer and nothing is stored).
\<close>

fun memcmp_loop :: "heap \<Rightarrow> addr \<Rightarrow> nat \<Rightarrow> addr \<Rightarrow> nat \<Rightarrow> int option" where
  "memcmp_loop h dp dmax sp smax =
     (if dmax > 0 \<and> smax > 0
      then do { x \<leftarrow> rd8 h dp; y \<leftarrow> rd8 h sp;
                if x \<noteq> y then Some (if x < y then -1 else 1)
                else memcmp_loop h (dp + 1) (dmax - 1) (sp + 1) (smax - 1) }
      else Some 0)"

declare memcmp_loop.simps [simp del]

definition memcmp_s ::
  "addr \<Rightarrow> nat \<Rightarrow> addr \<Rightarrow> nat \<Rightarrow> bool \<Rightarrow> cstate \<Rightarrow> (errno \<times> int option) crun" where
  "memcmp_s dest dmax src smax diff_null s =
     (if diff_null then Some (mem_fail ''memcmp_s: diff is null'' ESNULLP (ESNULLP, None) s)
      else if dest = NULL then
        Some (mem_fail ''memcmp_s: dest is null'' ESNULLP (ESNULLP, Some (-1)) s)
      else if src = NULL then
        Some (mem_fail ''memcmp_s: src is null'' ESNULLP (ESNULLP, Some (-1)) s)
      else if dmax = 0 then Some (mem_fail ''memcmp_s: dmax is 0'' ESZEROL (ESZEROL, Some (-1)) s)
      else if dmax > RSIZE_MAX_MEM then
        Some (mem_fail ''memcmp_s: dmax exceeds max'' ESLEMAX (ESLEMAX, Some (-1)) s)
      else if smax = 0 then Some (mem_fail ''memcmp_s: smax is 0'' ESZEROL (ESZEROL, Some (-1)) s)
      else if smax > dmax then
        Some (mem_fail ''memcmp_s: smax exceeds dmax'' ESLEMAX (ESLEMAX, Some (-1)) s)
      else if dest = src then Some (Returned (EOK, Some 0), s)
      else do { d \<leftarrow> memcmp_loop (mem s) dest dmax src smax; Some (Returned (EOK, Some d), s) })"


subsection \<open>What the copy functions promise\<close>

text \<open>
  The abstract contract: a call is rejected untouched (\<open>Rejected\<close>), rejected with the destination
  nulled (\<open>Cleared\<close>), or performed (\<open>Copied\<close>).
\<close>

datatype verdict = Rejected errno | Cleared errno | Copied

definition copy_verdict :: "bool \<Rightarrow> addr \<Rightarrow> nat \<Rightarrow> addr \<Rightarrow> nat \<Rightarrow> verdict" where
  "copy_verdict overlap_ok dest dmax src smax =
     (if dest = NULL then Rejected ESNULLP
      else if dmax = 0 then Rejected ESZEROL
      else if dmax > RSIZE_MAX_MEM then Rejected ESLEMAX
      else if smax = 0 then Cleared ESZEROL
      else if smax > dmax then Cleared ESLEMAX
      else if src = NULL then Cleared ESNULLP
      else if \<not> overlap_ok \<and> dest \<noteq> src \<and> {dest..<dest + dmax} \<inter> {src..<src + smax} \<noteq> {}
      then Cleared ESOVRLP
      else Copied)"

fun verdict_code :: "verdict \<Rightarrow> errno" where
  "verdict_code (Rejected e) = e"
| "verdict_code (Cleared e) = e"
| "verdict_code Copied = EOK"

fun verdict_mem :: "verdict \<Rightarrow> heap \<Rightarrow> addr \<Rightarrow> nat \<Rightarrow> addr \<Rightarrow> nat \<Rightarrow> heap" where
  "verdict_mem (Rejected e) h dest dmax src smax = h"
| "verdict_mem (Cleared e) h dest dmax src smax = put_bytes h dest (replicate dmax 0)"
| "verdict_mem Copied h dest dmax src smax = blit h dest src smax"

text \<open>The buffers the caller passes are objects of at least the sizes it states.\<close>

definition buffers :: "heap \<Rightarrow> addr \<Rightarrow> nat \<Rightarrow> addr \<Rightarrow> nat \<Rightarrow> bool" where
  "buffers h dest dmax src smax \<longleftrightarrow>
     (dest \<noteq> NULL \<longrightarrow> mapped h dest dmax) \<and> (src \<noteq> NULL \<longrightarrow> mapped h src smax)"

text \<open>\<open>st'\<close> is \<open>st\<close> after a call with this verdict, the handler in force being called once on failure.\<close>

definition copy_effect ::
  "verdict \<Rightarrow> addr \<Rightarrow> nat \<Rightarrow> addr \<Rightarrow> nat \<Rightarrow> cstate \<Rightarrow> errno outcome \<times> cstate \<Rightarrow> bool" where
  "copy_effect v dest dmax src smax st = (\<lambda>(r, st').
     mem st' = verdict_mem v (mem st) dest dmax src smax
     \<and> mem_handler st' = mem_handler st \<and> str_handler st' = str_handler st
     \<and> (if v = Copied then r = Returned EOK \<and> calls st' = calls st
        else r = handler_outcome (active (mem_handler st)) (verdict_code v)
           \<and> (\<exists>msg. calls st' = calls st @
                [\<lparr>called = active (mem_handler st), message = msg, code = verdict_code v\<rparr>])))"

lemma RSIZE_MAX_MEM_u32: "n \<le> RSIZE_MAX_MEM \<Longrightarrow> unat (of_nat n :: u32) = n"
  by (rule unat_of_nat_u32) (simp add: RSIZE_MAX_MEM_def)

lemma prim_set_bounded:
  "n \<le> RSIZE_MAX_MEM \<Longrightarrow> mapped h d n \<Longrightarrow>
   mem_prim_set h d (of_nat n) v = Some (put_bytes h d (replicate n v))"
  using mem_prim_set_ok [of h d "of_nat n" v] by (simp add: RSIZE_MAX_MEM_u32)

lemma prim_move_bounded:
  assumes "0 < n" "n \<le> RSIZE_MAX_MEM" "mapped h d n" "mapped h s n"
  shows "mem_prim_move h d s (of_nat n) = Some (blit h d s n)"
proof -
  have u: "unat (of_nat n :: u32) = n"
    using assms(2) by (rule RSIZE_MAX_MEM_u32)
  with assms(1) have "(of_nat n :: u32) \<noteq> 0"
    by (metis gr_implies_not0 unsigned_0)
  with mem_prim_move_ok [of h d "of_nat n" s] assms show ?thesis
    by (simp add: u)
qed

lemma overlap_test:
  fixes d s :: nat
  assumes "0 < n" "0 < m"
  shows "(d > s \<and> d < s + m) \<or> (s > d \<and> s < d + n) \<longleftrightarrow>
    d \<noteq> s \<and> {d..<d + n} \<inter> {s..<s + m} \<noteq> {}"
proof -
  have "{d..<d + n} \<inter> {s..<s + m} = {max d s..<min (d + n) (s + m)}"
    by auto
  then show ?thesis
    using assms by auto
qed

lemma memcpy_s_effect:
  assumes "buffers (mem st) dest dmax src smax"
  shows "\<exists>res. memcpy_s dest dmax src smax st = Some res
    \<and> copy_effect (copy_verdict False dest dmax src smax) dest dmax src smax st res"
  using assms
  by (auto simp: memcpy_s_def Let_def copy_verdict_def copy_effect_def buffers_def overlap_test
        prim_set_bounded prim_move_bounded mem_fail_eq mapped_mono)

lemma memmove_s_effect:
  assumes "buffers (mem st) dest dmax src smax"
  shows "\<exists>res. memmove_s dest dmax src smax st = Some res
    \<and> copy_effect (copy_verdict True dest dmax src smax) dest dmax src smax st res"
  using assms
  by (auto simp: memmove_s_def Let_def copy_verdict_def copy_effect_def buffers_def
        prim_set_bounded prim_move_bounded mem_fail_eq mapped_mono)


subsection \<open>The interface clients rely on\<close>

text \<open>
  Callers of \<open>memcpy_s\<close> and \<open>memmove_s\<close> (\<open>orom.c\<close>, \<open>filesystem.cpp\<close>, \<open>nvme_disk.cpp\<close>) use only the
  contract above.  What follows from it is proved once for any function that meets it.
\<close>

locale bounded_copy =
  fixes copy :: "addr \<Rightarrow> nat \<Rightarrow> addr \<Rightarrow> nat \<Rightarrow> cstate \<Rightarrow> errno crun"
    and overlap_ok :: bool
  assumes effect: "buffers (mem st) d n s k \<Longrightarrow>
    \<exists>res. copy d n s k st = Some res \<and> copy_effect (copy_verdict overlap_ok d n s k) d n s k st res"
begin

lemma effectD:
  "buffers (mem st) d n s k \<Longrightarrow> copy d n s k st = Some res \<Longrightarrow>
   copy_effect (copy_verdict overlap_ok d n s k) d n s k st res"
  using effect by fastforce

lemma mem_after:
  "buffers (mem st) d n s k \<Longrightarrow> copy d n s k st = Some (r, st') \<Longrightarrow>
   mem st' = verdict_mem (copy_verdict overlap_ok d n s k) (mem st) d n s k"
  by (drule (1) effectD) (simp add: copy_effect_def)

lemma frame:
  assumes "buffers (mem st) d n s k" "copy d n s k st = Some (r, st')" "x < d \<or> d + n \<le> x"
  shows "mem st' x = mem st x"
proof -
  have "verdict_mem v (mem st) d n s k x = mem st x" if "v = Copied \<longrightarrow> k \<le> n" for v
    using assms(3) that by (cases v) (auto simp: heap_simps)
  moreover have "copy_verdict overlap_ok d n s k = Copied \<longrightarrow> k \<le> n"
    by (auto simp: copy_verdict_def split: if_splits)
  ultimately show ?thesis
    using mem_after [OF assms(1,2)] by simp
qed

lemma same_objects:
  assumes "buffers (mem st) d n s k" "copy d n s k st = Some (r, st')"
  shows "dom (mem st') = dom (mem st)"
proof -
  have "(v = Copied \<longrightarrow> d \<noteq> NULL \<and> k \<le> n) \<and> (\<forall>e. v = Cleared e \<longrightarrow> d \<noteq> NULL) \<Longrightarrow>
      dom (verdict_mem v (mem st) d n s k) = dom (mem st)" for v
    using assms(1) mapped_mono [of "mem st" d n k]
    by (cases v) (simp_all add: buffers_def dom_put_bytes dom_blit)
  moreover have "(copy_verdict overlap_ok d n s k = Copied \<longrightarrow> d \<noteq> NULL \<and> k \<le> n)
      \<and> (\<forall>e. copy_verdict overlap_ok d n s k = Cleared e \<longrightarrow> d \<noteq> NULL)"
    by (auto simp: copy_verdict_def split: if_splits)
  ultimately show ?thesis
    using mem_after [OF assms] by simp
qed

lemma ok_iff:
  assumes "buffers (mem st) d n s k"
  shows "(\<exists>st'. copy d n s k st = Some (Returned EOK, st')) \<longleftrightarrow>
    copy_verdict overlap_ok d n s k = Copied"
proof -
  obtain r st' where res: "copy d n s k st = Some (r, st')"
      "copy_effect (copy_verdict overlap_ok d n s k) d n s k st (r, st')"
    using effect [OF assms] by auto
  have "handler_outcome h (verdict_code (copy_verdict overlap_ok d n s k)) \<noteq> Returned EOK"
    if "copy_verdict overlap_ok d n s k \<noteq> Copied" for h
    using that by (cases h) (auto simp: copy_verdict_def split: if_splits)
  with res show ?thesis
    by (auto simp: copy_effect_def split: if_splits)
qed

lemma copied_bytes:
  assumes "buffers (mem st) d n s k" "copy d n s k st = Some (Returned EOK, st')"
  shows "bytes_of (mem st') d k = bytes_of (mem st) s k"
  using mem_after [OF assms] ok_iff [OF assms(1)] assms(2) by auto

text \<open>Two copies into disjoint buffers: the second does not disturb what the first delivered.\<close>

lemma two_copies:
  assumes "buffers (mem st) d1 n1 s1 k1" "copy d1 n1 s1 k1 st = Some (Returned EOK, st1)"
    "buffers (mem st) d2 n2 s2 k2" "copy d2 n2 s2 k2 st1 = Some (r, st2)"
    "d1 + n1 \<le> d2 \<or> d2 + n2 \<le> d1"
  shows "bytes_of (mem st2) d1 k1 = bytes_of (mem st) s1 k1"
proof -
  have dom: "dom (mem st1) = dom (mem st)"
    by (rule same_objects [OF assms(1,2)])
  have b2: "buffers (mem st1) d2 n2 s2 k2"
    using assms(3) by (simp add: buffers_def mapped_dom [OF dom])
  have k1: "k1 \<le> n1"
    using ok_iff [OF assms(1)] assms(2) by (auto simp: copy_verdict_def split: if_splits)
  have "bytes_of (mem st2) d1 k1 = bytes_of (mem st1) d1 k1"
    using frame [OF b2 assms(4)] assms(5) k1 by (intro nth_equalityI) auto
  then show ?thesis
    using copied_bytes [OF assms(1,2)] by simp
qed

end

interpretation memcpy: bounded_copy memcpy_s False
  by unfold_locales (rule memcpy_s_effect)

interpretation memmove: bounded_copy memmove_s True
  by unfold_locales (rule memmove_s_effect)

subsection \<open>Setting and comparing\<close>

definition set_verdict :: "addr \<Rightarrow> nat \<Rightarrow> verdict" where
  "set_verdict dest len =
     (if dest = NULL then Rejected ESNULLP else if len = 0 then Rejected ESZEROL
      else if len > RSIZE_MAX_MEM then Rejected ESLEMAX else Copied)"

lemma memset_s_effect:
  assumes "dest \<noteq> NULL \<longrightarrow> mapped (mem st) dest len"
  shows "\<exists>r st'. memset_s dest len v st = Some (r, st')
    \<and> mem st' = (if set_verdict dest len = Copied then put_bytes (mem st) dest (replicate len v)
                 else mem st)
    \<and> r = (if set_verdict dest len = Copied then Returned EOK
           else handler_outcome (active (mem_handler st)) (verdict_code (set_verdict dest len)))"
  using assms by (auto simp: memset_s_def set_verdict_def mem_fail_eq prim_set_bounded)

lemma memzero_s_eq_memset_s:
  assumes "mem_handler st = None"
  shows "map_option (\<lambda>(r, s). (r, mem s)) (memzero_s dest len st)
    = map_option (\<lambda>(r, s). (r, mem s)) (memset_s dest len 0 st)"
  by (simp add: memzero_s_def memset_s_def mem_fail_eq)

lemma memcmp_loop_ok:
  "mapped h d (min dmax smax) \<Longrightarrow> mapped h s (min dmax smax) \<Longrightarrow>
   memcmp_loop h d dmax s smax = Some
     (let x = bytes_of h d (min dmax smax); y = bytes_of h s (min dmax smax)
      in if x = y then 0 else if x < y then -1 else 1)"
proof (induction h d dmax s smax rule: memcmp_loop.induct)
  case (1 h d dmax s smax)
  show ?case
  proof (cases "dmax > 0 \<and> smax > 0")
    case False
    then have "min dmax smax = 0" by auto
    with False show ?thesis by (auto simp: memcmp_loop.simps [of h d dmax s smax] bytes_of_def)
  next
    case True
    then have m: "min dmax smax = Suc (min (dmax - 1) (smax - 1))"
      by (auto simp: min_def)
    then obtain x y where xy: "h d = Some x" "h s = Some y"
      using 1 by (auto simp: mapped_Suc)
    show ?thesis
      using 1 True xy
      by (auto simp: m memcmp_loop.simps [of h d dmax s smax] rd8_def bytes_of_Suc mapped_Suc Let_def)
  qed
qed

lemma memcmp_s_ok:
  assumes "dest \<noteq> NULL" "src \<noteq> NULL" "0 < smax" "smax \<le> dmax" "dmax \<le> RSIZE_MAX_MEM"
    "mapped (mem st) dest smax" "mapped (mem st) src smax"
  shows "memcmp_s dest dmax src smax False st = Some (Returned (EOK, Some
     (let x = bytes_of (mem st) dest smax; y = bytes_of (mem st) src smax
      in if x = y then 0 else if x < y then -1 else 1)), st)"
proof -
  have "memcmp_loop (mem st) dest dmax src smax = Some
     (let x = bytes_of (mem st) dest smax; y = bytes_of (mem st) src smax
      in if x = y then 0 else if x < y then -1 else 1)"
    using memcmp_loop_ok [of "mem st" dest dmax smax src] assms by (simp add: min_absorb2)
  with assms show ?thesis
    by (auto simp: memcmp_s_def)
qed

subsection \<open>Properties\<close>



text \<open>
  \<open>memmove_s\<close> has the same contract without the overlap check: overlapping buffers are copied,
  and the destination gets the bytes the source held before the call.
\<close>
theorem memmove_s_contract:
  assumes "buffers (mem st) dest dmax src smax"
  shows "\<exists>res. memmove_s dest dmax src smax st = Some res
    \<and> copy_effect (copy_verdict True dest dmax src smax) dest dmax src smax st res"
  using assms by (rule memmove_s_effect)

theorem memmove_s_contract_witness:
  "\<exists>res. memmove_s 17 3 16 3 (demo_state (put_bytes Map.empty 16 [1, 2, 3, 4])) = Some res
     \<and> copy_effect Copied 17 3 16 3 (demo_state (put_bytes Map.empty 16 [1, 2, 3, 4])) res"
proof -
  have "buffers (put_bytes Map.empty 16 [1, 2, 3, 4]) 17 3 16 3"
    by (simp add: buffers_def mapped_put_range)
  moreover have "copy_verdict True 17 3 16 3 = Copied"
    by (simp add: copy_verdict_def RSIZE_MAX_MEM_def)
  ultimately show ?thesis
    using memmove_s_contract [of "demo_state (put_bytes Map.empty 16 [1, 2, 3, 4])" 17 3 16 3] by simp
qed

text \<open>
  A second \<open>memcpy_s\<close> into a disjoint buffer, successful or not, leaves the bytes delivered by
  a first one in place.
\<close>
theorem memcpy_s_keeps_disjoint:
  assumes "buffers (mem st) d1 n1 s1 k1" "memcpy_s d1 n1 s1 k1 st = Some (Returned EOK, st1)"
    and "buffers (mem st) d2 n2 s2 k2" "memcpy_s d2 n2 s2 k2 st1 = Some (r, st2)"
    and "d1 + n1 \<le> d2 \<or> d2 + n2 \<le> d1"
  shows "bytes_of (mem st2) d1 k1 = bytes_of (mem st) s1 k1"
  using assms by (rule memcpy.two_copies)

theorem memcpy_s_keeps_disjoint_witness:
  "\<exists>st1 r st2. memcpy_s 16 2 64 2 (demo_state (put_bytes (put_bytes Map.empty 16 [0, 0, 0, 0]) 64 [7, 8]))
        = Some (Returned EOK, st1)
     \<and> memcpy_s 18 2 64 1 st1 = Some (r, st2) \<and> bytes_of (mem st2) 16 2 = [7, 8]"
proof -
  let ?h = "put_bytes (put_bytes Map.empty 16 [0, 0, 0, 0]) 64 [7, 8]"
  have b: "buffers ?h 16 2 64 2" "buffers ?h 18 2 64 1"
    by (simp_all add: buffers_def mapped_put_range)
  have "copy_verdict False 16 2 64 2 = Copied"
    by (simp add: copy_verdict_def RSIZE_MAX_MEM_def)
  then obtain st1 where 1: "memcpy_s 16 2 64 2 (demo_state ?h) = Some (Returned EOK, st1)"
    using memcpy.ok_iff [of "demo_state ?h" 16 2 64 2] b(1) by auto
  have dom: "dom (mem st1) = dom ?h"
    using memcpy.same_objects [OF _ 1] b(1) by simp
  have "buffers (mem st1) 18 2 64 1"
    using b(2) by (simp add: buffers_def mapped_dom [OF dom])
  then obtain r st2 where 2: "memcpy_s 18 2 64 1 st1 = Some (r, st2)"
    using memcpy_s_effect [of st1 18 2 64 1] by auto
  have "bytes_of (mem st2) 16 2 = bytes_of ?h 64 2"
    using memcpy_s_keeps_disjoint [OF _ 1 _ 2] b by simp
  then show ?thesis
    using 1 2 by auto
qed

text \<open>
  \<open>memcmp_s\<close> stores the sign of the lexicographic comparison of the first \<open>smax\<close> bytes of the two
  regions, and reads nothing behind them.
\<close>
theorem memcmp_s_lexicographic:
  assumes "dest \<noteq> NULL" "src \<noteq> NULL" "0 < smax" "smax \<le> dmax" "dmax \<le> RSIZE_MAX_MEM"
    and "mapped (mem st) dest smax" "mapped (mem st) src smax"
  shows "memcmp_s dest dmax src smax False st = Some (Returned (EOK, Some
     (let x = bytes_of (mem st) dest smax; y = bytes_of (mem st) src smax
      in if x = y then 0 else if x < y then -1 else 1)), st)"
  using assms by (rule memcmp_s_ok)

theorem memcmp_s_lexicographic_witness:
  "memcmp_s 16 2 32 2 False (demo_state (put_bytes (put_bytes Map.empty 16 [1, 2]) 32 [1, 3]))
     = Some (Returned (EOK, Some (-1)), demo_state (put_bytes (put_bytes Map.empty 16 [1, 2]) 32 [1, 3]))"
  using memcmp_s_lexicographic
    [of 16 32 2 2 "demo_state (put_bytes (put_bytes Map.empty 16 [1, 2]) 32 [1, 3])"]
  by (simp add: RSIZE_MAX_MEM_def mapped_put_range bytes_of_put_disjoint)

end
