(* ===== verification/Safe_Str.thy ===== *)
theory Safe_Str
  imports Constraint
begin

text \<open>
  What the string functions of \<open>lib/safeclib\<close> share: the null-filling loops, \<open>handle_error\<close> of
  \<open>safe_str_constraint.h\<close>, the two copy loops with their overlap bumper (\<open>strcpy_s\<close>, \<open>stpcpy_s\<close>,
  \<open>strcat_s\<close> use the first, \<open>strncpy_s\<close> and \<open>strncat_s\<close> the second) and the search for the end of
  \<open>dest\<close> of the concatenations.

  \<open>slack\<close> is the build option \<open>SAFECLIB_STR_NULL_SLACK\<close>: with it every byte of \<open>dest\<close> behind the
  result is nulled, without it only the terminator is written.  The two loops of each C function,
  one for \<open>dest < src\<close> and one for the other case, differ only in the pointer they compare with the
  bumper; \<open>below\<close> selects it.
\<close>

definition RSIZE_MAX_STR :: nat where
  "RSIZE_MAX_STR = 4 * 2 ^ 10"

text \<open>\<open>while (dmax) { *dest = '\0'; dmax--; dest++; }\<close>\<close>

fun null_fill :: "heap \<Rightarrow> addr \<Rightarrow> nat \<Rightarrow> heap option" where
  "null_fill h dest 0 = Some h"
| "null_fill h dest (Suc dmax) = do { h' \<leftarrow> wr8 h dest 0; null_fill h' (dest + 1) dmax }"

definition slack_fill :: "bool \<Rightarrow> heap \<Rightarrow> addr \<Rightarrow> nat \<Rightarrow> heap option" where
  "slack_fill slack h dest dmax = (if slack then null_fill h dest dmax else Some h)"

definition terminate :: "bool \<Rightarrow> heap \<Rightarrow> addr \<Rightarrow> nat \<Rightarrow> heap option" where
  "terminate slack h dest dmax = (if slack then null_fill h dest dmax else wr8 h dest 0)"

definition handle_error ::
  "bool \<Rightarrow> addr \<Rightarrow> nat \<Rightarrow> string \<Rightarrow> errno \<Rightarrow> 'a \<Rightarrow> cstate \<Rightarrow> 'a crun" where
  "handle_error slack orig_dest orig_dmax err_msg err_code v s =
     do { m \<leftarrow> terminate slack (mem s) orig_dest orig_dmax;
          Some (str_fail err_msg err_code v (s\<lparr>mem := m\<rparr>)) }"

datatype copy_end =
    Hit_bumper heap
  | Hit_null heap addr nat
  | Truncated heap addr nat
  | Out_of_space heap

fun copy_loop :: "bool \<Rightarrow> addr \<Rightarrow> heap \<Rightarrow> addr \<Rightarrow> addr \<Rightarrow> nat \<Rightarrow> copy_end option" where
  "copy_loop below bumper h dest src 0 = Some (Out_of_space h)"
| "copy_loop below bumper h dest src (Suc n) =
     (if (if below then dest else src) = bumper then Some (Hit_bumper h)
      else do { c \<leftarrow> rd8 h src; h' \<leftarrow> wr8 h dest c;
                if c = 0 then Some (Hit_null h' dest (Suc n))
                else copy_loop below bumper h' (dest + 1) (src + 1) n })"

fun ncopy_loop :: "bool \<Rightarrow> addr \<Rightarrow> heap \<Rightarrow> addr \<Rightarrow> addr \<Rightarrow> nat \<Rightarrow> nat \<Rightarrow> copy_end option" where
  "ncopy_loop below bumper h dest src 0 slen = Some (Out_of_space h)"
| "ncopy_loop below bumper h dest src (Suc n) slen =
     (if (if below then dest else src) = bumper then Some (Hit_bumper h)
      else if slen = 0 then Some (Truncated h dest (Suc n))
      else do { c \<leftarrow> rd8 h src; h' \<leftarrow> wr8 h dest c;
                if c = 0 then Some (Hit_null h' dest (Suc n))
                else ncopy_loop below bumper h' (dest + 1) (src + 1) n (slen - 1) })"

text \<open>
  The scan for the end of \<open>dest\<close>; it starts with \<open>dmax > 0\<close>.  Only the \<open>dest < src\<close> case compares
  with the bumper.
\<close>

datatype scan_end = Found addr nat | Ran_into_src | Unterminated

function find_end :: "bool \<Rightarrow> addr \<Rightarrow> heap \<Rightarrow> addr \<Rightarrow> nat \<Rightarrow> scan_end option" where
  "find_end below bumper h dest dmax =
     do { c \<leftarrow> rd8 h dest;
          if c = 0 then Some (Found dest dmax)
          else if below \<and> dest = bumper then Some Ran_into_src
          else if dmax - 1 = 0 then Some Unterminated
          else find_end below bumper h (dest + 1) (dmax - 1) }"
  by pat_completeness auto
termination
  by (relation "measure (\<lambda>(below, bumper, h, dest, dmax). dmax)") auto

declare find_end.simps [simp del]

text \<open>What \<open>strcpy_s\<close>, \<open>strncpy_s\<close>, \<open>strcat_s\<close> and \<open>strncat_s\<close> do when their copy loop ends.\<close>

fun finish_copy ::
  "bool \<Rightarrow> string \<Rightarrow> addr \<Rightarrow> nat \<Rightarrow> copy_end \<Rightarrow> cstate \<Rightarrow> errno crun" where
  "finish_copy slack name orig_dest orig_dmax (Hit_bumper h) s =
     handle_error slack orig_dest orig_dmax (name @ '': overlapping objects'') ESOVRLP ESOVRLP
       (s\<lparr>mem := h\<rparr>)"
| "finish_copy slack name orig_dest orig_dmax (Truncated h dest dmax) s =
     do { m \<leftarrow> terminate slack h dest dmax; Some (Returned EOK, s\<lparr>mem := m\<rparr>) }"
| "finish_copy slack name orig_dest orig_dmax (Hit_null h dest dmax) s =
     do { m \<leftarrow> slack_fill slack h dest dmax; Some (Returned EOK, s\<lparr>mem := m\<rparr>) }"
| "finish_copy slack name orig_dest orig_dmax (Out_of_space h) s =
     handle_error slack orig_dest orig_dmax (name @ '': not enough space for src'') ESNOSPC ESNOSPC
       (s\<lparr>mem := h\<rparr>)"

subsection \<open>Null-terminated strings in memory\<close>

definition chars_at :: "heap \<Rightarrow> addr \<Rightarrow> byte list \<Rightarrow> bool" where
  "chars_at h a xs \<longleftrightarrow> (\<forall>i<length xs. h (a + i) = Some (xs ! i) \<and> xs ! i \<noteq> 0)"

definition cstr :: "heap \<Rightarrow> addr \<Rightarrow> byte list \<Rightarrow> bool" where
  "cstr h a xs \<longleftrightarrow> chars_at h a xs \<and> h (a + length xs) = Some 0"

lemma chars_at_Nil [simp]: "chars_at h a []"
  by (simp add: chars_at_def)

lemma chars_at_Cons:
  "chars_at h a (x # xs) \<longleftrightarrow> h a = Some x \<and> x \<noteq> 0 \<and> chars_at h (Suc a) xs"
  by (auto simp: chars_at_def nth_Cons split: nat.splits)

lemma chars_at_take: "chars_at h a xs \<Longrightarrow> chars_at h a (take k xs)"
  by (simp add: chars_at_def)

lemma chars_at_append:
  "chars_at h a (xs @ ys) \<longleftrightarrow> chars_at h a xs \<and> chars_at h (a + length xs) ys"
proof (induction xs arbitrary: a)
  case (Cons x xs)
  then show ?case by (simp add: chars_at_Cons)
qed simp

lemma chars_at_bytes: "chars_at h a xs \<Longrightarrow> bytes_of h a (length xs) = xs"
  by (rule nth_equalityI) (simp_all add: chars_at_def)

lemma chars_at_cong:
  "(\<And>i. i < length xs \<Longrightarrow> h' (a + i) = h (a + i)) \<Longrightarrow> chars_at h' a xs = chars_at h a xs"
  by (simp add: chars_at_def)

lemma cstr_Cons: "cstr h a (x # xs) \<longleftrightarrow> h a = Some x \<and> x \<noteq> 0 \<and> cstr h (Suc a) xs"
  by (auto simp: cstr_def chars_at_Cons)

lemma cstr_unique: "cstr h a xs \<Longrightarrow> cstr h a ys \<Longrightarrow> xs = ys"
proof (induction xs arbitrary: a ys)
  case Nil
  then show ?case by (cases ys) (auto simp: cstr_Cons, simp add: cstr_def)
next
  case (Cons x xs)
  show ?case
  proof (cases ys)
    case Nil
    with Cons.prems show ?thesis by (simp add: cstr_Cons) (simp add: cstr_def)
  next
    case (Cons y ys')
    with Cons.prems Cons.IH [of "Suc a" ys'] show ?thesis by (simp add: cstr_Cons)
  qed
qed

lemma cstr_put_bytes: "0 \<notin> set xs \<Longrightarrow> cstr (put_bytes h a (xs @ [0])) a xs"
  unfolding cstr_def chars_at_def
  by (metis length_append_singleton less_SucI lessI nth_append nth_append_length nth_mem
      put_bytes_inside)

lemma cstr_append: "chars_at h a xs \<Longrightarrow> cstr h (a + length xs) ys \<Longrightarrow> cstr h a (xs @ ys)"
  by (simp add: cstr_def chars_at_append add.assoc)

lemma null_fill_ok:
  "mapped h dest n \<Longrightarrow> null_fill h dest n = Some (put_bytes h dest (replicate n 0))"
proof (induction n arbitrary: h dest)
  case (Suc n)
  then have "mapped (h(dest \<mapsto> 0)) (Suc dest) n"
    by (simp add: mapped_Suc mapped_put_bytes flip: put_bytes_single)
  with Suc show ?case
    by (simp add: mapped_Suc wr8_mapped put_bytes_Cons)
qed simp

subsection \<open>The copy loops\<close>

text \<open>
  \<open>tracks below bumper dest src g\<close>: the pointer compared with the bumper is \<open>g\<close> bytes before it, and
  what the loop writes lies outside what it has still to read.
\<close>

definition tracks :: "bool \<Rightarrow> addr \<Rightarrow> addr \<Rightarrow> addr \<Rightarrow> nat \<Rightarrow> bool" where
  "tracks below bumper dest src g \<longleftrightarrow>
     (if below then bumper = dest + g \<and> dest \<le> src else bumper = src + g \<and> bumper \<le> dest)"

lemma tracks_Suc:
  "tracks below bumper dest src (Suc g) \<Longrightarrow>
   tracks below bumper (dest + 1) (src + 1) g \<and> (if below then dest else src) \<noteq> bumper"
  by (auto simp: tracks_def split: if_splits)

lemma tracks_keeps_src:
  "tracks below bumper dest src g \<Longrightarrow> length xs < g \<Longrightarrow> chars_at h (Suc src) xs \<Longrightarrow>
   chars_at (h(dest \<mapsto> v)) (Suc src) xs"
  by (auto simp: tracks_def chars_at_def split: if_splits)

lemma copy_loop_ncopy:
  "n \<le> slen \<Longrightarrow> copy_loop below bumper h dest src n = ncopy_loop below bumper h dest src n slen"
proof (induction n arbitrary: h dest src slen)
  case (Suc n)
  then have "slen \<noteq> 0" "n \<le> slen - 1" by simp_all
  with Suc.IH [OF this(2)] show ?case
    by (simp only: copy_loop.simps ncopy_loop.simps if_False)
qed simp
lemma ncopy_loop_steps:
  "chars_at h src xs \<Longrightarrow> length xs \<le> n \<Longrightarrow> length xs \<le> g \<Longrightarrow> length xs \<le> slen \<Longrightarrow>
   tracks below bumper dest src g \<Longrightarrow> mapped h dest (length xs) \<Longrightarrow>
   ncopy_loop below bumper h dest src n slen
     = ncopy_loop below bumper (put_bytes h dest xs) (dest + length xs) (src + length xs)
         (n - length xs) (slen - length xs)"
proof (induction xs arbitrary: h src dest n g slen)
  case (Cons x xs)
  obtain n' g' where ng: "n = Suc n'" "g = Suc g'"
    using Cons.prems(2,3) by (cases n; cases g) auto
  obtain l' where sl: "slen = Suc l'"
    using Cons.prems(4) by (cases slen) auto
  have t: "tracks below bumper (dest + 1) (src + 1) g'" "(if below then dest else src) \<noteq> bumper"
    using tracks_Suc Cons.prems(5) unfolding ng by blast+
  have "chars_at (h(dest \<mapsto> x)) (Suc src) xs"
    using Cons.prems tracks_keeps_src [of below bumper dest src g xs h]
    by (simp add: chars_at_Cons)
  moreover have "mapped (h(dest \<mapsto> x)) (Suc dest) (length xs)"
    using Cons.prems(6) by (simp add: mapped_Suc mapped_put_bytes flip: put_bytes_single)
  moreover have "ncopy_loop below bumper h dest src n slen
      = ncopy_loop below bumper (h(dest \<mapsto> x)) (Suc dest) (Suc src) n' l'"
    using Cons.prems(1,6) t(2)
    by (simp add: ng sl chars_at_Cons mapped_Suc rd8_def wr8_mapped)
  ultimately show ?case
    using Cons.IH [of "h(dest \<mapsto> x)" "Suc src" n' g' l' "Suc dest"] Cons.prems(2-4) t(1)
    by (simp add: ng sl put_bytes_Cons del: fun_upd_apply)
qed simp

text \<open>
  How the loops end: with \<open>xs\<close> to copy, room for \<open>n\<close> characters and the bumper \<open>g\<close> characters
  away.  \<open>trunc\<close> says that \<open>xs\<close> ends because \<open>slen\<close> is used up, not at the null of the source.
\<close>

definition copy_result :: "bool \<Rightarrow> heap \<Rightarrow> addr \<Rightarrow> nat \<Rightarrow> nat \<Rightarrow> byte list \<Rightarrow> copy_end" where
  "copy_result trunc h dest n g xs =
     (if length xs < n \<and> length xs < g
      then if trunc then Truncated (put_bytes h dest xs) (dest + length xs) (n - length xs)
           else Hit_null (put_bytes h dest (xs @ [0])) (dest + length xs) (n - length xs)
      else if g < n then Hit_bumper (put_bytes h dest (take g xs))
      else Out_of_space (put_bytes h dest (take n xs)))"

lemma tracks_far:
  "tracks below bumper dest src g \<Longrightarrow> k < g \<Longrightarrow> (if below then dest + k else src + k) \<noteq> bumper"
  by (auto simp: tracks_def)

lemma tracks_at: "tracks below bumper dest src g \<Longrightarrow> (if below then dest + g else src + g) = bumper"
  by (auto simp: tracks_def)

lemma tracks_unwritten:
  "tracks below bumper dest src g \<Longrightarrow> length xs < g \<Longrightarrow>
   put_bytes h dest xs (src + length xs) = h (src + length xs)"
  by (auto simp: tracks_def put_bytes_def split: if_splits)

lemma ncopy_loop_result:
  assumes xs: "if trunc then chars_at h src xs \<and> length xs = slen
               else cstr h src xs \<and> length xs < slen"
    and t: "tracks below bumper dest src g" and m: "mapped h dest n"
  shows "ncopy_loop below bumper h dest src n slen = Some (copy_result trunc h dest n g xs)"
proof -
  define k where "k = min (length xs) (min n g)"
  have kx: "length (take k xs) = k"
    by (simp add: k_def)
  have le: "k \<le> length xs" "k \<le> n" "k \<le> g" "k \<le> slen" "chars_at h src xs"
    using xs by (auto simp: k_def cstr_def split: if_splits)
  have steps: "ncopy_loop below bumper h dest src n slen
      = ncopy_loop below bumper (put_bytes h dest (take k xs)) (dest + k) (src + k) (n - k) (slen - k)"
    using ncopy_loop_steps [OF chars_at_take [OF le(5)], of k n g slen below bumper dest]
      t mapped_mono [OF m le(2)] le
    by (simp only: kx)
  consider "k = n" "n \<le> g" | "k = g" "g < n" | "k = length xs" "k < n" "k < g"
    unfolding k_def by linarith
  then show ?thesis
  proof cases
    case 1
    then have "\<not> length xs < n" by (simp add: k_def)
    with 1 show ?thesis by (simp add: steps copy_result_def)
  next
    case 2
    then obtain r where r: "n - k = Suc r" by (cases "n - k") auto
    from 2 have "\<not> length xs < g" by (simp add: k_def)
    with 2 r tracks_at [OF t] show ?thesis by (simp add: steps copy_result_def)
  next
    case 3
    then obtain r where r: "n - k = Suc r" by (cases "n - k") auto
    have b: "(if below then dest + length xs else src + length xs) \<noteq> bumper"
      using tracks_far [OF t] 3 by simp
    show ?thesis
    proof (cases trunc)
      case True
      with xs have "slen = length xs" by simp
      with True xs 3 r b steps show ?thesis
        by (simp only:) (simp add: copy_result_def split del: if_split)
    next
      case False
      then have "put_bytes h dest xs (src + k) = Some 0"
        using 3 xs tracks_unwritten [OF t, of xs] by (simp add: cstr_def)
      moreover have "put_bytes h dest xs (dest + k) \<noteq> None"
        using 3 m mapped_at [of h dest n "dest + k"] by (simp add: put_bytes_outside)
      ultimately show ?thesis
        using 3 r b False xs
        by (simp add: steps copy_result_def rd8_def wr8_mapped put_bytes_append put_bytes_single)
    qed
  qed
qed

lemma copy_loop_result:
  assumes "cstr h src xs" "tracks below bumper dest src g" "mapped h dest n"
  shows "copy_loop below bumper h dest src n = Some (copy_result False h dest n g xs)"
  using ncopy_loop_result [of False h src xs "max n (Suc (length xs))"] assms
  by (subst copy_loop_ncopy [of _ "max n (Suc (length xs))"]) simp_all

subsection \<open>What a string writer leaves behind\<close>

definition padded :: "bool \<Rightarrow> nat \<Rightarrow> byte list \<Rightarrow> byte list" where
  "padded slack n xs = xs @ (if slack then replicate (n - length xs) 0 else [0])"

lemma length_padded: "length xs < n \<Longrightarrow> length (padded slack n xs) \<le> n"
  by (simp add: padded_def)

lemma length_padded_gt: "length xs < n \<Longrightarrow> length xs < length (padded slack n xs)"
  by (simp add: padded_def)

lemma put_bytes_twice:
  "length bs \<le> length cs \<Longrightarrow> put_bytes (put_bytes h a bs) a cs = put_bytes h a cs"
  by (rule ext) (simp add: put_bytes_def)

lemma put_bytes_back:
  assumes "mapped h a (length bs)" "bytes_of h a (length bs) = bs"
  shows "put_bytes h a bs = h"
proof
  fix x
  show "put_bytes h a bs x = h x"
  proof (cases "a \<le> x \<and> x < a + length bs")
    case True
    then obtain i where i: "x = a + i" "i < length bs"
      by (metis le_iff_add nat_add_left_cancel_less)
    with assms(1) obtain v where "h x = Some v"
      by (auto dest: mapped_Some)
    with i assms(2) show ?thesis
      by (metis nth_bytes_of option.sel put_bytes_inside)
  qed (auto simp: put_bytes_outside)
qed

lemma terminate_ok:
  "mapped h dest n \<Longrightarrow> 0 < n \<Longrightarrow>
   terminate slack h dest n = Some (put_bytes h dest (padded slack n []))"
  using mapped_Some [of h dest n 0]
  by (auto simp: terminate_def null_fill_ok padded_def put_bytes_single wr8_mapped)

lemma cstr_padded: "length xs < n \<Longrightarrow> 0 \<notin> set xs \<Longrightarrow> cstr (put_bytes h a (padded slack n xs)) a xs"
proof -
  assume xs: "length xs < n" "0 \<notin> set xs"
  define zs where "zs = (if slack then replicate (n - length xs - 1) (0 :: byte) else [])"
  have "padded slack n xs = (xs @ [0]) @ zs"
    using xs(1) by (cases "n - length xs") (auto simp: padded_def zs_def)
  then have "put_bytes h a (padded slack n xs) x = put_bytes h a (xs @ [0]) x" if "x \<le> a + length xs" for x
    using that put_bytes_append [of h a "xs @ [0]" zs] by (simp add: put_bytes_outside)
  with cstr_put_bytes [OF xs(2), of h a] show ?thesis
    by (simp add: cstr_def chars_at_def)
qed

text \<open>
  The effect every bounded string writer has: the new text with its terminator, or the empty string
  over a partial copy and one call of the handler.
\<close>

definition string_effect ::
  "bool \<Rightarrow> addr \<Rightarrow> nat \<Rightarrow> errno \<Rightarrow> string \<Rightarrow> byte list \<Rightarrow> byte list \<Rightarrow> cstate \<Rightarrow>
   errno outcome \<times> cstate" where
  "string_effect slack dest dmax e msg part new s =
     (if e = EOK
      then (Returned EOK, s\<lparr>mem := put_bytes (mem s) dest (padded slack dmax new)\<rparr>)
      else str_fail msg e e
             (s\<lparr>mem := put_bytes (put_bytes (mem s) dest part) dest (padded slack dmax [])\<rparr>))"

definition text_verdict :: "nat \<Rightarrow> nat \<Rightarrow> nat \<Rightarrow> errno" where
  "text_verdict n g len = (if len < n \<and> len < g then EOK else if g < n then ESOVRLP else ESNOSPC)"

definition copy_message :: "string \<Rightarrow> errno \<Rightarrow> string" where
  "copy_message name e =
     name @ (if e = ESOVRLP then '': overlapping objects'' else '': not enough space for src'')"

lemma handle_error_effect:
  "mapped (mem s) dest dmax \<Longrightarrow> 0 < dmax \<Longrightarrow> e \<noteq> EOK \<Longrightarrow>
   handle_error slack dest dmax msg e e (s\<lparr>mem := put_bytes (mem s) dest part\<rparr>)
     = Some (string_effect slack dest dmax e msg part new s)"
  by (simp add: handle_error_def terminate_ok string_effect_def)

lemma handle_error_effect_Nil:
  "mapped (mem s) dest dmax \<Longrightarrow> 0 < dmax \<Longrightarrow> e \<noteq> EOK \<Longrightarrow>
   handle_error slack dest dmax msg e e s = Some (string_effect slack dest dmax e msg [] new s)"
  using handle_error_effect [where part = "[]"] by simp

lemma finish_copy_effect:
  assumes m: "mapped (mem s) dest dmax" and n: "length old < dmax"
    and old: "bytes_of (mem s) dest (length old) = old"
  shows "\<exists>part. length part \<le> dmax \<and>
     finish_copy slack name dest dmax
       (copy_result trunc (mem s) (dest + length old) (dmax - length old) g xs) s
     = Some (string_effect slack dest dmax (text_verdict (dmax - length old) g (length xs))
               (copy_message name (text_verdict (dmax - length old) g (length xs))) part (old @ xs) s)"
proof -
  let ?h = "mem s" and ?d = "dest + length old" and ?n = "dmax - length old"
  have md: "mapped ?h ?d ?n" "mapped ?h dest (length old)"
    using m n by (auto intro: mapped_sub mapped_mono)
  have put: "put_bytes ?h ?d ys = put_bytes ?h dest (old @ ys)" for ys
    using put_bytes_back [OF md(2) old] by (simp add: put_bytes_append)
  consider "length xs < ?n" "length xs < g" | "g < ?n" "\<not> (length xs < ?n \<and> length xs < g)"
    | "\<not> g < ?n" "\<not> (length xs < ?n \<and> length xs < g)" by blast
  then show ?thesis
  proof cases
    case 1
    let ?r = "?n - length xs"
    have r: "dmax - length (old @ xs) = ?r" "0 < ?r" using 1 by auto
    have mr: "mapped ?h (?d + length xs) ?r"
      using mapped_sub [OF md(1), of "length xs" ?r] 1 by simp
    have "put_bytes (put_bytes ?h ?d xs) (?d + length xs) (padded slack ?r [])
        = put_bytes ?h dest (padded slack dmax (old @ xs))"
      using r by (simp add: put put_bytes_append padded_def flip: add.assoc)
    then have "finish_copy slack name dest dmax (copy_result trunc ?h ?d ?n g xs) s
        = Some (Returned EOK, s\<lparr>mem := put_bytes ?h dest (padded slack dmax (old @ xs))\<rparr>)"
      using 1 r(2) mr
      by (cases trunc; cases slack)
         (auto simp: copy_result_def terminate_ok slack_fill_def null_fill_ok padded_def put_bytes_append
            put_bytes_twice)
    then show ?thesis
      using 1 by (intro exI [of _ "[]"]) (simp add: text_verdict_def string_effect_def)
  next
    case 2
    then show ?thesis
      using m n by (intro exI [of _ "old @ take g xs"])
        (auto simp: copy_result_def text_verdict_def copy_message_def put
           handle_error_effect [where e = ESOVRLP and new = "old @ xs"])
  next
    case 3
    then show ?thesis
      using m n by (intro exI [of _ "old @ take ?n xs"])
        (auto simp: copy_result_def text_verdict_def copy_message_def put
           handle_error_effect [where e = ESNOSPC and new = "old @ xs"])
  qed
qed

subsection \<open>The search for the end of the destination\<close>

text \<open>\<open>old\<close> is the text of \<open>dest\<close>, cut at \<open>dmax\<close> characters when it has no terminator before.\<close>

definition dest_text :: "heap \<Rightarrow> addr \<Rightarrow> nat \<Rightarrow> byte list \<Rightarrow> bool" where
  "dest_text h dest dmax old \<longleftrightarrow>
     (if length old < dmax then cstr h dest old else length old = dmax \<and> chars_at h dest old)"

definition scan_result :: "bool \<Rightarrow> nat \<Rightarrow> addr \<Rightarrow> nat \<Rightarrow> byte list \<Rightarrow> scan_end" where
  "scan_result below g dest dmax old =
     (if below \<and> g < length old then Ran_into_src
      else if length old < dmax then Found (dest + length old) (dmax - length old)
      else Unterminated)"

lemma dest_text_Cons:
  "dest_text h dest (Suc n) (c # old) \<longleftrightarrow> h dest = Some c \<and> c \<noteq> 0 \<and> dest_text h (Suc dest) n old"
  by (auto simp: dest_text_def cstr_Cons chars_at_Cons)

lemma find_end_steps:
  "h dest = Some 0 \<Longrightarrow> find_end below bumper h dest n = Some (Found dest n)"
  "h dest = Some c \<Longrightarrow> c \<noteq> 0 \<Longrightarrow> find_end below bumper h dest (Suc n) =
     (if below \<and> dest = bumper then Some Ran_into_src
      else if n = 0 then Some Unterminated else find_end below bumper h (Suc dest) n)"
  by (subst find_end.simps, simp add: rd8_def)+

lemma find_end_result:
  "dest_text h dest dmax old \<Longrightarrow> 0 < dmax \<Longrightarrow> (below \<Longrightarrow> bumper = dest + g) \<Longrightarrow>
   find_end below bumper h dest dmax = Some (scan_result below g dest dmax old)"
proof (induction old arbitrary: dest dmax g)
  case Nil
  then show ?case
    by (simp add: dest_text_def cstr_def scan_result_def find_end_steps(1))
next
  case (Cons c old)
  then obtain n where n: "dmax = Suc n" by (cases dmax) auto
  note c = Cons.prems(1) [unfolded n dest_text_Cons]
  have step: "find_end below bumper h dest dmax =
     (if below \<and> dest = bumper then Some Ran_into_src
      else if n = 0 then Some Unterminated else find_end below bumper h (Suc dest) n)"
    unfolding n using c by (intro find_end_steps(2)) blast+
  consider "below" "g = 0" | "\<not> (below \<and> g = 0)" "n = 0" | "\<not> (below \<and> g = 0)" "0 < n"
    by blast
  then show ?case
  proof cases
    case 1
    with step Cons.prems(3) show ?thesis by (simp add: scan_result_def)
  next
    case 2
    then have "old = []" using c by (simp add: dest_text_def split: if_splits)
    with 2 n step Cons.prems(3) show ?thesis by (auto simp: scan_result_def)
  next
    case 3
    then obtain g' where g: "below \<Longrightarrow> g = Suc g'" by (cases g) auto
    have "find_end below bumper h (Suc dest) n = Some (scan_result below g' (Suc dest) n old)"
      using Cons.IH [of "Suc dest" n g'] c 3(2) Cons.prems(3) g by simp
    moreover have "\<not> (below \<and> dest = bumper)"
      using 3(1) Cons.prems(3) by auto
    ultimately show ?thesis
      using step g n 3(2) by (cases below) (simp_all add: scan_result_def)
  qed
qed

lemma dest_text_bytes: "dest_text h dest dmax old \<Longrightarrow> bytes_of h dest (length old) = old"
  by (auto simp: dest_text_def cstr_def chars_at_bytes split: if_splits)

lemma dest_text_nonzero: "dest_text h dest dmax old \<Longrightarrow> 0 \<notin> set old"
  by (auto simp: dest_text_def cstr_def chars_at_def in_set_conv_nth split: if_splits)

subsection \<open>The contract of a string writer\<close>

text \<open>
  The contract \<open>strcpy_s\<close>, \<open>strncpy_s\<close>, \<open>strcat_s\<close> and \<open>strncat_s\<close> share.  \<open>args\<close> is what a call has
  beside \<open>dest\<close> and \<open>dmax\<close>, together with the texts the memory holds; \<open>ready\<close> is the part of the
  precondition the callee cannot check (the objects exist); \<open>verdict\<close> and \<open>new_text\<close> are the
  result.
\<close>

locale string_writer =
  fixes run :: "bool \<Rightarrow> 'a \<Rightarrow> addr \<Rightarrow> nat \<Rightarrow> cstate \<Rightarrow> errno crun"
    and ready :: "'a \<Rightarrow> heap \<Rightarrow> addr \<Rightarrow> nat \<Rightarrow> bool"
    and verdict :: "'a \<Rightarrow> addr \<Rightarrow> nat \<Rightarrow> errno"
    and new_text :: "'a \<Rightarrow> byte list"
  assumes room: "ready args h dest dmax \<Longrightarrow> mapped h dest dmax \<and> 0 < dmax"
    and effect: "ready args (mem s) dest dmax \<Longrightarrow>
      \<exists>msg part. length part \<le> dmax \<and> run slack args dest dmax s
        = Some (string_effect slack dest dmax (verdict args dest dmax) msg part (new_text args) s)"
    and fits: "ready args h dest dmax \<Longrightarrow> verdict args dest dmax = EOK \<Longrightarrow>
      length (new_text args) < dmax \<and> 0 \<notin> set (new_text args)"
begin

lemma no_undefined_behaviour: "ready args (mem s) dest dmax \<Longrightarrow> run slack args dest dmax s \<noteq> None"
  using effect [of args s dest dmax slack] by auto

lemma run_cases:
  assumes "ready args (mem s) dest dmax" "run slack args dest dmax s = Some (r, s')"
  obtains (ok) "verdict args dest dmax = EOK" "r = Returned EOK" "calls s' = calls s"
      "mem s' = put_bytes (mem s) dest (padded slack dmax (new_text args))"
    | (violation) msg part where "verdict args dest dmax \<noteq> EOK" "length part \<le> dmax"
      "r = handler_outcome (active (str_handler s)) (verdict args dest dmax)"
      "calls s' = calls s @ [\<lparr>called = active (str_handler s), message = msg,
         code = verdict args dest dmax\<rparr>]"
      "mem s' = put_bytes (put_bytes (mem s) dest part) dest (padded slack dmax [])"
proof -
  obtain msg part where "length part \<le> dmax"
    and *: "(r, s') = string_effect slack dest dmax (verdict args dest dmax) msg part (new_text args) s"
    using effect [OF assms(1), of slack] assms(2) by auto
  with that show thesis
    by (cases "verdict args dest dmax = EOK") (auto simp: string_effect_def str_fail_eq)
qed

lemma ok_iff:
  assumes "ready args (mem s) dest dmax" "run slack args dest dmax s = Some (r, s')"
  shows "r = Returned EOK \<longleftrightarrow> verdict args dest dmax = EOK"
    and "calls s' = calls s \<longleftrightarrow> verdict args dest dmax = EOK"
  by (rule run_cases [OF assms]; cases "active (str_handler s)"; simp)+

lemma result_code:
  assumes "ready args (mem s) dest dmax" "run slack args dest dmax s = Some (Returned e, s')"
  shows "e = verdict args dest dmax"
  by (rule run_cases [OF assms]; cases "active (str_handler s)"; simp)

lemma holds_text:
  assumes "ready args (mem s) dest dmax" "run slack args dest dmax s = Some (r, s')"
  shows "cstr (mem s') dest (if verdict args dest dmax = EOK then new_text args else [])"
  using fits [OF assms(1)] room [OF assms(1)]
  by (cases rule: run_cases [OF assms]) (simp_all add: cstr_padded)

lemma terminated:
  assumes "ready args (mem s) dest dmax" "run slack args dest dmax s = Some (r, s')"
  shows "\<exists>txs. length txs < dmax \<and> cstr (mem s') dest txs"
  using holds_text [OF assms] fits [OF assms(1)] room [OF assms(1)] by (metis list.size(3))

lemma frame:
  assumes "ready args (mem s) dest dmax" "run slack args dest dmax s = Some (r, s')"
    and "x < dest \<or> dest + dmax \<le> x"
  shows "mem s' x = mem s x"
  using assms(3) fits [OF assms(1)] room [OF assms(1)]
    length_padded [of "new_text args" dmax slack] length_padded [of "[]" dmax slack]
  by (cases rule: run_cases [OF assms(1,2)]) (auto simp: put_bytes_outside)

lemma same_objects:
  assumes r: "ready args (mem s) dest dmax" "run slack args dest dmax s = Some (r, s')"
  shows "dom (mem s') = dom (mem s)"
proof -
  have m: "mapped (mem s) dest (length bs)" if "length bs \<le> dmax" for bs :: "byte list"
    using room [OF r(1)] that mapped_mono by blast
  show ?thesis
    using fits [OF r(1)] room [OF r(1)]
      length_padded [of "new_text args" dmax slack] length_padded [of "[]" dmax slack]
    by (cases rule: run_cases [OF r]) (simp_all add: dom_put_bytes m)
qed

lemma slack_is_nulled:
  assumes "ready args (mem s) dest dmax" "run True args dest dmax s = Some (Returned EOK, s')"
    and "length (new_text args) \<le> i" "i < dmax"
  shows "mem s' (dest + i) = Some 0"
proof -
  have "verdict args dest dmax = EOK"
    using ok_iff(1) [OF assms(1,2)] by simp
  with assms(3,4) fits [OF assms(1)] show ?thesis
    by (cases rule: run_cases [OF assms(1,2)])
       (simp_all add: padded_def put_bytes_inside nth_append)
qed

end

end
