(* ===== verification/Safe_Str_Copy.thy ===== *)
theory Safe_Str_Copy
  imports Safe_Str
begin

text \<open>
  The bounded string copies: \<open>strcpy_s.c\<close>, \<open>strncpy_s.c\<close>, \<open>stpcpy_s.c\<close> and \<open>strcpyfldin_s.c\<close>.  The
  two loops each function has, for \<open>dest < src\<close> and for the other case, are one loop with the
  pointer it watches as a parameter.  \<open>strcpy_s\<close> and \<open>strncpy_s\<close> keep the contract \<open>string_writer\<close>.
\<close>

subsection \<open>\<open>strcpy_s\<close> and \<open>strncpy_s\<close>\<close>

definition strcpy_s :: "bool \<Rightarrow> addr \<Rightarrow> nat \<Rightarrow> addr \<Rightarrow> cstate \<Rightarrow> errno crun" where
  "strcpy_s slack dest dmax src s =
     (if dest = NULL then Some (str_fail ''strcpy_s: dest is null'' ESNULLP ESNULLP s)
      else if dmax = 0 then Some (str_fail ''strcpy_s: dmax is 0'' ESZEROL ESZEROL s)
      else if dmax > RSIZE_MAX_STR
        then Some (str_fail ''strcpy_s: dmax exceeds max'' ESLEMAX ESLEMAX s)
      else if src = NULL
        then do { m \<leftarrow> terminate slack (mem s) dest dmax;
                  Some (str_fail ''strcpy_s: src is null'' ESNULLP ESNULLP (s\<lparr>mem := m\<rparr>)) }
      else if dest = src then Some (Returned EOK, s)
      else do { e \<leftarrow> copy_loop (dest < src) (if dest < src then src else dest) (mem s) dest src dmax;
                finish_copy slack ''strcpy_s'' dest dmax e s })"

definition strncpy_s :: "bool \<Rightarrow> addr \<Rightarrow> nat \<Rightarrow> addr \<Rightarrow> nat \<Rightarrow> cstate \<Rightarrow> errno crun" where
  "strncpy_s slack dest dmax src slen s =
     (if dest = NULL then Some (str_fail ''strncpy_s: dest is null'' ESNULLP ESNULLP s)
      else if dmax = 0 then Some (str_fail ''strncpy_s: dmax is 0'' ESZEROL ESZEROL s)
      else if dmax > RSIZE_MAX_STR
        then Some (str_fail ''strncpy_s: dmax exceeds max'' ESLEMAX ESLEMAX s)
      else if src = NULL
        then handle_error slack dest dmax ''strncpy_s: src is null'' ESNULLP ESNULLP s
      else if slen = 0
        then handle_error slack dest dmax ''strncpy_s: slen is zero'' ESZEROL ESZEROL s
      else if slen > RSIZE_MAX_STR
        then handle_error slack dest dmax ''strncpy_s: slen exceeds max'' ESLEMAX ESLEMAX s
      else do { e \<leftarrow> ncopy_loop (dest < src) (if dest < src then src else dest) (mem s) dest src
                       dmax slen;
                finish_copy slack ''strncpy_s'' dest dmax e s })"

text \<open>\<open>gap a b\<close> is the distance of two pointers.\<close>

definition gap :: "addr \<Rightarrow> addr \<Rightarrow> nat" where
  "gap a b = (if a < b then b - a else a - b)"

lemma tracks_start:
  "tracks (dest < src) (if dest < src then src else dest) dest src (gap dest src)"
  by (auto simp: tracks_def gap_def)

text \<open>\<open>src_text h src slen xs\<close>: the next \<open>slen\<close> characters of \<open>src\<close>, up to its terminator.\<close>

definition src_text :: "heap \<Rightarrow> addr \<Rightarrow> nat \<Rightarrow> byte list \<Rightarrow> bool" where
  "src_text h src slen xs \<longleftrightarrow>
     (if length xs = slen then chars_at h src xs else length xs < slen \<and> cstr h src xs)"

lemma src_text_nonzero: "src_text h src slen xs \<Longrightarrow> 0 \<notin> set xs"
  by (auto simp: src_text_def cstr_def chars_at_def in_set_conv_nth split: if_splits)

lemma cstr_nonzero: "cstr h src xs \<Longrightarrow> 0 \<notin> set xs"
  by (auto simp: cstr_def chars_at_def in_set_conv_nth)

lemma ncopy_loop_src_text:
  "src_text h src slen xs \<Longrightarrow> tracks below bumper dest src g \<Longrightarrow> mapped h dest n \<Longrightarrow>
   ncopy_loop below bumper h dest src n slen
     = Some (copy_result (length xs = slen) h dest n g xs)"
  by (rule ncopy_loop_result) (simp_all add: src_text_def)

text \<open>The part of the precondition no check of the callee can establish.\<close>

definition writable :: "heap \<Rightarrow> addr \<Rightarrow> nat \<Rightarrow> bool" where
  "writable h dest dmax \<longleftrightarrow> dest \<noteq> 0 \<and> 0 < dmax \<and> dmax \<le> RSIZE_MAX_STR \<and> mapped h dest dmax"

lemma writable_room:
  "writable h dest dmax \<Longrightarrow> mapped h dest dmax" "writable h dest dmax \<Longrightarrow> 0 < dmax"
  by (simp_all add: writable_def)

lemma copy_ok: "text_verdict n g len = EOK \<longleftrightarrow> len < n \<and> len < g"
  by (simp add: text_verdict_def)

lemma strcpy_s_effect:
  assumes w: "writable (mem s) dest dmax" and src: "src \<noteq> 0" "src \<noteq> dest" "cstr (mem s) src xs"
  shows "\<exists>msg part. length part \<le> dmax \<and> strcpy_s slack dest dmax src s
    = Some (string_effect slack dest dmax (text_verdict dmax (gap dest src) (length xs)) msg part xs s)"
proof -
  have "copy_loop (dest < src) (if dest < src then src else dest) (mem s) dest src dmax
      = Some (copy_result False (mem s) dest dmax (gap dest src) xs)"
    using w src(3) by (intro copy_loop_result tracks_start) (simp_all add: writable_def)
  then show ?thesis
    using w src finish_copy_effect [of s dest dmax "[]" slack "''strcpy_s''" False "gap dest src" xs]
    by (auto simp: strcpy_s_def writable_def bytes_of_def)
qed

lemma strncpy_s_effect:
  assumes w: "writable (mem s) dest dmax" and src: "src \<noteq> 0" "src_text (mem s) src slen xs"
    and slen: "0 < slen" "slen \<le> RSIZE_MAX_STR"
  shows "\<exists>msg part. length part \<le> dmax \<and> strncpy_s slack dest dmax src slen s
    = Some (string_effect slack dest dmax (text_verdict dmax (gap dest src) (length xs)) msg part xs s)"
proof -
  have "ncopy_loop (dest < src) (if dest < src then src else dest) (mem s) dest src dmax slen
      = Some (copy_result (length xs = slen) (mem s) dest dmax (gap dest src) xs)"
    using w src(2) by (intro ncopy_loop_src_text tracks_start) (simp_all add: writable_def)
  then show ?thesis
    using w src slen finish_copy_effect
      [of s dest dmax "[]" slack "''strncpy_s''" "length xs = slen" "gap dest src" xs]
    by (auto simp: strncpy_s_def writable_def bytes_of_def)
qed

interpretation strcpy: string_writer
  "\<lambda>slack (src, xs) dest dmax. strcpy_s slack dest dmax src"
  "\<lambda>(src, xs) h dest dmax. writable h dest dmax \<and> src \<noteq> 0 \<and> src \<noteq> dest \<and> cstr h src xs"
  "\<lambda>(src, xs) dest dmax. text_verdict dmax (gap dest src) (length xs)"
  "\<lambda>(src, xs). xs"
  by unfold_locales
     (auto simp: cstr_nonzero copy_ok writable_room intro!: strcpy_s_effect)

interpretation strncpy: string_writer
  "\<lambda>slack (src, slen, xs) dest dmax. strncpy_s slack dest dmax src slen"
  "\<lambda>(src, slen, xs) h dest dmax. writable h dest dmax \<and> src \<noteq> 0 \<and> 0 < slen \<and>
     slen \<le> RSIZE_MAX_STR \<and> src_text h src slen xs"
  "\<lambda>(src, slen, xs) dest dmax. text_verdict dmax (gap dest src) (length xs)"
  "\<lambda>(src, slen, xs). xs"
  by unfold_locales
     (auto simp: src_text_nonzero copy_ok writable_room intro!: strncpy_s_effect)

end
