(* ===== verification/Safe_Str_Cat.thy ===== *)
theory Safe_Str_Cat
  imports Safe_Str_Copy
begin

text \<open>
  The bounded concatenations: \<open>strcat_s.c\<close> and \<open>strncat_s.c\<close>, a search for the end of \<open>dest\<close>
  followed by the copy loop of \<open>strcpy_s\<close> or \<open>strncpy_s\<close>.
\<close>

definition strcat_s :: "bool \<Rightarrow> addr \<Rightarrow> nat \<Rightarrow> addr \<Rightarrow> cstate \<Rightarrow> errno crun" where
  "strcat_s slack dest dmax src s =
     (if dest = NULL then Some (str_fail ''strcat_s: dest is null'' ESNULLP ESNULLP s)
      else if src = NULL then Some (str_fail ''strcat_s: src is null'' ESNULLP ESNULLP s)
      else if dmax = 0 then Some (str_fail ''strcat_s: dmax is 0'' ESZEROL ESZEROL s)
      else if dmax > RSIZE_MAX_STR
        then Some (str_fail ''strcat_s: dmax exceeds max'' ESLEMAX ESLEMAX s)
      else do {
        let below = dest < src;
        let overlap_bumper = (if below then src else dest);
        p \<leftarrow> find_end below overlap_bumper (mem s) dest dmax;
        case p of
          Ran_into_src \<Rightarrow>
            handle_error slack dest dmax ''strcat_s: overlapping objects'' ESOVRLP ESOVRLP s
        | Unterminated \<Rightarrow>
            handle_error slack dest dmax ''strcat_s: dest unterminated'' ESUNTERM ESUNTERM s
        | Found dest' dmax' \<Rightarrow>
            do { e \<leftarrow> copy_loop below overlap_bumper (mem s) dest' src dmax';
                 finish_copy slack ''strcat_s'' dest dmax e s } })"

definition strncat_s :: "bool \<Rightarrow> addr \<Rightarrow> nat \<Rightarrow> addr \<Rightarrow> nat \<Rightarrow> cstate \<Rightarrow> errno crun" where
  "strncat_s slack dest dmax src slen s =
     (if dest = NULL then Some (str_fail ''strncat_s: dest is null'' ESNULLP ESNULLP s)
      else if src = NULL then Some (str_fail ''strncat_s: src is null'' ESNULLP ESNULLP s)
      else if slen > RSIZE_MAX_STR
        then Some (str_fail ''strncat_s: slen exceeds max'' ESLEMAX ESLEMAX s)
      else if dmax = 0 then Some (str_fail ''strncat_s: dmax is 0'' ESZEROL ESZEROL s)
      else if dmax > RSIZE_MAX_STR
        then Some (str_fail ''strncat_s: dmax exceeds max'' ESLEMAX ESLEMAX s)
      else do {
        let below = dest < src;
        let overlap_bumper = (if below then src else dest);
        p \<leftarrow> find_end below overlap_bumper (mem s) dest dmax;
        case p of
          Ran_into_src \<Rightarrow>
            handle_error slack dest dmax ''strncat_s: overlapping objects'' ESOVRLP ESOVRLP s
        | Unterminated \<Rightarrow>
            handle_error slack dest dmax ''strncat_s: dest unterminated'' ESUNTERM ESUNTERM s
        | Found dest' dmax' \<Rightarrow>
            do { e \<leftarrow> ncopy_loop below overlap_bumper (mem s) dest' src dmax' slen;
                 finish_copy slack ''strncat_s'' dest dmax e s } })"

text \<open>
  The result for a \<open>dest\<close> text of \<open>k\<close> characters and \<open>len\<close> characters to append.
\<close>

definition cat_verdict :: "addr \<Rightarrow> nat \<Rightarrow> addr \<Rightarrow> nat \<Rightarrow> nat \<Rightarrow> errno" where
  "cat_verdict dest dmax src k len =
     (if dest < src \<and> gap dest src < k then ESOVRLP
      else if dmax \<le> k then ESUNTERM
      else text_verdict (dmax - k) (if dest < src then gap dest src - k else gap dest src) len)"

lemma tracks_after:
  "\<not> (dest < src \<and> gap dest src < k) \<Longrightarrow>
   tracks (dest < src) (if dest < src then src else dest) (dest + k) src
     (if dest < src then gap dest src - k else gap dest src)"
  by (auto simp: tracks_def gap_def)

lemma scan_start:
  assumes "writable h dest dmax" "dest_text h dest dmax old"
  shows "find_end (dest < src) (if dest < src then src else dest) h dest dmax
     = Some (scan_result (dest < src) (gap dest src) dest dmax old)"
  using assms by (intro find_end_result) (auto simp: writable_def gap_def)

lemma strcat_s_effect:
  assumes w: "writable (mem s) dest dmax" and src: "src \<noteq> 0" "cstr (mem s) src xs"
    and old: "dest_text (mem s) dest dmax old"
  shows "\<exists>msg part. length part \<le> dmax \<and> strcat_s slack dest dmax src s
    = Some (string_effect slack dest dmax (cat_verdict dest dmax src (length old) (length xs)) msg part
              (old @ xs) s)"
proof -
  let ?g = "if dest < src then gap dest src - length old else gap dest src"
  note w' = writable_room [OF w] and scan = scan_start [OF w old, of src]
  show ?thesis
  proof (cases "\<not> (dest < src \<and> gap dest src < length old) \<and> length old < dmax")
    case True
    have "copy_loop (dest < src) (if dest < src then src else dest) (mem s) (dest + length old) src
            (dmax - length old)
        = Some (copy_result False (mem s) (dest + length old) (dmax - length old) ?g xs)"
      using True w' src(2) by (intro copy_loop_result tracks_after) (auto intro: mapped_sub)
    moreover have "find_end (dest < src) (if dest < src then src else dest) (mem s) dest dmax
        = Some (Found (dest + length old) (dmax - length old))"
      using True scan by (simp add: scan_result_def)
    ultimately have run: "strcat_s slack dest dmax src s = finish_copy slack ''strcat_s'' dest dmax
        (copy_result (False) (mem s) (dest + length old) (dmax - length old) ?g xs) s"
      using w src
      by (simp add: strcat_s_def writable_def Let_def split del: if_split)
    have v: "cat_verdict dest dmax src (length old) (length xs)
        = text_verdict (dmax - length old) ?g (length xs)"
      using True by (auto simp: cat_verdict_def)
    show ?thesis
      unfolding run v using True finish_copy_effect [OF w'(1) _ dest_text_bytes [OF old]] by blast
  next
    case False
    then show ?thesis
      using w src scan w'
      by (intro exI [of _ "''strcat_s: '' @ (if dest < src \<and> gap dest src < length old
            then ''overlapping objects'' else ''dest unterminated'')"] exI [of _ "[]"])
         (auto simp: strcat_s_def writable_def scan_result_def cat_verdict_def
            handle_error_effect_Nil [where new = "old @ xs"])
  qed
qed

lemma strncat_s_effect:
  assumes w: "writable (mem s) dest dmax" and src: "src \<noteq> 0" "src_text (mem s) src slen xs"
    and old: "dest_text (mem s) dest dmax old" and slen: "slen \<le> RSIZE_MAX_STR"
  shows "\<exists>msg part. length part \<le> dmax \<and> strncat_s slack dest dmax src slen s
    = Some (string_effect slack dest dmax (cat_verdict dest dmax src (length old) (length xs)) msg part
              (old @ xs) s)"
proof -
  let ?g = "if dest < src then gap dest src - length old else gap dest src"
  note w' = writable_room [OF w] and scan = scan_start [OF w old, of src]
  show ?thesis
  proof (cases "\<not> (dest < src \<and> gap dest src < length old) \<and> length old < dmax")
    case True
    have "ncopy_loop (dest < src) (if dest < src then src else dest) (mem s) (dest + length old) src
            (dmax - length old) slen
        = Some (copy_result (length xs = slen) (mem s) (dest + length old) (dmax - length old) ?g xs)"
      using True w' src(2) by (intro ncopy_loop_src_text tracks_after) (auto intro: mapped_sub)
    moreover have "find_end (dest < src) (if dest < src then src else dest) (mem s) dest dmax
        = Some (Found (dest + length old) (dmax - length old))"
      using True scan by (simp add: scan_result_def)
    ultimately have run: "strncat_s slack dest dmax src slen s = finish_copy slack ''strncat_s'' dest dmax
        (copy_result (length xs = slen) (mem s) (dest + length old) (dmax - length old) ?g xs) s"
      using w src slen
      by (simp add: strncat_s_def writable_def Let_def split del: if_split)
    have v: "cat_verdict dest dmax src (length old) (length xs)
        = text_verdict (dmax - length old) ?g (length xs)"
      using True by (auto simp: cat_verdict_def)
    show ?thesis
      unfolding run v using True finish_copy_effect [OF w'(1) _ dest_text_bytes [OF old]] by blast
  next
    case False
    then show ?thesis
      using w src slen scan w'
      by (intro exI [of _ "''strncat_s: '' @ (if dest < src \<and> gap dest src < length old
            then ''overlapping objects'' else ''dest unterminated'')"] exI [of _ "[]"])
         (auto simp: strncat_s_def writable_def scan_result_def cat_verdict_def
            handle_error_effect_Nil [where new = "old @ xs"])
  qed
qed

lemma cat_ok:
  "cat_verdict dest dmax src k len = EOK \<longleftrightarrow> k + len < dmax \<and>
     (if dest < src then k + len < gap dest src else len < gap dest src)"
  by (auto simp: cat_verdict_def text_verdict_def)

interpretation strcat: string_writer
  "\<lambda>slack (src, old, xs) dest dmax. strcat_s slack dest dmax src"
  "\<lambda>(src, old, xs) h dest dmax. writable h dest dmax \<and> src \<noteq> 0 \<and> dest_text h dest dmax old \<and>
     cstr h src xs"
  "\<lambda>(src, old, xs) dest dmax. cat_verdict dest dmax src (length old) (length xs)"
  "\<lambda>(src, old, xs). old @ xs"
  by unfold_locales
     (auto simp: cstr_nonzero cat_ok writable_room dest_text_nonzero
        intro!: strcat_s_effect [simplified])

interpretation strncat: string_writer
  "\<lambda>slack (src, slen, old, xs) dest dmax. strncat_s slack dest dmax src slen"
  "\<lambda>(src, slen, old, xs) h dest dmax. writable h dest dmax \<and> src \<noteq> 0 \<and> slen \<le> RSIZE_MAX_STR \<and>
     dest_text h dest dmax old \<and> src_text h src slen xs"
  "\<lambda>(src, slen, old, xs) dest dmax. cat_verdict dest dmax src (length old) (length xs)"
  "\<lambda>(src, slen, old, xs). old @ xs"
  by unfold_locales
     (auto simp: src_text_nonzero cat_ok writable_room dest_text_nonzero
        intro!: strncat_s_effect [simplified])

subsection \<open>Properties\<close>


abbreviation (input) demo_heap :: heap where
  "demo_heap \<equiv> put_bytes (put_bytes Map.empty 16 [0, 0, 0, 0, 0, 0]) 64 [97, 98, 0]"

lemma demo_heap_facts:
  "cstr demo_heap 64 [97, 98]" "writable demo_heap 16 6" "cstr demo_heap 16 []"
proof -
  show "cstr demo_heap 64 [97, 98]"
    using cstr_put_bytes [of "[97, 98]" "put_bytes Map.empty 16 [0, 0, 0, 0, 0, 0]" 64] by simp
  show "writable demo_heap 16 6"
    by (simp add: writable_def RSIZE_MAX_STR_def mapped_put_range)
  show "cstr demo_heap 16 []"
    by (simp add: cstr_def put_bytes_def)
qed


text \<open>
  \<open>strncpy_s\<close>: the same contract for the first \<open>slen\<close> characters of \<open>src\<close>; \<open>src\<close> need not be
  terminated when it has \<open>slen\<close> characters, and the result always is.
\<close>
theorem strncpy_s_contract:
  assumes "writable (mem s) dest dmax" "src \<noteq> 0" "src_text (mem s) src slen xs"
    and "0 < slen" "slen \<le> RSIZE_MAX_STR"
  shows "\<exists>msg part. length part \<le> dmax \<and> strncpy_s slack dest dmax src slen s
    = Some (string_effect slack dest dmax (text_verdict dmax (gap dest src) (length xs)) msg part xs s)"
  using assms by (rule strncpy_s_effect)

theorem strncpy_s_contract_witness:
  "\<exists>msg part. length part \<le> 6 \<and> strncpy_s True 16 6 64 1 (demo_state demo_heap)
     = Some (string_effect True 16 6 EOK msg part [97] (demo_state demo_heap))"
  using strncpy_s_contract [of "demo_state demo_heap" 16 6 64 1 "[97]" True] demo_heap_facts
  by (simp add: text_verdict_def gap_def src_text_def cstr_Cons chars_at_Cons RSIZE_MAX_STR_def)

text \<open>
  \<open>strcat_s\<close>: it appends exactly when the old text, the new one and the terminator fit and the
  result does not run into \<open>src\<close>; an unterminated \<open>dest\<close> is \<open>ESUNTERM\<close>.  In every case the byte
  range of \<open>dest\<close> holds a terminated string afterwards.
\<close>
theorem strcat_s_contract:
  assumes "writable (mem s) dest dmax" "src \<noteq> 0" "cstr (mem s) src xs"
    and "dest_text (mem s) dest dmax old"
  shows "\<exists>msg part. length part \<le> dmax \<and> strcat_s slack dest dmax src s
    = Some (string_effect slack dest dmax (cat_verdict dest dmax src (length old) (length xs)) msg part
              (old @ xs) s)"
  using assms by (rule strcat_s_effect)

theorem strcat_s_contract_witness:
  "\<exists>msg part. length part \<le> 6 \<and> strcat_s False 16 6 64 (demo_state demo_heap)
     = Some (string_effect False 16 6 EOK msg part [97, 98] (demo_state demo_heap))"
  using strcat_s_contract [of "demo_state demo_heap" 16 6 64 "[97, 98]" "[]" False] demo_heap_facts
  by (simp add: cat_verdict_def text_verdict_def gap_def dest_text_def)

text \<open>
  \<open>strncat_s\<close> neither writes outside \<open>dest\<close> nor loses or adds objects, leaves a terminated
  string shorter than \<open>dmax\<close>, and returns \<open>EOK\<close> exactly when \<open>cat_verdict\<close> says so.
\<close>
theorem strncat_s_safe:
  assumes "writable (mem s) dest dmax" "src \<noteq> 0" "slen \<le> RSIZE_MAX_STR"
    and "dest_text (mem s) dest dmax old" "src_text (mem s) src slen xs"
  shows "\<exists>r s' final. strncat_s slack dest dmax src slen s = Some (r, s')
     \<and> (\<forall>x. x < dest \<or> dest + dmax \<le> x \<longrightarrow> mem s' x = mem s x) \<and> dom (mem s') = dom (mem s)
     \<and> length final < dmax \<and> cstr (mem s') dest final
     \<and> (r = Returned EOK \<longleftrightarrow> cat_verdict dest dmax src (length old) (length xs) = EOK)
     \<and> (r = Returned EOK \<longrightarrow> final = old @ xs)"
proof -
  let ?a = "(src, slen, old, xs)"
  obtain r s' where run: "strncat_s slack dest dmax src slen s = Some (r, s')"
    using strncat_s_effect [OF assms(1,2,5,4,3), of slack] by (auto simp: prod_eq_iff)
  obtain final where final: "length final < dmax" "cstr (mem s') dest final"
    using strncat.terminated [of ?a s dest dmax slack r s'] assms run by auto
  have "cstr (mem s') dest (if cat_verdict dest dmax src (length old) (length xs) = EOK
          then old @ xs else [])"
    using strncat.holds_text [of ?a s dest dmax slack r s'] assms run by auto
  with final show ?thesis
    using strncat.frame [of ?a s dest dmax slack r s'] strncat.ok_iff(1) [of ?a s dest dmax slack r s']
      strncat.same_objects [of ?a s dest dmax slack r s'] assms run
    by (intro exI [of _ r] exI [of _ s'] exI [of _ final]) (auto dest: cstr_unique)
qed

theorem strncat_s_safe_witness:
  "\<exists>r s'. strncat_s False 16 6 64 1 (demo_state demo_heap) = Some (r, s') \<and> r = Returned EOK
     \<and> cstr (mem s') 16 [97]"
  using strncat_s_safe [of "demo_state demo_heap" 16 6 64 1 "[]" "[97]" False] demo_heap_facts
  by (auto simp: cat_verdict_def text_verdict_def gap_def dest_text_def src_text_def cstr_Cons
        chars_at_Cons RSIZE_MAX_STR_def)

text \<open>
  Building a string by \<open>strcpy_s\<close> and \<open>strcat_s\<close>, the way callers do: when both texts fit, both
  calls return \<open>EOK\<close> and \<open>dest\<close> holds their concatenation.
\<close>
theorem strcpy_then_strcat:
  assumes w: "writable (mem s) dest dmax"
    and a: "a \<noteq> 0" "cstr (mem s) a xs" "a + length xs < dest \<or> dest + dmax \<le> a"
    and b: "b \<noteq> 0" "cstr (mem s) b ys" "b + length ys < dest \<or> dest + dmax \<le> b"
    and fit: "length xs + length ys < dmax"
  shows "\<exists>s1 s2. strcpy_s slack dest dmax a s = Some (Returned EOK, s1)
     \<and> strcat_s slack dest dmax b s1 = Some (Returned EOK, s2)
     \<and> cstr (mem s2) dest (xs @ ys) \<and> calls s2 = calls s"
proof -
  let ?a = "(a, xs)" and ?b = "(b, xs, ys)"
  have ready: "writable (mem s) dest dmax \<and> a \<noteq> 0 \<and> a \<noteq> dest \<and> cstr (mem s) a xs"
    using w a fit by auto
  have v1: "text_verdict dmax (gap dest a) (length xs) = EOK"
    using a(3) fit by (auto simp: text_verdict_def gap_def)
  obtain s1 where 1: "strcpy_s slack dest dmax a s = Some (Returned EOK, s1)"
    using strcpy_s_effect [of s dest dmax a xs slack] ready v1 by (auto simp: string_effect_def)
  have s1: "cstr (mem s1) dest xs" "calls s1 = calls s" "dom (mem s1) = dom (mem s)"
    using strcpy.holds_text [of ?a s dest dmax slack _ s1] strcpy.ok_iff(2) [of ?a s dest dmax slack]
      strcpy.same_objects [of ?a s dest dmax slack] ready v1 1 by auto
  have y: "cstr (mem s1) b ys"
    using b(2,3) strcpy.frame [of ?a s dest dmax slack _ s1] ready 1 by (auto simp: cstr_def chars_at_def)
  have ready2: "writable (mem s1) dest dmax \<and> b \<noteq> 0 \<and> dest_text (mem s1) dest dmax xs \<and>
      cstr (mem s1) b ys"
    using w b(1) y s1(1) fit by (simp add: writable_def mapped_dom [OF s1(3)] dest_text_def)
  have v2: "cat_verdict dest dmax b (length xs) (length ys) = EOK"
    using b(3) fit by (auto simp: cat_ok gap_def)
  obtain s2 where 2: "strcat_s slack dest dmax b s1 = Some (Returned EOK, s2)"
    using strcat_s_effect [of s1 dest dmax b ys xs slack] ready2 v2 by (auto simp: string_effect_def)
  have "cstr (mem s2) dest (xs @ ys)" "calls s2 = calls s1"
    using strcat.holds_text [of ?b s1 dest dmax slack _ s2] strcat.ok_iff(2) [of ?b s1 dest dmax slack]
      ready2 v2 2 by auto
  with 1 2 s1(2) show ?thesis by auto
qed

theorem strcpy_then_strcat_witness:
  "\<exists>s1 s2. strcpy_s True 16 6 64 (demo_state demo_heap) = Some (Returned EOK, s1)
     \<and> strcat_s True 16 6 64 s1 = Some (Returned EOK, s2) \<and> cstr (mem s2) 16 [97, 98, 97, 98]"
  using strcpy_then_strcat [of "demo_state demo_heap" 16 6 64 "[97, 98]" 64 "[97, 98]" True]
    demo_heap_facts by auto

end
