(* ===== verification/Ssi_Types.thy ===== *)
theory Ssi_Types
  imports Prelude
begin

text \<open>
  The public vocabulary of \<open>include/ssi.h\<close>: the enumerations with their numeric codes, handles, and
  the information records the engine fills.  \<open>SSI_RaidLevel\<close> and \<open>SSI_StripSize\<close> are used as sets of
  flags (\<open>raidLevel & info.migrSupport\<close>) and any 32-bit value can be passed for them, so they are
  words; the other enumerations are datatypes.
\<close>

type_synonym SSI_Handle = u32

abbreviation (input) SSI_NULL_HANDLE :: SSI_Handle where "SSI_NULL_HANDLE \<equiv> 0"

type_synonym SSI_RaidLevel = u32

type_synonym SSI_StripSize = u32

abbreviation (input) SSI_RaidInvalid :: SSI_RaidLevel where "SSI_RaidInvalid \<equiv> 0"
abbreviation (input) SSI_Raid0 :: SSI_RaidLevel where "SSI_Raid0 \<equiv> 1"
abbreviation (input) SSI_Raid1 :: SSI_RaidLevel where "SSI_Raid1 \<equiv> 2"
abbreviation (input) SSI_Raid10 :: SSI_RaidLevel where "SSI_Raid10 \<equiv> 4"
abbreviation (input) SSI_Raid5 :: SSI_RaidLevel where "SSI_Raid5 \<equiv> 8"
abbreviation (input) SSI_Raid6 :: SSI_RaidLevel where "SSI_Raid6 \<equiv> 16"
abbreviation (input) SSI_RaidUnknown :: SSI_RaidLevel where "SSI_RaidUnknown \<equiv> 2147483648"

abbreviation (input) SSI_StripSizeUnknown :: SSI_StripSize where "SSI_StripSizeUnknown \<equiv> 0"
abbreviation (input) SSI_StripSize2kB :: SSI_StripSize where "SSI_StripSize2kB \<equiv> 1"
abbreviation (input) SSI_StripSize4kB :: SSI_StripSize where "SSI_StripSize4kB \<equiv> 2"
abbreviation (input) SSI_StripSize8kB :: SSI_StripSize where "SSI_StripSize8kB \<equiv> 4"
abbreviation (input) SSI_StripSize16kB :: SSI_StripSize where "SSI_StripSize16kB \<equiv> 8"
abbreviation (input) SSI_StripSize32kB :: SSI_StripSize where "SSI_StripSize32kB \<equiv> 16"
abbreviation (input) SSI_StripSize64kB :: SSI_StripSize where "SSI_StripSize64kB \<equiv> 32"
abbreviation (input) SSI_StripSize128kB :: SSI_StripSize where "SSI_StripSize128kB \<equiv> 64"
abbreviation (input) SSI_StripSize256kB :: SSI_StripSize where "SSI_StripSize256kB \<equiv> 128"
abbreviation (input) SSI_StripSize512kB :: SSI_StripSize where "SSI_StripSize512kB \<equiv> 256"
abbreviation (input) SSI_StripSize1MB :: SSI_StripSize where "SSI_StripSize1MB \<equiv> 512"
abbreviation (input) SSI_StripSize2MB :: SSI_StripSize where "SSI_StripSize2MB \<equiv> 1024"
abbreviation (input) SSI_StripSize4MB :: SSI_StripSize where "SSI_StripSize4MB \<equiv> 2048"
abbreviation (input) SSI_StripSize8MB :: SSI_StripSize where "SSI_StripSize8MB \<equiv> 4096"
abbreviation (input) SSI_StripSize16MB :: SSI_StripSize where "SSI_StripSize16MB \<equiv> 8192"
abbreviation (input) SSI_StripSize32MB :: SSI_StripSize where "SSI_StripSize32MB \<equiv> 16384"
abbreviation (input) SSI_StripSize64MB :: SSI_StripSize where "SSI_StripSize64MB \<equiv> 32768"

datatype SSI_Status =
    SSI_StatusOk | SSI_StatusInsufficientResources | SSI_StatusInvalidParameter
  | SSI_StatusInvalidHandle | SSI_StatusInvalidStripSize | SSI_StatusInvalidString
  | SSI_StatusInvalidSize | SSI_StatusInvalidRaidLevel | SSI_StatusInvalidSession
  | SSI_StatusTimeout | SSI_StatusNotImplemented | SSI_StatusDuplicate
  | SSI_StatusNotInitialized | SSI_StatusBufferTooSmall | SSI_StatusNotSupported
  | SSI_StatusFailed | SSI_StatusInternalError | SSI_StatusInvalidScope
  | SSI_StatusInvalidState | SSI_StatusRetriesExceeded | SSI_StatusWrongPassword
  | SSI_StatusDataExceedsLimits | SSI_StatusInsufficientPrivileges | SSI_StatusDriverBusy
  | SSI_StatusBufferTooLarge | SSI_StatusDisableCacheFailed | SSI_TrialLimitation
  | SSI_UnsupportedRAIDLevel | SSI_InvalidRWHMode | SSI_UnsupportedDisk
  | SSI_MarkAsNormalFailed | SSI_InvalidNumberOfDisks | SSI_InvalidLogicalSectorSize
  | SSI_NonIntelDriveNotSupported | SSI_UncheckJournalingDriveFailed | SSI_DiskTooSmall
  | SSI_DiskOnWrongController | SSI_VolumeOver2TbNotAllowed | SSI_DuplicatedVolumeName
  | SSI_InvalidCacheMode | SSI_InvalidControllerMode | SSI_InvalidDisk
  | SSI_InvalidCachePolicy | SSI_InvalidVolume

datatype SSI_VolumeState =
    SSI_VolumeStateUnknown | SSI_VolumeStateNormal | SSI_VolumeStateDegraded
  | SSI_VolumeStateFailed | SSI_VolumeStateInitializing | SSI_VolumeStateRebuilding
  | SSI_VolumeStateVerifying | SSI_VolumeStateVerifyingAndFix
  | SSI_VolumeStateGeneralMigration | SSI_VolumeStateLocked
  | SSI_VolumeStateNonRedundantVolumeFailedDisk

datatype SSI_DiskState =
    SSI_DiskStateUnknown | SSI_DiskStateOffline | SSI_DiskStateMissing | SSI_DiskStateFailed
  | SSI_DiskStateSmartEventTriggered | SSI_DiskStateConfigIsUprev | SSI_DiskStateNormal
  | SSI_DiskStateLocked | SSI_DiskStateManualOffline | SSI_DiskStateIncompatible
  | SSI_DiskStateUnsupported

datatype SSI_DiskUsage =
    SSI_DiskUsageUnknown | SSI_DiskUsageArrayMember | SSI_DiskUsagePassThru
  | SSI_DiskUsageOfflineArray | SSI_DiskUsageSpare | SSI_DiskUsageArrayMemberReadOnlyMount
  | SSI_DiskUsagePassThruReadOnlyMount | SSI_DiskUsageJournaling

datatype SSI_DiskType =
    SSI_DiskTypeUnknown | SSI_DiskTypeSATA | SSI_DiskTypeSAS | SSI_DiskTypeNVME
  | SSI_DiskTypeVMD

datatype SSI_ScopeType =
    SSI_ScopeTypeNone | SSI_ScopeTypeControllerDirect | SSI_ScopeTypeControllerAll
  | SSI_ScopeTypeRaidInfo | SSI_ScopeTypeEndDevice | SSI_ScopeTypeRoutingDevice
  | SSI_ScopeTypePort | SSI_ScopeTypePhy | SSI_ScopeTypeArray | SSI_ScopeTypeEnclosure

datatype SSI_RwhPolicy =
    SSI_RwhOff | SSI_RwhDistributed | SSI_RwhJournalingDrive | SSI_RwhInvalid

datatype SSI_VolumeCachePolicy =
    SSI_VolumeCachePolicyUnknown | SSI_VolumeCachePolicyOff
  | SSI_VolumeCachePolicyWriteThrough | SSI_VolumeCachePolicyWriteBack

datatype SSI_ArrayState =
    SSI_ArrayStateUnknown | SSI_ArrayStateNormal | SSI_ArrayStateBusy

datatype SSI_ControllerType =
    SSI_ControllerTypeUnknown | SSI_ControllerTypeAHCI | SSI_ControllerTypeSCU
  | SSI_ControllerTypeNVME | SSI_ControllerTypeVMD

datatype SSI_HardwareKeyType =
    SSI_Unknown_SKU | SSI_HardwareKey3story | SSI_HardwareKeyVROCStandard
  | SSI_HardwareKeyVROCPremium | SSI_HardwareKeyVROCIntelSSDonly

datatype SSI_WriteCachePolicy =
    SSI_WriteCachePolicyUnknown | SSI_WriteCachePolicyOff | SSI_WriteCachePolicyOn

text \<open>The numeric codes callers see.\<close>

fun status_code :: "SSI_Status \<Rightarrow> nat" where
  "status_code SSI_StatusOk = 0"
| "status_code SSI_StatusInsufficientResources = 1"
| "status_code SSI_StatusInvalidParameter = 2"
| "status_code SSI_StatusInvalidHandle = 3"
| "status_code SSI_StatusInvalidStripSize = 4"
| "status_code SSI_StatusInvalidString = 5"
| "status_code SSI_StatusInvalidSize = 6"
| "status_code SSI_StatusInvalidRaidLevel = 7"
| "status_code SSI_StatusInvalidSession = 8"
| "status_code SSI_StatusTimeout = 9"
| "status_code SSI_StatusNotImplemented = 10"
| "status_code SSI_StatusDuplicate = 11"
| "status_code SSI_StatusNotInitialized = 12"
| "status_code SSI_StatusBufferTooSmall = 13"
| "status_code SSI_StatusNotSupported = 14"
| "status_code SSI_StatusFailed = 15"
| "status_code SSI_StatusInternalError = 16"
| "status_code SSI_StatusInvalidScope = 17"
| "status_code SSI_StatusInvalidState = 18"
| "status_code SSI_StatusRetriesExceeded = 19"
| "status_code SSI_StatusWrongPassword = 20"
| "status_code SSI_StatusDataExceedsLimits = 21"
| "status_code SSI_StatusInsufficientPrivileges = 22"
| "status_code SSI_StatusDriverBusy = 23"
| "status_code SSI_StatusBufferTooLarge = 24"
| "status_code SSI_StatusDisableCacheFailed = 25"
| "status_code SSI_TrialLimitation = 26"
| "status_code SSI_UnsupportedRAIDLevel = 27"
| "status_code SSI_InvalidRWHMode = 28"
| "status_code SSI_UnsupportedDisk = 29"
| "status_code SSI_MarkAsNormalFailed = 30"
| "status_code SSI_InvalidNumberOfDisks = 31"
| "status_code SSI_InvalidLogicalSectorSize = 34"
| "status_code SSI_NonIntelDriveNotSupported = 35"
| "status_code SSI_UncheckJournalingDriveFailed = 36"
| "status_code SSI_DiskTooSmall = 37"
| "status_code SSI_DiskOnWrongController = 38"
| "status_code SSI_VolumeOver2TbNotAllowed = 39"
| "status_code SSI_DuplicatedVolumeName = 40"
| "status_code SSI_InvalidCacheMode = 41"
| "status_code SSI_InvalidControllerMode = 42"
| "status_code SSI_InvalidDisk = 43"
| "status_code SSI_InvalidCachePolicy = 44"
| "status_code SSI_InvalidVolume = 45"

fun volume_state_code :: "SSI_VolumeState \<Rightarrow> nat" where
  "volume_state_code SSI_VolumeStateUnknown = 0"
| "volume_state_code SSI_VolumeStateNormal = 1"
| "volume_state_code SSI_VolumeStateDegraded = 2"
| "volume_state_code SSI_VolumeStateFailed = 3"
| "volume_state_code SSI_VolumeStateInitializing = 4"
| "volume_state_code SSI_VolumeStateRebuilding = 5"
| "volume_state_code SSI_VolumeStateVerifying = 6"
| "volume_state_code SSI_VolumeStateVerifyingAndFix = 7"
| "volume_state_code SSI_VolumeStateGeneralMigration = 8"
| "volume_state_code SSI_VolumeStateLocked = 9"
| "volume_state_code SSI_VolumeStateNonRedundantVolumeFailedDisk = 16"

record SSI_RaidLevelInfo =
  supported :: bool
  minDisks :: u32
  maxDisks :: u32
  defaultStripSize :: SSI_StripSize
  migrSupport :: SSI_RaidLevel
  migrDiskAdd :: SSI_RaidLevel
  evenDiskCount :: bool
  oddDiskCount :: bool
  stripSizesSupported :: SSI_StripSize
  created :: bool

end
