(* ===== verification/Handles.thy ===== *)
theory Handles
  imports Ssi_Types
begin

text \<open>
  \<open>HandleManager<T>\<close> (\<open>handle_manager.h\<close>) and \<open>Container<T>\<close> (\<open>container.h\<close>): the registry that gives
  objects their public handles and the lists of objects a query returns.

  The \<open>std::map\<close> of the registry is the list of its pairs in key order.  The field \<open>m_handle\<close> of the
  objects (\<open>object.cpp\<close>) is part of the state because inserting and removing update it.  Allocation
  inside the standard containers succeeds.  \<open>operator[]\<close> is never instantiated.
\<close>

subsection \<open>\<open>HandleManager\<close>\<close>

record 'o handle_mgr =
  m_objects :: "(SSI_Handle \<times> 'o) list"
  m_handle :: "'o \<Rightarrow> SSI_Handle"

definition getHandle :: "'o handle_mgr \<Rightarrow> 'o \<Rightarrow> SSI_Handle" where
  "getHandle m object = m_handle m object"

definition setHandle :: "'o \<Rightarrow> SSI_Handle \<Rightarrow> 'o handle_mgr \<Rightarrow> 'o handle_mgr" where
  "setHandle object handle m = m\<lparr>m_handle := (m_handle m)(object := handle)\<rparr>"

definition hm_at :: "'o handle_mgr \<Rightarrow> SSI_Handle \<Rightarrow> 'o option" where
  "hm_at m handle = (if handle = SSI_NULL_HANDLE then None else map_of (m_objects m) handle)"

definition getUniqueHandle :: "'o handle_mgr \<Rightarrow> 'o \<Rightarrow> SSI_Handle" where
  "getUniqueHandle m object =
     (if hm_at m (getHandle m object) \<noteq> None then getHandle m object
      else if m_objects m \<noteq> []
      then let last_key = fst (last (m_objects m)) in
           if last_key = - 1 then SSI_NULL_HANDLE else last_key + 1
      else 1)"

definition hm_insert :: "'o \<Rightarrow> 'o handle_mgr \<Rightarrow> (SSI_Handle \<times> bool) \<times> 'o handle_mgr" where
  "hm_insert object m =
     (let unique = getUniqueHandle m object in
      if unique = SSI_NULL_HANDLE then ((SSI_NULL_HANDLE, False), m)
      else case map_of (m_objects m) unique of
             Some _ \<Rightarrow> ((unique, False), m)
           | None \<Rightarrow> ((unique, True),
               setHandle object unique
                 (m\<lparr>m_objects := insort_key fst (unique, object) (m_objects m)\<rparr>)))"

definition hm_remove_handle :: "SSI_Handle \<Rightarrow> 'o handle_mgr \<Rightarrow> 'o option \<times> 'o handle_mgr" where
  "hm_remove_handle handle m =
     (if handle \<noteq> SSI_NULL_HANDLE
      then case map_of (m_objects m) handle of
             Some object \<Rightarrow>
               (Some object,
                (setHandle object SSI_NULL_HANDLE m)
                  \<lparr>m_objects := filter (\<lambda>p. fst p \<noteq> handle) (m_objects m)\<rparr>)
           | None \<Rightarrow> (None, m)
      else (None, m))"

definition hm_remove :: "'o \<Rightarrow> 'o handle_mgr \<Rightarrow> 'o option \<times> 'o handle_mgr" where
  "hm_remove object m = hm_remove_handle (getHandle m object) m"

definition hm_size :: "'o handle_mgr \<Rightarrow> nat" where
  "hm_size m = length (m_objects m)"

definition hm_empty :: "'o handle_mgr" where
  "hm_empty = \<lparr>m_objects = [], m_handle = (\<lambda>_. SSI_NULL_HANDLE)\<rparr>"

subsection \<open>\<open>Container\<close>\<close>

text \<open>
  \<open>getHandles\<close> copies the handles into the caller's buffer.  The buffer is \<open>None\<close> for a null pointer
  and a list of \<open>SSI_Handle\<close> slots otherwise; a store behind its end is undefined behaviour.
  \<open>size_t\<close> is 64 bits wide and \<open>*bufferSize\<close> 32, so the stored count is truncated.
\<close>

fun store_handles :: "SSI_Handle list \<Rightarrow> nat \<Rightarrow> SSI_Handle list option \<Rightarrow> SSI_Handle list option option"
where
  "store_handles [] i buf = Some buf"
| "store_handles (x # xs) i None = None"
| "store_handles (x # xs) i (Some b) =
     (if i < length b then store_handles xs (Suc i) (Some (b[i := x])) else None)"

definition container_getHandles ::
  "('o \<Rightarrow> SSI_Handle) \<Rightarrow> 'o list \<Rightarrow> SSI_Handle list option \<Rightarrow> u32 option \<Rightarrow>
   (SSI_Status \<times> SSI_Handle list option \<times> u32 option) option" where
  "container_getHandles handle_of m_list pBuffer bufferSize =
     (case bufferSize of
        None \<Rightarrow> Some (SSI_StatusInvalidParameter, pBuffer, bufferSize)
      | Some n \<Rightarrow>
          if n \<noteq> 0 \<and> pBuffer = None then Some (SSI_StatusInvalidParameter, pBuffer, bufferSize)
          else if unat n < length m_list
          then Some (SSI_StatusBufferTooSmall, pBuffer, Some (of_nat (length m_list)))
          else do { b \<leftarrow> store_handles (map handle_of m_list) 0 pBuffer;
                    Some (SSI_StatusOk, b, Some (of_nat (length m_list))) })"

definition container_find :: "('o \<Rightarrow> SSI_Handle) \<Rightarrow> 'o list \<Rightarrow> SSI_Handle \<Rightarrow> 'o option" where
  "container_find handle_of m_list handle = List.find (\<lambda>x. handle_of x = handle) m_list"

definition container_remove ::
  "('o \<Rightarrow> SSI_Handle) \<Rightarrow> SSI_Handle \<Rightarrow> 'o list \<Rightarrow> 'o option \<times> 'o list" where
  "container_remove handle_of handle m_list =
     (case container_find handle_of m_list handle of
        Some pObject \<Rightarrow> (Some pObject, filter (\<lambda>x. x \<noteq> pObject) m_list)
      | None \<Rightarrow> (None, m_list))"

definition container_add :: "'o \<Rightarrow> 'o list \<Rightarrow> 'o list" where
  "container_add data m_list = m_list @ [data]"

definition container_append :: "'o list \<Rightarrow> 'o list \<Rightarrow> 'o list" where
  "container_append c m_list = m_list @ c"

subsection \<open>The invariant of the registry\<close>

definition live :: "'o handle_mgr \<Rightarrow> SSI_Handle set" where
  "live m = fst ` set (m_objects m)"

definition hm_ok :: "'o handle_mgr \<Rightarrow> bool" where
  "hm_ok m \<longleftrightarrow> sorted (map fst (m_objects m)) \<and> distinct (map fst (m_objects m))
     \<and> SSI_NULL_HANDLE \<notin> live m
     \<and> (\<forall>(h, x) \<in> set (m_objects m). m_handle m x = h)
     \<and> (\<forall>x. m_handle m x \<noteq> SSI_NULL_HANDLE \<longrightarrow> (m_handle m x, x) \<in> set (m_objects m))"

lemma hm_ok_empty: "hm_ok hm_empty"
  by (simp add: hm_ok_def hm_empty_def live_def)

lemma hm_ok_at: "hm_ok m \<Longrightarrow> hm_at m h = Some x \<longleftrightarrow> h \<noteq> SSI_NULL_HANDLE \<and> m_handle m x = h"
  unfolding hm_ok_def hm_at_def by (auto simp: map_of_eq_Some_iff)

lemma map_of_live: "map_of (m_objects m) h = None \<longleftrightarrow> h \<notin> live m"
  by (simp add: live_def map_of_eq_None_iff)

lemma live_le_last:
  "hm_ok m \<Longrightarrow> h \<in> live m \<Longrightarrow> h \<le> fst (last (m_objects m))"
proof -
  assume m: "hm_ok m" and h: "h \<in> live m"
  then obtain i where i: "i < length (m_objects m)" "h = fst (m_objects m ! i)"
    by (auto simp: live_def in_set_conv_nth)
  then have "map fst (m_objects m) ! i \<le> map fst (m_objects m) ! (length (m_objects m) - 1)"
    using m by (intro sorted_nth_mono) (auto simp: hm_ok_def)
  moreover have "m_objects m \<noteq> []"
    using i(1) by auto
  ultimately show ?thesis
    using i by (simp add: last_conv_nth)
qed

text \<open>The next handle: one more than the largest in use.\<close>

definition next_handle :: "'o handle_mgr \<Rightarrow> SSI_Handle" where
  "next_handle m = (if m_objects m = [] then 1 else fst (last (m_objects m)) + 1)"

definition exhausted :: "'o handle_mgr \<Rightarrow> bool" where
  "exhausted m \<longleftrightarrow> m_objects m \<noteq> [] \<and> fst (last (m_objects m)) = - 1"

lemma u32_succ: "(k :: u32) \<noteq> - 1 \<Longrightarrow> k < k + 1"
proof -
  assume "k \<noteq> - 1"
  moreover have "unat (- 1 :: u32) = 2 ^ 32 - 1"
    by (simp add: unsigned_minus_1_eq_mask mask_eq_exp_minus_1)
  ultimately have "unat k \<noteq> 2 ^ 32 - 1"
    by (metis word_eq_iff_unsigned)
  then have "unat k + 1 < 2 ^ 32"
    using unsigned_less [of k, where 'a = nat] by simp
  then show ?thesis
    by (simp add: word_less_nat_alt unat_word_ariths)
qed

lemma next_handle_gt:
  assumes "hm_ok m" "\<not> exhausted m"
  shows "h \<in> live m \<Longrightarrow> h < next_handle m" and "next_handle m \<noteq> SSI_NULL_HANDLE"
    and "next_handle m \<notin> live m"
proof -
  have s: "m_objects m \<noteq> [] \<Longrightarrow> fst (last (m_objects m)) < fst (last (m_objects m)) + 1"
    using assms(2) by (intro u32_succ) (auto simp: exhausted_def)
  have lt: "h < next_handle m" if "h \<in> live m" for h
  proof -
    from that have "m_objects m \<noteq> []" by (auto simp: live_def)
    with s live_le_last [OF assms(1) that] show ?thesis
      by (simp add: next_handle_def)
  qed
  then show "h \<in> live m \<Longrightarrow> h < next_handle m" by blast
  show "next_handle m \<notin> live m" using lt by blast
  show "next_handle m \<noteq> SSI_NULL_HANDLE"
    using s by (auto simp: next_handle_def)
qed

lemma getUniqueHandle_new:
  "hm_ok m \<Longrightarrow> m_handle m x = SSI_NULL_HANDLE \<Longrightarrow>
   getUniqueHandle m x = (if exhausted m then SSI_NULL_HANDLE else next_handle m)"
  by (auto simp: getUniqueHandle_def hm_at_def getHandle_def exhausted_def next_handle_def Let_def)

lemma set_insort_fst: "set (insort_key fst p xs) = insert p (set xs)"
  by (simp add: set_insort_key)

lemma hm_insert_new:
  assumes "hm_ok m" "m_handle m x = SSI_NULL_HANDLE" "\<not> exhausted m"
  shows "hm_insert x m = ((next_handle m, True),
     setHandle x (next_handle m) (m\<lparr>m_objects := insort_key fst (next_handle m, x) (m_objects m)\<rparr>))"
  using next_handle_gt [OF assms(1,3)] getUniqueHandle_new [OF assms(1,2)] assms(3)
  by (simp add: hm_insert_def Let_def map_of_live [symmetric])

lemma hm_insert_full:
  "hm_ok m \<Longrightarrow> m_handle m x = SSI_NULL_HANDLE \<Longrightarrow> exhausted m \<Longrightarrow>
   hm_insert x m = ((SSI_NULL_HANDLE, False), m)"
  by (simp add: hm_insert_def getUniqueHandle_new)

lemma hm_insert_again:
  "hm_ok m \<Longrightarrow> m_handle m x \<noteq> SSI_NULL_HANDLE \<Longrightarrow> hm_insert x m = ((m_handle m x, False), m)"
  using hm_ok_at [of m "m_handle m x" x]
  by (auto simp: hm_insert_def getUniqueHandle_def getHandle_def Let_def hm_at_def split: option.splits)

lemma sorted_insort_fst: "sorted (map fst (insort_key fst p xs)) = sorted (map fst xs)"
  by (rule sorted_insort_key)

lemma distinct_insort_fst:
  "distinct (map fst (insort_key fst p xs)) \<longleftrightarrow> fst p \<notin> fst ` set xs \<and> distinct (map fst xs)"
  by (induction xs) (auto simp: set_insort_key)

lemma hm_ok_insert:
  assumes "hm_ok m"
  shows "hm_ok (snd (hm_insert x m))"
proof (cases "m_handle m x = SSI_NULL_HANDLE \<and> \<not> exhausted m")
  case True
  note n = next_handle_gt(2,3) [OF assms conjunct2 [OF True]]
  from True have x: "m_handle m x = SSI_NULL_HANDLE" by simp
  have nx: "(h, x) \<notin> set (m_objects m)" for h
    using assms x by (force simp: hm_ok_def live_def)
  have a: "sorted (map fst (m_objects m))" "distinct (map fst (m_objects m))"
    "SSI_NULL_HANDLE \<notin> live m"
    "\<And>h y. (h, y) \<in> set (m_objects m) \<Longrightarrow> m_handle m y = h"
    "\<And>y. m_handle m y \<noteq> SSI_NULL_HANDLE \<Longrightarrow> (m_handle m y, y) \<in> set (m_objects m)"
    using assms by (auto simp: hm_ok_def)
  show ?thesis
    unfolding hm_insert_new [OF assms conjunct1 [OF True] conjunct2 [OF True]]
    using a n nx
    by (auto simp: hm_ok_def setHandle_def sorted_insort_fst distinct_insort_fst set_insort_fst live_def)
next
  case False
  then have "snd (hm_insert x m) = m"
    using hm_insert_again [OF assms, of x] hm_insert_full [OF assms, of x]
    by (cases "m_handle m x = SSI_NULL_HANDLE") simp_all
  with assms show ?thesis by simp
qed

lemma hm_remove_hit:
  "hm_ok m \<Longrightarrow> hm_at m h = Some x \<Longrightarrow>
   hm_remove_handle h m = (Some x, (setHandle x SSI_NULL_HANDLE m)
      \<lparr>m_objects := filter (\<lambda>p. fst p \<noteq> h) (m_objects m)\<rparr>)"
  by (auto simp: hm_remove_handle_def hm_at_def split: if_splits)

lemma hm_remove_miss: "hm_at m h = None \<Longrightarrow> hm_remove_handle h m = (None, m)"
  by (auto simp: hm_remove_handle_def hm_at_def split: if_splits)

lemma hm_ok_remove:
  assumes "hm_ok m"
  shows "hm_ok (snd (hm_remove_handle h m))"
proof (cases "hm_at m h")
  case (Some x)
  have a: "sorted (map fst (m_objects m))" "distinct (map fst (m_objects m))"
    "SSI_NULL_HANDLE \<notin> live m"
    "\<And>h y. (h, y) \<in> set (m_objects m) \<Longrightarrow> m_handle m y = h"
    "\<And>y. m_handle m y \<noteq> SSI_NULL_HANDLE \<Longrightarrow> (m_handle m y, y) \<in> set (m_objects m)"
    using assms by (auto simp: hm_ok_def)
  have x: "m_handle m x = h" "h \<noteq> SSI_NULL_HANDLE"
    using hm_ok_at [OF assms] Some by auto
  have only: "y = x" if "m_handle m y = h" for y
    using hm_ok_at [OF assms, of h y] Some that x(2) by simp
  let ?obs = "filter (\<lambda>p. fst p \<noteq> h) (m_objects m)"
  have "sorted (map fst ?obs)" "distinct (map fst ?obs)"
    using a(1,2) by (simp_all add: sorted_filter distinct_map inj_on_def)
  moreover have "SSI_NULL_HANDLE \<notin> fst ` set ?obs"
    using a(3) by (auto simp: live_def)
  moreover have "(if y = x then SSI_NULL_HANDLE else m_handle m y) = k" if "(k, y) \<in> set ?obs" for k y
    using that a(4) [of k y] x by auto
  moreover have "(m_handle m y, y) \<in> set ?obs" if "y \<noteq> x" "m_handle m y \<noteq> SSI_NULL_HANDLE" for y
    using that a(5) [of y] only [of y] by auto
  ultimately show ?thesis
    unfolding hm_remove_hit [OF assms Some]
    by (simp add: hm_ok_def setHandle_def live_def)
qed (simp add: hm_remove_miss assms)

subsection \<open>The interface of a registry\<close>

text \<open>
  What the session manager, the event manager and the sessions use of a registry.  The laws say that
  a new object gets an unused non-null handle, that a refused insertion changes nothing and that a
  removal frees exactly one handle.
\<close>

locale handle_registry =
  fixes insert :: "'o \<Rightarrow> 's \<Rightarrow> (SSI_Handle \<times> bool) \<times> 's"
    and remove :: "SSI_Handle \<Rightarrow> 's \<Rightarrow> 'o option \<times> 's"
    and at :: "'s \<Rightarrow> SSI_Handle \<Rightarrow> 'o option"
    and handle_of :: "'s \<Rightarrow> 'o \<Rightarrow> SSI_Handle"
    and ok :: "'s \<Rightarrow> bool"
  assumes ok_insert: "ok m \<Longrightarrow> ok (snd (insert x m))"
    and ok_remove: "ok m \<Longrightarrow> ok (snd (remove h m))"
    and consistent: "ok m \<Longrightarrow> at m h = Some x \<longleftrightarrow> h \<noteq> SSI_NULL_HANDLE \<and> handle_of m x = h"
    and inserted: "ok m \<Longrightarrow> insert x m = ((h, True), m') \<Longrightarrow>
      h \<noteq> SSI_NULL_HANDLE \<and> handle_of m x = SSI_NULL_HANDLE \<and> at m h = None
      \<and> handle_of m' = (handle_of m)(x := h)"
    and refused: "ok m \<Longrightarrow> insert x m = ((h, False), m') \<Longrightarrow> m' = m \<and> h = handle_of m x"
    and removed: "ok m \<Longrightarrow> at m h = Some x \<Longrightarrow>
      fst (remove h m) = Some x \<and> handle_of (snd (remove h m)) = (handle_of m)(x := SSI_NULL_HANDLE)"
    and missing: "ok m \<Longrightarrow> at m h = None \<Longrightarrow> remove h m = (None, m)"
begin

lemma null_handle_free: "ok m \<Longrightarrow> at m SSI_NULL_HANDLE = None"
  using consistent [of m SSI_NULL_HANDLE] by (cases "at m SSI_NULL_HANDLE") auto

lemma at_handle: "ok m \<Longrightarrow> handle_of m x \<noteq> SSI_NULL_HANDLE \<Longrightarrow> at m (handle_of m x) = Some x"
  by (simp add: consistent)

lemma handles_distinct:
  "ok m \<Longrightarrow> handle_of m x = handle_of m y \<Longrightarrow> handle_of m x \<noteq> SSI_NULL_HANDLE \<Longrightarrow> x = y"
  by (metis at_handle option.inject)

lemma at_insert:
  assumes "ok m" "insert x m = ((h, True), m')"
  shows "at m' = (at m)(h \<mapsto> x)"
proof
  fix k
  have m': "ok m'" using ok_insert [OF assms(1), of x] assms(2) by simp
  note i = inserted [OF assms]
  show "at m' k = ((at m)(h \<mapsto> x)) k"
  proof (cases "k = h")
    case True
    with consistent [OF m', of h x] i show ?thesis by simp
  next
    case False
    have "at m' k = Some y \<longleftrightarrow> at m k = Some y" for y
      using consistent [OF m', of k y] consistent [OF assms(1), of k y] i False
      by (cases "y = x") auto
    with False show ?thesis
      by (metis fun_upd_other option.exhaust)
  qed
qed

lemma at_remove:
  assumes "ok m" "at m h = Some x"
  shows "at (snd (remove h m)) = (at m)(h := None)"
proof
  fix k
  note c = consistent [OF assms(1)] and c' = consistent [OF ok_remove [OF assms(1)]]
  show "at (snd (remove h m)) k = ((at m)(h := None)) k"
  proof (cases "k = h")
    case True
    have "at (snd (remove h m)) h \<noteq> Some y" for y
      using c' [of h h y] c [of h x] c [of h y] removed [OF assms] assms(2) by (cases "y = x") auto
    with True show ?thesis by (metis fun_upd_same option.exhaust)
  next
    case False
    have "at (snd (remove h m)) k = Some y \<longleftrightarrow> at m k = Some y" for y
      using c' [of h k y] c [of k y] c [of h x] removed [OF assms] assms(2) False
      by (cases "y = x") auto
    with False show ?thesis by (metis fun_upd_other option.exhaust)
  qed
qed

lemma insert_then_lookup:
  "ok m \<Longrightarrow> insert x m = ((h, True), m') \<Longrightarrow> at m' h = Some x \<and> (\<forall>k. k \<noteq> h \<longrightarrow> at m' k = at m k)"
  by (simp add: at_insert)

lemma insert_then_remove:
  assumes "ok m" "insert x m = ((h, True), m')"
  shows "fst (remove h m') = Some x \<and> at (snd (remove h m')) = at m
    \<and> handle_of (snd (remove h m')) = handle_of m"
proof -
  have m': "ok m'" using ok_insert [OF assms(1), of x] assms(2) by simp
  have h: "at m' h = Some x" by (simp add: at_insert [OF assms])
  show ?thesis
    using removed [OF m' h] at_remove [OF m' h] inserted [OF assms] at_insert [OF assms]
    by (auto simp: fun_eq_iff)
qed

end

interpretation hm: handle_registry hm_insert hm_remove_handle hm_at m_handle hm_ok
proof unfold_locales
  fix m m' :: "'o handle_mgr" and x h
  assume ok: "hm_ok m" and ins: "hm_insert x m = ((h, True), m')"
  have x: "m_handle m x = SSI_NULL_HANDLE" "\<not> exhausted m"
    using ins hm_insert_again [OF ok, of x] hm_insert_full [OF ok, of x] by auto
  have "hm_at m (next_handle m) = None"
    using next_handle_gt(3) [OF ok x(2)] by (simp add: hm_at_def map_of_live)
  then show "h \<noteq> SSI_NULL_HANDLE \<and> m_handle m x = SSI_NULL_HANDLE \<and> hm_at m h = None
      \<and> m_handle m' = (m_handle m)(x := h)"
    using ins hm_insert_new [OF ok x] x next_handle_gt(2) [OF ok x(2)] by (auto simp: setHandle_def)
next
  fix m m' :: "'o handle_mgr" and x h
  assume ok: "hm_ok m" and ins: "hm_insert x m = ((h, False), m')"
  show "m' = m \<and> h = m_handle m x"
    using ins hm_insert_new [OF ok, of x] hm_insert_full [OF ok, of x] hm_insert_again [OF ok, of x]
    by (cases "m_handle m x = SSI_NULL_HANDLE"; cases "exhausted m") auto
qed (auto simp: hm_ok_insert hm_ok_remove hm_ok_at hm_remove_hit hm_remove_miss setHandle_def)

lemma hm_remove_forgets:
  assumes "hm_ok m"
  shows "hm_ok (snd (hm_remove x m)) \<and> m_handle (snd (hm_remove x m)) = (m_handle m)(x := SSI_NULL_HANDLE)"
proof (cases "m_handle m x = SSI_NULL_HANDLE")
  case True
  then have "hm_remove x m = (None, m)" by (simp add: hm_remove_def getHandle_def hm_remove_handle_def)
  with True assms show ?thesis by (simp add: fun_upd_idem)
next
  case False
  from hm.removed [OF assms hm.at_handle [OF assms False]] hm.ok_remove [OF assms]
  show ?thesis by (simp add: hm_remove_def getHandle_def)
qed

subsection \<open>The buffer protocol of \<open>getHandles\<close>\<close>

lemma store_handles_ok:
  "i + length xs \<le> length b \<Longrightarrow>
   store_handles xs i (Some b) = Some (Some (take i b @ xs @ drop (i + length xs) b))"
proof (induction xs arbitrary: i b)
  case (Cons x xs)
  then have "i < length b" by simp
  moreover have "take (Suc i) (b[i := x]) = take i b @ [x]"
    using \<open>i < length b\<close> by (simp add: take_Suc_conv_app_nth)
  ultimately show ?case
    using Cons.IH [of "Suc i" "b[i := x]"] Cons.prems by simp
qed simp

lemma getHandles_fits:
  assumes "length l \<le> unat n" "unat n \<le> length b"
  shows "container_getHandles ho l (Some b) (Some n)
    = Some (SSI_StatusOk, Some (map ho l @ drop (length l) b), Some (of_nat (length l)))"
  using assms store_handles_ok [of 0 "map ho l" b] by (simp add: container_getHandles_def)

lemma getHandles_too_small:
  "unat n < length l \<Longrightarrow> (n \<noteq> 0 \<Longrightarrow> buf \<noteq> None) \<Longrightarrow>
   container_getHandles ho l buf (Some n) = Some (SSI_StatusBufferTooSmall, buf, Some (of_nat (length l)))"
  by (auto simp: container_getHandles_def)

subsection \<open>Properties\<close>

text \<open>
  C22. A new object registered with \<open>HandleManager::insert\<close> gets a non-null handle no live object has
  and larger than all of them, which from then on finds exactly it; the only failure is the largest
  handle being in use.  The invariant of the registry is kept.
\<close>
theorem insert_fresh_handle:
  assumes "hm_ok m" "m_handle m x = SSI_NULL_HANDLE"
  shows "\<exists>h inserted m'. hm_insert x m = ((h, inserted), m') \<and> hm_ok m'
    \<and> (if exhausted m then \<not> inserted \<and> m' = m
       else inserted \<and> h \<noteq> SSI_NULL_HANDLE \<and> (\<forall>k \<in> live m. k < h) \<and> live m' = insert h (live m)
         \<and> hm_at m' = (hm_at m)(h \<mapsto> x))"
proof (cases "exhausted m")
  case True
  with assms show ?thesis by (auto simp: hm_insert_full)
next
  case False
  note n = next_handle_gt [OF assms(1) False] and i = hm_insert_new [OF assms False]
  show ?thesis
    using False n i hm_ok_insert [OF assms(1), of x] hm.at_insert [OF assms(1) i]
    by (auto simp: setHandle_def live_def set_insort_fst)
qed

theorem insert_fresh_handle_witness:
  "\<exists>h inserted m'. hm_insert (7 :: nat) hm_empty = ((h, inserted), m') \<and> hm_ok m' \<and> hm_at m' h = Some 7"
  using insert_fresh_handle [OF hm_ok_empty, of "7 :: nat"]
  by (auto simp: hm_empty_def exhausted_def)

text \<open>
  Removing a handle undoes its insertion: the lookups and the handles of all objects are what they
  were before, so a handle that is closed is invalid afterwards and no other handle is disturbed.
\<close>
theorem insert_remove_roundtrip:
  assumes "hm_ok m" "hm_insert x m = ((h, True), m')"
  shows "fst (hm_remove_handle h m') = Some x \<and> hm_at (snd (hm_remove_handle h m')) = hm_at m
    \<and> m_handle (snd (hm_remove_handle h m')) = m_handle m"
  using assms by (rule hm.insert_then_remove)

theorem insert_remove_roundtrip_witness:
  "\<exists>h m'. hm_insert (7 :: nat) hm_empty = ((h, True), m')
     \<and> hm_at (snd (hm_remove_handle h m')) = (\<lambda>_. None)"
proof -
  have i: "hm_insert (7 :: nat) hm_empty = ((1, True), snd (hm_insert 7 hm_empty))"
    using hm_insert_new [OF hm_ok_empty, of "7 :: nat"]
    by (simp add: hm_empty_def exhausted_def next_handle_def)
  have e: "hm_at (hm_empty :: nat handle_mgr) = (\<lambda>_. None)"
    by (auto simp: hm_at_def hm_empty_def)
  show ?thesis
    using i insert_remove_roundtrip [OF hm_ok_empty i] unfolding e by blast
qed

text \<open>
  The two-call protocol of the list queries: a call with count 0 and no buffer reports the number
  of handles, and a second call with a buffer of that many slots fills it with the handles in order
  and nothing else.
\<close>
theorem getHandles_two_calls:
  assumes "length l < 2 ^ 32" "l \<noteq> []" "length b = length l"
  shows "\<exists>n. container_getHandles ho l None (Some 0) = Some (SSI_StatusBufferTooSmall, None, Some n)
     \<and> container_getHandles ho l (Some b) (Some n) = Some (SSI_StatusOk, Some (map ho l), Some n)"
  using assms getHandles_too_small [of 0 l None ho] getHandles_fits [of l "of_nat (length l)" b ho]
  by (simp add: unat_of_nat_u32)

theorem getHandles_two_calls_witness:
  "\<exists>n. container_getHandles (\<lambda>x :: nat. of_nat x) [4, 9] None (Some 0)
        = Some (SSI_StatusBufferTooSmall, None, Some n)
     \<and> container_getHandles (\<lambda>x. of_nat x) [4, 9] (Some [0, 0]) (Some n)
        = Some (SSI_StatusOk, Some [4, 9], Some n)"
  using getHandles_two_calls [of "[4, 9]" "[0, 0]" "\<lambda>x :: nat. of_nat x"] by simp

end
