(* ===== verification/Sessions.thy ===== *)
theory Sessions
  imports Handles
begin

text \<open>
  Sessions and the library context: \<open>session.cpp\<close>, \<open>session_manager.cpp\<close>, \<open>context_manager.cpp\<close> of
  \<open>lib/engine\<close> and the entry points \<open>SsiInitialize\<close>, \<open>SsiFinalize\<close>, \<open>SsiSessionOpen\<close>, \<open>SsiSessionClose\<close>
  and the query templates of \<open>src/\<close>.

  A session owns nine containers of objects; every object a session holds is also registered with
  the context, which gives it its public handle.  What a scan of sysfs finds is a parameter: the
  objects in the order in which \<open>Session::initialize\<close> adds them, and whether the scan ends by an
  exception.  Session objects are numbered by their allocation.
\<close>

datatype kind = EndDevice | Array | Enclosure | RaidInfo | Phy | Volume | Port | RoutingDevice
  | Controller

record 'o session =
  m_EndDevices :: "'o list"
  m_Arrays :: "'o list"
  m_Enclosures :: "'o list"
  m_RaidInfo :: "'o list"
  m_Phys :: "'o list"
  m_Volumes :: "'o list"
  m_Ports :: "'o list"
  m_RoutingDevices :: "'o list"
  m_Controllers :: "'o list"

definition empty_session :: "'o session" where
  "empty_session = \<lparr>m_EndDevices = [], m_Arrays = [], m_Enclosures = [], m_RaidInfo = [], m_Phys = [],
     m_Volumes = [], m_Ports = [], m_RoutingDevices = [], m_Controllers = []\<rparr>"

fun container :: "kind \<Rightarrow> 'o session \<Rightarrow> 'o list" where
  "container EndDevice s = m_EndDevices s"
| "container Array s = m_Arrays s"
| "container Enclosure s = m_Enclosures s"
| "container RaidInfo s = m_RaidInfo s"
| "container Phy s = m_Phys s"
| "container Volume s = m_Volumes s"
| "container Port s = m_Ports s"
| "container RoutingDevice s = m_RoutingDevices s"
| "container Controller s = m_Controllers s"

fun session_add :: "kind \<Rightarrow> 'o \<Rightarrow> 'o session \<Rightarrow> 'o session" where
  "session_add EndDevice x s = s\<lparr>m_EndDevices := container_add x (m_EndDevices s)\<rparr>"
| "session_add Array x s = s\<lparr>m_Arrays := container_add x (m_Arrays s)\<rparr>"
| "session_add Enclosure x s = s\<lparr>m_Enclosures := container_add x (m_Enclosures s)\<rparr>"
| "session_add RaidInfo x s = s\<lparr>m_RaidInfo := container_add x (m_RaidInfo s)\<rparr>"
| "session_add Phy x s = s\<lparr>m_Phys := container_add x (m_Phys s)\<rparr>"
| "session_add Volume x s = s\<lparr>m_Volumes := container_add x (m_Volumes s)\<rparr>"
| "session_add Port x s = s\<lparr>m_Ports := container_add x (m_Ports s)\<rparr>"
| "session_add RoutingDevice x s = s\<lparr>m_RoutingDevices := container_add x (m_RoutingDevices s)\<rparr>"
| "session_add Controller x s = s\<lparr>m_Controllers := container_add x (m_Controllers s)\<rparr>"

text \<open>\<open>addEndDevice\<close>, \<open>addArray\<close>, ...: the result of the registration is ignored.\<close>

definition add_object ::
  "kind \<Rightarrow> 'o \<Rightarrow> 'o session \<times> 'o handle_mgr \<Rightarrow> 'o session \<times> 'o handle_mgr" where
  "add_object k x = (\<lambda>(s, objects). (session_add k x s, snd (hm_insert x objects)))"

text \<open>The destructor unregisters the objects, container by container.\<close>

definition destructor_order :: "'o session \<Rightarrow> 'o list" where
  "destructor_order s = m_Controllers s @ m_Arrays s @ m_Enclosures s @ m_RaidInfo s @ m_Phys s
     @ m_Ports s @ m_Volumes s @ m_EndDevices s @ m_RoutingDevices s"

definition session_destroy :: "'o session \<Rightarrow> 'o handle_mgr \<Rightarrow> 'o handle_mgr" where
  "session_destroy s objects = fold (\<lambda>x m. snd (hm_remove x m)) (destructor_order s) objects"

text \<open>\<open>found\<close> is what the scan adds, \<open>throws\<close> whether it ends by an exception.\<close>

record 'o scan =
  found :: "(kind \<times> 'o) list"
  throws :: bool

definition session_initialize ::
  "'o scan \<Rightarrow> 'o session \<times> 'o handle_mgr \<Rightarrow> ('o session \<times> 'o handle_mgr) \<times> bool" where
  "session_initialize sysfs st = (fold (\<lambda>(k, x). add_object k x) (found sysfs) st, \<not> throws sysfs)"

text \<open>\<open>Session::getObject\<close>; \<open>None\<close> is a null pointer.\<close>

datatype 'o scope = The_session | Object kind 'o

definition search_order :: "kind list" where
  "search_order =
     [EndDevice, Array, Enclosure, Phy, Volume, Port, RoutingDevice, RaidInfo, Controller]"

fun search :: "('o \<Rightarrow> SSI_Handle) \<Rightarrow> kind list \<Rightarrow> 'o session \<Rightarrow> SSI_Handle \<Rightarrow> 'o scope option" where
  "search handle_of [] s handle = None"
| "search handle_of (k # ks) s handle =
     (case container_find handle_of (container k s) handle of
        Some x \<Rightarrow> Some (Object k x)
      | None \<Rightarrow> search handle_of ks s handle)"

definition session_getObject ::
  "('o \<Rightarrow> SSI_Handle) \<Rightarrow> 'o session \<Rightarrow> SSI_Handle \<Rightarrow> 'o scope option" where
  "session_getObject handle_of s handle =
     (if handle = SSI_NULL_HANDLE then Some The_session else search handle_of search_order s handle)"

definition session_getDevice ::
  "('o \<Rightarrow> SSI_Handle) \<Rightarrow> 'o session \<Rightarrow> SSI_Handle \<Rightarrow> 'o scope option" where
  "session_getDevice handle_of s handle = search handle_of [Array, EndDevice, Volume] s handle"

subsection \<open>The context\<close>

record 'o context_mgr =
  m_SessionMgr :: "nat handle_mgr"
  session_at :: "nat \<Rightarrow> 'o session"
  allocated :: nat
  m_HandleMgr :: "'o handle_mgr"

definition new_context :: "'o context_mgr" where
  "new_context = \<lparr>m_SessionMgr = hm_empty, session_at = (\<lambda>_. empty_session), allocated = 0,
     m_HandleMgr = hm_empty\<rparr>"

definition getSession :: "'o context_mgr \<Rightarrow> SSI_Handle \<Rightarrow> nat option" where
  "getSession c handle = hm_at (m_SessionMgr c) handle"

text \<open>Destroying session \<open>i\<close>: \<open>~Session\<close> runs when the last pointer to it is dropped.\<close>

definition destroy :: "nat \<Rightarrow> 'o context_mgr \<Rightarrow> 'o context_mgr" where
  "destroy i c = c\<lparr>m_HandleMgr := session_destroy (session_at c i) (m_HandleMgr c)\<rparr>"

definition initialize :: "'o scan \<Rightarrow> nat \<Rightarrow> 'o context_mgr \<Rightarrow> 'o context_mgr \<times> bool" where
  "initialize sysfs i c =
     (let ((s, objects), ok) = session_initialize sysfs (session_at c i, m_HandleMgr c) in
      (c\<lparr>session_at := (session_at c)(i := s), m_HandleMgr := objects\<rparr>, ok))"

definition allocate :: "'o context_mgr \<Rightarrow> nat \<times> 'o context_mgr" where
  "allocate c = (allocated c, c\<lparr>allocated := Suc (allocated c),
     session_at := (session_at c)(allocated c := empty_session)\<rparr>)"

definition openSession :: "'o scan \<Rightarrow> 'o context_mgr \<Rightarrow> SSI_Handle \<times> 'o context_mgr" where
  "openSession sysfs c =
     (let (i, c1) = allocate c;
          ((h, inserted), mgr) = hm_insert i (m_SessionMgr c1);
          c2 = c1\<lparr>m_SessionMgr := mgr\<rparr> in
      if \<not> inserted then (SSI_NULL_HANDLE, destroy i c2)
      else let (c3, ok) = initialize sysfs i c2 in
           if ok then (getHandle (m_SessionMgr c3) i, c3)
           else (SSI_NULL_HANDLE,
                 destroy i (c3\<lparr>m_SessionMgr :=
                   snd (hm_remove_handle (getHandle (m_SessionMgr c3) i) (m_SessionMgr c3))\<rparr>)))"

definition closeSession :: "SSI_Handle \<Rightarrow> 'o context_mgr \<Rightarrow> SSI_Status \<times> 'o context_mgr" where
  "closeSession handle c =
     (if handle = SSI_NULL_HANDLE then (SSI_StatusInvalidParameter, c)
      else let (pSession, mgr) = hm_remove_handle handle (m_SessionMgr c);
               c1 = c\<lparr>m_SessionMgr := mgr\<rparr> in
           case pSession of
             None \<Rightarrow> (SSI_StatusInvalidHandle, c1)
           | Some i \<Rightarrow> (SSI_StatusOk, destroy i c1))"

subsection \<open>Entry points\<close>

text \<open>
  \<open>pContextMgr\<close> is \<open>None\<close> while the library is not initialized.  \<open>SsiInitialize\<close> reads the user id.
\<close>

definition SsiInitialize :: "nat \<Rightarrow> 'o context_mgr option \<Rightarrow> SSI_Status \<times> 'o context_mgr option" where
  "SsiInitialize uid pContextMgr =
     (if uid \<noteq> 0 then (SSI_StatusInsufficientPrivileges, pContextMgr)
      else if pContextMgr \<noteq> None then (SSI_StatusDuplicate, pContextMgr)
      else (SSI_StatusOk, Some new_context))"

text \<open>
  \<open>delete pContextMgr\<close> destroys the members in reverse order of declaration: \<open>m_HandleMgr\<close> first,
  \<open>m_SessionMgr\<close> last.  Destroying a session that is still open calls \<open>pContextMgr->remove\<close> for its
  objects, and looking up a non-null handle in the destroyed \<open>m_HandleMgr\<close> is undefined behaviour.
\<close>

definition delete_context :: "'o context_mgr \<Rightarrow> unit option" where
  "delete_context c =
     (if \<exists>(h, i) \<in> set (m_objects (m_SessionMgr c)).
           \<exists>x \<in> set (destructor_order (session_at c i)).
             getHandle (m_HandleMgr c) x \<noteq> SSI_NULL_HANDLE
      then None else Some ())"

definition SsiFinalize :: "'o context_mgr option \<Rightarrow> (SSI_Status \<times> 'o context_mgr option) option" where
  "SsiFinalize pContextMgr =
     (case pContextMgr of
        None \<Rightarrow> Some (SSI_StatusNotInitialized, pContextMgr)
      | Some c \<Rightarrow> do { _ \<leftarrow> delete_context c; Some (SSI_StatusOk, None) })"

text \<open>The handle pointer argument is \<open>null\<close> or not; the stored handle is returned.\<close>

definition SsiSessionOpen ::
  "'o scan \<Rightarrow> bool \<Rightarrow> 'o context_mgr option \<Rightarrow> (SSI_Status \<times> SSI_Handle option) \<times> 'o context_mgr option" where
  "SsiSessionOpen sysfs pSession_null pContextMgr =
     (if pSession_null then ((SSI_StatusInvalidParameter, None), pContextMgr)
      else case pContextMgr of
        None \<Rightarrow> ((SSI_StatusNotInitialized, None), None)
      | Some c \<Rightarrow>
          let (h, c') = openSession sysfs c in
          if h \<noteq> SSI_NULL_HANDLE then ((SSI_StatusOk, Some h), Some c')
          else ((SSI_StatusInsufficientResources, Some h), Some c'))"

definition SsiSessionClose :: "SSI_Handle \<Rightarrow> 'o context_mgr option \<Rightarrow> SSI_Status \<times> 'o context_mgr option" where
  "SsiSessionClose session pContextMgr =
     (case pContextMgr of
        None \<Rightarrow> (SSI_StatusNotInitialized, None)
      | Some c \<Rightarrow> let (st, c') = closeSession session c in (st, Some c'))"

definition ssi_getSession :: "SSI_Handle \<Rightarrow> 'o context_mgr option \<Rightarrow> SSI_Status + nat" where
  "ssi_getSession session pContextMgr =
     (case pContextMgr of
        None \<Rightarrow> Inl SSI_StatusNotInitialized
      | Some c \<Rightarrow>
          (case getSession c session of
             None \<Rightarrow> Inl (if session = SSI_NULL_HANDLE then SSI_StatusFailed else SSI_StatusInvalidSession)
           | Some i \<Rightarrow> Inr i))"

text \<open>
  The query templates of \<open>templates.h\<close>.  \<open>getItems\<close> is the per-query callback: the objects it puts
  into the container, or \<open>None\<close> when it throws; \<open>matches\<close> is the virtual \<open>scopeTypeMatches\<close>.
\<close>

definition query ::
  "('o scope \<Rightarrow> SSI_ScopeType \<Rightarrow> bool) \<Rightarrow> ('o scope \<Rightarrow> SSI_ScopeType \<Rightarrow> 'o list option) \<Rightarrow>
   'o context_mgr \<Rightarrow> nat \<Rightarrow> SSI_ScopeType \<Rightarrow> SSI_Handle \<Rightarrow> SSI_Handle list option \<Rightarrow> u32 option \<Rightarrow>
   (SSI_Status \<times> SSI_Handle list option \<times> u32 option) option" where
  "query matches getItems c i scopeType scopeHandle handleList handleCount =
     (case session_getObject (m_handle (m_HandleMgr c)) (session_at c i) scopeHandle of
        None \<Rightarrow> Some (SSI_StatusInvalidScope, handleList, handleCount)
      | Some scope \<Rightarrow>
          if \<not> matches scope scopeType then Some (SSI_StatusInvalidScope, handleList, handleCount)
          else (case getItems scope scopeType of
                  None \<Rightarrow> Some (SSI_StatusInvalidScope, handleList, handleCount)
                | Some items \<Rightarrow>
                    container_getHandles (m_handle (m_HandleMgr c)) items handleList handleCount))"

definition SsiGetHandles ::
  "('o scope \<Rightarrow> SSI_ScopeType \<Rightarrow> bool) \<Rightarrow> ('o scope \<Rightarrow> SSI_ScopeType \<Rightarrow> 'o list option) \<Rightarrow>
   SSI_Handle \<Rightarrow> SSI_ScopeType \<Rightarrow> SSI_Handle \<Rightarrow> SSI_Handle list option \<Rightarrow> u32 option \<Rightarrow>
   'o context_mgr option \<Rightarrow> (SSI_Status \<times> SSI_Handle list option \<times> u32 option) option" where
  "SsiGetHandles matches getItems session scopeType scopeHandle handleList handleCount pContextMgr =
     (case ssi_getSession session pContextMgr of
        Inl st \<Rightarrow> Some (st, handleList, handleCount)
      | Inr i \<Rightarrow> query matches getItems (the pContextMgr) i scopeType scopeHandle handleList handleCount)"

text \<open>
  The variant without a session: a temporary session is scanned for the call and destroyed when the
  call returns.
\<close>

definition SsiGetHandles_temp ::
  "'o scan \<Rightarrow> ('o scope \<Rightarrow> SSI_ScopeType \<Rightarrow> bool) \<Rightarrow>
   (nat \<Rightarrow> 'o context_mgr \<Rightarrow> 'o scope \<Rightarrow> SSI_ScopeType \<Rightarrow> 'o list option) \<Rightarrow>
   SSI_ScopeType \<Rightarrow> SSI_Handle \<Rightarrow> SSI_Handle list option \<Rightarrow> u32 option \<Rightarrow> 'o context_mgr option \<Rightarrow>
   ((SSI_Status \<times> SSI_Handle list option \<times> u32 option) \<times> 'o context_mgr option) option" where
  "SsiGetHandles_temp sysfs matches getItems scopeType scopeHandle handleList handleCount pContextMgr =
     (case pContextMgr of
        None \<Rightarrow> Some ((SSI_StatusNotInitialized, handleList, handleCount), None)
      | Some c \<Rightarrow>
          let (i, c1) = allocate c; (c2, ok) = initialize sysfs i c1 in
          if \<not> ok then Some ((SSI_StatusFailed, handleList, handleCount), Some (destroy i c2))
          else do { r \<leftarrow> query matches (getItems i c2) c2 i scopeType scopeHandle handleList handleCount;
                    Some (r, Some (destroy i c2)) })"

subsection \<open>Registering and releasing many objects\<close>

context handle_registry begin

definition register_all :: "'o list \<Rightarrow> 's \<Rightarrow> 's" where
  "register_all xs m = fold (\<lambda>x m. snd (insert x m)) xs m"

definition release_all :: "'o list \<Rightarrow> 's \<Rightarrow> 's" where
  "release_all xs m = fold (\<lambda>x m. snd (remove (handle_of m x) m)) xs m"

lemma register_all_simps [simp]:
  "register_all [] m = m" "register_all (x # xs) m = register_all xs (snd (insert x m))"
  by (simp_all add: register_all_def)

lemma release_all_simps [simp]:
  "release_all [] m = m" "release_all (x # xs) m = release_all xs (snd (remove (handle_of m x) m))"
  by (simp_all add: release_all_def)

lemma ok_register_all: "ok m \<Longrightarrow> ok (register_all xs m)"
  by (induction xs arbitrary: m) (simp_all add: ok_insert)

lemma ok_release_all: "ok m \<Longrightarrow> ok (release_all xs m)"
  by (induction xs arbitrary: m) (simp_all add: ok_remove)

lemma insert_other: "ok m \<Longrightarrow> y \<noteq> x \<Longrightarrow> handle_of (snd (insert x m)) y = handle_of m y"
  using inserted [of m x] refused [of m x] by (cases "insert x m" rule: prod.exhaust) force

lemma register_all_other: "ok m \<Longrightarrow> y \<notin> set xs \<Longrightarrow> handle_of (register_all xs m) y = handle_of m y"
  by (induction xs arbitrary: m) (simp_all add: ok_insert insert_other)

lemma remove_object:
  assumes "ok m"
  shows "handle_of (snd (remove (handle_of m x) m)) = (handle_of m)(x := SSI_NULL_HANDLE)"
proof (cases "handle_of m x = SSI_NULL_HANDLE")
  case True
  with null_handle_free [OF assms] missing [OF assms] show ?thesis by auto
next
  case False
  with removed [OF assms at_handle [OF assms False]] show ?thesis by simp
qed

lemma release_all_handles:
  "ok m \<Longrightarrow> handle_of (release_all xs m) y = (if y \<in> set xs then SSI_NULL_HANDLE else handle_of m y)"
  by (induction xs arbitrary: m) (simp_all add: ok_remove remove_object)

lemma register_release:
  assumes "ok m" "set ys = set xs" "\<forall>x \<in> set xs. handle_of m x = SSI_NULL_HANDLE"
  shows "handle_of (release_all ys (register_all xs m)) = handle_of m"
  using assms register_all_other [OF assms(1)]
  by (auto simp: fun_eq_iff release_all_handles ok_register_all)

end

lemma hm_eqI:
  assumes "hm_ok m" "hm_ok m'" "m_handle m = m_handle m'"
  shows "m = (m' :: 'o handle_mgr)"
proof -
  have objs: "set (m_objects n) = {(h, x). h \<noteq> SSI_NULL_HANDLE \<and> m_handle n x = h}"
    if "hm_ok n" for n :: "'o handle_mgr"
    using that by (auto simp: hm_ok_def live_def) force
  have "inj_on fst (set (m_objects n))" if "hm_ok n" for n :: "'o handle_mgr"
    using that by (simp add: hm_ok_def distinct_map)
  moreover have "set (m_objects m') = set (m_objects m)"
    by (simp add: objs assms)
  moreover have "sorted (map fst (m_objects n)) \<and> distinct (map fst (m_objects n))"
    if "hm_ok n" for n :: "'o handle_mgr"
    using that by (simp add: hm_ok_def)
  ultimately have "m_objects m = m_objects m'"
    using assms(1,2) by (intro map_sorted_distinct_set_unique [of fst]) simp_all
  with assms(3) show ?thesis by simp
qed

lemma set_destructor_order: "set (destructor_order s) = (\<Union>k. set (container k s))"
proof -
  have univ: "(UNIV :: kind set)
      = {EndDevice, Array, Enclosure, RaidInfo, Phy, Volume, Port, RoutingDevice, Controller}"
    (is "_ = ?K")
  proof
    show "UNIV \<subseteq> ?K"
    proof
      fix k :: kind show "k \<in> ?K" by (cases k) simp_all
    qed
  qed simp
  show ?thesis unfolding univ by (simp add: destructor_order_def Un_ac)
qed

lemma container_session_add:
  "container k (session_add j x s) = (if k = j then container k s @ [x] else container k s)"
  by (cases j; cases k) (simp_all add: container_add_def)

definition held :: "'o session \<Rightarrow> 'o set" where
  "held s = set (destructor_order s)"

lemma held_add: "held (session_add k x s) = insert x (held s)"
  by (cases k) (simp_all add: held_def destructor_order_def container_add_def insert_commute Un_insert_right)

lemma held_empty [simp]: "held empty_session = {}"
  by (simp add: held_def destructor_order_def empty_session_def)

lemma session_destroy_release: "session_destroy s m = hm.release_all (destructor_order s) m"
  by (simp add: session_destroy_def hm.release_all_def hm_remove_def getHandle_def)

lemma initialize_state:
  "fold (\<lambda>(k, x). add_object k x) xs (s, m)
     = (fold (\<lambda>(k, x). session_add k x) xs s, hm.register_all (map snd xs) m)"
  by (induction xs arbitrary: s m) (auto simp: add_object_def)

lemma held_fold: "held (fold (\<lambda>(k, x). session_add k x) xs s) = held s \<union> snd ` set xs"
  by (induction xs arbitrary: s) (auto simp: held_add)

lemma container_fold:
  "container k (fold (\<lambda>(k, x). session_add k x) xs s)
     = container k s @ map snd (filter (\<lambda>p. fst p = k) xs)"
  by (induction xs arbitrary: s) (auto simp: container_session_add)

text \<open>A scan of new objects: none of them has been registered yet.\<close>

definition fresh_scan :: "'o scan \<Rightarrow> 'o handle_mgr \<Rightarrow> bool" where
  "fresh_scan sysfs m \<longleftrightarrow> distinct (map snd (found sysfs))
     \<and> (\<forall>(k, x) \<in> set (found sysfs). m_handle m x = SSI_NULL_HANDLE)"

text \<open>A session that is filled and destroyed again leaves no trace in the registry.\<close>

lemma scan_and_destroy:
  assumes "hm_ok m" "fresh_scan sysfs m"
  shows "session_destroy (fold (\<lambda>(k, x). session_add k x) (found sysfs) empty_session)
           (hm.register_all (map snd (found sysfs)) m) = m"
proof (rule hm_eqI)
  let ?s = "fold (\<lambda>(k, x). session_add k x) (found sysfs) empty_session"
  show "hm_ok (session_destroy ?s (hm.register_all (map snd (found sysfs)) m))"
    by (simp add: session_destroy_release hm.ok_release_all hm.ok_register_all assms(1))
  show "m_handle (session_destroy ?s (hm.register_all (map snd (found sysfs)) m)) = m_handle m"
    unfolding session_destroy_release
    using assms held_fold [of "found sysfs" empty_session]
    by (intro hm.register_release)
       (auto simp: held_def [symmetric] held_empty [unfolded held_def] fresh_scan_def)
qed (rule assms(1))

subsection \<open>The invariant of the context\<close>

definition open_ids :: "'o context_mgr \<Rightarrow> nat set" where
  "open_ids c = snd ` set (m_objects (m_SessionMgr c))"

definition ctx_ok :: "'o context_mgr \<Rightarrow> bool" where
  "ctx_ok c \<longleftrightarrow> hm_ok (m_SessionMgr c) \<and> hm_ok (m_HandleMgr c)
     \<and> (\<forall>i \<in> open_ids c. i < allocated c)
     \<and> (\<forall>x. m_handle (m_HandleMgr c) x \<noteq> SSI_NULL_HANDLE \<longrightarrow>
          (\<exists>i \<in> open_ids c. x \<in> held (session_at c i)))
     \<and> (\<forall>i \<in> open_ids c. \<forall>j \<in> open_ids c. i \<noteq> j \<longrightarrow>
          held (session_at c i) \<inter> held (session_at c j) = {})"

text \<open>The objects a scan makes are new: registered nowhere and in no open session.\<close>

definition new_scan :: "'o scan \<Rightarrow> 'o context_mgr \<Rightarrow> bool" where
  "new_scan sysfs c \<longleftrightarrow> fresh_scan sysfs (m_HandleMgr c)
     \<and> (\<forall>i \<in> open_ids c. held (session_at c i) \<inter> snd ` set (found sysfs) = {})"

abbreviation (input) filled :: "'o scan \<Rightarrow> 'o session" where
  "filled sysfs \<equiv> fold (\<lambda>(k, x). session_add k x) (found sysfs) empty_session"

abbreviation (input) registered :: "'o scan \<Rightarrow> 'o context_mgr \<Rightarrow> 'o handle_mgr" where
  "registered sysfs c \<equiv> hm.register_all (map snd (found sysfs)) (m_HandleMgr c)"

lemma held_filled: "held (filled sysfs) = snd ` set (found sysfs)"
  by (simp add: held_fold)

lemma open_ids_iff:
  "hm_ok (m_SessionMgr c) \<Longrightarrow> i \<in> open_ids c \<longleftrightarrow> m_handle (m_SessionMgr c) i \<noteq> SSI_NULL_HANDLE"
  by (auto simp: open_ids_def hm_ok_def live_def) force+

lemma destroy_empty: "session_at c i = empty_session \<Longrightarrow> destroy i c = c"
  by (simp add: destroy_def session_destroy_def destructor_order_def empty_session_def)

lemma initialize_eq:
  "session_at c i = empty_session \<Longrightarrow>
   initialize sysfs i c = (c\<lparr>session_at := (session_at c)(i := filled sysfs),
     m_HandleMgr := registered sysfs c\<rparr>, \<not> throws sysfs)"
  by (simp add: initialize_def session_initialize_def initialize_state)

lemma destroy_filled:
  assumes "hm_ok (m_HandleMgr c)" "fresh_scan sysfs (m_HandleMgr c)"
  shows "destroy i (c\<lparr>session_at := (session_at c)(i := filled sysfs),
       m_HandleMgr := registered sysfs c\<rparr>) = c\<lparr>session_at := (session_at c)(i := filled sysfs)\<rparr>"
  using scan_and_destroy [OF assms] by (simp add: destroy_def)

lemma openSession_cases:
  assumes ok: "ctx_ok c" and scan: "new_scan sysfs c"
  obtains
    (full) "exhausted (m_SessionMgr c)" "openSession sysfs c = (SSI_NULL_HANDLE,
       c\<lparr>session_at := (session_at c)(allocated c := empty_session), allocated := Suc (allocated c)\<rparr>)"
  | (failed) "throws sysfs" "openSession sysfs c = (SSI_NULL_HANDLE,
       c\<lparr>session_at := (session_at c)(allocated c := filled sysfs), allocated := Suc (allocated c)\<rparr>)"
  | (opened) "\<not> throws sysfs" "\<not> exhausted (m_SessionMgr c)"
      "openSession sysfs c = (next_handle (m_SessionMgr c),
       c\<lparr>m_SessionMgr := snd (hm_insert (allocated c) (m_SessionMgr c)),
         session_at := (session_at c)(allocated c := filled sysfs), allocated := Suc (allocated c),
         m_HandleMgr := registered sysfs c\<rparr>)"
proof -
  let ?i = "allocated c" and ?S = "m_SessionMgr c"
  have S: "hm_ok ?S" "hm_ok (m_HandleMgr c)" "fresh_scan sysfs (m_HandleMgr c)"
    using ok scan by (simp_all add: ctx_ok_def new_scan_def)
  have "?i \<notin> open_ids c" using ok by (auto simp: ctx_ok_def)
  then have i: "m_handle ?S ?i = SSI_NULL_HANDLE"
    using open_ids_iff [OF S(1)] by blast
  show thesis
  proof (cases "exhausted ?S")
    case True
    from full [OF True] show thesis
      using hm_insert_full [OF S(1) i True]
      by (simp add: openSession_def allocate_def Let_def destroy_empty)
  next
    case False
    note ins = hm_insert_new [OF S(1) i False]
    obtain S' where S': "hm_insert ?i ?S = ((next_handle ?S, True), S')" using ins by blast
    have h: "m_handle S' ?i = next_handle ?S" and S'_ok: "hm_ok S'"
      using ins S' hm_ok_insert [OF S(1), of ?i] by (auto simp: setHandle_def)
    have undone: "snd (hm_remove_handle (next_handle ?S) S') = ?S"
      using hm.insert_then_remove [OF S(1) S'] S(1) hm_ok_remove [OF S'_ok] by (intro hm_eqI) auto
    show thesis
    proof (cases "throws sysfs")
      case True
      from failed [OF True] show thesis
        using True S' h undone scan_and_destroy [OF S(2,3)]
        by (simp add: openSession_def allocate_def Let_def initialize_eq destroy_def getHandle_def)
    next
      case no: False
      from opened [OF no False] show thesis
        using no S' h
        by (simp add: openSession_def allocate_def Let_def initialize_eq getHandle_def)
    qed
  qed
qed

lemma closeSession_hit:
  assumes ok: "ctx_ok c" and i: "getSession c h = Some i"
  shows "closeSession h c = (SSI_StatusOk,
    c\<lparr>m_SessionMgr := snd (hm_remove_handle h (m_SessionMgr c)),
      m_HandleMgr := session_destroy (session_at c i) (m_HandleMgr c)\<rparr>)"
proof -
  have "h \<noteq> SSI_NULL_HANDLE" "hm_ok (m_SessionMgr c)"
    using i ok by (auto simp: getSession_def hm_at_def ctx_ok_def split: if_splits)
  with hm_remove_hit [of "m_SessionMgr c" h i] i show ?thesis
    by (simp add: closeSession_def getSession_def destroy_def)
qed

lemma closeSession_miss:
  "getSession c h = None \<Longrightarrow> closeSession h c =
     (if h = SSI_NULL_HANDLE then SSI_StatusInvalidParameter else SSI_StatusInvalidHandle, c)"
  by (auto simp: closeSession_def getSession_def hm_remove_miss)

lemma ctx_ok_new: "ctx_ok new_context"
  by (simp add: ctx_ok_def new_context_def hm_ok_empty open_ids_def) (simp add: hm_empty_def)

lemma ctx_ok_other_session:
  "ctx_ok c \<Longrightarrow> ctx_ok (c\<lparr>session_at := (session_at c)(allocated c := s), allocated := Suc (allocated c)\<rparr>)"
  by (auto simp: ctx_ok_def open_ids_def) (metis nat_neq_iff snd_conv)+

lemma ctx_ok_open:
  assumes "ctx_ok c" "new_scan sysfs c"
  shows "ctx_ok (snd (openSession sysfs c))"
  using assms
proof (cases rule: openSession_cases)
  case full
  then show ?thesis using ctx_ok_other_session [OF assms(1)] by simp
next
  case failed
  then show ?thesis using ctx_ok_other_session [OF assms(1)] by simp
next
  case opened
  let ?i = "allocated c" and ?S = "m_SessionMgr c" and ?xs = "map snd (found sysfs)"
  have S: "hm_ok ?S" "hm_ok (m_HandleMgr c)" and lt: "\<forall>i \<in> open_ids c. i < ?i"
    using assms(1) by (auto simp: ctx_ok_def)
  have i: "m_handle ?S ?i = SSI_NULL_HANDLE"
    using open_ids_iff [OF S(1)] lt by blast
  let ?c = "snd (openSession sysfs c)"
  have ids: "open_ids ?c = insert ?i (open_ids c)"
    using opened(3) hm_insert_new [OF S(1) i opened(2)]
    by (simp add: open_ids_def setHandle_def set_insort_fst)
  have at: "session_at ?c j = (if j = ?i then filled sysfs else session_at c j)" for j
    using opened(3) by simp
  have "hm_ok (m_SessionMgr ?c)" "hm_ok (m_HandleMgr ?c)"
    using opened(3) S by (simp_all add: hm_ok_insert hm.ok_register_all)
  moreover have "\<exists>j \<in> open_ids ?c. x \<in> held (session_at ?c j)"
    if "m_handle (m_HandleMgr ?c) x \<noteq> SSI_NULL_HANDLE" for x
  proof (cases "x \<in> set ?xs")
    case True
    then show ?thesis unfolding ids at by (simp add: held_filled)
  next
    case False
    then have "m_handle (m_HandleMgr c) x \<noteq> SSI_NULL_HANDLE"
      using that opened(3) hm.register_all_other [OF S(2)] by simp
    then obtain j where "j \<in> open_ids c" "x \<in> held (session_at c j)"
      using assms(1) by (auto simp: ctx_ok_def)
    with lt show ?thesis unfolding ids at by (auto intro!: bexI [of _ j])
  qed
  moreover have "held (session_at ?c j) \<inter> held (session_at ?c k) = {}"
    if "j \<in> open_ids ?c" "k \<in> open_ids ?c" "j \<noteq> k" for j k
  proof -
    have apart: "held (session_at c l) \<inter> snd ` set (found sysfs) = {}" if "l \<in> open_ids c" for l
      using assms(2) that by (auto simp: new_scan_def)
    have old: "held (session_at c j) \<inter> held (session_at c k) = {}" if "j \<in> open_ids c" "k \<in> open_ids c"
      using assms(1) that \<open>j \<noteq> k\<close> by (simp add: ctx_ok_def)
    show ?thesis
      using that apart [of j] apart [of k] old unfolding ids at
      by (cases "j = ?i"; cases "k = ?i") (auto simp: held_filled)
  qed
  moreover have "\<forall>j \<in> open_ids ?c. j < allocated ?c"
    using lt opened(3) unfolding ids by auto
  ultimately show ?thesis by (simp add: ctx_ok_def)
qed

lemma ctx_ok_close:
  assumes "ctx_ok c"
  shows "ctx_ok (snd (closeSession h c))"
proof (cases "getSession c h")
  case None
  with assms show ?thesis by (simp add: closeSession_miss)
next
  case (Some i)
  have S: "hm_ok (m_SessionMgr c)" "hm_ok (m_HandleMgr c)"
    using assms by (auto simp: ctx_ok_def)
  let ?c = "snd (closeSession h c)"
  note c = closeSession_hit [OF assms Some]
  have hd: "m_handle (m_SessionMgr ?c) = (m_handle (m_SessionMgr c))(i := SSI_NULL_HANDLE)"
    using c hm.removed [OF S(1)] Some by (simp add: getSession_def)
  have okS: "hm_ok (m_SessionMgr ?c)" "hm_ok (m_HandleMgr ?c)"
    using c S by (simp_all add: hm_ok_remove session_destroy_release hm.ok_release_all)
  have ids: "open_ids ?c = open_ids c - {i}"
    using open_ids_iff [OF S(1)] open_ids_iff [OF okS(1)] hd by (auto split: if_splits)
  have at: "session_at ?c = session_at c" "allocated ?c = allocated c"
    using c by simp_all
  have obj: "m_handle (m_HandleMgr ?c) x =
      (if x \<in> held (session_at c i) then SSI_NULL_HANDLE else m_handle (m_HandleMgr c) x)" for x
    using c hm.release_all_handles [OF S(2)] by (simp add: session_destroy_release held_def)
  show ?thesis
    using assms okS unfolding ctx_ok_def at ids obj by auto
qed

lemma ctx_ok_temp:
  assumes "ctx_ok c" "new_scan sysfs c"
    and "SsiGetHandles_temp sysfs matches getItems st sh hl hc (Some c) = Some (r, p)"
  shows "\<exists>c'. p = Some c' \<and> ctx_ok c' \<and> m_SessionMgr c' = m_SessionMgr c
     \<and> m_HandleMgr c' = m_HandleMgr c \<and> (\<forall>i \<in> open_ids c. session_at c' i = session_at c i)"
proof -
  let ?i = "allocated c"
  let ?c = "c\<lparr>session_at := (session_at c)(?i := filled sysfs), allocated := Suc ?i\<rparr>"
  have S: "hm_ok (m_HandleMgr c)" "fresh_scan sysfs (m_HandleMgr c)" "?i \<notin> open_ids c"
    using assms(1,2) by (auto simp: ctx_ok_def new_scan_def)
  have "p = Some ?c"
    using assms(3) scan_and_destroy [OF S(1,2)]
    by (auto simp: SsiGetHandles_temp_def allocate_def Let_def initialize_eq destroy_def
          elim!: bind_SomeE split: if_splits)
  with ctx_ok_other_session [OF assms(1), of "filled sysfs"] S(3) show ?thesis by auto
qed

text \<open>The states of the library a single-threaded client can reach.\<close>

inductive reachable :: "'o context_mgr option \<Rightarrow> bool" where
  start: "reachable None"
| init: "reachable p \<Longrightarrow> reachable (snd (SsiInitialize uid p))"
| fini: "reachable p \<Longrightarrow> SsiFinalize p = Some (st, p') \<Longrightarrow> reachable p'"
| open_session: "reachable (Some c) \<Longrightarrow> new_scan sysfs c \<Longrightarrow>
    reachable (snd (SsiSessionOpen sysfs null (Some c)))"
| close_session: "reachable p \<Longrightarrow> reachable (snd (SsiSessionClose h p))"
| temp_query: "reachable (Some c) \<Longrightarrow> new_scan sysfs c \<Longrightarrow>
    SsiGetHandles_temp sysfs matches getItems t sh hl hc (Some c) = Some (r, p') \<Longrightarrow> reachable p'"

lemma reachable_ok: "reachable p \<Longrightarrow> (\<forall>c. p = Some c \<longrightarrow> ctx_ok c)"
proof (induction rule: reachable.induct)
  case (init p uid)
  then show ?case by (auto simp: SsiInitialize_def ctx_ok_new)
next
  case (fini p st p')
  then show ?case by (auto simp: SsiFinalize_def elim!: bind_SomeE split: option.splits)
next
  case (open_session c sysfs null)
  then show ?case
    using ctx_ok_open [of c sysfs]
    by (auto simp: SsiSessionOpen_def split: prod.splits if_splits)
next
  case (close_session p h)
  show ?case
  proof (cases p)
    case None
    then show ?thesis by (simp add: SsiSessionClose_def)
  next
    case (Some c)
    with close_session ctx_ok_close [of c h] show ?thesis
      by (cases "closeSession h c") (simp add: SsiSessionClose_def)
  qed
next
  case (temp_query c sysfs matches getItems t sh hl hc r p')
  then show ?case using ctx_ok_temp by blast
qed simp

subsection \<open>Lookup by handle\<close>

lemma container_find_Some: "container_find ho l h = Some x \<Longrightarrow> x \<in> set l \<and> ho x = h"
  by (auto simp: container_find_def find_Some_iff)

lemma container_find_None: "container_find ho l h = None \<longleftrightarrow> (\<forall>x \<in> set l. ho x \<noteq> h)"
  by (auto simp: container_find_def find_None_iff)

lemma search_sound:
  "search ho ks s h = Some (Object k x) \<Longrightarrow> k \<in> set ks \<and> x \<in> set (container k s) \<and> ho x = h"
  by (induction ks) (auto split: option.splits dest: container_find_Some)

lemma search_None: "search ho ks s h = None \<longleftrightarrow> (\<forall>k \<in> set ks. \<forall>x \<in> set (container k s). ho x \<noteq> h)"
  by (induction ks) (auto simp: container_find_None split: option.splits dest: container_find_Some)

lemma search_not_session: "search ho ks s h \<noteq> Some The_session"
  by (induction ks) (auto split: option.splits)

lemma search_order_all: "set search_order = UNIV"
proof
  show "UNIV \<subseteq> set search_order"
  proof
    fix k show "k \<in> set search_order" by (cases k) (simp_all add: search_order_def)
  qed
qed simp

lemma held_iff: "x \<in> held s \<longleftrightarrow> (\<exists>k. x \<in> set (container k s))"
  by (simp add: held_def set_destructor_order)

text \<open>Every object sits in one container, once.\<close>

definition one_container :: "'o session \<Rightarrow> bool" where
  "one_container s \<longleftrightarrow>
     (\<forall>j k x. x \<in> set (container j s) \<longrightarrow> x \<in> set (container k s) \<longrightarrow> j = k)"

lemma container_empty [simp]: "container k empty_session = []"
  by (cases k) (simp_all add: empty_session_def)

lemma filled_one_container:
  assumes "distinct (map snd (found sysfs))"
  shows "one_container (filled sysfs)"
  using assms by (auto simp: one_container_def container_fold distinct_map inj_on_def)

lemma openSession_result:
  assumes "ctx_ok c" "new_scan sysfs c"
  shows "case openSession sysfs c of (h, c') \<Rightarrow>
     (\<forall>i \<in> open_ids c. session_at c' i = session_at c i)
     \<and> (if throws sysfs \<or> exhausted (m_SessionMgr c)
        then h = SSI_NULL_HANDLE \<and> m_SessionMgr c' = m_SessionMgr c \<and> m_HandleMgr c' = m_HandleMgr c
        else h \<noteq> SSI_NULL_HANDLE \<and> (\<forall>k \<in> live (m_SessionMgr c). k < h)
          \<and> (\<exists>i. getSession c' h = Some i \<and> held (session_at c' i) = snd ` set (found sysfs)))"
  using assms
proof (cases rule: openSession_cases)
  case opened
  have S: "hm_ok (m_SessionMgr c)" "allocated c \<notin> open_ids c"
    using assms(1) by (auto simp: ctx_ok_def)
  then have "m_handle (m_SessionMgr c) (allocated c) = SSI_NULL_HANDLE"
    using open_ids_iff by blast
  note ins = hm_insert_new [OF S(1) this opened(2)]
  have "hm_at (snd (hm_insert (allocated c) (m_SessionMgr c))) (next_handle (m_SessionMgr c))
      = Some (allocated c)"
    using hm.at_insert [OF S(1) ins] ins by simp
  with opened S next_handle_gt [OF S(1) opened(2)] show ?thesis
    by (auto simp: getSession_def held_filled)
qed (use assms in \<open>auto simp: ctx_ok_def\<close>)

subsection \<open>Properties\<close>

text \<open>
  C3. In every state a client can reach by initializing, finalizing, opening and closing sessions and
  by session-less queries, the registries are consistent, every registered object belongs to an open
  session, and no object belongs to two.
\<close>
theorem reachable_context_ok:
  assumes "reachable (Some c)"
  shows "ctx_ok c"
  using reachable_ok [OF assms] by simp

lemma reachable_new: "reachable (Some new_context)"
  using reachable.init [OF reachable.start, of 0] by (simp add: SsiInitialize_def)

lemma demo_new_scan: "new_scan \<lparr>found = [(Controller, x), (Phy, y)], throws = b\<rparr> new_context" if "x \<noteq> y"
  using that by (auto simp: new_scan_def fresh_scan_def new_context_def open_ids_def hm_empty_def)

theorem reachable_context_ok_witness:
  "ctx_ok (snd (openSession \<lparr>found = [(Controller, 1 :: nat), (Phy, 2)], throws = False\<rparr> new_context))"
proof (rule reachable_context_ok)
  let ?s = "\<lparr>found = [(Controller, 1 :: nat), (Phy, 2)], throws = False\<rparr>"
  have "new_scan ?s new_context"
    by (rule demo_new_scan) simp
  from reachable.open_session [OF reachable_new this, of False]
  show "reachable (Some (snd (openSession ?s new_context)))"
    by (simp add: SsiSessionOpen_def split: prod.splits if_splits)
qed



text \<open>
  C8. Closing a session makes its handle invalid, unregisters exactly its objects and leaves every
  other session, its objects and their handles alone.
\<close>
theorem closeSession_isolated:
  assumes "ctx_ok c" "getSession c h = Some i" "closeSession h c = (st, c')"
  shows "st = SSI_StatusOk \<and> getSession c' h = None
    \<and> (\<forall>k. k \<noteq> h \<longrightarrow> getSession c' k = getSession c k) \<and> session_at c' = session_at c
    \<and> (\<forall>x. m_handle (m_HandleMgr c') x =
          (if x \<in> held (session_at c i) then SSI_NULL_HANDLE else m_handle (m_HandleMgr c) x))"
proof -
  have S: "hm_ok (m_SessionMgr c)" "hm_ok (m_HandleMgr c)"
    using assms(1) by (auto simp: ctx_ok_def)
  show ?thesis
    using assms(3) closeSession_hit [OF assms(1,2)] hm.at_remove [OF S(1), of h i] assms(2)
      hm.release_all_handles [OF S(2)]
    by (auto simp: getSession_def session_destroy_release held_def)
qed

theorem closeSession_isolated_witness:
  "\<exists>h c c'. openSession \<lparr>found = [(Controller, 1 :: nat), (Phy, 2)], throws = False\<rparr> new_context = (h, c)
     \<and> closeSession h c = (SSI_StatusOk, c') \<and> getSession c' h = None"
proof -
  let ?s = "\<lparr>found = [(Controller, 1 :: nat), (Phy, 2)], throws = False\<rparr>"
  have s: "new_scan ?s new_context"
    by (rule demo_new_scan) simp
  obtain h c where o: "openSession ?s new_context = (h, c)" by fastforce
  have "ctx_ok c"
    using ctx_ok_open [OF ctx_ok_new s] o by simp
  moreover obtain i where "getSession c h = Some i"
    using openSession_result [OF ctx_ok_new s] o
    by (auto simp: exhausted_def new_context_def hm_empty_def)
  ultimately show ?thesis
    using closeSession_isolated [of c h i] o by (metis prod.exhaust)
qed

text \<open>
  A query without a session scans the hardware anew, and when it returns the registries and the
  open sessions are exactly what they were before.
\<close>
theorem temp_query_leaves_no_trace:
  assumes "ctx_ok c" "new_scan sysfs c"
    and "SsiGetHandles_temp sysfs matches getItems t sh hl hc (Some c) = Some (r, p)"
  shows "\<exists>c'. p = Some c' \<and> ctx_ok c' \<and> m_SessionMgr c' = m_SessionMgr c
     \<and> m_HandleMgr c' = m_HandleMgr c \<and> (\<forall>i \<in> open_ids c. session_at c' i = session_at c i)"
  using assms by (rule ctx_ok_temp)

theorem temp_query_leaves_no_trace_witness:
  "\<exists>r p. SsiGetHandles_temp \<lparr>found = [(Controller, 1 :: nat), (Phy, 2)], throws = False\<rparr>
       (\<lambda>sc t. True) (\<lambda>i c sc t. Some (m_Phys (session_at c i))) SSI_ScopeTypeNone 0 (Some [0]) (Some 1)
       (Some new_context) = Some (r, p)
     \<and> (\<exists>c'. p = Some c' \<and> m_HandleMgr c' = hm_empty)"
proof -
  let ?s = "\<lparr>found = [(Controller, 1 :: nat), (Phy, 2)], throws = False\<rparr>"
  let ?q = "SsiGetHandles_temp ?s (\<lambda>sc t. True) (\<lambda>i c sc t. Some (m_Phys (session_at c i)))
      SSI_ScopeTypeNone 0 (Some [0]) (Some 1) (Some new_context)"
  have s: "new_scan ?s new_context"
    by (rule demo_new_scan) simp
  have "\<exists>r p. ?q = Some (r, p)"
    by (simp add: SsiGetHandles_temp_def allocate_def new_context_def initialize_def query_def
          session_initialize_def session_getObject_def container_getHandles_def add_object_def
          empty_session_def container_add_def)
  then obtain r p where q: "?q = Some (r, p)" by blast
  from temp_query_leaves_no_trace [OF ctx_ok_new s q]
  have "\<exists>c'. p = Some c' \<and> m_HandleMgr c' = hm_empty"
    by (auto simp: new_context_def)
  with q show ?thesis by blast
qed

text \<open>
  \<open>Session::getObject\<close> is unambiguous although it searches nine lists in a fixed order: the handle
  of a registered object finds that object under its own kind, and an unused handle finds nothing.
\<close>
theorem getObject_exact:
  assumes "hm_ok m" "one_container s" "\<forall>x \<in> held s. m_handle m x \<noteq> SSI_NULL_HANDLE"
    and "h \<noteq> SSI_NULL_HANDLE"
  shows "session_getObject (m_handle m) s h = Some (Object k x) \<longleftrightarrow>
     x \<in> set (container k s) \<and> m_handle m x = h"
proof
  assume "session_getObject (m_handle m) s h = Some (Object k x)"
  with assms(4) search_sound show "x \<in> set (container k s) \<and> m_handle m x = h"
    by (fastforce simp: session_getObject_def)
next
  assume x: "x \<in> set (container k s) \<and> m_handle m x = h"
  then have "search (m_handle m) search_order s h \<noteq> None"
    by (auto simp: search_None search_order_all)
  then obtain j y where y: "search (m_handle m) search_order s h = Some (Object j y)"
    using search_not_session by (metis option.exhaust scope.exhaust)
  with search_sound [OF y] x have "y = x" "j = k"
    using hm.handles_distinct [OF assms(1), of y x] assms(2,4) by (auto simp: one_container_def)
  with y assms(4) show "session_getObject (m_handle m) s h = Some (Object k x)"
    by (simp add: session_getObject_def)
qed

lemma demo_registry:
  "hm_ok (hm.register_all [1, 2 :: nat] hm_empty)" "m_handle (hm.register_all [1, 2 :: nat] hm_empty) 2 = 2"
  "m_handle (hm.register_all [1, 2 :: nat] hm_empty) 1 = 1"
proof -
  show "hm_ok (hm.register_all [1, 2 :: nat] hm_empty)"
    by (rule hm.ok_register_all) (rule hm_ok_empty)
  show "m_handle (hm.register_all [1, 2 :: nat] hm_empty) 2 = 2"
    "m_handle (hm.register_all [1, 2 :: nat] hm_empty) 1 = 1"
    by (simp_all add: hm_insert_def getUniqueHandle_def hm_empty_def hm_at_def getHandle_def setHandle_def)
qed

theorem getObject_exact_witness:
  "session_getObject (m_handle (hm.register_all [1, 2 :: nat] hm_empty))
     (filled \<lparr>found = [(Controller, 1), (Phy, 2)], throws = False\<rparr>) 2 = Some (Object Phy 2)"
proof -
  let ?s = "\<lparr>found = [(Controller, 1 :: nat), (Phy, 2)], throws = False\<rparr>"
  have "one_container (filled ?s)"
    by (rule filled_one_container) simp
  then show ?thesis
    using getObject_exact [of "hm.register_all [1, 2] hm_empty" "filled ?s" 2 Phy 2]
      demo_registry held_filled [of ?s]
    by (simp add: container_add_def)
qed

lemma live_empty_iff:
  assumes "hm_ok m"
  shows "live m = {} \<longleftrightarrow> (\<forall>x. m_handle m x = SSI_NULL_HANDLE)"
proof
  assume "live m = {}"
  with assms show "\<forall>x. m_handle m x = SSI_NULL_HANDLE"
    by (auto simp: hm_ok_def live_def)
next
  assume z: "\<forall>x. m_handle m x = SSI_NULL_HANDLE"
  have "(h, x) \<notin> set (m_objects m)" for h x
  proof
    assume "(h, x) \<in> set (m_objects m)"
    then have "h \<in> live m" by (force simp: live_def)
    moreover have "m_handle m x = h" "SSI_NULL_HANDLE \<notin> live m"
      using assms \<open>(h, x) \<in> set (m_objects m)\<close> by (auto simp: hm_ok_def)
    ultimately show False using z by auto
  qed
  then show "live m = {}" by (cases "m_objects m") (auto simp: live_def)
qed



lemma insort_at_end:
  "sorted (map fst xs) \<Longrightarrow> \<forall>p \<in> set xs. fst p < k \<Longrightarrow> insort_key fst (k, x) xs = xs @ [(k, x)]"
  by (induction xs) (auto simp: leD)

lemma next_after_insert:
  assumes "hm_ok m" "m_handle m x = SSI_NULL_HANDLE" "\<not> exhausted m"
  shows "next_handle (snd (hm_insert x m)) = next_handle m + 1"
    and "exhausted (snd (hm_insert x m)) \<longleftrightarrow> next_handle m = - 1"
    and "m_handle (snd (hm_insert x m)) x = next_handle m"
proof -
  have "insort_key fst (next_handle m, x) (m_objects m) = m_objects m @ [(next_handle m, x)]"
    using assms(1) next_handle_gt(1) [OF assms(1,3)]
    by (intro insort_at_end) (auto simp: hm_ok_def live_def)
  then show "next_handle (snd (hm_insert x m)) = next_handle m + 1"
    "exhausted (snd (hm_insert x m)) \<longleftrightarrow> next_handle m = - 1"
    "m_handle (snd (hm_insert x m)) x = next_handle m"
    by (simp_all add: hm_insert_new [OF assms] setHandle_def exhausted_def next_handle_def)
qed

lemma register_all_handles:
  "hm_ok m \<Longrightarrow> distinct xs \<Longrightarrow> \<forall>x \<in> set xs. m_handle m x = SSI_NULL_HANDLE \<Longrightarrow> \<not> exhausted m \<Longrightarrow>
   unat (next_handle m) + length xs \<le> 2 ^ 32 \<Longrightarrow>
   map (m_handle (hm.register_all xs m)) xs = map (\<lambda>i. next_handle m + of_nat i) [0..<length xs]"
proof (induction xs arbitrary: m)
  case (Cons x xs)
  let ?m = "snd (hm_insert x m)"
  note n = next_after_insert [OF Cons.prems(1) _ Cons.prems(4), of x]
  have ok: "hm_ok ?m" by (rule hm_ok_insert [OF Cons.prems(1)])
  have x: "m_handle (hm.register_all xs ?m) x = next_handle m"
    using hm.register_all_other [OF ok, of x xs] Cons.prems(2,3) n(3) by simp
  show ?case
  proof (cases xs)
    case Nil
    with x show ?thesis by simp
  next
    case (Cons y ys)
    then have u: "unat (next_handle m) + 1 < 2 ^ 32"
      using Cons.prems(5) by simp
    then have "next_handle m \<noteq> - 1"
      by (auto simp: unsigned_minus_1_eq_mask mask_eq_exp_minus_1)
    moreover have "unat (next_handle m + 1) = unat (next_handle m) + 1"
      using u by (simp add: unat_word_ariths)
    moreover have "m_handle ?m z = SSI_NULL_HANDLE" if "z \<in> set xs" for z
      using that Cons.prems(2,3) hm.insert_other [OF Cons.prems(1), of z x] by auto
    ultimately have "map (m_handle (hm.register_all xs ?m)) xs
        = map (\<lambda>i. next_handle m + 1 + of_nat i) [0..<length xs]"
      using Cons.IH [OF ok] Cons.prems(2,3,5) n by simp
    with x show ?thesis
      by (simp add: map_upt_Suc add.assoc del: upt_Suc)
  qed
qed simp

text \<open>
  The objects of a scan get consecutive handles in scan order, the first one above the largest in
  use.  So two session-less queries over unchanged hardware see the same handles, which is what lets
  a client use a handle of one call in the next.
\<close>
theorem scan_handles_consecutive:
  assumes "hm_ok (m_HandleMgr c)" "fresh_scan sysfs (m_HandleMgr c)" "\<not> exhausted (m_HandleMgr c)"
    and "unat (next_handle (m_HandleMgr c)) + length (found sysfs) \<le> 2 ^ 32"
    and "session_at c i = empty_session"
  shows "map (m_handle (m_HandleMgr (fst (initialize sysfs i c)))) (map snd (found sysfs))
    = map (\<lambda>i. next_handle (m_HandleMgr c) + of_nat i) [0..<length (found sysfs)]"
  using register_all_handles [of "m_HandleMgr c" "map snd (found sysfs)"] assms
  by (auto simp: initialize_eq fresh_scan_def case_prod_beta simp del: map_map)

theorem scan_handles_consecutive_witness:
  "map (m_handle (m_HandleMgr (fst (initialize \<lparr>found = [(Controller, 8 :: nat), (Phy, 5)], throws = False\<rparr>
      0 new_context)))) [8, 5] = [1, 2]"
  using scan_handles_consecutive
    [of new_context "\<lparr>found = [(Controller, 8 :: nat), (Phy, 5)], throws = False\<rparr>" 0]
  by (simp add: new_context_def fresh_scan_def exhausted_def next_handle_def hm_ok_empty)
     (simp add: hm_empty_def)

end
