(* ===== verification/Utils.thy ===== *)
theory Utils
  imports Handles "HOL-Library.Sublist"
begin

text \<open>
  \<open>lib/engine/utils.cpp\<close>: running shell commands and keeping the last error message.

  Commands and messages are ASCII strings here, for which the operations of \<open>class String\<close> are those
  of character lists.  The operating system is the parameter \<open>env\<close>: it answers, for the actions
  performed so far, with the wait status and the output of a command line (or \<open>None\<close> when \<open>popen\<close>
  fails), with the exception, if any, that opening a file for writing raises, with the content of a
  file that is read (\<open>None\<close> when reading throws), with the existence of a path and with its canonical form.  The state of the engine records the commands
  and file writes in \<open>trace\<close>.
\<close>

text \<open>\<open>Pause\<close> is a pause in a loop that waits for the system to change.\<close>

datatype action = Command string | Write string string | Pause nat

text \<open>\<open>exception.h\<close>: what the engine throws.\<close>

datatype exception =
    E_SUCCESS | E_GENERIC | E_INVALID_SCOPE | E_FILE_EMPTY | E_PERMISSION_DENIED | E_NOT_FOUND
  | E_BUFFER_TOO_SMALL | E_OUT_OF_RESOURCES | E_NULL_POINTER | E_INVALID_SEQUENCE
  | E_INVALID_OFFSET | E_INVALID_OPERATION | E_OVERFLOW | E_UNDERFLOW | E_INVALID_OBJECT
  | E_INVALID_HANDLE | E_OUT_OF_RANGE | E_INVALID_DIRECTORY | E_NOT_AVAILABLE | E_INVALID_USAGE
  | E_ARRAY_CREATE_FAILED | E_VOLUME_CREATE_FAILED | E_SYSTEM_DEVICE | E_INVALID_STRIP_SIZE
  | E_INVALID_NAME | E_INVALID_RAID_LEVEL | E_LAST | E_BUFFER_TOO_LARGE | E_INVALID_SIZE
  | E_NOT_SUPPORTED

record env =
  popen :: "action list \<Rightarrow> string \<Rightarrow> (nat \<times> string) option"
  open_error :: "action list \<Rightarrow> string \<Rightarrow> exception option"
  read_file :: "action list \<Rightarrow> string \<Rightarrow> string option"
  path_exists :: "action list \<Rightarrow> string \<Rightarrow> bool"
  canonical_path :: "string \<Rightarrow> string"

record world =
  trace :: "action list"
  last_error :: string
  registry :: "nat handle_mgr"

subsection \<open>Text\<close>

text \<open>Decimal numbers, as \<open>String(unsigned long long)\<close> prints them.\<close>

definition digit :: "nat \<Rightarrow> char" where
  "digit n = char_of (48 + n)"

fun dec :: "nat \<Rightarrow> string" where
  "dec n = (if n < 10 then [digit n] else dec (n div 10) @ [digit (n mod 10)])"

declare dec.simps [simp del]

text \<open>\<open>String::find\<close>: the first position of a pattern at or behind an offset.\<close>

fun find_sub :: "'a list \<Rightarrow> 'a list \<Rightarrow> nat option" where
  "find_sub p s =
     (if take (length p) s = p then Some 0
      else case s of [] \<Rightarrow> None | c # s' \<Rightarrow> map_option Suc (find_sub p s'))"

declare find_sub.simps [simp del]

definition str_find :: "string \<Rightarrow> string \<Rightarrow> nat \<Rightarrow> nat option" where
  "str_find s p offset = (let o' = min offset (length s) in map_option ((+) o') (find_sub p (drop o' s)))"

text \<open>
  \<open>reverse_find\<close>: the last position; \<open>left\<close>, \<open>after\<close> and their reverse forms: what stands before and
  behind the pattern, nothing when it does not occur.
\<close>

definition find_sub_last :: "'a list \<Rightarrow> 'a list \<Rightarrow> nat option" where
  "find_sub_last p s =
     (case filter (\<lambda>k. take (length p) (drop k s) = p) [0..<Suc (length s - length p)] of
        [] \<Rightarrow> None | k # ks \<Rightarrow> Some (last (k # ks)))"

definition str_left :: "string \<Rightarrow> string \<Rightarrow> string" where
  "str_left s p = (case find_sub p s of None \<Rightarrow> [] | Some n \<Rightarrow> take n s)"

definition str_after :: "string \<Rightarrow> string \<Rightarrow> string" where
  "str_after s p = (case find_sub p s of None \<Rightarrow> [] | Some n \<Rightarrow> drop (n + length p) s)"

definition str_reverse_left :: "string \<Rightarrow> string \<Rightarrow> string" where
  "str_reverse_left s p = (case find_sub_last p s of None \<Rightarrow> [] | Some n \<Rightarrow> take n s)"

definition str_reverse_after :: "string \<Rightarrow> string \<Rightarrow> string" where
  "str_reverse_after s p = (case find_sub_last p s of None \<Rightarrow> [] | Some n \<Rightarrow> drop (n + length p) s)"

definition is_graph :: "char \<Rightarrow> bool" where
  "is_graph c \<longleftrightarrow> (let n = of_char c :: nat in 33 \<le> n \<and> n \<le> 126)"

definition str_trim :: "string \<Rightarrow> string" where
  "str_trim s = rev (dropWhile (\<lambda>c. \<not> is_graph c) (rev (dropWhile (\<lambda>c. \<not> is_graph c) s)))"

subsection \<open>The last error message\<close>

definition dot_removed :: "string \<Rightarrow> string" where
  "dot_removed msg = (if msg \<noteq> [] \<and> last msg = CHR ''.'' then butlast msg else msg)"

definition setLastErrorMessage :: "string \<Rightarrow> world \<Rightarrow> world" where
  "setLastErrorMessage msg w = w\<lparr>last_error := dot_removed msg\<rparr>"

definition clearLastErrorMessage :: "world \<Rightarrow> world" where
  "clearLastErrorMessage w = w\<lparr>last_error := []\<rparr>"

subsection \<open>Splitting the output of a command\<close>

text \<open>\<open>newlines\<close> has its default value, the line feed.\<close>

lemma find_sub_bound: "find_sub p s = Some i \<Longrightarrow> i + length p \<le> length s \<and> take (length p) (drop i s) = p"
proof (induction s arbitrary: i)
  case Nil
  then show ?case by (subst (asm) find_sub.simps) (auto split: if_splits)
next
  case (Cons c s)
  show ?case
  proof (cases "take (length p) (c # s) = p")
    case True
    with Cons.prems have "i = 0" by (subst (asm) find_sub.simps) simp
    with True show ?thesis
      by (metis add_0 drop0 length_take min.cobounded1)
  next
    case False
    with Cons.prems obtain j where "i = Suc j" "find_sub p s = Some j"
      by (subst (asm) find_sub.simps) auto
    with Cons.IH show ?thesis by fastforce
  qed
qed

lemma find_sub_first: "find_sub p s = Some i \<Longrightarrow> j < i \<Longrightarrow> take (length p) (drop j s) \<noteq> p"
proof (induction s arbitrary: i j)
  case Nil
  then show ?case by (subst (asm) find_sub.simps) (auto split: if_splits)
next
  case (Cons c s)
  show ?case
  proof (cases "take (length p) (c # s) = p")
    case True
    with Cons.prems(1) have "i = 0" by (subst (asm) find_sub.simps) simp
    with Cons.prems(2) show ?thesis by simp
  next
    case False
    with Cons.prems(1) obtain k where k: "i = Suc k" "find_sub p s = Some k"
      by (subst (asm) find_sub.simps) auto
    then show ?thesis
      using Cons.IH [OF k(2)] Cons.prems(2) False by (cases j) auto
  qed
qed

function split_lines :: "string \<Rightarrow> nat \<Rightarrow> string list" where
  "split_lines s pos =
     (case str_find s [CHR 0x0A] pos of
        None \<Rightarrow> []
      | Some next_pos \<Rightarrow>
          (let line = str_trim (take (next_pos - pos) (drop pos s)) in
           (if line \<noteq> [] then [line] else []) @ split_lines s (next_pos + 1)))"
  by pat_completeness auto
termination
proof (relation "measure (\<lambda>(s, pos). length s - pos)")
  fix s :: string and pos next_pos and line :: string
  assume "str_find s [CHR 0x0A] pos = Some next_pos" "line = str_trim (take (next_pos - pos) (drop pos s))"
  then obtain i where "next_pos = min pos (length s) + i" "find_sub [CHR 0x0A] (drop (min pos (length s)) s) = Some i"
    by (auto simp: str_find_def Let_def)
  with find_sub_bound [OF this(2)]
  show "((s, next_pos + 1), s, pos) \<in> measure (\<lambda>(s, pos). length s - pos)" by auto
qed simp

declare split_lines.simps [simp del]

definition splitStringToLines :: "string \<Rightarrow> string list" where
  "splitStringToLines output = split_lines output 0"

text \<open>\<open>line.reverse_mid(found, found + length)\<close>: the line without the occurrence found.\<close>

function remove_word :: "string \<Rightarrow> string \<Rightarrow> string" where
  "remove_word word line =
     (if word = [] then line
      else case str_find line word 0 of
             None \<Rightarrow> line
           | Some found \<Rightarrow> remove_word word (take found line @ drop (found + length word) line))"
  by pat_completeness auto
termination
proof (relation "measure (\<lambda>(word, line). length line)")
  fix word line :: string and found
  assume "word \<noteq> []" "str_find line word 0 = Some found"
  then have "found + length word \<le> length line" "0 < length word"
    using find_sub_bound [of word line found] by (auto simp: str_find_def)
  then show "((word, take found line @ drop (found + length word) line), word, line)
      \<in> measure (\<lambda>(word, line). length line)"
    by (cases word) auto
qed simp

declare remove_word.simps [simp del]

definition mdadmErrorLines :: "string \<Rightarrow> string list" where
  "mdadmErrorLines output =
     filter (\<lambda>l. l \<noteq> [])
       (map (\<lambda>l. remove_word '' Aborting...'' (remove_word ''mdmon: '' (remove_word ''mdadm: '' l)))
          (splitStringToLines output))"

subsection \<open>Running commands\<close>

definition WEXITSTATUS :: "nat \<Rightarrow> nat" where
  "WEXITSTATUS status = (status div 256) mod 256"

definition shell_output :: "env \<Rightarrow> string \<Rightarrow> bool \<Rightarrow> world \<Rightarrow> (int \<times> string) \<times> world" where
  "shell_output os command errorOutput w =
     (let cmd = command @ (if errorOutput then '' 2>&1 1>/dev/null'' else '' 2>/dev/null'') in
      case popen os (trace w) cmd of
        None \<Rightarrow> ((-1, []), w)
      | Some (status, output) \<Rightarrow>
          ((if WEXITSTATUS status \<noteq> 0 then -1 else 0, output), w\<lparr>trace := trace w @ [Command cmd]\<rparr>))"

definition shell_command :: "env \<Rightarrow> string \<Rightarrow> world \<Rightarrow> int \<times> world" where
  "shell_command os cmd w = (let ((status, output), w') = shell_output os cmd True w in (status, w'))"

text \<open>
  \<open>File::write\<close> (\<open>filesystem.cpp\<close>): it throws when the file cannot be opened; the result of
  \<open>write(2)\<close> is not looked at.
\<close>

definition file_write :: "env \<Rightarrow> string \<Rightarrow> string \<Rightarrow> world \<Rightarrow> exception + world" where
  "file_write os path content w =
     (case open_error os (trace w) path of
        Some e \<Rightarrow> Inl e
      | None \<Rightarrow> Inr (w\<lparr>trace := trace w @ [Write path content]\<rparr>))"

text \<open>
  The message of \<open>shellEx\<close>: of the lines counted from the end, those numbered \<open>offset + 1\<close> to
  \<open>linesNum + offset\<close>, the later number first.
\<close>

definition error_message :: "string list \<Rightarrow> nat \<Rightarrow> nat \<Rightarrow> string" where
  "error_message lines linesNum offset =
     (let size = length lines; start = min (linesNum + offset) size in
      concat (map (\<lambda>i. lines ! (size - i) @ (if i > offset + 1 then '' '' else []))
                (rev [offset + 1..<start + 1])))"

definition shellEx :: "env \<Rightarrow> string \<Rightarrow> nat \<Rightarrow> nat \<Rightarrow> world \<Rightarrow> int \<times> world" where
  "shellEx os s linesNum offset w =
     (let ((status, output), w1) =
            shell_output os (''export MDADM_EXPERIMENTAL=1; '' @ s) True w in
      if status \<noteq> 0
      then (status, setLastErrorMessage (error_message (mdadmErrorLines output) linesNum offset) w1)
      else (status, w1))"

text \<open>The action a run of \<open>shellEx\<close> performs, and when it succeeds.\<close>

definition mdadm_run :: "string \<Rightarrow> action" where
  "mdadm_run s = Command (''export MDADM_EXPERIMENTAL=1; '' @ s @ '' 2>&1 1>/dev/null'')"

definition answer :: "env \<Rightarrow> action list \<Rightarrow> string \<Rightarrow> (nat \<times> string) option" where
  "answer os tr s = popen os tr (''export MDADM_EXPERIMENTAL=1; '' @ s @ '' 2>&1 1>/dev/null'')"

definition succeeds :: "env \<Rightarrow> action list \<Rightarrow> string \<Rightarrow> bool" where
  "succeeds os tr s \<longleftrightarrow> (case answer os tr s of None \<Rightarrow> False | Some (status, output) \<Rightarrow> WEXITSTATUS status = 0)"

definition started :: "env \<Rightarrow> action list \<Rightarrow> string \<Rightarrow> action list" where
  "started os tr s = (if answer os tr s = None then tr else tr @ [mdadm_run s])"

lemma shellEx_status: "fst (shellEx os s n k w) = (if succeeds os (trace w) s then 0 else -1)"
  by (auto simp: shellEx_def shell_output_def succeeds_def answer_def Let_def split: option.splits)

lemma shellEx_trace: "trace (snd (shellEx os s n k w)) = started os (trace w) s"
  by (auto simp: shellEx_def shell_output_def started_def answer_def mdadm_run_def Let_def
        setLastErrorMessage_def split: option.splits)

lemma shellEx_registry: "registry (snd (shellEx os s n k w)) = registry w"
  by (auto simp: shellEx_def shell_output_def Let_def setLastErrorMessage_def split: option.splits)

lemma started_if_succeeds: "succeeds os tr s \<Longrightarrow> started os tr s = tr @ [mdadm_run s]"
  by (auto simp: succeeds_def started_def split: option.splits)

lemma setLastErrorMessage_same [simp]:
  "trace (setLastErrorMessage msg w) = trace w" "registry (setLastErrorMessage msg w) = registry w"
  by (simp_all add: setLastErrorMessage_def)

lemma shellEx_ok:
  "succeeds os (trace w) s \<Longrightarrow> shellEx os s n k w = (0, w\<lparr>trace := trace w @ [mdadm_run s]\<rparr>)"
  by (auto simp: shellEx_def shell_output_def succeeds_def answer_def mdadm_run_def Let_def split: option.splits)

end
