(* ===== verification/Raid_Info.thy ===== *)
theory Raid_Info
  imports Utils
begin

text \<open>
  \<open>raid_info.cpp\<close>: what the option ROM and the hardware key allow.  Of the option ROM's table
  (\<open>orom.h\<close>) the fields that are read are modelled; bit fields are read from the 16-bit words they
  share.  Of the controller behind the weak pointer \<open>m_Controller\<close> only its type, its hardware key
  and the RAID levels of its volumes matter; the pointer is \<open>None\<close> when the controller is gone.
\<close>

record orom_info =
  rlc :: u16
  chk :: u16
  dpa :: u16
  tds :: u16
  vpa :: byte
  vphba :: byte

definition rlc0 :: "orom_info \<Rightarrow> bool" where "rlc0 info \<longleftrightarrow> bit (rlc info) 0"
definition rlc1 :: "orom_info \<Rightarrow> bool" where "rlc1 info \<longleftrightarrow> bit (rlc info) 1"
definition rlc10 :: "orom_info \<Rightarrow> bool" where "rlc10 info \<longleftrightarrow> bit (rlc info) 2"
definition rlc5 :: "orom_info \<Rightarrow> bool" where "rlc5 info \<longleftrightarrow> bit (rlc info) 4"
definition rlc6 :: "orom_info \<Rightarrow> bool" where "rlc6 info \<longleftrightarrow> bit (rlc info) 6"

record controller =
  getControllerType :: SSI_ControllerType
  getHardwareMode :: SSI_HardwareKeyType
  volume_levels :: "SSI_RaidLevel list"

record raid_info =
  m_pInfo :: orom_info
  m_Controller :: "controller option"

unbundle bit_operations_syntax

text \<open>The two fields of a RAID 0 that depend on the hardware key.\<close>

definition raid0_migrations :: "controller option \<Rightarrow> SSI_RaidLevel \<times> SSI_RaidLevel" where
  "raid0_migrations c =
     (case c of
        None \<Rightarrow> (SSI_RaidInvalid, SSI_RaidInvalid)
      | Some controller \<Rightarrow>
          (if getControllerType controller = SSI_ControllerTypeVMD
           then (case getHardwareMode controller of
                   SSI_HardwareKeyVROCPremium \<Rightarrow>
                     (SSI_Raid0 OR SSI_Raid10 OR SSI_Raid5, SSI_Raid10 OR SSI_Raid5)
                 | SSI_HardwareKeyVROCStandard \<Rightarrow> (SSI_Raid0 OR SSI_Raid10, SSI_Raid10)
                 | _ \<Rightarrow> (SSI_Raid0, SSI_RaidInvalid))
           else (SSI_Raid0 OR SSI_Raid10 OR SSI_Raid5, SSI_Raid10 OR SSI_Raid5)))"

definition level_info :: "raid_info \<Rightarrow> SSI_RaidLevel \<Rightarrow> SSI_RaidLevelInfo \<Rightarrow> SSI_RaidLevelInfo option" where
  "level_info ri raidLevel info =
     (let orom = m_pInfo ri; disks = ucast (tds orom) :: u32 in
      if raidLevel = SSI_Raid0 then
        Some (info\<lparr>defaultStripSize := SSI_StripSize128kB, supported := rlc0 orom,
                minDisks := min 1 disks, maxDisks := disks,
                migrSupport := fst (raid0_migrations (m_Controller ri)),
                migrDiskAdd := snd (raid0_migrations (m_Controller ri)),
                evenDiskCount := False, oddDiskCount := False\<rparr>)
      else if raidLevel = SSI_Raid1 then
        Some (info\<lparr>defaultStripSize := SSI_StripSize64kB, supported := rlc1 orom,
                minDisks := min 2 disks, maxDisks := min 2 disks,
                migrSupport := SSI_Raid0, migrDiskAdd := SSI_RaidInvalid,
                evenDiskCount := True, oddDiskCount := False\<rparr>)
      else if raidLevel = SSI_Raid10 then
        Some (info\<lparr>defaultStripSize := SSI_StripSize64kB, supported := rlc10 orom,
                minDisks := min 4 disks, maxDisks := min 4 disks,
                migrSupport := SSI_Raid0, migrDiskAdd := SSI_RaidInvalid,
                evenDiskCount := True, oddDiskCount := False\<rparr>)
      else if raidLevel = SSI_Raid5 then
        Some (info\<lparr>defaultStripSize := SSI_StripSize64kB, supported := rlc5 orom,
                minDisks := min 3 disks, maxDisks := disks,
                migrSupport := SSI_Raid5, migrDiskAdd := SSI_RaidInvalid,
                evenDiskCount := False, oddDiskCount := False\<rparr>)
      else if raidLevel = SSI_Raid6 then
        Some (info\<lparr>defaultStripSize := SSI_StripSize64kB, supported := rlc6 orom,
                minDisks := min 4 disks, maxDisks := disks,
                migrSupport := SSI_RaidInvalid, migrDiskAdd := SSI_RaidInvalid,
                evenDiskCount := False, oddDiskCount := False\<rparr>)
      else None)"

text \<open>\<open>pInfo\<close> is the caller's structure, \<open>None\<close> for a null pointer; the result is what is in it.\<close>

definition getRaidLevelInfo ::
  "raid_info \<Rightarrow> SSI_RaidLevel \<Rightarrow> SSI_RaidLevelInfo option \<Rightarrow> SSI_Status \<times> SSI_RaidLevelInfo option" where
  "getRaidLevelInfo ri raidLevel pInfo =
     (case pInfo of
        None \<Rightarrow> (SSI_StatusInvalidParameter, None)
      | Some info0 \<Rightarrow>
          (let info1 = info0\<lparr>stripSizesSupported := ucast (chk (m_pInfo ri))\<rparr> in
           case level_info ri raidLevel info1 of
             None \<Rightarrow> (SSI_StatusInvalidRaidLevel, Some info1)
           | Some info2 \<Rightarrow>
               (SSI_StatusOk,
                Some (info2\<lparr>created :=
                  (case m_Controller ri of None \<Rightarrow> False | Some c \<Rightarrow> raidLevel \<in> set (volume_levels c))\<rparr>))))"

record SSI_RaidInfo =
  raidHandle :: SSI_Handle
  maxDisksPerArray :: u32
  maxRaidDisksSupported :: u32
  maxVolumesPerArray :: u32
  maxVolumesPerHba :: u32
  raidEnabled :: bool
  supportsGlobalSpare :: bool
  supportsDedicatedSpare :: bool
  supportsCreateFromExisting :: bool
  supportsEmptyArrays :: bool

text \<open>The text field \<open>uniqueId\<close> is left out.\<close>

definition raid_getInfo :: "SSI_Handle \<Rightarrow> raid_info \<Rightarrow> SSI_RaidInfo option \<Rightarrow> SSI_Status \<times> SSI_RaidInfo option" where
  "raid_getInfo handle ri pInfo =
     (case pInfo of
        None \<Rightarrow> (SSI_StatusInvalidParameter, None)
      | Some info \<Rightarrow>
          (SSI_StatusOk,
           Some (info\<lparr>raidHandle := handle, maxDisksPerArray := ucast (dpa (m_pInfo ri)),
             maxRaidDisksSupported := ucast (tds (m_pInfo ri)),
             maxVolumesPerHba := ucast (vphba (m_pInfo ri)),
             maxVolumesPerArray := ucast (vpa (m_pInfo ri)), raidEnabled := True,
             supportsDedicatedSpare := False, supportsGlobalSpare := True,
             supportsCreateFromExisting := True, supportsEmptyArrays := True\<rparr>)))"

subsection \<open>What a caller may rely on\<close>

definition raid_levels :: "SSI_RaidLevel set" where
  "raid_levels = {SSI_Raid0, SSI_Raid1, SSI_Raid10, SSI_Raid5, SSI_Raid6}"

lemma level_info_defined: "level_info ri l info = None \<longleftrightarrow> l \<notin> raid_levels"
  by (simp add: level_info_def raid_levels_def Let_def)

lemma getRaidLevelInfo_status:
  "fst (getRaidLevelInfo ri l (Some info)) =
     (if l \<in> raid_levels then SSI_StatusOk else SSI_StatusInvalidRaidLevel)"
  using level_info_defined [of ri l "info\<lparr>stripSizesSupported := ucast (chk (m_pInfo ri))\<rparr>"]
  by (cases "level_info ri l (info\<lparr>stripSizesSupported := ucast (chk (m_pInfo ri))\<rparr>)")
     (simp_all add: getRaidLevelInfo_def Let_def)

definition disk_limits :: "raid_info \<Rightarrow> SSI_RaidLevelInfo \<Rightarrow> bool" where
  "disk_limits ri r \<longleftrightarrow> minDisks r \<le> maxDisks r \<and> maxDisks r \<le> ucast (tds (m_pInfo ri))"

definition migration_flags :: "SSI_RaidLevelInfo \<Rightarrow> bool" where
  "migration_flags r \<longleftrightarrow>
     migrDiskAdd r AND NOT (migrSupport r) = 0 \<and>
     migrSupport r AND NOT (SSI_Raid0 OR SSI_Raid10 OR SSI_Raid5) = 0"

lemma level_info_limits:
  "level_info ri l info = Some r \<Longrightarrow>
     disk_limits ri r \<and> stripSizesSupported r = stripSizesSupported info"
  unfolding level_info_def Let_def disk_limits_def
  by (auto split: if_splits simp: min_le_iff_disj)

lemma level_info_migrSupport:
  "level_info ri l info = Some r \<Longrightarrow>
     migrSupport r =
       (if l = SSI_Raid0 then fst (raid0_migrations (m_Controller ri))
        else if l = SSI_Raid1 \<or> l = SSI_Raid10 then SSI_Raid0
        else if l = SSI_Raid5 then SSI_Raid5 else SSI_RaidInvalid)"
  unfolding level_info_def Let_def by (simp split: if_split_asm) auto

lemma level_info_migrDiskAdd:
  "level_info ri l info = Some r \<Longrightarrow>
     migrDiskAdd r = (if l = SSI_Raid0 then snd (raid0_migrations (m_Controller ri)) else SSI_RaidInvalid)"
  unfolding level_info_def Let_def by (simp split: if_split_asm) auto

lemma raid0_migrations_flags:
  "snd (raid0_migrations c) AND NOT (fst (raid0_migrations c)) = 0
   \<and> fst (raid0_migrations c) AND NOT (SSI_Raid0 OR SSI_Raid10 OR SSI_Raid5) = 0"
  by (simp add: raid0_migrations_def split: option.split SSI_HardwareKeyType.split)

lemma level_info_migration_flags: "level_info ri l info = Some r \<Longrightarrow> migration_flags r"
  using level_info_migrSupport [of ri l info r] level_info_migrDiskAdd [of ri l info r]
    raid0_migrations_flags [of "m_Controller ri"]
  by (simp add: migration_flags_def split: if_splits)

text \<open>
  For every RAID level the library knows, the structure the caller gets is consistent: the smallest
  number of disks is at most the largest, which is at most what the option ROM supports; a
  migration that adds disks is among the supported migrations; no migration leads to a level
  outside RAID 0, 10 and 5; and the strip sizes are the flags of the option ROM.  For any other
  level the call is refused.
\<close>

theorem raid_level_limits:
  assumes "getRaidLevelInfo ri l (Some info) = (st, Some r)"
  shows "st = (if l \<in> raid_levels then SSI_StatusOk else SSI_StatusInvalidRaidLevel)
    \<and> stripSizesSupported r = ucast (chk (m_pInfo ri))
    \<and> (l \<in> raid_levels \<longrightarrow> disk_limits ri r \<and> migration_flags r)"
proof (intro conjI)
  show "st = (if l \<in> raid_levels then SSI_StatusOk else SSI_StatusInvalidRaidLevel)"
    using getRaidLevelInfo_status [of ri l info] assms by simp
  let ?info = "info\<lparr>stripSizesSupported := ucast (chk (m_pInfo ri))\<rparr>"
  show "stripSizesSupported r = ucast (chk (m_pInfo ri))"
    "l \<in> raid_levels \<longrightarrow> disk_limits ri r \<and> migration_flags r"
    using assms level_info_limits [of ri l ?info] level_info_migration_flags [of ri l ?info]
      level_info_defined [of ri l ?info]
    by (auto simp: getRaidLevelInfo_def Let_def disk_limits_def migration_flags_def split: option.splits)
qed

definition vmd_standard :: raid_info where
  "vmd_standard =
     \<lparr>m_pInfo = \<lparr>rlc = 0x17, chk = 0x7C, dpa = 6, tds = 6, vpa = 2, vphba = 4\<rparr>,
      m_Controller = Some \<lparr>getControllerType = SSI_ControllerTypeVMD,
                           getHardwareMode = SSI_HardwareKeyVROCStandard, volume_levels = [SSI_Raid0]\<rparr>\<rparr>"

definition blank_info :: SSI_RaidLevelInfo where
  "blank_info = \<lparr>supported = False, minDisks = 0, maxDisks = 0, defaultStripSize = 0, migrSupport = 0,
     migrDiskAdd = 0, evenDiskCount = False, oddDiskCount = False, stripSizesSupported = 0, created = False\<rparr>"

theorem raid_level_limits_witness:
  "disk_limits vmd_standard (the (snd (getRaidLevelInfo vmd_standard SSI_Raid0 (Some blank_info))))
   \<and> migrSupport (the (snd (getRaidLevelInfo vmd_standard SSI_Raid0 (Some blank_info)))) = 5"
proof -
  obtain st r where *: "getRaidLevelInfo vmd_standard SSI_Raid0 (Some blank_info) = (st, Some r)"
    and m: "migrSupport r = 5"
    by (simp add: getRaidLevelInfo_def level_info_def Let_def vmd_standard_def raid0_migrations_def)
  show ?thesis
    using raid_level_limits [OF *] m by (simp add: * raid_levels_def)
qed

lemma migrations_of_info:
  assumes "getRaidLevelInfo ri l (Some info) = (SSI_StatusOk, Some r)"
    "target AND migrSupport r \<noteq> 0"
    "target = SSI_Raid0 \<or> target = SSI_Raid10 \<or> target = SSI_Raid5"
  shows "(l, target) \<in> {(SSI_Raid0, SSI_Raid0), (SSI_Raid0, SSI_Raid10), (SSI_Raid0, SSI_Raid5),
           (SSI_Raid1, SSI_Raid0), (SSI_Raid10, SSI_Raid0), (SSI_Raid5, SSI_Raid5)}"
proof -
  obtain info2 where i: "level_info ri l (info\<lparr>stripSizesSupported := ucast (chk (m_pInfo ri))\<rparr>) = Some info2"
    and r: "migrSupport r = migrSupport info2"
    using assms(1) by (auto simp: getRaidLevelInfo_def Let_def split: option.splits)
  from i have "l \<in> raid_levels"
    using level_info_defined by (metis option.discI)
  then consider "l = SSI_Raid0" | "l = SSI_Raid1" | "l = SSI_Raid10" | "l = SSI_Raid5" | "l = SSI_Raid6"
    by (auto simp: raid_levels_def)
  then show ?thesis
    using level_info_migrSupport [OF i] assms(2,3) unfolding r by cases auto
qed

end
