(* ===== verification/Raid_Array.thy ===== *)
theory Raid_Array
  imports Raid_Info
begin

text \<open>
  Disks, RAID devices and arrays: \<open>end_device.h\<close>, \<open>block_device.h\<close>, \<open>raid_device.cpp\<close> and \<open>array.cpp\<close>.

  An array is an IMSM container, a volume a RAID volume inside it.  A weak pointer is the result of
  \<open>lock\<close>: \<open>None\<close> when the object is gone.  Every operation is a function of the operating system \<open>os\<close>
  and the state \<open>world\<close>; \<open>None\<close> as the whole result is the dereference of a null pointer.  The
  pauses (\<open>usleep\<close>) have no effect.
\<close>

subsection \<open>The objects\<close>

text \<open>
  \<open>is_block\<close> tells whether the dynamic type is \<open>BlockDevice\<close> (or derived from it); the other fields are
  what the virtual functions of the same name return.
\<close>

record end_device =
  is_block :: bool
  getDevName :: string
  getDiskUsage :: SSI_DiskUsage
  getDiskState :: SSI_DiskState
  getDiskType :: SSI_DiskType
  isSystemDisk :: bool
  getArray :: "nat option"
  has_controller :: bool
  getTotalSize :: u64
  getLogicalSectorSize :: u32
  isFultondalex8 :: bool
  device_raid_info :: "raid_info option"
  getSerialNum :: string

record raid_device =
  object_id :: nat
  m_Path :: string
  m_DevName :: string
  m_Name :: string
  m_Uuid :: string
  m_BlockDevices :: "end_device option list"

record volume = raid_device +
  m_Ordinal :: u32
  m_RaidLevel :: u32
  m_WriteThrough :: bool
  m_CachingEnabled :: bool
  m_SystemVolume :: bool
  m_MismatchCount :: u32
  m_StripSize :: u32
  m_MigrProgress :: u32
  m_ComponentSize :: u64
  m_State :: SSI_VolumeState
  blk_total_size :: u64
  blk_logical_sector_size :: u32
  blk_physical_sector_size :: u32
  m_pSourceDisk :: "end_device option"
  m_RwhPolicy :: SSI_RwhPolicy

record array = raid_device +
  m_Volumes :: "volume list"
  m_Busy :: bool
  m_TotalSize :: u64
  m_FreeSize :: u64

definition locked :: "'a raid_device_scheme \<Rightarrow> end_device list" where
  "locked d = [x. Some x \<leftarrow> m_BlockDevices d]"

text \<open>\<open>RaidDevice::getRaidInfo\<close>: of the first component that has one.\<close>

definition getRaidInfo :: "'a raid_device_scheme \<Rightarrow> raid_info option" where
  "getRaidInfo d =
     (case filter (\<lambda>r. r \<noteq> None) (map device_raid_info (locked d)) of [] \<Rightarrow> None | r # rs \<Rightarrow> r)"

definition setName :: "string \<Rightarrow> 'a raid_device_scheme \<Rightarrow> exception + 'a raid_device_scheme" where
  "setName deviceName d =
     (if length deviceName > 16 then Inl E_INVALID_NAME
      else if str_find (str_trim deviceName) '' '' 0 \<noteq> None then Inl E_INVALID_NAME
      else Inr (d\<lparr>m_Name := deviceName\<rparr>))"

text \<open>
  \<open>RaidDevice::setEndDevices\<close> and \<open>Array::setEndDevices\<close>: the devices before the offending one
  stay in the container.
\<close>

fun add_checked :: "(end_device \<Rightarrow> exception option) \<Rightarrow> end_device list \<Rightarrow> end_device option list
    \<Rightarrow> exception option \<times> end_device option list" where
  "add_checked check [] added = (None, added)"
| "add_checked check (d # ds) added =
     (case check d of
        Some e \<Rightarrow> (Some e, added)
      | None \<Rightarrow> add_checked check ds (added @ [Some d]))"

definition raid_device_check :: "end_device \<Rightarrow> exception option" where
  "raid_device_check d =
     (if \<not> is_block d then Some E_INVALID_OBJECT
      else if isSystemDisk d then Some E_SYSTEM_DEVICE
      else if getDiskState d \<noteq> SSI_DiskStateNormal then Some E_NOT_AVAILABLE
      else None)"

definition raid_device_setEndDevices ::
  "end_device list \<Rightarrow> 'a raid_device_scheme \<Rightarrow> exception option \<times> 'a raid_device_scheme" where
  "raid_device_setEndDevices devices d =
     (let (e, added) = add_checked raid_device_check devices [] in (e, d\<lparr>m_BlockDevices := added\<rparr>))"

definition array_check :: "end_device \<Rightarrow> exception option" where
  "array_check d =
     (if \<not> is_block d then Some E_INVALID_OBJECT
      else if isSystemDisk d then Some E_SYSTEM_DEVICE
      else if getDiskUsage d \<noteq> SSI_DiskUsagePassThru then Some E_INVALID_USAGE
      else if getDiskState d \<noteq> SSI_DiskStateNormal then Some E_NOT_AVAILABLE
      else None)"

definition array_setEndDevices :: "end_device list \<Rightarrow> array \<Rightarrow> exception option \<times> array" where
  "array_setEndDevices devices a =
     (let (e, added) = add_checked array_check devices [] in (e, a\<lparr>m_BlockDevices := added\<rparr>))"

subsection \<open>Spares\<close>

definition quoted :: "string \<Rightarrow> string" where
  "quoted s = CHR 0x27 # s @ [CHR 0x27]"

definition dev :: "string \<Rightarrow> string" where
  "dev name = quoted (''/dev/'' @ name)"

text \<open>The loop of \<open>addSpare\<close>: the disks to add, or the status it returns.\<close>

fun spares_to_add :: "array \<Rightarrow> end_device list \<Rightarrow> SSI_Status + end_device list" where
  "spares_to_add a [] = Inr []"
| "spares_to_add a (d # ds) =
     (if is_block d then
        (if getArray d = Some (object_id a) \<and> getDiskUsage d = SSI_DiskUsageSpare
         then spares_to_add a ds
         else if \<not> has_controller d then Inl SSI_StatusInvalidState
         else if isSystemDisk d then Inl SSI_StatusInvalidState
         else if getDiskUsage d \<noteq> SSI_DiskUsagePassThru then Inl SSI_StatusInvalidState
         else if getDiskState d \<noteq> SSI_DiskStateNormal then Inl SSI_StatusInvalidState
         else map_sum id ((#) d) (spares_to_add a ds))
      else Inl SSI_StatusInvalidState)"

definition add_command :: "array \<Rightarrow> end_device list \<Rightarrow> string" where
  "add_command a ds =
     ''mdadm '' @ dev (m_DevName a) @ '' -a'' @ concat (map (\<lambda>d. '' '' @ dev (getDevName d)) ds)"

definition addSpare :: "env \<Rightarrow> array \<Rightarrow> end_device list \<Rightarrow> world \<Rightarrow> SSI_Status \<times> world" where
  "addSpare os a container w =
     (case spares_to_add a container of
        Inl status \<Rightarrow> (status, w)
      | Inr ds \<Rightarrow>
          (if ds = [] then (SSI_StatusOk, w)
           else let (r, w') = shellEx os (add_command a ds) 3 0 w in
                (if r = 0 then SSI_StatusOk else SSI_StatusFailed, w')))"

definition addSpare_one :: "env \<Rightarrow> array \<Rightarrow> end_device option \<Rightarrow> world \<Rightarrow> SSI_Status \<times> world" where
  "addSpare_one os a pEndDevice w =
     (case pEndDevice of None \<Rightarrow> (SSI_StatusInvalidHandle, w) | Some d \<Rightarrow> addSpare os a [d] w)"

definition removable_spare :: "array \<Rightarrow> end_device \<Rightarrow> bool" where
  "removable_spare a d \<longleftrightarrow>
     getArray d = Some (object_id a) \<and> is_block d \<and> getDiskUsage d = SSI_DiskUsageSpare
     \<and> getDiskState d \<in> {SSI_DiskStateNormal, SSI_DiskStateFailed, SSI_DiskStateSmartEventTriggered}"

definition detach_command :: "array \<Rightarrow> end_device \<Rightarrow> string" where
  "detach_command a d = ''mdadm '' @ dev (m_DevName a) @ '' -r '' @ dev (getDevName d)"

definition clear_command :: "end_device \<Rightarrow> string" where
  "clear_command d = ''mdadm --zero-superblock '' @ dev (getDevName d)"

definition removeSpare :: "env \<Rightarrow> array \<Rightarrow> bool \<Rightarrow> end_device \<Rightarrow> world \<Rightarrow> SSI_Status \<times> world" where
  "removeSpare os a force d w =
     (if \<not> force \<and> \<not> removable_spare a d then (SSI_StatusInvalidState, w)
      else let (r, w1) = shellEx os (detach_command a d) 1 0 w;
               (r, w2) = (if r = 0 then shellEx os (clear_command d) 1 0 w1 else (r, w1)) in
           (if r = 0 then SSI_StatusOk else SSI_StatusFailed, w2))"

fun removeSpares_from :: "env \<Rightarrow> array \<Rightarrow> bool \<Rightarrow> end_device list \<Rightarrow> SSI_Status \<Rightarrow> world
    \<Rightarrow> SSI_Status \<times> world" where
  "removeSpares_from os a force [] status w = (status, w)"
| "removeSpares_from os a force (d # ds) status w =
     (let (localStatus, w') = removeSpare os a force d w in
      removeSpares_from os a force ds (if localStatus \<noteq> SSI_StatusOk then localStatus else status) w')"

definition removeSpares :: "env \<Rightarrow> array \<Rightarrow> bool \<Rightarrow> end_device list \<Rightarrow> world \<Rightarrow> SSI_Status \<times> world" where
  "removeSpares os a force ds w = removeSpares_from os a force ds SSI_StatusOk w"

text \<open>The pointer of a device that is no \<open>BlockDevice\<close> is null and dereferenced.\<close>

definition getSpareableEndDevices :: "end_device list \<Rightarrow> end_device list option" where
  "getSpareableEndDevices ds =
     (if \<exists>d\<in>set ds. \<not> is_block d then None
      else Some (filter (\<lambda>d. getDiskUsage d \<noteq> SSI_DiskUsageSpare) ds))"

definition array_getEndDevices :: "array \<Rightarrow> bool \<Rightarrow> end_device list" where
  "array_getEndDevices a all =
     filter (\<lambda>d. all \<or> getDiskUsage d = SSI_DiskUsageArrayMember) (locked a)"

text \<open>
  \<open>canAddEndDevices\<close>: the type of the array is the type of its first disk, whose weak pointer is
  dereferenced without a check.
\<close>

definition canAddEndDevices :: "array \<Rightarrow> end_device list \<Rightarrow> SSI_Status option" where
  "canAddEndDevices a ds =
     (let answer = (\<lambda>isSata. if \<exists>d\<in>set ds. is_block d \<and>
                                  (getDiskType d = SSI_DiskTypeSATA \<and> \<not> isSata
                                   \<or> getDiskType d = SSI_DiskTypeVMD \<and> isSata)
                            then SSI_StatusInvalidParameter else SSI_StatusOk) in
      case m_BlockDevices a of
        [] \<Rightarrow> Some (answer False)
      | None # _ \<Rightarrow> None
      | Some d # _ \<Rightarrow> Some (answer (getDiskType d = SSI_DiskTypeSATA)))"

subsection \<open>Operations of an array\<close>

definition grow_command :: "array \<Rightarrow> nat \<Rightarrow> string" where
  "grow_command a n = ''mdadm --grow '' @ dev (m_DevName a) @ '' --raid-devices '' @ dec n"

definition grow :: "env \<Rightarrow> array \<Rightarrow> end_device list \<Rightarrow> world \<Rightarrow> (SSI_Status \<times> world) option" where
  "grow os a container w =
     (if m_Busy a then Some (SSI_StatusInvalidState, w)
      else case getSpareableEndDevices container of
        None \<Rightarrow> None
      | Some addedToSpare \<Rightarrow>
          (let (status, w1) = addSpare os a container w;
               tmp = array_getEndDevices a False in
           if status = SSI_StatusOk
           then let (r, w2) = shellEx os (grow_command a (length tmp + length container)) 1 0 w1 in
                if r \<noteq> 0
                then let (_, w3) = removeSpares os a True addedToSpare w2 in Some (SSI_StatusFailed, w3)
                else Some (status, w2)
           else Some (status, w1)))"

definition removeVolume :: "env \<Rightarrow> array \<Rightarrow> u32 \<Rightarrow> world \<Rightarrow> SSI_Status \<times> world" where
  "removeVolume os a ordinal w =
     (if length (m_Volumes a) = 1 then (SSI_StatusOk, w)
      else let (r, w') = shellEx os (''mdadm --kill-subarray='' @ dec (unat ordinal) @ '' '' @ dev (m_DevName a)) 1 0 w in
           (if r = 0 then SSI_StatusOk else SSI_StatusFailed, w'))"

definition MDADM_CONFIG_PATH :: string where
  "MDADM_CONFIG_PATH = ''/etc/mdadm.conf''"

definition valid_volume_name :: "string \<Rightarrow> bool" where
  "valid_volume_name newName \<longleftrightarrow>
     str_find newName ''/'' 0 = None \<and> str_find (str_trim newName) '' '' 0 = None"

definition rename_command :: "array \<Rightarrow> u32 \<Rightarrow> string \<Rightarrow> string" where
  "rename_command a ordinal newName =
     ''mdadm --misc --update-subarray='' @ dec (unat ordinal) @ '' --update=name -N '' @ quoted newName
     @ '' '' @ quoted (''/dev/md/'' @ m_Name a)"

definition renameVolume :: "env \<Rightarrow> array \<Rightarrow> u32 \<Rightarrow> string \<Rightarrow> world \<Rightarrow> (exception + SSI_Status) \<times> world" where
  "renameVolume os a ordinal newName w =
     (let (status, w1) =
            (if valid_volume_name newName
             then let (r, w') = shellEx os (rename_command a ordinal newName) 1 1 w in
                  (if r \<noteq> 0 then SSI_StatusFailed else SSI_StatusOk, w')
             else (SSI_StatusInvalidString,
                   setLastErrorMessage (newName @ '' is an invalid name for an md device'') w));
          ((r, output), w2) = shell_output os ''mdadm -Ebs'' False w1 in
      if r \<noteq> 0 then (Inr SSI_StatusFailed, w2)
      else case file_write os MDADM_CONFIG_PATH output w2 of
             Inl e \<Rightarrow> (Inl e, w2)
           | Inr w3 \<Rightarrow> (Inr status, w3))"

definition assemble_command :: "array \<Rightarrow> string" where
  "assemble_command a = ''mdadm -I '' @ quoted (''/dev/md/'' @ m_Name a)"

definition assemble :: "env \<Rightarrow> array \<Rightarrow> world \<Rightarrow> SSI_Status \<times> world" where
  "assemble os a w =
     (let (r, w') = shellEx os (assemble_command a) 1 0 w in
      (if r = 0 then SSI_StatusOk else SSI_StatusFailed, w'))"

definition stop_command :: "'a raid_device_scheme \<Rightarrow> string" where
  "stop_command d = ''mdadm -S '' @ dev (m_DevName d)"

definition zero_command :: "array \<Rightarrow> string" where
  "zero_command a =
     ''mdadm --zero-superblock'' @ concat (map (\<lambda>d. '' '' @ dev (getDevName d)) (locked a))"

text \<open>\<open>pContextMgr->remove(this)\<close>\<close>

definition unregister :: "'a raid_device_scheme \<Rightarrow> world \<Rightarrow> world" where
  "unregister d w = w\<lparr>registry := snd (hm_remove (object_id d) (registry w))\<rparr>"

fun array_remove_loop :: "env \<Rightarrow> array \<Rightarrow> nat \<Rightarrow> world \<Rightarrow> SSI_Status \<times> world" where
  "array_remove_loop os a 0 w = (SSI_StatusFailed, w)"
| "array_remove_loop os a (Suc tries) w =
     (let (r1, w1) = shellEx os (stop_command a) 1 0 w in
      if r1 = 0
      then let (r2, w2) = shellEx os (zero_command a) 1 0 (unregister a w1) in
           if r2 = 0 then (SSI_StatusOk, w2) else array_remove_loop os a tries w2
      else array_remove_loop os a tries w1)"

text \<open>\<open>n++ < 3\<close> after the first attempt: four attempts.\<close>

definition array_remove :: "env \<Rightarrow> array \<Rightarrow> world \<Rightarrow> SSI_Status \<times> world" where
  "array_remove os a w = array_remove_loop os a 4 w"

record SSI_ArrayInfo =
  arrayHandle :: SSI_Handle
  array_state :: SSI_ArrayState
  array_totalSize :: u64
  array_freeSize :: u64
  array_writeCachePolicy :: SSI_WriteCachePolicy
  array_numVolumes :: u32
  array_numDisks :: u32

definition array_getInfo :: "SSI_Handle \<Rightarrow> array \<Rightarrow> SSI_ArrayInfo option \<Rightarrow> SSI_Status \<times> SSI_ArrayInfo option" where
  "array_getInfo handle a pInfo =
     (case pInfo of
        None \<Rightarrow> (SSI_StatusInvalidParameter, None)
      | Some info \<Rightarrow>
          (SSI_StatusOk,
           Some (info\<lparr>arrayHandle := handle,
             array_state := (if m_Busy a then SSI_ArrayStateBusy else SSI_ArrayStateNormal),
             array_totalSize := m_TotalSize a, array_freeSize := m_FreeSize a,
             array_writeCachePolicy := SSI_WriteCachePolicyOn,
             array_numVolumes := of_nat (length (m_Volumes a)),
             array_numDisks := of_nat (length (m_BlockDevices a))\<rparr>)))"

definition setWriteCacheState :: "array \<Rightarrow> bool \<Rightarrow> SSI_Status" where
  "setWriteCacheState a enable = (if m_Busy a then SSI_StatusInvalidState else SSI_StatusNotSupported)"

subsection \<open>Sizes\<close>

definition MPB_SECTOR_CNT :: u64 where "MPB_SECTOR_CNT = 2210"
definition IMSM_RESERVED_SECTORS :: u64 where "IMSM_RESERVED_SECTORS = 4096"
definition DEFAULT_SECTOR_SIZE :: u64 where "DEFAULT_SECTOR_SIZE = 512"

definition smallest_disk :: "array \<Rightarrow> u64" where
  "smallest_disk a = fold (\<lambda>d totalSize. min totalSize (getTotalSize d)) (locked a) (- 1)"

definition sector_size :: "array \<Rightarrow> u64" where
  "sector_size a =
     (case m_Volumes a of [] \<Rightarrow> DEFAULT_SECTOR_SIZE | v # _ \<Rightarrow> ucast (blk_logical_sector_size v))"

definition volumes_size :: "array \<Rightarrow> u64" where
  "volumes_size a =
     fold (\<lambda>v occupiedSize. occupiedSize + push_bit 10 (m_ComponentSize v) + IMSM_RESERVED_SECTORS * sector_size a)
       (m_Volumes a) 0"

definition last_strip_size :: "array \<Rightarrow> u32" where
  "last_strip_size a = (if m_Volumes a = [] then 0 else m_StripSize (last (m_Volumes a)))"

definition determine_total_and_free_size :: "array \<Rightarrow> array" where
  "determine_total_and_free_size a =
     (let n = of_nat (length (m_BlockDevices a)) :: u64;
          total = smallest_disk a * n;
          occupied0 = volumes_size a;
          occupied = (if occupied0 > 0 then (occupied0 + MPB_SECTOR_CNT * sector_size a) * n else occupied0);
          free0 = (if occupied > total then 0 else total - occupied);
          free = (if free0 < ucast (last_strip_size a) \<or> length (m_Volumes a) > 1 then 0 else free0) in
      a\<lparr>m_TotalSize := total, m_FreeSize := free\<rparr>)"

text \<open>The state of an array once its volumes are known (\<open>addToSession\<close>).\<close>

definition determine_busy :: "array \<Rightarrow> array" where
  "determine_busy a =
     (if \<exists>v\<in>set (m_Volumes a). m_State v \<noteq> SSI_VolumeStateNormal then a\<lparr>m_Busy := True\<rparr> else a)"

subsection \<open>Adding spares as a transaction\<close>

text \<open>
  Growing an array and migrating a volume have one shape: add the disks as spares, run the command
  that uses them, and take out the disks that were added when it fails.
\<close>

definition with_spares :: "(world \<Rightarrow> SSI_Status \<times> world) \<Rightarrow> (world \<Rightarrow> int \<times> world)
    \<Rightarrow> (world \<Rightarrow> SSI_Status \<times> world) \<Rightarrow> world \<Rightarrow> SSI_Status \<times> world" where
  "with_spares add step undo w =
     (let (status, w1) = add w in
      if status = SSI_StatusOk
      then let (r, w2) = step w1 in
           (if r = 0 then (SSI_StatusOk, w2) else (SSI_StatusFailed, snd (undo w2)))
      else (status, w1))"

lemma grow_with_spares:
  "\<not> m_Busy a \<Longrightarrow> getSpareableEndDevices c = Some added \<Longrightarrow>
     grow os a c w =
       Some (with_spares (addSpare os a c)
              (shellEx os (grow_command a (length (array_getEndDevices a False) + length c)) 1 0)
              (removeSpares os a True added) w)"
  by (simp add: grow_def with_spares_def Let_def split: prod.split)

lemma addSpare_status: "fst (addSpare os a ds w) \<in> {SSI_StatusOk, SSI_StatusFailed, SSI_StatusInvalidState}"
proof -
  have "spares_to_add a ds = Inl st \<Longrightarrow> st = SSI_StatusInvalidState" for st
    by (induction ds) (auto split: if_splits simp: map_sum_def sum.case_eq_if)
  then show ?thesis
    by (auto simp: addSpare_def split: sum.splits prod.splits)
qed

subsection \<open>The commands a run leaves in the trace\<close>

text \<open>A shell that can always be started.\<close>

definition shell_works :: "env \<Rightarrow> bool" where
  "shell_works os \<longleftrightarrow> (\<forall>tr c. popen os tr c \<noteq> None)"

lemma started_if_works: "shell_works os \<Longrightarrow> started os tr c = tr @ [mdadm_run c]"
  by (simp add: shell_works_def started_def answer_def)

lemma prefix_started: "prefix tr (started os tr c)"
  by (simp add: started_def)

definition removal :: "env \<Rightarrow> array \<Rightarrow> end_device \<Rightarrow> action list \<Rightarrow> action list" where
  "removal os a d tr =
     (let tr1 = started os tr (detach_command a d) in
      if succeeds os tr (detach_command a d) then started os tr1 (clear_command d) else tr1)"

lemma removeSpare_forced:
  "trace (snd (removeSpare os a True d w)) = removal os a d (trace w)
   \<and> registry (snd (removeSpare os a True d w)) = registry w"
  using shellEx_status [of os "detach_command a d" 1 0 w] shellEx_trace [of os "detach_command a d" 1 0 w]
    shellEx_registry [of os "detach_command a d" 1 0 w]
  by (auto simp: removeSpare_def removal_def Let_def shellEx_trace shellEx_registry split: prod.splits)
     (metis shellEx_trace shellEx_registry snd_conv)+

lemma removeSpares_forced:
  "trace (snd (removeSpares_from os a True ds st w)) = fold (removal os a) ds (trace w)
   \<and> registry (snd (removeSpares_from os a True ds st w)) = registry w"
proof (induction ds arbitrary: st w)
  case (Cons d ds)
  show ?case
    using removeSpare_forced [of os a d w] Cons.IH
    by (cases "removeSpare os a True d w") (simp add: Let_def)
qed simp

lemma removal_runs_detach:
  "shell_works os \<Longrightarrow> \<exists>new. removal os a d tr = tr @ mdadm_run (detach_command a d) # new"
  by (simp add: removal_def Let_def started_if_works)

lemma removals_run_detach:
  "shell_works os \<Longrightarrow>
     \<exists>new. fold (removal os a) ds tr = tr @ new \<and> (\<forall>d\<in>set ds. mdadm_run (detach_command a d) \<in> set new)"
proof (induction ds arbitrary: tr)
  case (Cons d ds)
  obtain n1 where 1: "removal os a d tr = tr @ mdadm_run (detach_command a d) # n1"
    using removal_runs_detach [OF Cons.prems] by blast
  obtain n2 where 2: "fold (removal os a) ds (removal os a d tr) = removal os a d tr @ n2"
    "\<forall>d\<in>set ds. mdadm_run (detach_command a d) \<in> set n2"
    using Cons.IH [OF Cons.prems] by blast
  show ?case
    by (rule exI [of _ "mdadm_run (detach_command a d) # n1 @ n2"]) (use 1 2 in auto)
qed simp

lemma addSpare_cases:
  obtains (rejected) "addSpare os a ds w = (SSI_StatusInvalidState, w)" "spares_to_add a ds = Inl SSI_StatusInvalidState"
  | (idle) "addSpare os a ds w = (SSI_StatusOk, w)" "spares_to_add a ds = Inr []"
  | (added) new w' where "spares_to_add a ds = Inr new" "new \<noteq> []" "succeeds os (trace w) (add_command a new)"
      "addSpare os a ds w = (SSI_StatusOk, w')" "trace w' = trace w @ [mdadm_run (add_command a new)]"
      "registry w' = registry w"
  | (failed) new w' where "spares_to_add a ds = Inr new" "new \<noteq> []" "\<not> succeeds os (trace w) (add_command a new)"
      "addSpare os a ds w = (SSI_StatusFailed, w')" "trace w' = started os (trace w) (add_command a new)"
      "registry w' = registry w"
proof (cases "spares_to_add a ds")
  case (Inl st)
  then have "addSpare os a ds w = (st, w)" by (simp add: addSpare_def)
  moreover have "st = SSI_StatusInvalidState"
    using Inl by (induction ds) (auto split: if_splits simp: map_sum_def sum.case_eq_if)
  ultimately show ?thesis using that(1) Inl by simp
next
  case (Inr new)
  show ?thesis
  proof (cases "new = []")
    case True
    then show ?thesis using that(2) Inr by (simp add: addSpare_def)
  next
    case False
    obtain r w' where r: "shellEx os (add_command a new) 3 0 w = (r, w')" by fastforce
    then have *: "r = (if succeeds os (trace w) (add_command a new) then 0 else -1)"
      "trace w' = started os (trace w) (add_command a new)" "registry w' = registry w"
      by (metis shellEx_status fst_conv, metis shellEx_trace snd_conv, metis shellEx_registry snd_conv)
    show ?thesis
    proof (cases "succeeds os (trace w) (add_command a new)")
      case True
      then show ?thesis
        using that(3) [OF Inr False] r * started_if_succeeds [OF True] Inr False by (simp add: addSpare_def)
    next
      case 2: False
      then show ?thesis
        using that(4) [OF Inr False] r * Inr False by (simp add: addSpare_def)
    qed
  qed
qed

subsection \<open>The contract of a pool of spares\<close>

text \<open>
  What a client of \<open>addSpare\<close> and \<open>removeSpare\<close> relies on: a rejected request does nothing, the
  trace only grows, and a removal tries to take out every disk.
\<close>

locale spare_pool =
  fixes add :: "env \<Rightarrow> 'd list \<Rightarrow> world \<Rightarrow> SSI_Status \<times> world"
    and drop_all :: "env \<Rightarrow> 'd list \<Rightarrow> world \<Rightarrow> SSI_Status \<times> world"
    and detach :: "'d \<Rightarrow> action"
  assumes add_rejects: "add os ds w = (st, w') \<Longrightarrow> st \<noteq> SSI_StatusOk \<Longrightarrow> st \<noteq> SSI_StatusFailed
      \<Longrightarrow> w' = w \<and> st = SSI_StatusInvalidState"
    and add_log: "\<exists>new. trace (snd (add os ds w)) = trace w @ new"
    and drop_detaches: "shell_works os \<Longrightarrow>
      \<exists>new. trace (snd (drop_all os ds w)) = trace w @ new \<and> (\<forall>d\<in>set ds. detach d \<in> set new)"
begin

lemma transaction_statuses:
  assumes "with_spares (add os ds) step (drop_all os ds') w = (st, w')"
  shows "st = SSI_StatusOk \<or> st = SSI_StatusFailed \<or> st = SSI_StatusInvalidState"
proof -
  obtain st1 w1 where "add os ds w = (st1, w1)" by fastforce
  with assms add_rejects [of os ds w st1 w1] show ?thesis
    by (auto simp: with_spares_def split: prod.splits if_splits)
qed

lemma rejection_does_nothing:
  assumes "with_spares (add os ds) step (drop_all os ds') w = (SSI_StatusInvalidState, w')"
  shows "w' = w"
proof -
  obtain st1 w1 where "add os ds w = (st1, w1)" by fastforce
  with assms add_rejects [of os ds w st1 w1] show ?thesis
    by (auto simp: with_spares_def split: prod.splits if_splits)
qed

lemma success_means_both:
  assumes "with_spares (add os ds) step (drop_all os ds') w = (SSI_StatusOk, w')"
  obtains w1 where "add os ds w = (SSI_StatusOk, w1)" "step w1 = (0, w')"
  using assms that by (auto simp: with_spares_def split: prod.splits if_splits)

lemma failure_is_undone:
  assumes works: "shell_works os"
    and run: "with_spares (add os ds) step (drop_all os ds') w = (SSI_StatusFailed, w')"
    and added: "add os ds w = (SSI_StatusOk, w1)"
  shows "\<exists>undo. trace w' = trace (snd (step w1)) @ undo \<and> (\<forall>d\<in>set ds'. detach d \<in> set undo)"
proof -
  obtain r w2 where s: "step w1 = (r, w2)" by fastforce
  with run added have "w' = snd (drop_all os ds' w2)"
    by (auto simp: with_spares_def split: if_splits)
  with drop_detaches [OF works, of ds' w2] s show ?thesis by simp
qed

end

text \<open>The array provides the pool.\<close>

interpretation spares: spare_pool
  "\<lambda>os ds. addSpare os a ds" "\<lambda>os ds. removeSpares os a True ds" "\<lambda>d. mdadm_run (detach_command a d)"
  for a
proof
  fix os ds w st w'
  show "addSpare os a ds w = (st, w') \<Longrightarrow> st \<noteq> SSI_StatusOk \<Longrightarrow> st \<noteq> SSI_StatusFailed
      \<Longrightarrow> w' = w \<and> st = SSI_StatusInvalidState"
    by (cases rule: addSpare_cases [of os a ds w]) auto
  show "\<exists>new. trace (snd (addSpare os a ds w)) = trace w @ new"
    by (cases rule: addSpare_cases [of os a ds w]) (auto simp: started_def)
next
  fix os ds w
  assume "shell_works os"
  then show "\<exists>new. trace (snd (removeSpares os a True ds w)) = trace w @ new
      \<and> (\<forall>d\<in>set ds. mdadm_run (detach_command a d) \<in> set new)"
    using removals_run_detach [of os a ds "trace w"]
      removeSpares_forced [of os a ds SSI_StatusOk w] by (simp add: removeSpares_def)
qed

definition add_actions :: "array \<Rightarrow> end_device list \<Rightarrow> action list" where
  "add_actions a new = (if new = [] then [] else [mdadm_run (add_command a new)])"

lemma addSpare_trace:
  assumes "addSpare os a ds w = (SSI_StatusOk, w')"
  obtains new where "spares_to_add a ds = Inr new" "trace w' = trace w @ add_actions a new"
    "registry w' = registry w"
  by (cases rule: addSpare_cases [of os a ds w]) (use assms that in \<open>auto simp: add_actions_def\<close>)

subsection \<open>Sizes, over the natural numbers\<close>

definition disk_sizes :: "array \<Rightarrow> nat set" where
  "disk_sizes a = set (map (unat \<circ> getTotalSize) (locked a))"

definition occupied_bytes :: "array \<Rightarrow> nat" where
  "occupied_bytes a =
     (if m_Volumes a = [] then 0
      else (sum_list (map (\<lambda>v. 1024 * unat (m_ComponentSize v) + 4096 * unat (sector_size a)) (m_Volumes a))
            + 2210 * unat (sector_size a)) * length (m_BlockDevices a))"

definition no_overflow :: "array \<Rightarrow> bool" where
  "no_overflow a \<longleftrightarrow>
     unat (smallest_disk a) * length (m_BlockDevices a) < 2 ^ 64 \<and> length (m_BlockDevices a) < 2 ^ 32 \<and>
     (m_BlockDevices a = [] \<longrightarrow> m_Volumes a = []) \<and> occupied_bytes a < 2 ^ 64"

lemma unat_min: "unat (min x y) = min (unat x) (unat (y :: u64))"
  by (simp add: min_def word_le_nat_alt)

lemma smallest_disk_fold:
  "unat (fold (\<lambda>d m. min m (getTotalSize d)) ds m) = fold min (map (unat \<circ> getTotalSize) ds) (unat m)"
proof (induction ds arbitrary: m)
  case (Cons d ds)
  show ?case by (simp add: Cons.IH unat_min min.commute)
qed simp

lemma smallest_disk_Min:
  assumes "locked a \<noteq> []"
  shows "unat (smallest_disk a) = Min (disk_sizes a)"
proof -
  have bound: "n \<in> disk_sizes a \<Longrightarrow> n \<le> unat (- 1 :: u64)" for n
    by (auto simp: disk_sizes_def word_le_nat_alt [symmetric])
  have ne: "disk_sizes a \<noteq> {}" and fin: "finite (disk_sizes a)"
    using assms by (auto simp: disk_sizes_def)
  have "unat (smallest_disk a) = Min (set (unat (- 1 :: u64) # map (unat \<circ> getTotalSize) (locked a)))"
    by (simp only: smallest_disk_def smallest_disk_fold Min.set_eq_fold)
  also have "\<dots> = Min (disk_sizes a)"
    using bound ne fin by (simp add: disk_sizes_def Min_insert)
  finally show ?thesis .
qed

lemma volumes_size_of_nat:
  "volumes_size a =
     of_nat (sum_list (map (\<lambda>v. 1024 * unat (m_ComponentSize v) + 4096 * unat (sector_size a)) (m_Volumes a)))"
proof -
  define s where "s = sector_size a"
  have "fold (\<lambda>v x. x + push_bit 10 (m_ComponentSize v) + IMSM_RESERVED_SECTORS * s) vs x =
        x + of_nat (sum_list (map (\<lambda>v. 1024 * unat (m_ComponentSize v) + 4096 * unat s) vs))" for vs x
  proof (induction vs arbitrary: x)
    case (Cons v vs)
    have "push_bit 10 (m_ComponentSize v) + IMSM_RESERVED_SECTORS * s
        = of_nat (1024 * unat (m_ComponentSize v) + 4096 * unat s)"
      by (simp add: push_bit_eq_mult IMSM_RESERVED_SECTORS_def)
    then have step: "fold (\<lambda>v x. x + push_bit 10 (m_ComponentSize v) + IMSM_RESERVED_SECTORS * s) (v # vs) x =
        fold (\<lambda>v x. x + push_bit 10 (m_ComponentSize v) + IMSM_RESERVED_SECTORS * s) vs
          (x + of_nat (1024 * unat (m_ComponentSize v) + 4096 * unat s))"
      by (simp only: fold_simps comp_apply add.assoc)
    show ?case
      unfolding step Cons.IH by (simp only: list.map sum_list.Cons of_nat_add add.assoc)
  qed simp
  from this [of "m_Volumes a" 0] show ?thesis by (simp add: volumes_size_def s_def)
qed

lemma occupied_of_nat:
  assumes "no_overflow a"
  shows "(if volumes_size a > 0
          then (volumes_size a + MPB_SECTOR_CNT * sector_size a) * of_nat (length (m_BlockDevices a))
          else volumes_size a) = of_nat (occupied_bytes a)"
proof (cases "m_Volumes a = []")
  case True
  then show ?thesis by (simp add: volumes_size_def occupied_bytes_def)
next
  case False
  define S where "S = sum_list (map (\<lambda>v. 1024 * unat (m_ComponentSize v) + 4096 * unat (sector_size a)) (m_Volumes a))"
  have n: "length (m_BlockDevices a) > 0"
    using assms False by (auto simp: no_overflow_def)
  have occ: "occupied_bytes a = (S + 2210 * unat (sector_size a)) * length (m_BlockDevices a)"
    using False by (simp add: occupied_bytes_def S_def)
  have v: "volumes_size a = of_nat S"
    by (simp add: volumes_size_of_nat S_def)
  have "S \<le> occupied_bytes a"
    using n unfolding occ by (cases "length (m_BlockDevices a)") auto
  then have S: "unat (volumes_size a) = S"
    using assms v by (simp add: no_overflow_def unat_of_nat_u64)
  show ?thesis
  proof (cases "volumes_size a > 0")
    case True
    then show ?thesis by (simp add: occ v MPB_SECTOR_CNT_def)
  next
    case 2: False
    then have "S = 0" using S by (metis unat_eq_zero word_gt_0)
    moreover obtain v0 vs where "m_Volumes a = v0 # vs" using False by (cases "m_Volumes a") auto
    ultimately have "unat (sector_size a) = 0" by (simp add: S_def)
    with \<open>S = 0\<close> 2 show ?thesis by (simp add: occ v)
  qed
qed

text \<open>
  The sizes an array reports: if the 64-bit arithmetic does not overflow, the total size is the
  smallest disk times the number of disks, and the free size is what the volumes, their reserved
  sectors and the metadata leave of it - nothing when two volumes exist already or when less than
  a strip is left.  In any case the free size is at most the total size.
\<close>

theorem array_sizes:
  assumes "no_overflow a"
  defines "a' \<equiv> determine_total_and_free_size a"
  shows "unat (m_TotalSize a') = unat (smallest_disk a) * length (m_BlockDevices a) \<and>
     unat (m_FreeSize a') =
       (if length (m_Volumes a) > 1 \<or> unat (m_TotalSize a') - occupied_bytes a < unat (last_strip_size a)
        then 0 else unat (m_TotalSize a') - occupied_bytes a) \<and>
     m_FreeSize a' \<le> m_TotalSize a'"
proof -
  define T where "T = unat (smallest_disk a) * length (m_BlockDevices a)"
  define t :: u64 where "t = smallest_disk a * of_nat (length (m_BlockDevices a))"
  define o' :: u64 where "o' = of_nat (occupied_bytes a)"
  define f where "f = (if o' > t then 0 else t - o')"
  define strip :: u64 where "strip = ucast (last_strip_size a)"
  have tT: "t = of_nat T" by (simp add: t_def T_def)
  have "T < 2 ^ 64" using assms(1) by (simp only: no_overflow_def T_def)
  then have uT: "unat t = T" by (simp only: tT unat_of_nat_u64)
  have uO: "unat o' = occupied_bytes a" using assms(1) by (simp add: no_overflow_def o'_def unat_of_nat_u64)
  have f: "unat f = T - occupied_bytes a"
    using uT uO by (auto simp: f_def word_less_nat_alt unat_sub_if')
  have s: "unat strip = unat (last_strip_size a)"
    using unsigned_less [of "last_strip_size a", where 'a = nat]
    by (simp add: strip_def unsigned_ucast_eq take_bit_nat_eq_self)
  have a': "a' = a\<lparr>m_TotalSize := t, m_FreeSize := if f < strip \<or> length (m_Volumes a) > 1 then 0 else f\<rparr>"
    unfolding a'_def determine_total_and_free_size_def Let_def
    by (simp only: occupied_of_nat [OF assms(1)] t_def o'_def f_def strip_def)
  have "f \<le> t" using f uT by (simp add: word_le_nat_alt)
  then show ?thesis
    using uT f s unfolding a' by (auto simp: word_less_nat_alt T_def)
qed

definition demo_disk :: "string \<Rightarrow> end_device" where
  "demo_disk name =
     \<lparr>is_block = True, getDevName = name, getDiskUsage = SSI_DiskUsagePassThru,
      getDiskState = SSI_DiskStateNormal, getDiskType = SSI_DiskTypeSATA, isSystemDisk = False,
      getArray = None, has_controller = True, getTotalSize = 1000000000,
      getLogicalSectorSize = 512, isFultondalex8 = False,
      device_raid_info = Some vmd_standard, getSerialNum = name\<rparr>"

definition demo_member :: "string \<Rightarrow> end_device" where
  "demo_member name = (demo_disk name)\<lparr>getDiskUsage := SSI_DiskUsageArrayMember, getArray := Some 1\<rparr>"

definition demo_volume :: volume where
  "demo_volume =
     \<lparr>object_id = 2, m_Path = ''/sys/block/md126'', m_DevName = ''md126'', m_Name = ''Volume_0'', m_Uuid = ''u'',
      m_BlockDevices = [Some (demo_member ''sda''), Some (demo_member ''sdb'')],
      m_Ordinal = 0, m_RaidLevel = 0, m_WriteThrough = False, m_CachingEnabled = False,
      m_SystemVolume = False, m_MismatchCount = 0, m_StripSize = 131072, m_MigrProgress = 0,
      m_ComponentSize = 500000, m_State = SSI_VolumeStateNormal, blk_total_size = 1024000000,
      blk_logical_sector_size = 512, blk_physical_sector_size = 512, m_pSourceDisk = None,
      m_RwhPolicy = SSI_RwhInvalid\<rparr>"

definition demo_array :: array where
  "demo_array =
     \<lparr>object_id = 1, m_Path = ''/sys/block/md127'', m_DevName = ''md127'', m_Name = ''imsm0'', m_Uuid = ''u'',
      m_BlockDevices = [Some (demo_member ''sda''), Some (demo_member ''sdb'')],
      m_Volumes = [demo_volume], m_Busy = False, m_TotalSize = 0, m_FreeSize = 0\<rparr>"

lemma demo_locked:
  "locked demo_array = [demo_member ''sda'', demo_member ''sdb'']"
  "locked demo_volume = [demo_member ''sda'', demo_member ''sdb'']"
  by (simp_all add: locked_def demo_array_def demo_volume_def)

theorem array_sizes_witness:
  "unat (m_FreeSize (determine_total_and_free_size demo_array)) = 969542656"
proof -
  have "smallest_disk demo_array = 1000000000"
    by (simp add: smallest_disk_def demo_locked demo_member_def demo_disk_def)
  moreover have "occupied_bytes demo_array = 1030457344"
    by (simp add: occupied_bytes_def demo_array_def demo_volume_def sector_size_def)
  ultimately show ?thesis
    using array_sizes [of demo_array]
    by (simp add: no_overflow_def demo_array_def last_strip_size_def demo_volume_def)
qed

subsection \<open>Growing an array\<close>

definition grown :: "array \<Rightarrow> end_device list \<Rightarrow> action" where
  "grown a c = mdadm_run (grow_command a (length (array_getEndDevices a False) + length c))"

lemma getSpareable_some:
  "\<forall>d\<in>set c. is_block d \<Longrightarrow>
     getSpareableEndDevices c = Some (filter (\<lambda>d. getDiskUsage d \<noteq> SSI_DiskUsageSpare) c)"
  by (auto simp: getSpareableEndDevices_def)

lemma shellEx_result:
  "shellEx os c n k w = (r, w') \<Longrightarrow>
     r = (if succeeds os (trace w) c then 0 else -1) \<and> trace w' = started os (trace w) c \<and> registry w' = registry w"
  by (metis fst_conv shellEx_status snd_conv shellEx_trace shellEx_registry)

lemma grow_is_no_add: "grown a c \<noteq> mdadm_run (add_command a' new)"
  by (simp add: grown_def mdadm_run_def grow_command_def add_command_def dev_def quoted_def)

text \<open>The spares that a call adds, and what is in the trace when they were added and the growing failed.\<close>

abbreviation new_spares :: "end_device list \<Rightarrow> end_device list" where
  "new_spares c \<equiv> filter (\<lambda>d. getDiskUsage d \<noteq> SSI_DiskUsageSpare) c"

abbreviation grow_step :: "env \<Rightarrow> array \<Rightarrow> end_device list \<Rightarrow> world \<Rightarrow> int \<times> world" where
  "grow_step os a c \<equiv> shellEx os (grow_command a (length (array_getEndDevices a False) + length c)) 1 0"

lemma grow_step_trace:
  assumes "shell_works os" "grow_step os a c w = (r, w')"
  shows "trace w' = trace w @ [grown a c]"
  using assms shellEx_result started_if_works by (metis grown_def)

lemma grow_success:
  assumes works: "shell_works os"
    and ws: "with_spares (addSpare os a c) (grow_step os a c) (removeSpares os a True (new_spares c)) w = (SSI_StatusOk, w')"
  shows "\<exists>new. spares_to_add a c = Inr new \<and> trace w' = trace w @ add_actions a new @ [grown a c]"
proof -
  obtain w1 where add: "addSpare os a c w = (SSI_StatusOk, w1)" and step: "grow_step os a c w1 = (0, w')"
    using spares.success_means_both [OF ws] by blast
  obtain new where "spares_to_add a c = Inr new" "trace w1 = trace w @ add_actions a new"
    using addSpare_trace [OF add] by metis
  with grow_step_trace [OF works step] show ?thesis by simp
qed

lemma grow_undone:
  assumes works: "shell_works os"
    and ws: "with_spares (addSpare os a c) (grow_step os a c) (removeSpares os a True (new_spares c)) w = (SSI_StatusFailed, w')"
    and ran: "grown a c \<in> set (drop (length (trace w)) (trace w'))"
  shows "\<forall>d\<in>set (new_spares c). mdadm_run (detach_command a d) \<in> set (drop (length (trace w)) (trace w'))"
proof (cases rule: addSpare_cases [of os a c w])
  case (failed new w1)
  then have "w' = w1" using ws by (simp add: with_spares_def)
  then have "trace w' = trace w @ [mdadm_run (add_command a new)]"
    using failed started_if_works [OF works] by metis
  then show ?thesis using ran grow_is_no_add by simp
next
  case rejected
  then show ?thesis using ws by (simp add: with_spares_def)
next
  case idle
  obtain r w2 where s: "grow_step os a c w = (r, w2)" by fastforce
  with spares.failure_is_undone [OF works ws idle(1)] grow_step_trace [OF works s] show ?thesis by auto
next
  case (added new w1)
  obtain r w2 where s: "grow_step os a c w1 = (r, w2)" by fastforce
  with spares.failure_is_undone [OF works ws added(4)] grow_step_trace [OF works s] added(5) show ?thesis by auto
qed

text \<open>
  C6. Growing an array succeeds only when the array was idle, every disk may become a spare, and both
  the command that adds the disks and the one that raises the number of devices ran, in this
  order, with the count of the members plus the new disks.  A request that is refused runs
  nothing.  When the second command fails, each disk that was not a spare before is detached again.
\<close>

theorem grow_contract:
  assumes works: "shell_works os" and blocks: "\<forall>d\<in>set c. is_block d"
    and run: "grow os a c w = Some (st, w')"
  shows "(st = SSI_StatusOk \<longrightarrow> \<not> m_Busy a \<and>
            (\<exists>new. spares_to_add a c = Inr new \<and> trace w' = trace w @ add_actions a new @ [grown a c])) \<and>
         (st = SSI_StatusInvalidState \<longrightarrow> w' = w) \<and>
         (st = SSI_StatusFailed \<longrightarrow> grown a c \<in> set (drop (length (trace w)) (trace w')) \<longrightarrow>
            (\<forall>d\<in>set c. getDiskUsage d \<noteq> SSI_DiskUsageSpare \<longrightarrow>
               mdadm_run (detach_command a d) \<in> set (drop (length (trace w)) (trace w')))) \<and>
         st \<in> {SSI_StatusOk, SSI_StatusInvalidState, SSI_StatusFailed}"
proof (cases "m_Busy a")
  case True
  then show ?thesis using run by (auto simp: grow_def)
next
  case False
  have ws: "with_spares (addSpare os a c) (grow_step os a c) (removeSpares os a True (new_spares c)) w = (st, w')"
    using run grow_with_spares [OF False getSpareable_some [OF blocks]] by simp
  then have "st = SSI_StatusInvalidState \<longrightarrow> w' = w"
    and "st \<in> {SSI_StatusOk, SSI_StatusInvalidState, SSI_StatusFailed}"
    using spares.rejection_does_nothing spares.transaction_statuses by (metis, blast)
  then show ?thesis using False ws grow_success [OF works] grow_undone [OF works] by auto
qed

definition calm :: env where
  "calm = \<lparr>popen = (\<lambda>tr c. Some (0, [])), open_error = (\<lambda>tr p. None), read_file = (\<lambda>tr p. None),
     path_exists = (\<lambda>tr p. False), canonical_path = (\<lambda>p. p)\<rparr>"

definition start_world :: world where
  "start_world = \<lparr>trace = [], last_error = [], registry = hm_empty\<rparr>"

lemma calm_works: "shell_works calm"
  by (simp add: shell_works_def calm_def)

lemma calm_succeeds: "succeeds calm tr c"
  by (simp add: succeeds_def answer_def calm_def WEXITSTATUS_def)

lemmas calm_run = shellEx_ok [of calm, OF calm_succeeds]

lemma calm_output:
  "shell_output calm c e w =
     ((0, []), w\<lparr>trace := trace w @ [Command (c @ (if e then '' 2>&1 1>/dev/null'' else '' 2>/dev/null''))]\<rparr>)"
  by (simp add: shell_output_def calm_def WEXITSTATUS_def)

lemma calm_write: "file_write calm path content w = Inr (w\<lparr>trace := trace w @ [Write path content]\<rparr>)"
  by (simp add: file_write_def calm_def)

theorem grow_contract_witness:
  "\<exists>w'. grow calm demo_array [demo_disk ''sdc''] start_world = Some (SSI_StatusOk, w')
     \<and> length (trace w') = 2 \<and> last (trace w') = grown demo_array [demo_disk ''sdc'']"
proof -
  have b: "\<forall>d\<in>set [demo_disk ''sdc'']. is_block d" by (simp add: demo_disk_def)
  have s: "spares_to_add demo_array [demo_disk ''sdc''] = Inr [demo_disk ''sdc'']"
    by (simp add: demo_disk_def)
  obtain w' where run: "grow calm demo_array [demo_disk ''sdc''] start_world = Some (SSI_StatusOk, w')"
    using s by (auto simp: grow_def demo_array_def getSpareable_some [OF b] addSpare_def calm_run Let_def)
  from grow_contract [OF calm_works b run] s
  have "trace w' = add_actions demo_array [demo_disk ''sdc''] @ [grown demo_array [demo_disk ''sdc'']]"
    by (simp add: start_world_def del: spares_to_add.simps)
  with run show ?thesis by (simp add: add_actions_def)
qed

subsection \<open>Removing an array\<close>

lemma array_remove_loop_outcome:
  assumes "shell_works os" "hm_ok (registry w)" "array_remove_loop os a n w = (st, w')"
  shows "hm_ok (registry w') \<and> length (trace w') \<le> length (trace w) + 2 * n \<and>
    (st = SSI_StatusOk \<or> st = SSI_StatusFailed) \<and>
    (m_handle (registry w) (object_id a) = SSI_NULL_HANDLE \<longrightarrow> m_handle (registry w') (object_id a) = SSI_NULL_HANDLE) \<and>
    (st = SSI_StatusOk \<longrightarrow> m_handle (registry w') (object_id a) = SSI_NULL_HANDLE \<and>
       (\<exists>before. trace w' = before @ [mdadm_run (stop_command a), mdadm_run (zero_command a)]))"
  using assms(2,3)
proof (induction n arbitrary: w)
  case (Suc n)
  obtain r1 w1 where 1: "shellEx os (stop_command a) 1 0 w = (r1, w1)" by fastforce
  note s1 = shellEx_result [OF 1]
  have t1: "trace w1 = trace w @ [mdadm_run (stop_command a)]" and reg1: "registry w1 = registry w"
    using s1 started_if_works [OF assms(1)] by metis+
  show ?case
  proof (cases "r1 = 0")
    case False
    with Suc.prems 1 have "array_remove_loop os a n w1 = (st, w')" by simp
    from Suc.IH [OF _ this] reg1 t1 Suc.prems(1) show ?thesis by auto
  next
    case True
    obtain r2 w2 where 2: "shellEx os (zero_command a) 1 0 (unregister a w1) = (r2, w2)" by fastforce
    note s2 = shellEx_result [OF 2]
    have t2: "trace w2 = trace w @ [mdadm_run (stop_command a), mdadm_run (zero_command a)]"
      using s2 t1 started_if_works [OF assms(1)] by (simp add: unregister_def)
    have reg2: "hm_ok (registry w2)" "m_handle (registry w2) (object_id a) = SSI_NULL_HANDLE"
      using s2 hm_remove_forgets [OF Suc.prems(1), of "object_id a"] reg1 by (auto simp: unregister_def)
    show ?thesis
    proof (cases "r2 = 0")
      case ok: True
      with Suc.prems(2) 1 2 True have "st = SSI_StatusOk" "w' = w2" by auto
      with t2 reg2 show ?thesis by auto
    next
      case False
      with Suc.prems(2) 1 2 True have "array_remove_loop os a n w2 = (st, w')" by simp
      from Suc.IH [OF reg2(1) this] reg2 t2 show ?thesis by auto
    qed
  qed
qed auto

text \<open>
  C19. Removing an array stops it and clears the metadata of its disks within four attempts.  It reports
  success only when the last two commands were the stop and the clearing and the array has no
  handle any more; the registry stays consistent and at most eight commands are run.
\<close>

theorem array_remove_outcome:
  assumes "shell_works os" "hm_ok (registry w)" "array_remove os a w = (st, w')"
  shows "(st = SSI_StatusOk \<or> st = SSI_StatusFailed) \<and> hm_ok (registry w') \<and>
    length (trace w') \<le> length (trace w) + 8 \<and>
    (st = SSI_StatusOk \<longrightarrow> m_handle (registry w') (object_id a) = SSI_NULL_HANDLE \<and>
       (\<exists>before. trace w' = before @ [mdadm_run (stop_command a), mdadm_run (zero_command a)]))"
  using array_remove_loop_outcome [OF assms(1,2), of a 4 st w'] assms(3)
  by (auto simp: array_remove_def simp del: array_remove_loop.simps)

theorem array_remove_outcome_witness:
  "\<exists>w'. array_remove calm demo_array start_world = (SSI_StatusOk, w')
     \<and> m_handle (registry w') (object_id demo_array) = SSI_NULL_HANDLE"
proof -
  have reg: "hm_ok (registry start_world)" by (simp add: start_world_def hm_ok_empty)
  obtain w' where run: "array_remove calm demo_array start_world = (SSI_StatusOk, w')"
    by (simp add: array_remove_def eval_nat_numeral calm_run unregister_def)
  with array_remove_outcome [OF calm_works reg run] show ?thesis by blast
qed

subsection \<open>Renaming\<close>

text \<open>
  A name without a slash and without a blank is accepted, and pasted between quotes into a line
  the shell runs as root: a quote in the name ends the argument.
\<close>

lemma rename_name_is_not_escaped:
  "\<exists>name. length name \<le> 16 \<and> valid_volume_name name \<and>
     rename_command a n name =
       ''mdadm --misc --update-subarray='' @ dec (unat n) @ '' --update=name -N '' @ quoted ''a'' @ '';reboot;''
       @ quoted ''b'' @ '' '' @ quoted (''/dev/md/'' @ m_Name a)"
  by (rule exI [of _ "''a'' @ [CHR 0x27] @ '';reboot;'' @ [CHR 0x27] @ ''b''"])
     (simp add: valid_volume_name_def str_find_def str_trim_def is_graph_def find_sub.simps rename_command_def quoted_def)

definition rename_actions :: "array \<Rightarrow> u32 \<Rightarrow> string \<Rightarrow> action list" where
  "rename_actions a n name = (if valid_volume_name name then [mdadm_run (rename_command a n name)] else [])"

lemma renameVolume_facts:
  assumes works: "shell_works os" and run: "renameVolume os a n name w = (res, w')"
  shows "\<exists>saved. trace w' = trace w @ rename_actions a n name @ Command ''mdadm -Ebs 2>/dev/null'' # saved
      \<and> (saved = [] \<or> (\<exists>output. saved = [Write MDADM_CONFIG_PATH output]))
      \<and> (res = Inr SSI_StatusOk \<longrightarrow> saved \<noteq> [] \<and> valid_volume_name name)
      \<and> (\<not> valid_volume_name name \<longrightarrow> saved \<noteq> [] \<longrightarrow> res = Inr SSI_StatusInvalidString)"
proof -
  obtain st w1 where 1: "(if valid_volume_name name
             then let (r, w') = shellEx os (rename_command a n name) 1 1 w in
                  (if r \<noteq> 0 then SSI_StatusFailed else SSI_StatusOk, w')
             else (SSI_StatusInvalidString,
                   setLastErrorMessage (name @ '' is an invalid name for an md device'') w)) = (st, w1)"
    by fastforce
  have t1: "trace w1 = trace w @ rename_actions a n name"
    and st: "\<not> valid_volume_name name \<Longrightarrow> st = SSI_StatusInvalidString"
    using 1 shellEx_result [of os "rename_command a n name" 1 1 w] started_if_works [OF works]
    by (auto simp: rename_actions_def split: if_splits prod.splits)
  obtain status out where answer: "popen os (trace w1) ''mdadm -Ebs 2>/dev/null'' = Some (status, out)"
    using works by (fastforce simp: shell_works_def)
  then obtain r w2 where 2: "shell_output os ''mdadm -Ebs'' False w1 = ((r, out), w2)"
    "trace w2 = trace w1 @ [Command ''mdadm -Ebs 2>/dev/null'']"
    by (simp add: shell_output_def)
  show ?thesis
    using run 1 2 st unfolding renameVolume_def
    by (auto simp: Let_def t1 file_write_def split: if_splits option.splits)
qed

text \<open>
  \<open>renameVolume\<close> runs the rename command exactly for names without a slash or a blank; then it
  saves the scan of all containers to the configuration file, whether the rename worked or not.
  It answers Ok only for such a name, after both steps.
\<close>

theorem renameVolume_contract:
  assumes works: "shell_works os" and run: "renameVolume os a n name w = (res, w')"
  shows "\<exists>saved. trace w' = trace w @ rename_actions a n name @ Command ''mdadm -Ebs 2>/dev/null'' # saved
      \<and> (saved = [] \<or> (\<exists>output. saved = [Write MDADM_CONFIG_PATH output]))
      \<and> (res = Inr SSI_StatusOk \<longrightarrow> saved \<noteq> [] \<and> valid_volume_name name)
      \<and> (\<not> valid_volume_name name \<longrightarrow> saved \<noteq> [] \<longrightarrow> res = Inr SSI_StatusInvalidString)"
  by (rule renameVolume_facts [OF assms])

theorem renameVolume_contract_witness:
  "\<exists>w'. renameVolume calm demo_array 0 ''data'' start_world = (Inr SSI_StatusOk, w')
     \<and> hd (trace w') = mdadm_run (rename_command demo_array 0 ''data'') \<and> valid_volume_name ''data''"
proof -
  have v: "valid_volume_name ''data''"
    by (simp add: valid_volume_name_def str_find_def str_trim_def is_graph_def find_sub.simps)
  obtain w' where run: "renameVolume calm demo_array 0 ''data'' start_world = (Inr SSI_StatusOk, w')"
    by (simp add: renameVolume_def v calm_run calm_output calm_write)
  from renameVolume_contract [OF calm_works run] v run show ?thesis
    by (auto simp: rename_actions_def start_world_def)
qed

end
