(* ===== verification/Raid_Volume.thy ===== *)
theory Raid_Volume
  imports Raid_Array
begin

text \<open>
  \<open>volume.cpp\<close>, first part: the encodings of RAID levels, strip sizes and write-hole policies, the
  discovery of a volume from its \<open>md\<close> attributes in sysfs, its setters, its creation and its simple
  operations.  The files of sysfs are a parameter: an attribute is \<open>None\<close> when reading it throws.
  \<open>Raid_Migration\<close> holds the second part.
\<close>

subsection \<open>Encodings\<close>

definition ui2raidlevel :: "u32 \<Rightarrow> SSI_RaidLevel" where
  "ui2raidlevel level =
     (if level = 0 then SSI_Raid0 else if level = 1 then SSI_Raid1 else if level = 5 then SSI_Raid5
      else if level = 6 then SSI_Raid6 else if level = 10 then SSI_Raid10 else SSI_RaidInvalid)"

definition strip_table :: "(u32 \<times> SSI_StripSize) list" where
  "strip_table =
     [(2 * 1024, SSI_StripSize2kB), (4 * 1024, SSI_StripSize4kB), (8 * 1024, SSI_StripSize8kB),
      (16 * 1024, SSI_StripSize16kB), (32 * 1024, SSI_StripSize32kB), (64 * 1024, SSI_StripSize64kB),
      (128 * 1024, SSI_StripSize128kB), (256 * 1024, SSI_StripSize256kB),
      (512 * 1024, SSI_StripSize512kB), (1024 * 1024, SSI_StripSize1MB),
      (2 * 1024 * 1024, SSI_StripSize2MB), (4 * 1024 * 1024, SSI_StripSize4MB),
      (8 * 1024 * 1024, SSI_StripSize8MB), (16 * 1024 * 1024, SSI_StripSize16MB),
      (32 * 1024 * 1024, SSI_StripSize32MB), (64 * 1024 * 1024, SSI_StripSize64MB)]"

definition ui2stripsize :: "u32 \<Rightarrow> SSI_StripSize" where
  "ui2stripsize chunk =
     (case map_of strip_table chunk of None \<Rightarrow> SSI_StripSizeUnknown | Some s \<Rightarrow> s)"

definition stripsize2ui :: "SSI_StripSize \<Rightarrow> exception + u32" where
  "stripsize2ui stripSize =
     (case map_of (map (\<lambda>(c, s). (s, c)) strip_table) stripSize of
        None \<Rightarrow> Inl E_INVALID_STRIP_SIZE | Some c \<Rightarrow> Inr c)"

definition getRaidLevel :: "string \<Rightarrow> u32" where
  "getRaidLevel raidLevel =
     (if raidLevel = ''raid0'' then 0 else if raidLevel = ''raid1'' then 1
      else if raidLevel = ''raid10'' then 10 else if raidLevel = ''raid5'' then 5
      else if raidLevel = ''raid6'' then 6 else - 1)"

fun rwhPolicyToString :: "SSI_RwhPolicy \<Rightarrow> exception + string" where
  "rwhPolicyToString SSI_RwhOff = Inr ''off''"
| "rwhPolicyToString SSI_RwhDistributed = Inr ''ppl''"
| "rwhPolicyToString SSI_RwhJournalingDrive = Inr ''ppl-journal''"
| "rwhPolicyToString SSI_RwhInvalid = Inl E_NOT_SUPPORTED"

fun newRwhPolicyToString :: "SSI_RwhPolicy \<Rightarrow> exception + string" where
  "newRwhPolicyToString SSI_RwhOff = Inr ''resync''"
| "newRwhPolicyToString SSI_RwhDistributed = Inr ''ppl''"
| "newRwhPolicyToString policy = rwhPolicyToString policy"

definition parseRwhPolicy :: "string \<Rightarrow> SSI_RwhPolicy" where
  "parseRwhPolicy policy =
     (if Inr policy = rwhPolicyToString SSI_RwhOff then SSI_RwhOff
      else if Inr policy = rwhPolicyToString SSI_RwhDistributed then SSI_RwhDistributed
      else if Inr policy = rwhPolicyToString SSI_RwhJournalingDrive then SSI_RwhJournalingDrive
      else SSI_RwhInvalid)"

definition parseNewRwhPolicy :: "string \<Rightarrow> SSI_RwhPolicy" where
  "parseNewRwhPolicy policy =
     (if Inr policy = newRwhPolicyToString SSI_RwhOff then SSI_RwhOff
      else if Inr policy = newRwhPolicyToString SSI_RwhDistributed then SSI_RwhDistributed
      else if Inr policy = newRwhPolicyToString SSI_RwhJournalingDrive then SSI_RwhJournalingDrive
      else SSI_RwhInvalid)"

subsection \<open>Discovery\<close>

record md_attributes =
  md_level :: "string option"
  md_array_state :: "string option"
  md_sync_action :: "string option"
  md_degraded :: "int option"
  md_chunk_size :: "u32 option"
  md_mismatch_cnt :: "u32 option"
  md_component_size :: "u64 option"
  md_rwh_policy :: "string option"
  md_consistency_policy :: "string option"

text \<open>What \<open>mdadm -D\<close> prints behind an attribute, and the output of \<open>df /boot\<close> (\<open>None\<close> when it fails).\<close>

record md_reports =
  new_level :: string
  reshape_status :: string
  check_status :: string
  df_boot :: "string option"

definition is_digit :: "char \<Rightarrow> bool" where
  "is_digit c \<longleftrightarrow> (let n = of_char c :: nat in 48 \<le> n \<and> n \<le> 57)"

text \<open>\<open>atoi\<close> on a text with few enough digits; other characters end the number.\<close>

definition atoi :: "string \<Rightarrow> int" where
  "atoi s =
     (let t = dropWhile (\<lambda>c. c \<in> {CHR '' '', CHR 0x09, CHR 0x0A, CHR 0x0B, CHR 0x0C, CHR 0x0D}) s;
          (sign, t') = (case t of
             [] \<Rightarrow> (1, []) | c # cs \<Rightarrow> if c = CHR ''-'' then (- 1, cs) else if c = CHR ''+'' then (1, cs) else (1, t)) in
      sign * foldl (\<lambda>n c. 10 * n + (of_char c - 48)) 0 (takeWhile is_digit t'))"

definition getPercentageStatus :: "string \<Rightarrow> u32" where
  "getPercentageStatus progress =
     (case str_find progress ''%'' 0 of
        None \<Rightarrow> 0
      | Some percentPos \<Rightarrow>
          (let res = of_int (atoi (take percentPos progress)) :: u32 in
           if res > 100 then 0 else ucast ((ucast res * 0xFFFFFFFF :: u64) div 100)))"

definition getMigrationTargetLevel :: "md_reports \<Rightarrow> volume \<Rightarrow> u32" where
  "getMigrationTargetLevel rep v =
     (let newRaidLevel = getRaidLevel (new_level rep) in
      if newRaidLevel \<noteq> - 1 then newRaidLevel else m_RaidLevel v)"

definition sync_state :: "string option \<Rightarrow> SSI_VolumeState \<Rightarrow> SSI_VolumeState" where
  "sync_state action old =
     (case action of
        None \<Rightarrow> SSI_VolumeStateNormal
      | Some temp \<Rightarrow>
          (if temp = ''resync'' then SSI_VolumeStateInitializing
           else if temp = ''recover'' then SSI_VolumeStateRebuilding
           else if temp = ''idle'' then SSI_VolumeStateNormal
           else if temp = ''check'' then SSI_VolumeStateVerifying
           else if temp = ''repair'' then SSI_VolumeStateVerifyingAndFix
           else if temp = ''reshape'' then SSI_VolumeStateGeneralMigration
           else old))"

definition degraded_state :: "u32 \<Rightarrow> int \<Rightarrow> SSI_VolumeState \<Rightarrow> SSI_VolumeState" where
  "degraded_state level degraded old =
     (if degraded > 0
      then if level = 1 \<or> level = 5
           then if degraded > 1 then SSI_VolumeStateFailed else SSI_VolumeStateDegraded
           else if level = 6 \<or> level = 10
           then if degraded > 2 then SSI_VolumeStateFailed else SSI_VolumeStateDegraded
           else old
      else old)"

text \<open>\<open>discover\<close> after the discovery of the base class and of the block device.\<close>

definition discover_level :: "md_attributes \<Rightarrow> volume \<Rightarrow> volume" where
  "discover_level md v = (case md_level md of None \<Rightarrow> v | Some t \<Rightarrow> v\<lparr>m_RaidLevel := getRaidLevel t\<rparr>)"

definition discover_locked :: "md_attributes \<Rightarrow> volume \<Rightarrow> volume" where
  "discover_locked md v =
     (if m_State v = SSI_VolumeStateUnknown \<and> md_array_state md = Some ''readonly''
      then v\<lparr>m_State := SSI_VolumeStateLocked\<rparr> else v)"

definition discover_sync :: "md_attributes \<Rightarrow> volume \<Rightarrow> volume" where
  "discover_sync md v =
     (if m_State v = SSI_VolumeStateUnknown
      then v\<lparr>m_State := sync_state (md_sync_action md) SSI_VolumeStateUnknown\<rparr> else v)"

definition discover_progress :: "md_attributes \<Rightarrow> md_reports \<Rightarrow> volume \<Rightarrow> volume" where
  "discover_progress md rep v =
     (if m_State v \<in> {SSI_VolumeStateUnknown, SSI_VolumeStateNormal}
      then case md_degraded md of
             None \<Rightarrow> v
           | Some degraded \<Rightarrow> v\<lparr>m_State := degraded_state (m_RaidLevel v) degraded (m_State v)\<rparr>
      else if m_State v = SSI_VolumeStateGeneralMigration
      then v\<lparr>m_RaidLevel := getMigrationTargetLevel rep v, m_MigrProgress := getPercentageStatus (reshape_status rep)\<rparr>
      else if m_State v \<in> {SSI_VolumeStateVerifying, SSI_VolumeStateVerifyingAndFix}
      then v\<lparr>m_MigrProgress := getPercentageStatus (check_status rep)\<rparr>
      else v)"

definition discover_numbers :: "md_attributes \<Rightarrow> md_reports \<Rightarrow> volume \<Rightarrow> volume" where
  "discover_numbers md rep v =
     v\<lparr>m_StripSize := (case md_chunk_size md of None \<Rightarrow> m_StripSize v | Some n \<Rightarrow> n),
       m_MismatchCount := (case md_mismatch_cnt md of None \<Rightarrow> m_MismatchCount v | Some n \<Rightarrow> n),
       m_ComponentSize := (case md_component_size md of None \<Rightarrow> m_ComponentSize v | Some n \<Rightarrow> n),
       m_SystemVolume := (case df_boot rep of
          None \<Rightarrow> m_SystemVolume v
        | Some result \<Rightarrow> m_SystemVolume v \<or> str_find result (m_DevName v) 0 \<noteq> None),
       m_RwhPolicy := (case md_rwh_policy md of
          Some temp \<Rightarrow> parseRwhPolicy temp
        | None \<Rightarrow> (case md_consistency_policy md of
             Some temp \<Rightarrow> parseNewRwhPolicy temp | None \<Rightarrow> m_RwhPolicy v))\<rparr>"

definition discover :: "md_attributes \<Rightarrow> md_reports \<Rightarrow> volume \<Rightarrow> volume" where
  "discover md rep v =
     discover_numbers md rep (discover_progress md rep (discover_sync md (discover_locked md (discover_level md v))))"

text \<open>\<open>addToSession\<close>: a RAID 0 with a disk that is not normal has failed.\<close>

definition failed_disk_state :: "volume \<Rightarrow> volume" where
  "failed_disk_state v =
     (if m_RaidLevel v = 0 \<and> (\<exists>d\<in>set (locked v). getDiskState d \<noteq> SSI_DiskStateNormal)
      then v\<lparr>m_State := SSI_VolumeStateNonRedundantVolumeFailedDisk\<rparr> else v)"

subsection \<open>Setters\<close>

definition setRaidLevel :: "SSI_RaidLevel \<Rightarrow> volume \<Rightarrow> exception + volume" where
  "setRaidLevel raidLevel v =
     (if raidLevel = SSI_Raid0 then Inr (v\<lparr>m_RaidLevel := 0\<rparr>)
      else if raidLevel = SSI_Raid1 then Inr (v\<lparr>m_RaidLevel := 1\<rparr>)
      else if raidLevel = SSI_Raid10 then Inr (v\<lparr>m_RaidLevel := 10\<rparr>)
      else if raidLevel = SSI_Raid5 then Inr (v\<lparr>m_RaidLevel := 5\<rparr>)
      else Inl E_INVALID_RAID_LEVEL)"

fun setRwhPolicy :: "SSI_RwhPolicy \<Rightarrow> volume \<Rightarrow> exception + volume" where
  "setRwhPolicy SSI_RwhOff v = Inr (v\<lparr>m_RwhPolicy := SSI_RwhOff\<rparr>)"
| "setRwhPolicy SSI_RwhDistributed v = Inr (v\<lparr>m_RwhPolicy := SSI_RwhDistributed\<rparr>)"
| "setRwhPolicy SSI_RwhJournalingDrive v = Inl E_NOT_SUPPORTED"
| "setRwhPolicy SSI_RwhInvalid v = Inl E_INVALID_OBJECT"

definition setStripSize :: "SSI_StripSize \<Rightarrow> volume \<Rightarrow> exception + volume" where
  "setStripSize stripSize v =
     (case stripsize2ui stripSize of Inl e \<Rightarrow> Inl e | Inr n \<Rightarrow> Inr (v\<lparr>m_StripSize := n\<rparr>))"

definition setSourceDisk :: "end_device option \<Rightarrow> volume \<Rightarrow> volume" where
  "setSourceDisk d v =
     v\<lparr>m_pSourceDisk := (case d of None \<Rightarrow> None | Some x \<Rightarrow> if is_block x then Some x else None)\<rparr>"

text \<open>
  \<open>setComponentSize\<close> turns the size of a volume into the size of its part on each disk.  \<open>junk\<close> is the
  uninitialised local structure; \<open>None\<close> is the division by zero of a RAID 5 on one disk.
\<close>

definition divider :: "SSI_RaidLevel \<Rightarrow> u64 \<Rightarrow> exception + u64" where
  "divider level diskCount =
     (if level = SSI_Raid0 then Inr diskCount
      else if level = SSI_Raid1 then Inr 1
      else if level = SSI_Raid10 then Inr 2
      else if level = SSI_Raid5 then Inr (diskCount - 1)
      else Inl E_INVALID_RAID_LEVEL)"

definition setComponentSize ::
  "SSI_RaidLevelInfo \<Rightarrow> u64 \<Rightarrow> u64 \<Rightarrow> SSI_RaidLevel \<Rightarrow> volume \<Rightarrow> (exception + volume) option" where
  "setComponentSize junk volumeSize diskCount level v =
     (case getRaidInfo v of
        None \<Rightarrow> Some (Inl E_INVALID_HANDLE)
      | Some ri \<Rightarrow>
          (case getRaidLevelInfo ri level (Some junk) of
             (_, None) \<Rightarrow> None
           | (status, Some info) \<Rightarrow>
               (if status \<noteq> SSI_StatusOk then Some (Inl E_INVALID_RAID_LEVEL)
                else if diskCount = 0 \<or> diskCount < ucast (minDisks info) then Some (Inl E_BUFFER_TOO_SMALL)
                else if level = SSI_Raid0 \<and> diskCount = 1 then Some (Inl E_BUFFER_TOO_SMALL)
                else if diskCount > ucast (maxDisks info) then Some (Inl E_BUFFER_TOO_LARGE)
                else case divider level diskCount of
                       Inl e \<Rightarrow> Some (Inl e)
                     | Inr d \<Rightarrow> (if d = 0 then None
                                 else Some (Inr (v\<lparr>m_ComponentSize := volumeSize div d\<rparr>))))))"

subsection \<open>Information\<close>

record SSI_VolumeInfo =
  vi_volumeHandle :: SSI_Handle
  vi_arrayHandle :: SSI_Handle
  vi_arrayOrdinal :: u32
  vi_state :: SSI_VolumeState
  vi_raidLevel :: SSI_RaidLevel
  vi_totalSize :: u64
  vi_stripSize :: SSI_StripSize
  vi_numDisks :: u32
  vi_migrProgress :: u32
  vi_cachePolicy :: SSI_VolumeCachePolicy
  vi_rwhPolicy :: SSI_RwhPolicy
  vi_systemVolume :: bool
  vi_migrating :: bool
  vi_initialized :: bool
  vi_verifyErrors :: u32
  vi_verifyBadBlocks :: u32
  vi_logicalSectorSize :: u32
  vi_physicalSectorSize :: u32
  vi_journalingDriveHandle :: SSI_Handle

text \<open>\<open>getInfo\<close> without the two text fields; \<open>parent\<close> is the handle of the array, if it still exists.\<close>

definition volume_getInfo ::
  "SSI_Handle \<Rightarrow> SSI_Handle option \<Rightarrow> volume \<Rightarrow> SSI_VolumeInfo option \<Rightarrow> SSI_Status \<times> SSI_VolumeInfo option" where
  "volume_getInfo handle parent v pInfo =
     (case pInfo of
        None \<Rightarrow> (SSI_StatusInvalidParameter, None)
      | Some info \<Rightarrow>
          (SSI_StatusOk,
           Some (info\<lparr>vi_volumeHandle := handle,
             vi_arrayHandle := (case parent of None \<Rightarrow> SSI_NULL_HANDLE | Some h \<Rightarrow> h),
             vi_arrayOrdinal := m_Ordinal v, vi_raidLevel := ui2raidlevel (m_RaidLevel v),
             vi_state := m_State v, vi_totalSize := blk_total_size v,
             vi_stripSize := ui2stripsize (m_StripSize v),
             vi_numDisks := of_nat (length (m_BlockDevices v)),
             vi_migrating := (m_State v = SSI_VolumeStateGeneralMigration),
             vi_migrProgress := m_MigrProgress v,
             vi_cachePolicy :=
               (if \<not> m_CachingEnabled v then SSI_VolumeCachePolicyOff
                else if m_WriteThrough v then SSI_VolumeCachePolicyWriteThrough
                else SSI_VolumeCachePolicyWriteBack),
             vi_systemVolume := m_SystemVolume v,
             vi_initialized := (m_State v \<noteq> SSI_VolumeStateInitializing),
             vi_logicalSectorSize := blk_logical_sector_size v,
             vi_verifyErrors := m_MismatchCount v, vi_verifyBadBlocks := 0,
             vi_physicalSectorSize := blk_physical_sector_size v,
             vi_rwhPolicy := m_RwhPolicy v\<rparr>)))"

subsection \<open>Creation\<close>

definition findErrorMessage :: "string list \<Rightarrow> string \<Rightarrow> string option" where
  "findErrorMessage lines message = find (\<lambda>l. str_find l message 0 \<noteq> None) lines"

definition createVolume :: "env \<Rightarrow> string \<Rightarrow> world \<Rightarrow> exception option \<times> world" where
  "createVolume os command w =
     (let ((r, output), w1) = shell_output os command True w in
      if r \<noteq> 0
      then (Some E_VOLUME_CREATE_FAILED,
            setLastErrorMessage
              (let lines = mdadmErrorLines output in
               if lines \<noteq> []
               then (case findErrorMessage lines ''not enough space'' of Some l \<Rightarrow> l | None \<Rightarrow> last lines)
               else []) w1)
      else (None, w1))"

definition create_command :: "volume \<Rightarrow> string \<Rightarrow> string" where
  "create_command v policy_option =
     ''mdadm -CR '' @ quoted (m_Name v) @ '' -amd -l'' @ dec (unat (m_RaidLevel v)) @ '' --size=''
     @ (if m_ComponentSize v = 0 then ''max'' else dec (unat (m_ComponentSize v) div 1024))
     @ (if m_RaidLevel v \<noteq> 1 then '' --chunk='' @ dec (unat (m_StripSize v) div 1024) else [])
     @ (if m_RwhPolicy v = SSI_RwhDistributed then policy_option else [])
     @ '' -n'' @ dec (length (m_BlockDevices v))
     @ concat (map (\<lambda>d. '' '' @ dev (getDevName d)) (locked v))"

text \<open>
  \<open>Volume::create\<close> of a volume that has a name; the wait for the device at its end reads the map file
  of mdadm and runs nothing.
\<close>

definition volume_create :: "env \<Rightarrow> volume \<Rightarrow> world \<Rightarrow> exception option \<times> world" where
  "volume_create os v w =
     (if m_RaidLevel v \<noteq> 0 \<and> (\<exists>d\<in>set (locked v). isFultondalex8 d) then (Some E_INVALID_RAID_LEVEL, w)
      else if m_pSourceDisk v \<noteq> None then (Some E_NOT_SUPPORTED, w)
      else let (e, w1) = createVolume os (create_command v '' --rwh-policy=ppl'') w in
           case e of
             None \<Rightarrow> (None, w1)
           | Some E_VOLUME_CREATE_FAILED \<Rightarrow> createVolume os (create_command v '' --consistency-policy=ppl'') w1
           | Some other \<Rightarrow> (Some other, w1))"

subsection \<open>Operations\<close>

text \<open>The weak pointer to the array is passed as \<open>parent\<close>.\<close>

definition required_size :: "volume \<Rightarrow> u64 option" where
  "required_size v =
     (if m_RaidLevel v = 1 then Some (blk_total_size v)
      else if m_RaidLevel v = 5
      then (if length (locked v) = 0 then None else Some (blk_total_size v div of_nat (length (locked v))))
      else if m_RaidLevel v = 10 then Some (blk_total_size v div 2)
      else None)"

definition rebuild :: "env \<Rightarrow> volume \<Rightarrow> array option \<Rightarrow> end_device \<Rightarrow> world \<Rightarrow> SSI_Status \<times> world" where
  "rebuild os v parent d w =
     (case required_size v of
        None \<Rightarrow> (SSI_StatusInvalidParameter, w)
      | Some requiredSize \<Rightarrow>
          (if getTotalSize d < requiredSize
           then (SSI_StatusInvalidParameter,
                 setLastErrorMessage
                   (''For RAID '' @ dec (unat (m_RaidLevel v)) @ '' minimum size is: ''
                    @ dec (unat requiredSize) @ '' and an actual size of the disk is: ''
                    @ dec (unat (getTotalSize d))) w)
           else case parent of
                  None \<Rightarrow> (SSI_StatusFailed, w)
                | Some a \<Rightarrow> addSpare_one os a (Some d) w))"

text \<open>The size passed on by \<open>expand\<close>, or the status with which it refuses.\<close>

definition expand_size :: "volume \<Rightarrow> u64 \<Rightarrow> SSI_Status + u64" where
  "expand_size v newSize =
     (let n = of_nat (length (m_BlockDevices v)) :: u64; cs = m_ComponentSize v in
      if m_RaidLevel v = 0 then Inl SSI_StatusNotSupported
      else if m_RaidLevel v = 1
      then (if newSize \<noteq> 0 \<and> newSize < cs * n div 2 then Inl SSI_StatusInvalidSize else Inr newSize)
      else if m_RaidLevel v = 5
      then (if n = 1 then Inl SSI_StatusNotSupported
            else if newSize \<noteq> 0 \<and> newSize < cs * (n - 1) then Inl SSI_StatusInvalidSize
            else Inr (newSize div (n - 1)))
      else if m_RaidLevel v = 10
      then (if newSize \<noteq> 0 \<and> newSize < cs * n div 2 then Inl SSI_StatusInvalidSize
            else Inr (newSize div 2))
      else Inl SSI_StatusNotSupported)"

definition expand_command :: "volume \<Rightarrow> u64 \<Rightarrow> string" where
  "expand_command v new =
     ''mdadm --grow '' @ dev (m_DevName v) @ '' --size='' @ (if new = 0 then ''max'' else dec (unat new))"

definition expand :: "env \<Rightarrow> volume \<Rightarrow> u64 \<Rightarrow> world \<Rightarrow> SSI_Status \<times> world" where
  "expand os v newSize w =
     (if m_State v \<noteq> SSI_VolumeStateNormal then (SSI_StatusInvalidState, w)
      else case expand_size v newSize of
             Inl status \<Rightarrow> (status, w)
           | Inr new \<Rightarrow>
               (let (r, w') = shellEx os (expand_command v new) 1 0 w in
                (if r = 0 then SSI_StatusOk else SSI_StatusFailed, w')))"

definition rename :: "env \<Rightarrow> volume \<Rightarrow> array option \<Rightarrow> string \<Rightarrow> world \<Rightarrow> (exception + SSI_Status) \<times> world" where
  "rename os v parent newName w =
     (case parent of
        None \<Rightarrow> (Inr SSI_StatusInvalidState, w)
      | Some a \<Rightarrow>
          (if m_State v \<noteq> SSI_VolumeStateNormal then (Inr SSI_StatusInvalidState, w)
           else let (r, w1) = shellEx os (stop_command v) 1 0 w;
                    (res, w2) = (if r = 0 then renameVolume os a (m_Ordinal v) newName w1
                                 else (Inr SSI_StatusFailed, w1)) in
                case res of
                  Inl e \<Rightarrow> (Inl e, w2)
                | Inr status \<Rightarrow>
                    (let (status', w3) = assemble os a w2 in
                     (Inr (if status = SSI_StatusOk then status' else SSI_StatusFailed), w3))))"

definition volume_remove :: "env \<Rightarrow> volume \<Rightarrow> array option \<Rightarrow> world \<Rightarrow> SSI_Status \<times> world" where
  "volume_remove os v parent w =
     (case parent of
        None \<Rightarrow> (SSI_StatusInvalidState, w)
      | Some a \<Rightarrow>
          (let (r, w1) = shellEx os (stop_command v) 1 0 w;
               (ok, w2) = (if r = 0
                           then let (status, w') = removeVolume os a (m_Ordinal v) w1 in
                                (status = SSI_StatusOk, w')
                           else (False, w1)) in
           if ok
           then let w3 = unregister v w2 in
                (if length (m_Volumes a) > 1 then (SSI_StatusOk, w3) else array_remove os a w3)
           else (SSI_StatusFailed, w2)))"

definition sync_action_file :: "volume \<Rightarrow> string" where
  "sync_action_file v = m_Path v @ ''/md/sync_action''"

definition verify :: "env \<Rightarrow> volume \<Rightarrow> bool \<Rightarrow> world \<Rightarrow> SSI_Status \<times> world" where
  "verify os v repair w =
     (if m_RaidLevel v = 0 then (SSI_StatusNotSupported, w)
      else case file_write os (sync_action_file v) (if repair then ''repair'' else ''check'') w of
             Inl e \<Rightarrow> (SSI_StatusFailed, w)
           | Inr w' \<Rightarrow> (SSI_StatusOk, w'))"

definition cancelVerify :: "env \<Rightarrow> volume \<Rightarrow> world \<Rightarrow> SSI_Status \<times> world" where
  "cancelVerify os v w =
     (case file_write os (sync_action_file v) ''idle'' w of
        Inl e \<Rightarrow> (SSI_StatusFailed, w)
      | Inr w' \<Rightarrow> (SSI_StatusOk, w'))"

definition policy_command :: "volume \<Rightarrow> string \<Rightarrow> string" where
  "policy_command v s = ''mdadm --rwh-policy='' @ s @ '' '' @ dev (m_DevName v)"

definition new_policy_command :: "volume \<Rightarrow> string \<Rightarrow> string" where
  "new_policy_command v s = ''mdadm -G '' @ dev (m_DevName v) @ '' --consistency-policy='' @ s"

definition changeRwhPolicy :: "env \<Rightarrow> SSI_RwhPolicy \<Rightarrow> volume \<Rightarrow> world \<Rightarrow> (SSI_Status \<times> volume) \<times> world" where
  "changeRwhPolicy os policy v w =
     (if policy \<noteq> SSI_RwhDistributed \<and> policy \<noteq> SSI_RwhOff then ((SSI_StatusNotSupported, v), w)
      else if m_RwhPolicy v = policy then ((SSI_StatusOk, v), w)
      else let (r1, w1) = shellEx os (policy_command v (projr (rwhPolicyToString policy))) 1 0 w in
           if r1 = 0 then ((SSI_StatusOk, v\<lparr>m_RwhPolicy := policy\<rparr>), w1)
           else let (r2, w2) = shellEx os (new_policy_command v (projr (newRwhPolicyToString policy))) 1 0 w1 in
                if r2 = 0 then ((SSI_StatusOk, v\<lparr>m_RwhPolicy := policy\<rparr>), w2)
                else ((SSI_StatusFailed, v), w2))"

subsection \<open>The encodings are inverse to each other\<close>

lemma map_of_swap:
  assumes "distinct (map fst xs)" "distinct (map snd xs)"
  shows "map_of (map (\<lambda>(c, s). (s, c)) xs) y = Some x \<longleftrightarrow> map_of xs x = Some y"
proof -
  have "distinct (map fst (map (\<lambda>(c, s). (s, c)) xs))"
    using assms(2) by (simp add: comp_def case_prod_unfold)
  with assms show ?thesis
    by (auto simp: map_of_eq_Some_iff)
qed

lemma strip_table_distinct: "distinct (map fst strip_table)" "distinct (map snd strip_table)"
  by (simp_all add: strip_table_def)

lemma strip_table_known: "map_of strip_table c \<noteq> Some SSI_StripSizeUnknown"
proof
  assume "map_of strip_table c = Some SSI_StripSizeUnknown"
  then have "SSI_StripSizeUnknown \<in> set (map snd strip_table)"
    by (force dest: map_of_SomeD)
  then show False by (simp add: strip_table_def)
qed

lemma stripsize_inverse: "stripsize2ui s = Inr c \<longleftrightarrow> ui2stripsize c = s \<and> s \<noteq> SSI_StripSizeUnknown"
  using map_of_swap [OF strip_table_distinct, of s c] strip_table_known [of c]
  by (auto simp: stripsize2ui_def ui2stripsize_def split: option.splits)

lemma raid_level_inverse: "setRaidLevel l v = Inr v' \<Longrightarrow> ui2raidlevel (m_RaidLevel v') = l"
  by (auto simp: setRaidLevel_def ui2raidlevel_def split: if_splits)

lemma rwh_policy_inverse:
  "rwhPolicyToString p = Inr s \<Longrightarrow> parseRwhPolicy s = p"
  "newRwhPolicyToString p = Inr s \<Longrightarrow> parseNewRwhPolicy s = p"
  by (cases p; auto simp: parseRwhPolicy_def parseNewRwhPolicy_def)+

text \<open>
  The encodings of a volume are inverse to each other: a strip size that has a size in bytes is
  found again from it, and every known number of bytes gives the strip size that encodes it; a RAID
  level that can be set is the level reported afterwards; and the text of a write-hole policy is
  parsed back to it, in the old and in the new notation of the kernel.
\<close>

theorem encodings_roundtrip:
  "(stripsize2ui s = Inr c \<longleftrightarrow> ui2stripsize c = s \<and> s \<noteq> SSI_StripSizeUnknown) \<and>
   (setRaidLevel l v = Inr v' \<longrightarrow> ui2raidlevel (m_RaidLevel v') = l) \<and>
   (rwhPolicyToString p = Inr t \<longrightarrow> parseRwhPolicy t = p) \<and>
   (newRwhPolicyToString p = Inr t' \<longrightarrow> parseNewRwhPolicy t' = p)"
  by (intro conjI impI stripsize_inverse rwh_policy_inverse) (rule raid_level_inverse)

theorem encodings_roundtrip_witness:
  "ui2stripsize 65536 = SSI_StripSize64kB \<and> parseRwhPolicy ''ppl'' = SSI_RwhDistributed
   \<and> ui2raidlevel (m_RaidLevel (demo_volume\<lparr>m_RaidLevel := 10\<rparr>)) = SSI_Raid10"
proof -
  have "stripsize2ui SSI_StripSize64kB = Inr 65536"
    by (simp add: stripsize2ui_def strip_table_def)
  moreover have "setRaidLevel SSI_Raid10 demo_volume = Inr (demo_volume\<lparr>m_RaidLevel := 10\<rparr>)"
    by (simp add: setRaidLevel_def)
  ultimately show ?thesis
    using encodings_roundtrip [of SSI_StripSize64kB 65536 SSI_Raid10 demo_volume "demo_volume\<lparr>m_RaidLevel := 10\<rparr>"
        SSI_RwhDistributed "''ppl''" "''ppl''"]
    by simp
qed

subsection \<open>Sizes\<close>

definition expansion_fits :: "volume \<Rightarrow> bool" where
  "expansion_fits v \<longleftrightarrow>
     unat (m_ComponentSize v) * length (m_BlockDevices v) < 2 ^ 64 \<and> length (m_BlockDevices v) < 2 ^ 32 \<and>
     (m_RaidLevel v = 1 \<longrightarrow> length (m_BlockDevices v) \<ge> 2) \<and>
     (m_RaidLevel v = 5 \<longrightarrow> length (m_BlockDevices v) \<ge> 2) \<and>
     (m_RaidLevel v = 10 \<longrightarrow> length (m_BlockDevices v) \<ge> 4)"

lemma half_bound: "(c :: nat) * n div 2 \<le> s \<Longrightarrow> 2 \<le> n \<Longrightarrow> c \<le> s"
proof -
  assume "c * n div 2 \<le> s" "2 \<le> n"
  moreover from \<open>2 \<le> n\<close> have "c * 2 div 2 \<le> c * n div 2" by (intro div_le_mono mult_le_mono2)
  ultimately show "c \<le> s" by simp
qed

lemma quarter_bound: "(c :: nat) * n div 2 \<le> s \<Longrightarrow> 4 \<le> n \<Longrightarrow> c \<le> s div 2"
proof -
  assume "c * n div 2 \<le> s" "4 \<le> n"
  moreover from \<open>4 \<le> n\<close> have "c * 4 div 2 \<le> c * n div 2" by (intro div_le_mono mult_le_mono2)
  ultimately have "c * 2 \<le> s" by simp
  then show "c \<le> s div 2" by linarith
qed

lemma parity_bound: "(c :: nat) * (n - 1) \<le> s \<Longrightarrow> 2 \<le> n \<Longrightarrow> c \<le> s div (n - 1)"
  by (simp add: less_eq_div_iff_mult_less_eq)

lemma expand_size_grows:
  assumes fits: "expansion_fits v" and run: "expand_size v newSize = Inr new" and pos: "newSize \<noteq> 0"
  shows "m_ComponentSize v \<le> new"
proof -
  define n where "n = length (m_BlockDevices v)"
  define c where "c = unat (m_ComponentSize v)"
  define s where "s = unat newSize"
  have bounds: "c * n < 2 ^ 64" "n < 2 ^ 32"
    using fits by (simp_all add: expansion_fits_def n_def c_def)
  have un: "unat (of_nat n :: u64) = n"
    using bounds(2) by (simp add: unat_of_nat_u64)
  have cs: "m_ComponentSize v * of_nat n = of_nat (c * n)"
    by (simp add: c_def)
  have ucn: "unat (m_ComponentSize v * of_nat n) = c * n"
    unfolding cs using bounds(1) by (rule unat_of_nat_u64)
  consider (one) "m_RaidLevel v = 1" | (five) "m_RaidLevel v = 5" | (ten) "m_RaidLevel v = 10"
    using run by (auto simp: expand_size_def Let_def split: if_splits)
  then have "c \<le> unat new"
  proof cases
    case one
    with run pos have "new = newSize" "\<not> newSize < m_ComponentSize v * of_nat n div 2"
      by (auto simp: expand_size_def Let_def n_def split: if_splits)
    then have "c * n div 2 \<le> unat new"
      by (simp add: word_less_nat_alt unat_div ucn)
    moreover have "2 \<le> n" using fits one by (simp add: expansion_fits_def n_def)
    ultimately show ?thesis by (rule half_bound)
  next
    case five
    have n: "2 \<le> n" using fits five by (simp add: expansion_fits_def n_def)
    have e: "(of_nat n :: u64) - 1 = of_nat (n - 1)" using n by (simp add: of_nat_diff)
    have un1: "unat (of_nat (n - 1) :: u64) = n - 1" using bounds(2) by (simp add: unat_of_nat_u64)
    have "m_ComponentSize v * of_nat (n - 1) = of_nat (c * (n - 1))" by (simp add: c_def)
    moreover have "c * (n - 1) \<le> c * n" by (rule mult_le_mono2) simp
    then have "c * (n - 1) < 2 ^ 64" using bounds(1) by linarith
    ultimately have uc: "unat (m_ComponentSize v * of_nat (n - 1)) = c * (n - 1)"
      by (simp only: unat_of_nat_u64)
    from five run pos have "new = newSize div of_nat (n - 1)" "\<not> newSize < m_ComponentSize v * of_nat (n - 1)"
      unfolding e [symmetric] by (auto simp: expand_size_def Let_def n_def split: if_splits)
    then have "unat new = s div (n - 1)" "c * (n - 1) \<le> s"
      using uc un1 by (simp_all add: unat_div s_def word_less_nat_alt)
    with parity_bound [OF _ n] show ?thesis by simp
  next
    case ten
    with run pos have "new = newSize div 2" "\<not> newSize < m_ComponentSize v * of_nat n div 2"
      by (auto simp: expand_size_def Let_def n_def split: if_splits)
    then have "unat new = s div 2" "c * n div 2 \<le> s"
      using ucn by (simp_all add: unat_div s_def word_less_nat_alt)
    moreover have "4 \<le> n" using fits ten by (simp add: expansion_fits_def n_def)
    ultimately show ?thesis using quarter_bound by simp
  qed
  then show ?thesis by (simp add: c_def word_le_nat_alt)
qed

text \<open>
  Expanding never shrinks a volume.  When the sizes do not overflow and the volume has the disks of
  its level, the size passed to mdadm is \<open>max\<close> (for the request 0) or at least the present size of
  a component; a volume that is not normal, of RAID 0 or of an unknown level is refused without a
  command; and Ok means the command succeeded.
\<close>

theorem expand_never_shrinks:
  assumes fits: "expansion_fits v" and run: "expand os v newSize w = (st, w')"
  shows "(trace w' = trace w \<and> st \<noteq> SSI_StatusOk) \<or>
     (m_State v = SSI_VolumeStateNormal \<and>
      (\<exists>new. (newSize = 0 \<and> new = 0 \<or> newSize \<noteq> 0 \<and> m_ComponentSize v \<le> new) \<and>
         trace w' = started os (trace w) (expand_command v new) \<and>
         (st = SSI_StatusOk \<longleftrightarrow> succeeds os (trace w) (expand_command v new))))"
proof (cases "m_State v = SSI_VolumeStateNormal")
  case False
  then show ?thesis using run by (auto simp: expand_def)
next
  case True
  show ?thesis
  proof (cases "expand_size v newSize")
    case (Inl status)
    then have "status \<noteq> SSI_StatusOk"
      by (auto simp: expand_size_def Let_def split: if_splits)
    with Inl True run show ?thesis by (auto simp: expand_def)
  next
    case (Inr new)
    obtain r w1 where s: "shellEx os (expand_command v new) 1 0 w = (r, w1)" by fastforce
    have zero: "newSize = 0 \<Longrightarrow> new = 0"
      using Inr by (auto simp: expand_size_def Let_def split: if_splits)
    have "w1 = w'" "st = (if r = 0 then SSI_StatusOk else SSI_StatusFailed)"
      using run True Inr s by (auto simp: expand_def)
    moreover note shellEx_result [OF s]
    ultimately show ?thesis
      using True zero expand_size_grows [OF fits Inr] by auto
  qed
qed

theorem expand_never_shrinks_witness:
  "expand calm (demo_volume\<lparr>m_RaidLevel := 1\<rparr>) 600000 start_world =
     (SSI_StatusOk, start_world\<lparr>trace := [mdadm_run (expand_command (demo_volume\<lparr>m_RaidLevel := 1\<rparr>) 600000)]\<rparr>)
   \<and> (\<exists>new. new \<ge> 500000 \<and> mdadm_run (expand_command (demo_volume\<lparr>m_RaidLevel := 1\<rparr>) 600000)
        = mdadm_run (expand_command (demo_volume\<lparr>m_RaidLevel := 1\<rparr>) new))"
proof -
  let ?v = "demo_volume\<lparr>m_RaidLevel := 1\<rparr>"
  have fits: "expansion_fits ?v" by (simp add: expansion_fits_def demo_volume_def)
  have run: "expand calm ?v 600000 start_world =
      (SSI_StatusOk, start_world\<lparr>trace := [mdadm_run (expand_command ?v 600000)]\<rparr>)"
    by (simp add: expand_def expand_size_def demo_volume_def calm_run start_world_def)
  have cs: "m_ComponentSize ?v = 500000" by (simp add: demo_volume_def)
  from expand_never_shrinks [OF fits run] run show ?thesis
    by (auto simp: cs start_world_def started_if_succeeds [OF calm_succeeds])
qed

definition data_disks :: "SSI_RaidLevel \<Rightarrow> nat \<Rightarrow> nat" where
  "data_disks level n =
     (if level = SSI_Raid0 then n else if level = SSI_Raid1 then 1
      else if level = SSI_Raid10 then 2 else n - 1)"

lemma divider_data_disks:
  "divider level n = Inr d \<Longrightarrow> n \<noteq> 0 \<Longrightarrow> unat d = data_disks level (unat n)"
  by (auto simp: divider_def data_disks_def unat_minus_one split: if_splits)

text \<open>
  The size of a component is the size of the volume divided by the disks that carry data, rounded
  down: the components hold at most the requested size and miss it by less than one byte per such
  disk.  It is computed only for a number of disks the RAID level allows, and never for a RAID 0 on
  one disk.
\<close>

theorem component_size_bounds:
  assumes "setComponentSize junk volumeSize n level v = Some (Inr v')"
  shows "\<exists>ri info. getRaidInfo v = Some ri \<and> getRaidLevelInfo ri level (Some junk) = (SSI_StatusOk, Some info) \<and>
     ucast (minDisks info) \<le> n \<and> n \<le> ucast (maxDisks info) \<and> (level = SSI_Raid0 \<longrightarrow> n \<noteq> 1) \<and>
     0 < data_disks level (unat n) \<and>
     unat (m_ComponentSize v') * data_disks level (unat n) \<le> unat volumeSize \<and>
     unat volumeSize < (unat (m_ComponentSize v') + 1) * data_disks level (unat n)"
proof -
  obtain ri info d where *: "getRaidInfo v = Some ri"
    "getRaidLevelInfo ri level (Some junk) = (SSI_StatusOk, Some info)"
    "n \<noteq> 0" "\<not> n < ucast (minDisks info)" "\<not> (level = SSI_Raid0 \<and> n = 1)" "\<not> n > ucast (maxDisks info)"
    "divider level n = Inr d" "d \<noteq> 0" "v' = v\<lparr>m_ComponentSize := volumeSize div d\<rparr>"
    using assms unfolding setComponentSize_def
    by (auto split: option.splits prod.splits if_splits sum.splits)
  define D where "D = data_disks level (unat n)"
  have d: "unat d = D" using divider_data_disks [OF *(7,3)] by (simp add: D_def)
  then have D: "0 < D" using *(8) by (metis unat_eq_zero gr0I)
  have cs: "unat (m_ComponentSize v') = unat volumeSize div D"
    using *(9) d by (simp add: unat_div)
  have "unat volumeSize div D * D \<le> unat volumeSize"
    by (rule div_times_less_eq_dividend)
  moreover have "unat volumeSize < (unat volumeSize div D + 1) * D"
    using D by (metis Suc_eq_plus1 dividend_less_div_times add.commute mult_Suc)
  ultimately show ?thesis
    using *(1-6) D by (auto simp: cs D_def [symmetric] not_less)
qed

theorem component_size_bounds_witness:
  "setComponentSize blank_info 1000000001 2 SSI_Raid0 demo_volume = Some (Inr (demo_volume\<lparr>m_ComponentSize := 500000000\<rparr>))
   \<and> (500000000::nat) * data_disks SSI_Raid0 2 \<le> 1000000001"
proof -
  have run: "setComponentSize blank_info 1000000001 2 SSI_Raid0 demo_volume
      = Some (Inr (demo_volume\<lparr>m_ComponentSize := 500000000\<rparr>))"
    by (simp add: setComponentSize_def getRaidInfo_def demo_locked demo_member_def demo_disk_def
        getRaidLevelInfo_def level_info_def Let_def vmd_standard_def divider_def)
  from component_size_bounds [OF run] run show ?thesis by auto
qed

subsection \<open>The state of a volume\<close>

definition redundancy :: "u32 \<Rightarrow> int option" where
  "redundancy level =
     (if level = 1 \<or> level = 5 then Some 1 else if level = 6 \<or> level = 10 then Some 2 else None)"

definition quiet :: "md_attributes \<Rightarrow> bool" where
  "quiet md \<longleftrightarrow> md_array_state md \<noteq> Some ''readonly'' \<and>
     (\<forall>s. md_sync_action md = Some s \<longrightarrow>
        s \<notin> {''resync'', ''recover'', ''check'', ''repair'', ''reshape''})"

definition found_level :: "md_attributes \<Rightarrow> volume \<Rightarrow> u32" where
  "found_level md v = (case md_level md of None \<Rightarrow> m_RaidLevel v | Some t \<Rightarrow> getRaidLevel t)"

lemma discover_fields:
  fixes md :: md_attributes
  assumes "m_State v = SSI_VolumeStateUnknown"
  defines "v1 \<equiv> discover_sync md (discover_locked md (discover_level md v))"
  shows "m_RaidLevel v1 = found_level md v"
    and "m_State (discover md rep v) = m_State (discover_progress md rep v1)"
    and "m_State v1 = (if md_array_state md = Some ''readonly'' then SSI_VolumeStateLocked
           else sync_state (md_sync_action md) SSI_VolumeStateUnknown)"
  using assms
  by (auto simp: discover_level_def discover_locked_def discover_sync_def found_level_def discover_def
      discover_numbers_def split: option.splits)

text \<open>
  After discovery a volume is reported as failed exactly when nothing is running on it, it is not
  read-only, its level has redundancy and more disks are missing than that; it is degraded exactly
  when some disks, but no more than that, are missing.
\<close>

theorem discovered_state:
  assumes "m_State v = SSI_VolumeStateUnknown"
  shows "(m_State (discover md rep v) = SSI_VolumeStateFailed \<longleftrightarrow>
            quiet md \<and> (\<exists>r k. redundancy (found_level md v) = Some r \<and> md_degraded md = Some k \<and> k > r)) \<and>
         (m_State (discover md rep v) = SSI_VolumeStateDegraded \<longleftrightarrow>
            quiet md \<and> (\<exists>r k. redundancy (found_level md v) = Some r \<and> md_degraded md = Some k \<and> 0 < k \<and> k \<le> r))"
proof -
  define s where "s = sync_state (md_sync_action md) SSI_VolumeStateUnknown"
  have quiet: "s \<in> {SSI_VolumeStateUnknown, SSI_VolumeStateNormal} \<longleftrightarrow>
      (\<forall>x. md_sync_action md = Some x \<longrightarrow> x \<notin> {''resync'', ''recover'', ''check'', ''repair'', ''reshape''})"
    by (auto simp: s_def sync_state_def split: option.splits)
  have s_range: "s \<noteq> SSI_VolumeStateFailed" "s \<noteq> SSI_VolumeStateDegraded" "s \<noteq> SSI_VolumeStateLocked"
    by (auto simp: s_def sync_state_def split: option.splits)
  note f = discover_fields [OF assms, of md]
  show ?thesis
  proof (cases "md_array_state md = Some ''readonly''")
    case True
    then have "m_State (discover md rep v) = SSI_VolumeStateLocked"
      using f by (simp add: discover_progress_def)
    with True show ?thesis by (simp add: quiet_def)
  next
    case False
    show ?thesis
    proof (cases "s \<in> {SSI_VolumeStateUnknown, SSI_VolumeStateNormal}")
      case True
      then have "m_State (discover md rep v) =
          (case md_degraded md of None \<Rightarrow> s | Some k \<Rightarrow> degraded_state (found_level md v) k s)"
        using f False by (auto simp: discover_progress_def s_def split: option.splits)
      then show ?thesis
        using True False s_range quiet
        by (auto simp: quiet_def degraded_state_def redundancy_def split: option.splits)
    next
      case 2: False
      then have "m_State (discover md rep v) = s"
        using f False by (auto simp: discover_progress_def s_def)
      then show ?thesis using 2 quiet s_range by (auto simp: quiet_def)
    qed
  qed
qed

definition degraded_md :: md_attributes where
  "degraded_md = \<lparr>md_level = Some ''raid5'', md_array_state = Some ''clean'', md_sync_action = Some ''idle'',
     md_degraded = Some 2, md_chunk_size = None, md_mismatch_cnt = None, md_component_size = None,
     md_rwh_policy = None, md_consistency_policy = None\<rparr>"

definition quiet_reports :: md_reports where
  "quiet_reports = \<lparr>new_level = [], reshape_status = [], check_status = [], df_boot = None\<rparr>"

theorem discovered_state_witness:
  "m_State (discover degraded_md quiet_reports (demo_volume\<lparr>m_State := SSI_VolumeStateUnknown\<rparr>))
     = SSI_VolumeStateFailed"
  using discovered_state [of "demo_volume\<lparr>m_State := SSI_VolumeStateUnknown\<rparr>" degraded_md quiet_reports]
  by (simp add: quiet_def degraded_md_def found_level_def getRaidLevel_def redundancy_def)

subsection \<open>Renaming and removing\<close>

lemma run_trace: "shell_works os \<Longrightarrow> shellEx os c n k w = (r, w') \<Longrightarrow> trace w' = trace w @ [mdadm_run c]"
  using shellEx_result started_if_works by metis

text \<open>
  Whatever becomes of a rename, the array is assembled again at its end: the last command of a
  rename that was attempted and not interrupted by an exception is the assembly.  Ok means that the
  volume was normal, the name valid, and all five steps were made in order.
\<close>

theorem rename_reassembles:
  assumes works: "shell_works os" and run: "rename os v (Some a) name w = (Inr st, w')"
  shows "(m_State v \<noteq> SSI_VolumeStateNormal \<longrightarrow> st = SSI_StatusInvalidState \<and> w' = w) \<and>
     (m_State v = SSI_VolumeStateNormal \<longrightarrow> last (trace w') = mdadm_run (assemble_command a)) \<and>
     (st = SSI_StatusOk \<longrightarrow> valid_volume_name name \<and>
        (\<exists>output. trace w' = trace w @ [mdadm_run (stop_command v), mdadm_run (rename_command a (m_Ordinal v) name),
            Command ''mdadm -Ebs 2>/dev/null'', Write MDADM_CONFIG_PATH output, mdadm_run (assemble_command a)]))"
proof (cases "m_State v = SSI_VolumeStateNormal")
  case False
  then show ?thesis using run by (simp add: rename_def)
next
  case True
  obtain r w1 where 1: "shellEx os (stop_command v) 1 0 w = (r, w1)" by fastforce
  note t1 = run_trace [OF works 1]
  obtain res w2 where 2: "(if r = 0 then renameVolume os a (m_Ordinal v) name w1 else (Inr SSI_StatusFailed, w1)) = (res, w2)"
    by fastforce
  have "res = Inr st2 \<Longrightarrow> \<exists>x. assemble os a w2 = x" for st2 by blast
  obtain st2 where res: "res = Inr st2"
    using run True 1 2 by (cases res) (auto simp: rename_def)
  obtain r3 w3 where 3: "shellEx os (assemble_command a) 1 0 w2 = (r3, w3)" by fastforce
  note t3 = run_trace [OF works 3]
  have w': "w' = w3" and st: "st = (if st2 = SSI_StatusOk then if r3 = 0 then SSI_StatusOk else SSI_StatusFailed else SSI_StatusFailed)"
    using run True 1 2 3 res by (auto simp: rename_def assemble_def)
  show ?thesis
  proof (intro conjI impI)
    show "last (trace w') = mdadm_run (assemble_command a)" using w' t3 by simp
    assume "st = SSI_StatusOk"
    with st 2 res have ok: "renameVolume os a (m_Ordinal v) name w1 = (Inr SSI_StatusOk, w2)"
      by (auto split: if_splits)
    from renameVolume_facts [OF works ok]
    show "valid_volume_name name" and "\<exists>output. trace w' = trace w @ [mdadm_run (stop_command v), mdadm_run (rename_command a (m_Ordinal v) name),
            Command ''mdadm -Ebs 2>/dev/null'', Write MDADM_CONFIG_PATH output, mdadm_run (assemble_command a)]"
      using t1 t3 w' by (auto simp: rename_actions_def)
  qed (use True in simp_all)
qed

theorem rename_reassembles_witness:
  "\<exists>w'. rename calm demo_volume (Some demo_array) ''data'' start_world = (Inr SSI_StatusOk, w')
     \<and> last (trace w') = mdadm_run (assemble_command demo_array)"
proof -
  have v: "valid_volume_name ''data''"
    by (simp add: valid_volume_name_def str_find_def str_trim_def is_graph_def find_sub.simps)
  obtain w' where run: "rename calm demo_volume (Some demo_array) ''data'' start_world = (Inr SSI_StatusOk, w')"
    by (simp add: rename_def demo_volume_def renameVolume_def v calm_run calm_output calm_write assemble_def)
  from rename_reassembles [OF calm_works run] run show ?thesis
    by (auto simp: demo_volume_def)
qed

definition kill_command :: "array \<Rightarrow> u32 \<Rightarrow> string" where
  "kill_command a ordinal = ''mdadm --kill-subarray='' @ dec (unat ordinal) @ '' '' @ dev (m_DevName a)"

lemma removeVolume_run:
  assumes "shell_works os" "length (m_Volumes a) \<noteq> 1" "removeVolume os a n w = (st, w')"
  shows "trace w' = trace w @ [mdadm_run (kill_command a n)] \<and> registry w' = registry w
    \<and> (st = SSI_StatusOk \<longleftrightarrow> succeeds os (trace w) (kill_command a n))"
proof -
  obtain r w1 where 1: "shellEx os (kill_command a n) 1 0 w = (r, w1)" by fastforce
  from shellEx_result [OF 1] run_trace [OF assms(1) 1] 1 assms(2,3) show ?thesis
    by (auto simp: removeVolume_def kill_command_def split: if_splits)
qed

text \<open>
  C20. Deleting one of several volumes of an array stops that volume and removes its subarray, and
  touches nothing else: at most these two commands are run, the array and the other objects keep
  their handles, and the volume loses its handle exactly when both commands succeed, which is when
  the answer is Ok.
\<close>

theorem volume_remove_keeps_siblings:
  assumes works: "shell_works os" and reg: "hm_ok (registry w)" and more: "length (m_Volumes a) > 1"
    and run: "volume_remove os v (Some a) w = (st, w')"
  shows "hm_ok (registry w') \<and>
     (st = SSI_StatusOk \<or> st = SSI_StatusFailed) \<and>
     (if st = SSI_StatusOk
      then trace w' = trace w @ [mdadm_run (stop_command v), mdadm_run (kill_command a (m_Ordinal v))]
           \<and> m_handle (registry w') = (m_handle (registry w))(object_id v := SSI_NULL_HANDLE)
      else registry w' = registry w \<and>
           trace w' \<in> {trace w @ [mdadm_run (stop_command v)],
                       trace w @ [mdadm_run (stop_command v), mdadm_run (kill_command a (m_Ordinal v))]})"
proof -
  obtain r w1 where 1: "shellEx os (stop_command v) 1 0 w = (r, w1)" by fastforce
  note t1 = run_trace [OF works 1] and s1 = shellEx_result [OF 1]
  show ?thesis
  proof (cases "r = 0")
    case False
    then have "st = SSI_StatusFailed" "w' = w1" using run 1 by (auto simp: volume_remove_def)
    with t1 s1 reg show ?thesis by simp
  next
    case True
    obtain st2 w2 where 2: "removeVolume os a (m_Ordinal v) w1 = (st2, w2)" by fastforce
    note r2 = removeVolume_run [OF works _ 2]
    have t2: "trace w2 = trace w @ [mdadm_run (stop_command v), mdadm_run (kill_command a (m_Ordinal v))]"
      "registry w2 = registry w"
      using r2 more t1 s1 by auto
    show ?thesis
    proof (cases "st2 = SSI_StatusOk")
      case ok: True
      then have "st = SSI_StatusOk" "w' = unregister v w2"
        using run 1 2 True more by (auto simp: volume_remove_def Let_def)
      with t2 hm_remove_forgets [OF reg, of "object_id v"] show ?thesis
        by (simp add: unregister_def)
    next
      case False
      then have "st = SSI_StatusFailed" "w' = w2"
        using run 1 2 True by (auto simp: volume_remove_def)
      with t2 reg show ?thesis by simp
    qed
  qed
qed

theorem volume_remove_keeps_siblings_witness:
  "\<exists>w'. volume_remove calm demo_volume (Some (demo_array\<lparr>m_Volumes := [demo_volume, demo_volume]\<rparr>)) start_world
       = (SSI_StatusOk, w') \<and> length (trace w') = 2"
proof -
  let ?a = "demo_array\<lparr>m_Volumes := [demo_volume, demo_volume]\<rparr>"
  have reg: "hm_ok (registry start_world)" by (simp add: start_world_def hm_ok_empty)
  have more: "length (m_Volumes ?a) > 1" by simp
  obtain w' where run: "volume_remove calm demo_volume (Some ?a) start_world = (SSI_StatusOk, w')"
    by (simp add: volume_remove_def removeVolume_def calm_run Let_def)
  from volume_remove_keeps_siblings [OF calm_works reg more run] run show ?thesis
    by (auto simp: start_world_def)
qed

end
