(* ===== verification/Raid_Migration.thy ===== *)
theory Raid_Migration
  imports Raid_Volume
begin

text \<open>
  \<open>volume.cpp\<close>, second part: \<open>Volume::modify\<close> and the migrations \<open>__toRaid0\<close>, \<open>__toRaid10\<close> and
  \<open>__toRaid5\<close>.  \<open>None\<close> as a result is the dereference of a null pointer: a disk that is no block
  device, or the weak pointer to the first disk of the array when that disk is gone.
\<close>

subsection \<open>The commands\<close>

definition chunk_change :: "volume \<Rightarrow> SSI_StripSize \<Rightarrow> bool" where
  "chunk_change v stripSize \<longleftrightarrow> stripSize \<noteq> SSI_StripSizeUnknown \<and> stripSize \<noteq> ui2stripsize (m_StripSize v)"

definition chunk_option :: "volume \<Rightarrow> SSI_StripSize \<Rightarrow> exception + string" where
  "chunk_option v stripSize =
     (if chunk_change v stripSize
      then case stripsize2ui stripSize of
             Inl e \<Rightarrow> Inl e | Inr n \<Rightarrow> Inr ('' -c '' @ dec (unat n div 1024))
      else Inr [])"

definition reshape_command :: "volume \<Rightarrow> string \<Rightarrow> string" where
  "reshape_command v opts = ''mdadm '' @ dev (m_DevName v) @ '' --grow '' @ opts"

definition reshape :: "env \<Rightarrow> volume \<Rightarrow> string \<Rightarrow> world \<Rightarrow> bool \<times> world" where
  "reshape os v opts w = (let (r, w') = shellEx os (reshape_command v opts) 1 0 w in (r = 0, w'))"

definition mixed_disks :: "world \<Rightarrow> world" where
  "mixed_disks w = setLastErrorMessage ''Cannot have both SATA and NVMe disks in one volume'' w"

definition refused :: "SSI_Status \<Rightarrow> world \<Rightarrow> SSI_Status \<times> world" where
  "refused status w = (status, if status = SSI_StatusInvalidParameter then mixed_disks w else w)"

subsection \<open>To RAID 0\<close>

definition raid0_from_0 ::
  "env \<Rightarrow> volume \<Rightarrow> array \<Rightarrow> bool \<Rightarrow> string \<Rightarrow> end_device list \<Rightarrow> world \<Rightarrow> (SSI_Status \<times> world) option" where
  "raid0_from_0 os v a chunkChange ch disks w =
     (if disks = [] \<and> \<not> chunkChange then Some (SSI_StatusOk, w)
      else if disks \<noteq> [] \<and> chunkChange then Some (SSI_StatusNotSupported, w)
      else if disks \<noteq> []
      then case canAddEndDevices a disks of
             None \<Rightarrow> None
           | Some status \<Rightarrow>
               (if status = SSI_StatusOk then grow os a disks w else Some (refused status w))
      else let (ok, w') = reshape os v (''-l0'' @ ch) w in
           Some (if ok then SSI_StatusOk else SSI_StatusFailed, w'))"

text \<open>From RAID 1 and RAID 10 the value of \<open>canAddEndDevices\<close> is also the answer when the command fails.\<close>

definition raid0_from_1 ::
  "env \<Rightarrow> volume \<Rightarrow> array \<Rightarrow> bool \<Rightarrow> SSI_StripSize \<Rightarrow> end_device list \<Rightarrow> world \<Rightarrow> (SSI_Status \<times> world) option" where
  "raid0_from_1 os v a chunkChange stripSize disks w =
     (if chunkChange
      then Some (SSI_StatusInvalidStripSize,
                 setLastErrorMessage ''Strip size cannot be changed during migration from Raid 1 to Raid 0'' w)
      else if stripSize \<noteq> SSI_StripSize64kB
      then Some (SSI_StatusInvalidStripSize,
                 setLastErrorMessage ''Strip size cannot be passed in Raid 1 to Raid 0 migration'' w)
      else case canAddEndDevices a disks of
             None \<Rightarrow> None
           | Some status \<Rightarrow>
               (if status = SSI_StatusOk
                then let (ok, w1) = reshape os v ''-l0'' w in
                     (if ok
                      then if disks \<noteq> [] then grow os a disks w1 else Some (SSI_StatusOk, w1)
                      else Some (status, w1))
                else Some (refused status w)))"

definition raid0_from_10 ::
  "env \<Rightarrow> volume \<Rightarrow> array \<Rightarrow> bool \<Rightarrow> string \<Rightarrow> end_device list \<Rightarrow> world \<Rightarrow> (SSI_Status \<times> world) option" where
  "raid0_from_10 os v a chunkChange ch disks w =
     (if disks \<noteq> [] \<and> chunkChange then Some (SSI_StatusNotSupported, w)
      else case canAddEndDevices a disks of
             None \<Rightarrow> None
           | Some status \<Rightarrow>
               (if status = SSI_StatusOk
                then let (ok, w1) = reshape os v ''-l0'' w in
                     (if ok
                      then if disks = [] \<and> \<not> chunkChange then Some (SSI_StatusOk, w1)
                           else if disks \<noteq> [] then grow os a disks w1
                           else let (ok', w2) = reshape os v (''-l0'' @ ch) w1 in
                                Some (if ok' then SSI_StatusOk else status, w2)
                      else Some (status, w1))
                else Some (refused status w)))"

definition raid0_from_5 ::
  "env \<Rightarrow> volume \<Rightarrow> bool \<Rightarrow> end_device list \<Rightarrow> world \<Rightarrow> (SSI_Status \<times> world) option" where
  "raid0_from_5 os v chunkChange disks w =
     (if disks \<noteq> [] then Some (SSI_StatusNotSupported, w)
      else if chunkChange then Some (SSI_StatusInvalidStripSize, w)
      else let (ok, w') = reshape os v ''-l0'' w in
           Some (if ok then SSI_StatusOk else SSI_StatusFailed, w'))"

definition toRaid0 ::
  "env \<Rightarrow> volume \<Rightarrow> array option \<Rightarrow> SSI_StripSize \<Rightarrow> end_device list \<Rightarrow> world \<Rightarrow> (SSI_Status \<times> world) option" where
  "toRaid0 os v parent stripSize disks w =
     (case parent of
        None \<Rightarrow> Some (SSI_StatusFailed, w)
      | Some a \<Rightarrow>
          (let chunkChange = chunk_change v stripSize in
           case chunk_option v stripSize of
             Inl e \<Rightarrow> Some (SSI_StatusInvalidStripSize, w)
           | Inr ch \<Rightarrow>
               (if m_RaidLevel v = 0 then raid0_from_0 os v a chunkChange ch disks w
                else if m_RaidLevel v = 1 then raid0_from_1 os v a chunkChange stripSize disks w
                else if m_RaidLevel v = 10 then raid0_from_10 os v a chunkChange ch disks w
                else if m_RaidLevel v = 5 then raid0_from_5 os v chunkChange disks w
                else Some (SSI_StatusNotSupported, w))))"

subsection \<open>To RAID 10\<close>

definition toRaid10 ::
  "env \<Rightarrow> volume \<Rightarrow> array option \<Rightarrow> SSI_StripSize \<Rightarrow> end_device list \<Rightarrow> world \<Rightarrow> (SSI_Status \<times> world) option" where
  "toRaid10 os v parent stripSize disks w =
     (case parent of
        None \<Rightarrow> Some (SSI_StatusFailed, w)
      | Some a \<Rightarrow>
          (if m_RaidLevel v \<noteq> 0 \<or> length (m_BlockDevices v) \<noteq> 2 then Some (SSI_StatusNotSupported, w)
           else if length disks \<noteq> 2
           then Some (SSI_StatusInvalidParameter,
                      setLastErrorMessage ''Cannot migrate to RAID10. Migration to RAID10 is supported only with 2 disks'' w)
           else if chunk_change v stripSize then Some (SSI_StatusInvalidStripSize, w)
           else case canAddEndDevices a disks of
                  None \<Rightarrow> None
                | Some status \<Rightarrow>
                    (if status \<noteq> SSI_StatusOk then Some (refused status w)
                     else case getSpareableEndDevices disks of
                            None \<Rightarrow> None
                          | Some addedToSpare \<Rightarrow>
                              (let (status, w1) = addSpare os a disks w in
                               if status \<noteq> SSI_StatusOk then Some (status, w1)
                               else let (ok, w2) = reshape os v '' -l10'' w1 in
                                    if ok then Some (SSI_StatusOk, w2)
                                    else Some (SSI_StatusFailed, snd (removeSpares os a True addedToSpare w2))))))"

subsection \<open>To RAID 5\<close>

definition raid5_from_0 ::
  "env \<Rightarrow> volume \<Rightarrow> array \<Rightarrow> string \<Rightarrow> end_device list \<Rightarrow> world \<Rightarrow> (SSI_Status \<times> world) option" where
  "raid5_from_0 os v a ch disks w =
     (if length disks \<noteq> 1
      then Some (SSI_StatusInvalidParameter,
                 setLastErrorMessage ''Cannot migrate to RAID5. Migration to RAID5 is supported only with 1 disk'' w)
      else case canAddEndDevices a disks of
             None \<Rightarrow> None
           | Some status \<Rightarrow>
               (if status \<noteq> SSI_StatusOk then Some (refused status w)
                else case getSpareableEndDevices disks of
                       None \<Rightarrow> None
                     | Some addedToSpare \<Rightarrow>
                         (let (status, w1) = addSpare os a disks w in
                          if status \<noteq> SSI_StatusOk then Some (status, w1)
                          else let (ok, w2) = reshape os v (''-l5 --layout=left-asymmetric'' @ ch) w1 in
                               if ok then Some (SSI_StatusOk, w2)
                               else Some (SSI_StatusFailed, snd (removeSpares os a True addedToSpare w2)))))"

definition raid5_from_10 ::
  "env \<Rightarrow> volume \<Rightarrow> string \<Rightarrow> end_device list \<Rightarrow> world \<Rightarrow> (SSI_Status \<times> world) option" where
  "raid5_from_10 os v ch disks w =
     (if disks \<noteq> []
      then Some (SSI_StatusInvalidParameter,
                 setLastErrorMessage ''Cannot migrate from RAID10 to RAID5 with additional disks'' w)
      else let (ok, w1) = reshape os v ''-l0'' w in
           if ok
           then let (ok', w2) = reshape os v (''-l5 --layout=left-asymmetric'' @ ch) w1 in
                Some (if ok' then SSI_StatusOk else SSI_StatusFailed, w2)
           else Some (SSI_StatusFailed, w1))"

definition raid5_from_5 ::
  "env \<Rightarrow> volume \<Rightarrow> array \<Rightarrow> bool \<Rightarrow> string \<Rightarrow> end_device list \<Rightarrow> world \<Rightarrow> (SSI_Status \<times> world) option" where
  "raid5_from_5 os v a chunkChange ch disks w =
     (if disks \<noteq> [] \<and> chunkChange then Some (SSI_StatusNotSupported, w)
      else if disks \<noteq> []
      then case canAddEndDevices a disks of
             None \<Rightarrow> None
           | Some status \<Rightarrow>
               (if status \<noteq> SSI_StatusOk then Some (refused status w) else grow os a disks w)
      else let (ok, w') = reshape os v (''-l5'' @ ch) w in
           Some (if ok then SSI_StatusOk else SSI_StatusFailed, w'))"

definition toRaid5 ::
  "env \<Rightarrow> volume \<Rightarrow> array option \<Rightarrow> SSI_StripSize \<Rightarrow> end_device list \<Rightarrow> world \<Rightarrow> (SSI_Status \<times> world) option" where
  "toRaid5 os v parent stripSize disks w =
     (case parent of
        None \<Rightarrow> Some (SSI_StatusFailed, w)
      | Some a \<Rightarrow>
          (case chunk_option v stripSize of
             Inl e \<Rightarrow> Some (SSI_StatusInvalidStripSize, w)
           | Inr ch \<Rightarrow>
               (if m_RaidLevel v = 0 then raid5_from_0 os v a ch disks w
                else if m_RaidLevel v = 10 then raid5_from_10 os v ch disks w
                else if m_RaidLevel v = 5 then raid5_from_5 os v a (chunk_change v stripSize) ch disks w
                else Some (SSI_StatusNotSupported, w))))"

subsection \<open>\<open>modify\<close>\<close>

unbundle bit_operations_syntax

text \<open>
  The checks of \<open>modify\<close>, in the order of the code.  \<open>junk\<close> is the uninitialised structure that
  \<open>getRaidLevelInfo\<close> fills; its status is not looked at.
\<close>

definition has_fultondalex8 :: "volume \<Rightarrow> end_device list \<Rightarrow> bool" where
  "has_fultondalex8 v disks \<longleftrightarrow> (\<exists>d \<in> set (locked v) \<union> set disks. isFultondalex8 d)"

definition modify_check ::
  "SSI_RaidLevelInfo \<Rightarrow> raid_info \<Rightarrow> volume \<Rightarrow> SSI_StripSize \<Rightarrow> SSI_RaidLevel \<Rightarrow> u64 \<Rightarrow> end_device list \<Rightarrow> SSI_Status" where
  "modify_check junk ri v stripSize raidLevel newSize disks =
     (let info = the (snd (getRaidLevelInfo ri (ui2raidlevel (m_RaidLevel v)) (Some junk))) in
      if stripSize AND stripSizesSupported info = 0 \<and> stripSize \<noteq> SSI_StripSizeUnknown
      then SSI_StatusInvalidStripSize
      else if raidLevel AND migrSupport info = 0 then SSI_StatusInvalidRaidLevel
      else if newSize \<noteq> 0 \<and> newSize \<noteq> push_bit 10 (m_ComponentSize v) * of_nat (length (m_BlockDevices v))
      then SSI_StatusInvalidSize
      else if raidLevel \<noteq> SSI_Raid0 \<and> has_fultondalex8 v disks then SSI_StatusInvalidRaidLevel
      else SSI_StatusOk)"

definition modify :: "env \<Rightarrow> SSI_RaidLevelInfo \<Rightarrow> volume \<Rightarrow> array option \<Rightarrow> SSI_StripSize \<Rightarrow> SSI_RaidLevel
    \<Rightarrow> u64 \<Rightarrow> end_device list \<Rightarrow> world \<Rightarrow> (SSI_Status \<times> world) option" where
  "modify os junk v parent stripSize raidLevel newSize disks w =
     (case getRaidInfo v of
        None \<Rightarrow> Some (SSI_StatusFailed, w)
      | Some ri \<Rightarrow>
          (let status = modify_check junk ri v stripSize raidLevel newSize disks in
           if status \<noteq> SSI_StatusOk then Some (status, w)
           else if raidLevel = SSI_Raid0 then toRaid0 os v parent stripSize disks w
           else if raidLevel = SSI_Raid10 then toRaid10 os v parent stripSize disks w
           else if raidLevel = SSI_Raid5 then toRaid5 os v parent stripSize disks w
           else Some (SSI_StatusNotSupported, w)))"

subsection \<open>Refusals run nothing\<close>

definition refusal :: "SSI_Status \<Rightarrow> bool" where
  "refusal st \<longleftrightarrow> st \<in> {SSI_StatusInvalidParameter, SSI_StatusInvalidStripSize, SSI_StatusInvalidSize,
     SSI_StatusInvalidRaidLevel, SSI_StatusNotSupported}"

definition untouched :: "world \<Rightarrow> world \<Rightarrow> bool" where
  "untouched w w' \<longleftrightarrow> trace w' = trace w \<and> registry w' = registry w"

lemma untouched_refl [simp]: "untouched w w"
  by (simp add: untouched_def)

lemma untouched_message [simp]: "untouched w (setLastErrorMessage m w)" "untouched w (mixed_disks w)"
  by (simp_all add: untouched_def mixed_disks_def)

lemma refused_untouched: "refused st w = (st', w') \<Longrightarrow> untouched w w'"
  by (auto simp: refused_def)

lemma refusal_not [simp]:
  "\<not> refusal SSI_StatusOk" "\<not> refusal SSI_StatusFailed" "\<not> refusal SSI_StatusInvalidState"
  by (simp_all add: refusal_def)

lemma canAdd_status: "canAddEndDevices a ds = Some st \<Longrightarrow> st = SSI_StatusOk \<or> st = SSI_StatusInvalidParameter"
  by (auto simp: canAddEndDevices_def Let_def split: list.splits option.splits if_splits)

lemma grow_status: "grow os a ds w = Some (st, w') \<Longrightarrow> \<not> refusal st"
proof -
  assume run: "grow os a ds w = Some (st, w')"
  have "fst (addSpare os a ds w) \<in> {SSI_StatusOk, SSI_StatusFailed, SSI_StatusInvalidState}"
    by (rule addSpare_status)
  with run show ?thesis
    unfolding grow_def
    by (auto simp: Let_def split: if_splits option.splits prod.splits)
qed

lemma addSpare_refusal: "addSpare os a ds w = (st, w') \<Longrightarrow> \<not> refusal st"
  using addSpare_status [of os a ds w] by auto

lemmas migration_defs =
  raid0_from_0_def raid0_from_1_def raid0_from_10_def raid0_from_5_def
  raid5_from_0_def raid5_from_10_def raid5_from_5_def

lemma from_cases_refuse:
  "raid0_from_0 os v a cc ch ds w = Some (st, w') \<Longrightarrow> refusal st \<Longrightarrow> untouched w w'"
  "raid0_from_1 os v a cc ss ds w = Some (st, w') \<Longrightarrow> refusal st \<Longrightarrow> untouched w w'"
  "raid0_from_10 os v a cc ch ds w = Some (st, w') \<Longrightarrow> refusal st \<Longrightarrow> untouched w w'"
  "raid0_from_5 os v cc ds w = Some (st, w') \<Longrightarrow> refusal st \<Longrightarrow> untouched w w'"
  "raid5_from_0 os v a ch ds w = Some (st, w') \<Longrightarrow> refusal st \<Longrightarrow> untouched w w'"
  "raid5_from_10 os v ch ds w = Some (st, w') \<Longrightarrow> refusal st \<Longrightarrow> untouched w w'"
  "raid5_from_5 os v a cc ch ds w = Some (st, w') \<Longrightarrow> refusal st \<Longrightarrow> untouched w w'"
  unfolding migration_defs
  by (auto simp: Let_def split: if_splits option.splits prod.splits
      dest: grow_status addSpare_refusal refused_untouched)

lemma toRaid_refuses:
  "toRaid0 os v p s ds w = Some (st, w') \<Longrightarrow> refusal st \<Longrightarrow> untouched w w'"
  "toRaid10 os v p s ds w = Some (st, w') \<Longrightarrow> refusal st \<Longrightarrow> untouched w w'"
  "toRaid5 os v p s ds w = Some (st, w') \<Longrightarrow> refusal st \<Longrightarrow> untouched w w'"
    apply (auto simp: toRaid0_def Let_def split: if_splits option.splits sum.splits dest: from_cases_refuse)[1]
   apply (auto simp: toRaid10_def Let_def split: if_splits option.splits prod.splits
      dest: addSpare_refusal refused_untouched)[1]
  apply (auto simp: toRaid5_def Let_def split: if_splits option.splits sum.splits dest: from_cases_refuse)[1]
  done

lemma modify_refuses:
  "modify os junk v p s l n ds w = Some (st, w') \<Longrightarrow> refusal st \<Longrightarrow> untouched w w'"
  by (auto simp: modify_def Let_def split: option.splits if_splits dest: toRaid_refuses)

text \<open>
  A migration that is refused has done nothing: when \<open>modify\<close> answers with an invalid parameter,
  strip size, size or RAID level, or with not supported, no command was run and no handle changed.
\<close>

theorem modify_refusal_runs_nothing:
  assumes "modify os junk v parent stripSize raidLevel newSize disks w = Some (st, w')" and "refusal st"
  shows "trace w' = trace w \<and> registry w' = registry w"
  using modify_refuses [OF assms] by (simp add: untouched_def)

lemma demo_info: "getRaidInfo demo_volume = Some vmd_standard"
  by (simp add: getRaidInfo_def demo_locked demo_member_def demo_disk_def)

lemma demo_check:
  "\<forall>d\<in>set ds. \<not> isFultondalex8 d \<Longrightarrow>
     modify_check blank_info vmd_standard demo_volume 0 SSI_Raid10 0 ds = SSI_StatusOk"
proof -
  assume "\<forall>d\<in>set ds. \<not> isFultondalex8 d"
  then have "\<not> has_fultondalex8 demo_volume ds"
    by (auto simp: has_fultondalex8_def demo_locked demo_member_def demo_disk_def)
  moreover have "ui2raidlevel (m_RaidLevel demo_volume) = SSI_Raid0"
    by (simp add: demo_volume_def ui2raidlevel_def)
  ultimately show ?thesis
    by (simp add: modify_check_def getRaidLevelInfo_def level_info_def raid0_migrations_def vmd_standard_def Let_def)
qed

theorem modify_refusal_runs_nothing_witness:
  "\<exists>w'. modify calm blank_info demo_volume (Some demo_array) 0 SSI_Raid10 0 [demo_disk ''sdc''] start_world
       = Some (SSI_StatusInvalidParameter, w') \<and> trace w' = []"
proof -
  have level: "m_RaidLevel demo_volume = 0" "length (m_BlockDevices demo_volume) = 2"
    by (simp_all add: demo_volume_def)
  have check: "modify_check blank_info vmd_standard demo_volume 0 SSI_Raid10 0 [demo_disk ''sdc''] = SSI_StatusOk"
    by (simp add: demo_check demo_disk_def)
  obtain w' where run: "modify calm blank_info demo_volume (Some demo_array) 0 SSI_Raid10 0 [demo_disk ''sdc''] start_world
      = Some (SSI_StatusInvalidParameter, w')"
    by (simp add: modify_def demo_info check toRaid10_def level Let_def)
  from modify_refusal_runs_nothing [OF run] run show ?thesis
    by (auto simp: refusal_def start_world_def)
qed

subsection \<open>Which migrations run commands\<close>

lemma toRaid_levels:
  "toRaid0 os v p s ds w = Some (st, w') \<Longrightarrow> trace w' \<noteq> trace w \<Longrightarrow> m_RaidLevel v \<in> {0, 1, 10, 5}"
  "toRaid10 os v p s ds w = Some (st, w') \<Longrightarrow> trace w' \<noteq> trace w \<Longrightarrow> m_RaidLevel v = 0"
  "toRaid5 os v p s ds w = Some (st, w') \<Longrightarrow> trace w' \<noteq> trace w \<Longrightarrow> m_RaidLevel v \<in> {0, 10, 5}"
    apply (auto simp: toRaid0_def Let_def split: if_splits option.splits sum.splits)[1]
   apply (auto simp: toRaid10_def Let_def split: if_splits option.splits)[1]
  apply (auto simp: toRaid5_def Let_def split: if_splits option.splits sum.splits)[1]
  done

lemma getRaidLevelInfo_some: "\<exists>st info. getRaidLevelInfo ri l (Some junk) = (st, Some info)"
  by (cases "level_info ri l (junk\<lparr>stripSizesSupported := ucast (chk (m_pInfo ri))\<rparr>)")
     (auto simp: getRaidLevelInfo_def Let_def)

definition migrations :: "(u32 \<times> SSI_RaidLevel) set" where
  "migrations = {(0, SSI_Raid0), (1, SSI_Raid0), (10, SSI_Raid0), (0, SSI_Raid10), (0, SSI_Raid5), (5, SSI_Raid5)}"

text \<open>
  C7. \<open>modify\<close> runs a command only for six pairs of levels: to RAID 0 from 0, 1 and 10, from RAID 0 to
  10 and to 5, and within RAID 5.  The branches of the code for the other pairs (RAID 5 to 0, RAID 10
  to 5) are never reached, whatever the option ROM and the hardware key allow.
\<close>

theorem modify_supported_migrations:
  assumes run: "modify os junk v parent stripSize raidLevel newSize disks w = Some (st, w')"
    and acted: "trace w' \<noteq> trace w"
  shows "(m_RaidLevel v, raidLevel) \<in> migrations \<and> parent \<noteq> None"
proof -
  obtain ri where ri: "getRaidInfo v = Some ri"
    using run acted by (auto simp: modify_def split: option.splits)
  obtain ok info where info: "getRaidLevelInfo ri (ui2raidlevel (m_RaidLevel v)) (Some junk) = (ok, Some info)"
    using getRaidLevelInfo_some by blast
  have check: "raidLevel AND migrSupport info \<noteq> 0"
    using run acted ri info by (auto simp: modify_def modify_check_def Let_def split: if_splits)
  have target: "raidLevel = SSI_Raid0 \<and> m_RaidLevel v \<in> {0, 1, 10, 5} \<or> raidLevel = SSI_Raid10 \<and> m_RaidLevel v = 0
      \<or> raidLevel = SSI_Raid5 \<and> m_RaidLevel v \<in> {0, 10, 5}"
    using run acted ri toRaid_levels by (auto simp: modify_def Let_def split: if_splits)
  have "parent \<noteq> None"
    using run acted ri
    by (cases parent) (auto simp: modify_def Let_def toRaid0_def toRaid10_def toRaid5_def split: if_splits)
  moreover have "ui2raidlevel (m_RaidLevel v) \<in> raid_levels"
    using target by (auto simp: ui2raidlevel_def raid_levels_def)
  then have "ok = SSI_StatusOk"
    using getRaidLevelInfo_status [of ri "ui2raidlevel (m_RaidLevel v)" junk] info by simp
  then have "(ui2raidlevel (m_RaidLevel v), raidLevel) \<in>
      {(SSI_Raid0, SSI_Raid0), (SSI_Raid0, SSI_Raid10), (SSI_Raid0, SSI_Raid5),
       (SSI_Raid1, SSI_Raid0), (SSI_Raid10, SSI_Raid0), (SSI_Raid5, SSI_Raid5)}"
    using migrations_of_info [of ri _ junk info] info check target by blast
  ultimately show ?thesis
    using target by (auto simp: migrations_def ui2raidlevel_def)
qed

theorem modify_supported_migrations_witness:
  "\<exists>w'. modify calm blank_info demo_volume (Some demo_array) 0 SSI_Raid10 0 [demo_disk ''sdc'', demo_disk ''sdd''] start_world
       = Some (SSI_StatusOk, w') \<and> trace w' \<noteq> [] \<and> (m_RaidLevel demo_volume, SSI_Raid10) \<in> migrations"
proof -
  let ?ds = "[demo_disk ''sdc'', demo_disk ''sdd'']"
  have level: "m_RaidLevel demo_volume = 0" "length (m_BlockDevices demo_volume) = 2" "\<not> chunk_change demo_volume 0"
    by (simp_all add: demo_volume_def chunk_change_def)
  have check: "modify_check blank_info vmd_standard demo_volume 0 SSI_Raid10 0 ?ds = SSI_StatusOk"
    by (rule demo_check) (simp add: demo_disk_def)
  have add: "canAddEndDevices demo_array ?ds = Some SSI_StatusOk" "getSpareableEndDevices ?ds = Some ?ds"
    "spares_to_add demo_array ?ds = Inr ?ds"
    by (simp_all add: canAddEndDevices_def demo_array_def demo_member_def demo_disk_def getSpareableEndDevices_def)
  obtain w' where run: "modify calm blank_info demo_volume (Some demo_array) 0 SSI_Raid10 0 ?ds start_world
      = Some (SSI_StatusOk, w')" and acted: "trace w' \<noteq> trace start_world"
    using add by (simp add: modify_def demo_info check toRaid10_def level addSpare_def reshape_def calm_run start_world_def Let_def)
  from modify_supported_migrations [OF run acted] run acted show ?thesis
    by (auto simp: start_world_def)
qed

subsection \<open>What Ok means\<close>

definition last_succeeded :: "env \<Rightarrow> world \<Rightarrow> bool" where
  "last_succeeded os w \<longleftrightarrow> (\<exists>before c. trace w = before @ [mdadm_run c] \<and> succeeds os before c)"

lemma reshape_result:
  "reshape os v opts w = (ok, w') \<Longrightarrow>
     ok = succeeds os (trace w) (reshape_command v opts) \<and>
     trace w' = started os (trace w) (reshape_command v opts) \<and> registry w' = registry w"
proof -
  assume run: "reshape os v opts w = (ok, w')"
  obtain r w1 where 1: "shellEx os (reshape_command v opts) 1 0 w = (r, w1)" by fastforce
  then have "ok = (r = 0)" "w' = w1" using run by (auto simp: reshape_def)
  with shellEx_result [OF 1] show ?thesis by simp
qed

lemma reshape_ok: "reshape os v opts w = (True, w') \<Longrightarrow> last_succeeded os w'"
proof -
  assume "reshape os v opts w = (True, w')"
  from reshape_result [OF this] started_if_succeeds [of os "trace w" "reshape_command v opts"]
  show ?thesis by (auto simp: last_succeeded_def)
qed

lemma grow_ok: "grow os a ds w = Some (SSI_StatusOk, w') \<Longrightarrow> last_succeeded os w'"
proof -
  assume run: "grow os a ds w = Some (SSI_StatusOk, w')"
  obtain w1 n where "shellEx os (grow_command a n) 1 0 w1 = (0, w')"
    using run unfolding grow_def by (auto simp: Let_def split: if_splits option.splits prod.splits)
  from shellEx_result [OF this] started_if_succeeds [of os "trace w1" "grow_command a n"] show ?thesis
    by (auto simp: last_succeeded_def split: if_splits)
qed

lemma from_cases_ok:
  "raid0_from_0 os v a cc ch ds w = Some (SSI_StatusOk, w') \<Longrightarrow> w' = w \<or> last_succeeded os w'"
  "raid0_from_5 os v cc ds w = Some (SSI_StatusOk, w') \<Longrightarrow> last_succeeded os w'"
  "raid5_from_0 os v a ch ds w = Some (SSI_StatusOk, w') \<Longrightarrow> last_succeeded os w'"
  "raid5_from_10 os v ch ds w = Some (SSI_StatusOk, w') \<Longrightarrow> last_succeeded os w'"
  "raid5_from_5 os v a cc ch ds w = Some (SSI_StatusOk, w') \<Longrightarrow> last_succeeded os w'"
  unfolding migration_defs
  by (auto simp: Let_def refused_def split: if_splits option.splits prod.splits dest: grow_ok reshape_ok)

lemma toRaid_ok:
  "m_RaidLevel v \<noteq> 1 \<Longrightarrow> m_RaidLevel v \<noteq> 10 \<Longrightarrow>
     toRaid0 os v p s ds w = Some (SSI_StatusOk, w') \<Longrightarrow> w' = w \<or> last_succeeded os w'"
  "toRaid10 os v p s ds w = Some (SSI_StatusOk, w') \<Longrightarrow> last_succeeded os w'"
  "toRaid5 os v p s ds w = Some (SSI_StatusOk, w') \<Longrightarrow> last_succeeded os w'"
    apply (auto simp: toRaid0_def Let_def split: if_splits option.splits sum.splits dest: from_cases_ok)[1]
   apply (auto simp: toRaid10_def Let_def refused_def split: if_splits option.splits prod.splits dest: reshape_ok)[1]
  apply (auto simp: toRaid5_def Let_def split: if_splits option.splits sum.splits dest: from_cases_ok)[1]
  done

text \<open>
  For a volume that is not of RAID 1 or RAID 10, Ok from \<open>modify\<close> means that there was nothing to do
  or that the last command that was run succeeded.
\<close>

theorem modify_ok_is_done:
  assumes "m_RaidLevel v \<noteq> 1" "m_RaidLevel v \<noteq> 10"
    and "modify os junk v parent stripSize raidLevel newSize disks w = Some (SSI_StatusOk, w')"
  shows "w' = w \<or> last_succeeded os w'"
  using assms toRaid_ok by (auto simp: modify_def Let_def split: option.splits if_splits)

lemma strip_64kB_supported: "bit (m :: u16) 5 \<Longrightarrow> SSI_StripSize64kB AND ucast m \<noteq> (0 :: u32)"
proof
  assume "bit m 5" and "SSI_StripSize64kB AND ucast m = (0 :: u32)"
  moreover have "bit (SSI_StripSize64kB AND ucast m :: u32) 5 \<longleftrightarrow> bit m 5"
    by (simp add: bit_and_iff bit_ucast_iff)
  ultimately show False by simp
qed

text \<open>
  For RAID 1 the answer is wrong: when the disks could be added and the command that turns the mirror
  into a RAID 0 fails, \<open>modify\<close> still answers Ok, although the last command run, if any, failed.
\<close>

theorem failed_mirror_migration_answers_ok:
  assumes mirror: "m_RaidLevel v = 1" "m_StripSize v = 65536"
    and allowed: "getRaidInfo v = Some ri" "bit (chk (m_pInfo ri)) 5"
    and disks: "canAddEndDevices a disks = Some SSI_StatusOk"
    and fails: "\<not> succeeds os (trace w) (reshape_command v ''-l0'')"
  shows "\<exists>w'. modify os junk v (Some a) SSI_StripSize64kB SSI_Raid0 0 disks w = Some (SSI_StatusOk, w') \<and>
     trace w' = started os (trace w) (reshape_command v ''-l0'')"
proof -
  have level: "ui2raidlevel (m_RaidLevel v) = SSI_Raid1" by (simp add: mirror ui2raidlevel_def)
  have same: "\<not> chunk_change v SSI_StripSize64kB"
    by (simp add: chunk_change_def mirror ui2stripsize_def strip_table_def)
  have check: "modify_check junk ri v SSI_StripSize64kB SSI_Raid0 0 disks = SSI_StatusOk"
    using strip_64kB_supported [OF allowed(2)]
    by (simp add: modify_check_def level getRaidLevelInfo_def level_info_def Let_def)
  obtain ok w1 where 1: "reshape os v ''-l0'' w = (ok, w1)" by fastforce
  with reshape_result [OF 1] fails
  have "modify os junk v (Some a) SSI_StripSize64kB SSI_Raid0 0 disks w = Some (SSI_StatusOk, w1)"
    using mirror(1) by (simp add: modify_def allowed(1) check toRaid0_def chunk_option_def same raid0_from_1_def disks)
  with reshape_result [OF 1] show ?thesis by blast
qed

definition broken :: env where
  "broken = \<lparr>popen = (\<lambda>tr c. Some (256, [])), open_error = (\<lambda>tr p. None), read_file = (\<lambda>tr p. None),
     path_exists = (\<lambda>tr p. False), canonical_path = (\<lambda>p. p)\<rparr>"

lemma broken_fails: "\<not> succeeds broken tr c"
  by (simp add: succeeds_def answer_def broken_def WEXITSTATUS_def)

definition demo_mirror :: volume where
  "demo_mirror = demo_volume\<lparr>m_RaidLevel := 1, m_StripSize := 65536\<rparr>"

theorem failed_mirror_migration_answers_ok_witness:
  "\<exists>w'. modify broken blank_info demo_mirror (Some demo_array) SSI_StripSize64kB SSI_Raid0 0 [] start_world
       = Some (SSI_StatusOk, w')"
proof -
  have m: "m_RaidLevel demo_mirror = 1" "m_StripSize demo_mirror = 65536"
    by (simp_all add: demo_mirror_def)
  have i: "getRaidInfo demo_mirror = Some vmd_standard"
    using demo_info by (simp add: demo_mirror_def getRaidInfo_def locked_def)
  have s: "bit (chk (m_pInfo vmd_standard)) 5" by (simp add: vmd_standard_def)
  have d: "canAddEndDevices demo_array [] = Some SSI_StatusOk"
    by (simp add: canAddEndDevices_def demo_array_def)
  from failed_mirror_migration_answers_ok [OF m i s d broken_fails] show ?thesis by blast
qed

theorem modify_ok_is_done_witness:
  "\<exists>w'. modify calm blank_info demo_volume (Some demo_array) 0 SSI_Raid0 0 [] start_world = Some (SSI_StatusOk, w')
     \<and> (w' = start_world \<or> last_succeeded calm w')"
proof -
  have l: "m_RaidLevel demo_volume \<noteq> 1" "m_RaidLevel demo_volume \<noteq> 10" by (simp_all add: demo_volume_def)
  have level: "m_RaidLevel demo_volume = 0" "\<not> chunk_change demo_volume 0"
    "ui2raidlevel 0 = SSI_Raid0"
    by (simp_all add: demo_volume_def chunk_change_def ui2raidlevel_def)
  have "modify_check blank_info vmd_standard demo_volume 0 SSI_Raid0 0 [] = SSI_StatusOk"
    by (simp add: modify_check_def level getRaidLevelInfo_def level_info_def raid0_migrations_def vmd_standard_def Let_def)
  then have run: "modify calm blank_info demo_volume (Some demo_array) 0 SSI_Raid0 0 [] start_world = Some (SSI_StatusOk, start_world)"
    by (simp add: modify_def demo_info toRaid0_def chunk_option_def level raid0_from_0_def)
  from modify_ok_is_done [OF l run] run show ?thesis by blast
qed

subsection \<open>Rolling back\<close>

definition target_option :: "SSI_RaidLevel \<Rightarrow> string \<Rightarrow> string" where
  "target_option raidLevel ch = (if raidLevel = SSI_Raid10 then '' -l10'' else ''-l5 --layout=left-asymmetric'' @ ch)"

lemma redundant_migration_failed:
  assumes level: "m_RaidLevel v = 0" and added: "addSpare os a disks w = (SSI_StatusOk, w1)"
  shows "toRaid10 os v (Some a) s disks w = Some (SSI_StatusFailed, w') \<Longrightarrow>
      \<exists>w2 ds. reshape os v (target_option SSI_Raid10 []) w1 = (False, w2)
        \<and> getSpareableEndDevices disks = Some ds \<and> w' = snd (removeSpares os a True ds w2)"
    and "toRaid5 os v (Some a) s disks w = Some (SSI_StatusFailed, w') \<Longrightarrow>
      \<exists>w2 ds ch. reshape os v (target_option SSI_Raid5 ch) w1 = (False, w2)
        \<and> getSpareableEndDevices disks = Some ds \<and> w' = snd (removeSpares os a True ds w2)"
proof -
  have no: "refused st x = (SSI_StatusFailed, y) \<Longrightarrow> canAddEndDevices a disks = Some st \<Longrightarrow> False" for st x y
    using canAdd_status [of a disks st] by (auto simp: refused_def)
  show "toRaid10 os v (Some a) s disks w = Some (SSI_StatusFailed, w') \<Longrightarrow>
      \<exists>w2 ds. reshape os v (target_option SSI_Raid10 []) w1 = (False, w2)
        \<and> getSpareableEndDevices disks = Some ds \<and> w' = snd (removeSpares os a True ds w2)"
    unfolding toRaid10_def
    by (auto simp: added target_option_def Let_def dest: no split: if_splits option.splits prod.splits)
  show "toRaid5 os v (Some a) s disks w = Some (SSI_StatusFailed, w') \<Longrightarrow>
      \<exists>w2 ds ch. reshape os v (target_option SSI_Raid5 ch) w1 = (False, w2)
        \<and> getSpareableEndDevices disks = Some ds \<and> w' = snd (removeSpares os a True ds w2)"
    unfolding toRaid5_def raid5_from_0_def
    by (auto simp: added level target_option_def Let_def dest: no split: if_splits option.splits prod.splits sum.splits)
qed

text \<open>
  C5. A migration from RAID 0 to RAID 10 or RAID 5 that fails after the disks were added as spares takes
  them out again: after the failed command, each disk that was not a spare before is detached.
\<close>

theorem failed_migration_rolls_back:
  assumes works: "shell_works os" and level: "m_RaidLevel v = 0"
    and target: "raidLevel = SSI_Raid10 \<or> raidLevel = SSI_Raid5" and info: "getRaidInfo v \<noteq> None"
    and added: "addSpare os a disks w = (SSI_StatusOk, w1)"
    and run: "modify os junk v (Some a) stripSize raidLevel newSize disks w = Some (SSI_StatusFailed, w')"
  shows "\<exists>ch undo. trace w' = trace w1 @ mdadm_run (reshape_command v (target_option raidLevel ch)) # undo \<and>
     (\<forall>d\<in>set disks. getDiskUsage d \<noteq> SSI_DiskUsageSpare \<longrightarrow> mdadm_run (detach_command a d) \<in> set undo)"
proof -
  obtain ri where ri: "getRaidInfo v = Some ri" using info by blast
  have ok: "modify_check junk ri v stripSize raidLevel newSize disks = SSI_StatusOk"
    using run ri by (auto simp: modify_def modify_check_def Let_def split: if_splits)
  have "\<exists>w2 ds ch. reshape os v (target_option raidLevel ch) w1 = (False, w2)
      \<and> getSpareableEndDevices disks = Some ds \<and> w' = snd (removeSpares os a True ds w2)"
    using target
  proof
    assume t: "raidLevel = SSI_Raid10"
    with run ri ok have "toRaid10 os v (Some a) stripSize disks w = Some (SSI_StatusFailed, w')"
      by (simp add: modify_def)
    from redundant_migration_failed(1) [OF level added this] t show ?thesis by blast
  next
    assume t: "raidLevel = SSI_Raid5"
    with run ri ok have "toRaid5 os v (Some a) stripSize disks w = Some (SSI_StatusFailed, w')"
      by (simp add: modify_def)
    from redundant_migration_failed(2) [OF level added this] t show ?thesis by blast
  qed
  then obtain w2 ds ch where *: "reshape os v (target_option raidLevel ch) w1 = (False, w2)"
    "getSpareableEndDevices disks = Some ds" "w' = snd (removeSpares os a True ds w2)" by blast
  have ds: "ds = filter (\<lambda>d. getDiskUsage d \<noteq> SSI_DiskUsageSpare) disks"
    using *(2) by (auto simp: getSpareableEndDevices_def split: if_splits)
  obtain undo where "trace w' = trace w2 @ undo" "\<forall>d\<in>set ds. mdadm_run (detach_command a d) \<in> set undo"
    using spares.drop_detaches [OF works, of a ds w2] *(3) by blast
  moreover have "trace w2 = trace w1 @ [mdadm_run (reshape_command v (target_option raidLevel ch))]"
    using reshape_result [OF *(1)] started_if_works [OF works] by simp
  ultimately show ?thesis by (auto simp: ds)
qed

definition half_broken :: env where
  "half_broken = \<lparr>popen = (\<lambda>tr c. Some (if tr = [] then 0 else 256, [])), open_error = (\<lambda>tr p. None), read_file = (\<lambda>tr p. None),
     path_exists = (\<lambda>tr p. False), canonical_path = (\<lambda>p. p)\<rparr>"

lemma half_broken_runs:
  "shell_works half_broken" "succeeds half_broken [] c" "tr \<noteq> [] \<Longrightarrow> \<not> succeeds half_broken tr c"
  by (simp_all add: shell_works_def half_broken_def succeeds_def answer_def WEXITSTATUS_def)

theorem failed_migration_rolls_back_witness:
  "\<exists>w'. modify half_broken blank_info demo_volume (Some demo_array) 0 SSI_Raid10 0 [demo_disk ''sdc'', demo_disk ''sdd''] start_world
       = Some (SSI_StatusFailed, w') \<and> mdadm_run (detach_command demo_array (demo_disk ''sdc'')) \<in> set (trace w')"
proof -
  let ?ds = "[demo_disk ''sdc'', demo_disk ''sdd'']"
  have level: "m_RaidLevel demo_volume = 0" "length (m_BlockDevices demo_volume) = 2" "\<not> chunk_change demo_volume 0"
    by (simp_all add: demo_volume_def chunk_change_def)
  have check: "modify_check blank_info vmd_standard demo_volume 0 SSI_Raid10 0 ?ds = SSI_StatusOk"
    by (rule demo_check) (simp add: demo_disk_def)
  have add: "canAddEndDevices demo_array ?ds = Some SSI_StatusOk" "getSpareableEndDevices ?ds = Some ?ds"
    "spares_to_add demo_array ?ds = Inr ?ds"
    by (simp_all add: canAddEndDevices_def demo_array_def demo_member_def demo_disk_def getSpareableEndDevices_def)
  have empty: "trace start_world = []" by (simp add: start_world_def)
  obtain w1 where added: "addSpare half_broken demo_array ?ds start_world = (SSI_StatusOk, w1)" and w1: "trace w1 \<noteq> []"
    using add(3) shellEx_ok [of half_broken start_world] half_broken_runs(2) empty by (simp add: addSpare_def)
  obtain ok w2 where step: "reshape half_broken demo_volume '' -l10'' w1 = (ok, w2)" by fastforce
  with reshape_result [OF step] half_broken_runs(3) [OF w1] have "\<not> ok" by blast
  with step obtain w' where run: "modify half_broken blank_info demo_volume (Some demo_array) 0 SSI_Raid10 0 ?ds start_world
      = Some (SSI_StatusFailed, w')"
    by (simp add: modify_def demo_info check toRaid10_def level add added Let_def)
  from demo_info have info: "getRaidInfo demo_volume \<noteq> None" by simp
  from failed_migration_rolls_back [OF half_broken_runs(1) level(1) _ info added run] run show ?thesis
    by (auto simp: demo_disk_def)
qed

end
