(* ===== verification/Events.thy ===== *)
theory Events
  imports Handles
begin

text \<open>
  \<open>event.cpp\<close>, \<open>event_manager.cpp\<close> and \<open>src/event.cpp\<close>: the event an application waits for, a System V
  semaphore that the event monitor posts.

  The kernel's semaphore sets are part of the state, with the set that belongs to the key of
  \<open>ftok\<close>.  Set identifiers are not reused.  Whether \<open>ftok\<close> and \<open>semget\<close> succeed, what the pid file says
  and whether the monitor can be started are parameters.
\<close>

subsection \<open>Semaphores\<close>

record kernel =
  sem_value :: "int \<rightharpoonup> nat"
  key_set :: "int option"
  next_set :: int

definition semget :: "kernel \<Rightarrow> int \<times> kernel" where
  "semget k =
     (case key_set k of
        Some i \<Rightarrow> (i, k)
      | None \<Rightarrow> (next_set k, k\<lparr>sem_value := (sem_value k)(next_set k \<mapsto> 0), key_set := Some (next_set k),
                                next_set := next_set k + 1\<rparr>))"

text \<open>\<open>semctl(id, 0, IPC_RMID)\<close>\<close>

definition remove_set :: "int \<Rightarrow> kernel \<Rightarrow> kernel" where
  "remove_set i k =
     k\<lparr>sem_value := (sem_value k)(i := None), key_set := (if key_set k = Some i then None else key_set k)\<rparr>"

text \<open>The monitor, or any process with the key, posts.\<close>

definition post :: "kernel \<Rightarrow> kernel" where
  "post k =
     (case key_set k of
        None \<Rightarrow> k
      | Some i \<Rightarrow> k\<lparr>sem_value := (sem_value k)(i := map_option Suc (sem_value k i))\<rparr>)"

subsection \<open>An event\<close>

text \<open>
  \<open>m_semId\<close> of each event object.  \<open>registerEvent\<close> of the class \<open>Event\<close> stores the result of \<open>semget\<close>
  even when it is -1.
\<close>

record event_mgr =
  m_events :: "nat handle_mgr"
  m_semId :: "nat \<Rightarrow> int"
  allocated_events :: nat
  m_notInitialized :: bool
  os :: kernel

definition event_register :: "bool \<Rightarrow> bool \<Rightarrow> nat \<Rightarrow> event_mgr \<Rightarrow> bool \<times> event_mgr" where
  "event_register ftok_ok semget_ok e m =
     (if \<not> ftok_ok then (False, m)
      else if \<not> semget_ok then (False, m\<lparr>m_semId := (m_semId m)(e := -1)\<rparr>)
      else let (i, k) = semget (os m) in (True, m\<lparr>m_semId := (m_semId m)(e := i), os := k\<rparr>))"

definition event_destroy :: "nat \<Rightarrow> event_mgr \<Rightarrow> event_mgr" where
  "event_destroy e m = m\<lparr>os := remove_set (m_semId m e) (os m)\<rparr>"

text \<open>The relative timeout of \<open>semtimedop\<close>: seconds and nanoseconds.\<close>

definition wait_timespec :: "u32 \<Rightarrow> nat \<times> nat" where
  "wait_timespec timeout = (unat (timeout div 1000), unat ((timeout mod 1000) * 1000))"

text \<open>
  \<open>wait\<close>: with a positive value the semaphore is taken at once; with a value of 0 the call blocks, and
  \<open>posted t\<close> tells whether a post arrives within the time \<open>t\<close>.
\<close>

definition event_wait :: "(nat \<times> nat \<Rightarrow> bool) \<Rightarrow> u32 \<Rightarrow> nat \<Rightarrow> event_mgr \<Rightarrow> SSI_Status \<times> event_mgr" where
  "event_wait posted timeout e m =
     (case sem_value (os m) (m_semId m e) of
        None \<Rightarrow> (SSI_StatusFailed, m)
      | Some 0 \<Rightarrow> (if posted (wait_timespec timeout) then (SSI_StatusOk, m) else (SSI_StatusTimeout, m))
      | Some (Suc n) \<Rightarrow>
          (SSI_StatusOk, m\<lparr>os := (os m)\<lparr>sem_value := (sem_value (os m))(m_semId m e \<mapsto> n)\<rparr>\<rparr>))"

subsection \<open>The event manager\<close>

definition MAX_EVENT_HANDLES :: nat where "MAX_EVENT_HANDLES = 1"

definition unregisterEvent :: "SSI_Handle \<Rightarrow> event_mgr \<Rightarrow> SSI_Status \<times> event_mgr" where
  "unregisterEvent handle m =
     (if handle = SSI_NULL_HANDLE then (SSI_StatusInvalidParameter, m)
      else let (pEvent, es) = hm_remove_handle handle (m_events m) in
           case pEvent of
             None \<Rightarrow> (SSI_StatusInvalidHandle, m\<lparr>m_events := es\<rparr>)
           | Some e \<Rightarrow> (SSI_StatusOk, event_destroy e (m\<lparr>m_events := es\<rparr>)))"

text \<open>\<open>pid\<close> is the process the pid file names, 0 for none.\<close>

definition startEventMonitor :: "nat \<Rightarrow> bool \<Rightarrow> event_mgr \<Rightarrow> event_mgr" where
  "startEventMonitor pid started_ok m =
     (if pid = 0 \<and> started_ok then m\<lparr>m_notInitialized := False\<rparr> else m)"

text \<open>
  A failed registration removes the event again.  The local pointer keeps the object alive until
  the function returns, so that it is destroyed once, at the end.
\<close>

definition registerEvent :: "bool \<Rightarrow> bool \<Rightarrow> nat \<Rightarrow> bool \<Rightarrow> event_mgr \<Rightarrow> SSI_Handle \<times> event_mgr" where
  "registerEvent ftok_ok semget_ok pid started_ok m =
     (if hm_size (m_events m) = MAX_EVENT_HANDLES then (SSI_NULL_HANDLE, m)
      else let e = allocated_events m;
               m0 = m\<lparr>allocated_events := Suc e, m_semId := (m_semId m)(e := 0)\<rparr>;
               ((h, inserted), es) = hm_insert e (m_events m0);
               m1 = m0\<lparr>m_events := es\<rparr> in
           if \<not> inserted then (SSI_NULL_HANDLE, event_destroy e m1)
           else let (ok, m2) = event_register ftok_ok semget_ok e m1 in
                if ok
                then (getHandle (m_events m2) e,
                      if m_notInitialized m2 then startEventMonitor pid started_ok m2 else m2)
                else (SSI_NULL_HANDLE, snd (unregisterEvent (getHandle (m_events m2) e) m2)))"

definition getEvent :: "SSI_Handle \<Rightarrow> event_mgr \<Rightarrow> nat option" where
  "getEvent handle m = hm_at (m_events m) handle"

text \<open>
  The loop of \<open>~EventManager\<close>: the first event is unregistered until none is left.  A null handle,
  which the registry never holds (\<open>hm_ok\<close>), would make the loop of the code endless.
\<close>

function unregister_all :: "event_mgr \<Rightarrow> event_mgr" where
  "unregister_all m =
     (case m_objects (m_events m) of
        [] \<Rightarrow> m
      | (h, e) # _ \<Rightarrow>
          (if h = SSI_NULL_HANDLE then m else unregister_all (snd (unregisterEvent h m))))"
  by pat_completeness auto
termination
proof (relation "measure (\<lambda>m. length (m_objects (m_events m)))")
  fix m :: event_mgr and p ps h e
  assume "m_objects (m_events m) = p # ps" "(h, e) = p" "h \<noteq> SSI_NULL_HANDLE"
  then show "(snd (unregisterEvent h m), m) \<in> measure (\<lambda>m. length (m_objects (m_events m)))"
    by (auto simp: unregisterEvent_def hm_remove_handle_def event_destroy_def setHandle_def less_Suc_eq_le)
qed simp

subsection \<open>Entry points\<close>

definition SsiGetEventHandle :: "bool \<Rightarrow> bool \<Rightarrow> nat \<Rightarrow> bool \<Rightarrow> bool \<Rightarrow> event_mgr option
    \<Rightarrow> (SSI_Status \<times> SSI_Handle option) \<times> event_mgr option" where
  "SsiGetEventHandle ftok_ok semget_ok pid started_ok pointer_null pContextMgr =
     (case pContextMgr of
        None \<Rightarrow> ((SSI_StatusNotInitialized, None), None)
      | Some m \<Rightarrow>
          (if pointer_null then ((SSI_StatusInvalidParameter, None), Some m)
           else let (h, m') = registerEvent ftok_ok semget_ok pid started_ok m in
                ((if h = SSI_NULL_HANDLE then SSI_StatusInsufficientResources else SSI_StatusOk, Some h), Some m')))"

definition SsiFreeEventHandle :: "SSI_Handle \<Rightarrow> event_mgr option \<Rightarrow> SSI_Status \<times> event_mgr option" where
  "SsiFreeEventHandle eventHandle pContextMgr =
     (case pContextMgr of
        None \<Rightarrow> (SSI_StatusNotInitialized, None)
      | Some m \<Rightarrow> let (st, m') = unregisterEvent eventHandle m in (st, Some m'))"

definition SsiEventWait :: "(nat \<times> nat \<Rightarrow> bool) \<Rightarrow> u32 \<Rightarrow> SSI_Handle \<Rightarrow> event_mgr option \<Rightarrow> SSI_Status \<times> event_mgr option" where
  "SsiEventWait posted timeout eventHandle pContextMgr =
     (case pContextMgr of
        None \<Rightarrow> (SSI_StatusNotInitialized, None)
      | Some m \<Rightarrow>
          (case getEvent eventHandle m of
             None \<Rightarrow> (SSI_StatusInvalidHandle, Some m)
           | Some e \<Rightarrow> let (st, m') = event_wait posted timeout e m in (st, Some m')))"

subsection \<open>Reachable states\<close>

definition kernel_ok :: "kernel \<Rightarrow> bool" where
  "kernel_ok k \<longleftrightarrow> 0 \<le> next_set k \<and> (\<forall>i n. sem_value k i = Some n \<longrightarrow> i < next_set k) \<and>
     (\<forall>i. key_set k = Some i \<longrightarrow> sem_value k i \<noteq> None)"

definition new_manager :: "kernel \<Rightarrow> event_mgr" where
  "new_manager k = \<lparr>m_events = hm_empty, m_semId = (\<lambda>_. 0), allocated_events = 0, m_notInitialized = True, os = k\<rparr>"

text \<open>Other processes may post, create the set of the key and remove it at any time.\<close>

inductive reachable_events :: "event_mgr \<Rightarrow> bool" where
  start: "kernel_ok k \<Longrightarrow> reachable_events (new_manager k)"
| register: "reachable_events m \<Longrightarrow> reachable_events (snd (registerEvent f s p d m))"
| unregister: "reachable_events m \<Longrightarrow> reachable_events (snd (unregisterEvent h m))"
| waited: "reachable_events m \<Longrightarrow> getEvent h m = Some e \<Longrightarrow> reachable_events (snd (event_wait posted t e m))"
| posted: "reachable_events m \<Longrightarrow> reachable_events (m\<lparr>os := post (os m)\<rparr>)"
| foreign_get: "reachable_events m \<Longrightarrow> reachable_events (m\<lparr>os := snd (semget (os m))\<rparr>)"
| foreign_remove: "reachable_events m \<Longrightarrow> reachable_events (m\<lparr>os := remove_set i (os m)\<rparr>)"

definition events_ok :: "event_mgr \<Rightarrow> bool" where
  "events_ok m \<longleftrightarrow> kernel_ok (os m) \<and> hm_ok (m_events m) \<and> hm_size (m_events m) \<le> MAX_EVENT_HANDLES \<and>
     (\<forall>e\<ge>allocated_events m. m_handle (m_events m) e = SSI_NULL_HANDLE)"

lemma kernel_ok_semget: "kernel_ok k \<Longrightarrow> kernel_ok (snd (semget k))"
  by (cases "key_set k") (fastforce simp: kernel_ok_def semget_def)+

lemma kernel_ok_remove: "kernel_ok k \<Longrightarrow> kernel_ok (remove_set i k)"
  by (auto simp: kernel_ok_def remove_set_def)

lemma kernel_ok_post: "kernel_ok k \<Longrightarrow> kernel_ok (post k)"
  by (auto simp: kernel_ok_def post_def split: option.splits if_splits)

lemma semget_fresh: "kernel_ok k \<Longrightarrow> semget k = (i, k') \<Longrightarrow> \<exists>n. sem_value k' i = Some n"
  by (auto simp: kernel_ok_def semget_def split: option.splits)

lemma hm_size_remove: "hm_size (snd (hm_remove_handle h r)) \<le> hm_size r"
  by (auto simp: hm_size_def hm_remove_handle_def setHandle_def split: option.splits)

lemma hm_remove_null: "m_handle r x = SSI_NULL_HANDLE \<Longrightarrow> hm_ok r \<Longrightarrow>
    m_handle (snd (hm_remove_handle h r)) x = SSI_NULL_HANDLE"
  using hm.removed [of r h] hm.missing [of r h] by (cases "hm_at r h") auto

lemma event_destroy_fields [simp]:
  "m_events (event_destroy e m) = m_events m" "allocated_events (event_destroy e m) = allocated_events m"
  "m_semId (event_destroy e m) = m_semId m" "os (event_destroy e m) = remove_set (m_semId m e) (os m)"
  by (simp_all add: event_destroy_def)

lemma unregisterEvent_fields:
  "m_events (snd (unregisterEvent h m)) = m_events m \<or>
   m_events (snd (unregisterEvent h m)) = snd (hm_remove_handle h (m_events m))"
  "allocated_events (snd (unregisterEvent h m)) = allocated_events m"
  "os (snd (unregisterEvent h m)) = os m \<or> (\<exists>i. os (snd (unregisterEvent h m)) = remove_set i (os m))"
  by (auto simp: unregisterEvent_def Let_def split: prod.splits option.splits)

lemma events_ok_unregister:
  assumes "events_ok m"
  shows "events_ok (snd (unregisterEvent h m))"
proof -
  have k: "kernel_ok (os (snd (unregisterEvent h m)))"
    using unregisterEvent_fields(3) [of h m] assms by (auto simp: events_ok_def kernel_ok_remove)
  have "hm_size (snd (hm_remove_handle h (m_events m))) \<le> MAX_EVENT_HANDLES"
    using hm_size_remove [of h "m_events m"] assms by (simp add: events_ok_def)
  moreover have "hm_ok (snd (hm_remove_handle h (m_events m)))"
    using hm.ok_remove [of "m_events m" h] assms by (simp add: events_ok_def)
  moreover have "\<forall>e\<ge>allocated_events m. m_handle (snd (hm_remove_handle h (m_events m))) e = SSI_NULL_HANDLE"
    using hm_remove_null [of "m_events m" _ h] assms by (simp add: events_ok_def)
  ultimately show ?thesis
    using k unregisterEvent_fields(1) [of h m] unregisterEvent_fields(2) [of h m] assms
    by (auto simp: events_ok_def)
qed

lemma hm_empty_objects: "hm_ok r \<Longrightarrow> hm_size r = 0 \<Longrightarrow> r = hm_empty"
  by (cases r) (auto simp: hm_size_def hm_empty_def hm_ok_def)

lemma hm_insert_into_empty:
  "hm_insert e hm_empty = ((1, True), \<lparr>m_objects = [(1, e)], m_handle = (\<lambda>_. SSI_NULL_HANDLE)(e := 1)\<rparr>)"
  by (simp add: hm_insert_def getUniqueHandle_def getHandle_def hm_at_def hm_empty_def setHandle_def)

definition one_event :: "nat \<Rightarrow> nat handle_mgr" where
  "one_event e = \<lparr>m_objects = [(1, e)], m_handle = (\<lambda>_. SSI_NULL_HANDLE)(e := 1)\<rparr>"

lemma one_event_ok: "hm_ok (one_event e)" "hm_size (one_event e) = 1"
  by (auto simp: hm_ok_def one_event_def live_def hm_size_def)

lemma remove_one_event: "hm_remove_handle 1 (one_event e) = (Some e, hm_empty)"
  by (auto simp: hm_remove_handle_def one_event_def setHandle_def hm_empty_def)

lemma registerEvent_full: "hm_size (m_events m) = MAX_EVENT_HANDLES \<Longrightarrow> registerEvent f s p d m = (SSI_NULL_HANDLE, m)"
  by (simp add: registerEvent_def)

lemma startEventMonitor_fields [simp]:
  "m_events (startEventMonitor p d m) = m_events m" "os (startEventMonitor p d m) = os m"
  "m_semId (startEventMonitor p d m) = m_semId m" "allocated_events (startEventMonitor p d m) = allocated_events m"
  by (simp_all add: startEventMonitor_def)

lemma registerEvent_first:
  assumes "events_ok m" "hm_size (m_events m) = 0" "registerEvent f s p d m = (h, m')"
  shows "(f \<and> s \<longrightarrow> h = 1 \<and> m_events m' = one_event (allocated_events m) \<and>
            (\<exists>n. sem_value (os m') (m_semId m' (allocated_events m)) = Some n))
       \<and> (\<not> (f \<and> s) \<longrightarrow> h = SSI_NULL_HANDLE \<and> m_events m' = hm_empty)
       \<and> kernel_ok (os m') \<and> allocated_events m' = Suc (allocated_events m)"
proof -
  have e: "m_events m = hm_empty" and k: "kernel_ok (os m)"
    using assms(1,2) hm_empty_objects by (auto simp: events_ok_def)
  obtain i k' where g: "semget (os m) = (i, k')" by fastforce
  have i: "\<exists>n. sem_value k' i = Some n" "kernel_ok k'"
    using semget_fresh [OF k g] kernel_ok_semget [OF k] g by auto
  have size: "hm_size hm_empty \<noteq> MAX_EVENT_HANDLES"
    by (simp add: hm_size_def hm_empty_def MAX_EVENT_HANDLES_def)
  show ?thesis
    using assms(3) i k size remove_one_event [of "allocated_events m"]
    by (auto simp: registerEvent_def e hm_insert_into_empty one_event_def [symmetric] event_register_def g Let_def
        getHandle_def unregisterEvent_def kernel_ok_remove split: if_splits)
       (auto simp: one_event_def kernel_ok_remove)
qed


lemma events_ok_register:
  assumes "events_ok m"
  shows "events_ok (snd (registerEvent f s p d m))"
proof (cases "hm_size (m_events m) = MAX_EVENT_HANDLES")
  case True
  then show ?thesis using assms by (simp add: registerEvent_full)
next
  case False
  then have "hm_size (m_events m) = 0"
    using assms by (simp add: events_ok_def MAX_EVENT_HANDLES_def)
  from registerEvent_first [OF assms this prod.collapse [symmetric], of f s p d]
  have "kernel_ok (os (snd (registerEvent f s p d m)))"
       "allocated_events (snd (registerEvent f s p d m)) = Suc (allocated_events m)"
       "m_events (snd (registerEvent f s p d m)) = one_event (allocated_events m)
        \<or> m_events (snd (registerEvent f s p d m)) = hm_empty"
    by blast+
  then show ?thesis
    using one_event_ok [of "allocated_events m"] hm_ok_empty
    by (auto simp: events_ok_def MAX_EVENT_HANDLES_def hm_empty_def hm_size_def one_event_def)
qed

lemma event_wait_fields:
  "m_events (snd (event_wait posted t e m)) = m_events m"
  "allocated_events (snd (event_wait posted t e m)) = allocated_events m"
  "kernel_ok (os m) \<Longrightarrow> kernel_ok (os (snd (event_wait posted t e m)))"
  by (auto simp: event_wait_def kernel_ok_def split: option.splits nat.splits)

lemma reachable_events_ok: "reachable_events m \<Longrightarrow> events_ok m"
proof (induction rule: reachable_events.induct)
  case (start k)
  then show ?case
    using hm_ok_empty by (auto simp: events_ok_def new_manager_def hm_size_def hm_empty_def)
next
  case (waited m h e posted t)
  then show ?case by (simp add: events_ok_def event_wait_fields)
next
  case (register m f s p d)
  then show ?case by (simp add: events_ok_register)
next
  case (unregister m h)
  then show ?case by (simp add: events_ok_unregister)
qed (simp_all add: events_ok_def kernel_ok_post kernel_ok_semget kernel_ok_remove)

subsection \<open>Properties\<close>


definition idle_kernel :: kernel where
  "idle_kernel = \<lparr>sem_value = Map.empty, key_set = None, next_set = 0\<rparr>"

lemma idle_kernel_ok: "kernel_ok idle_kernel"
  by (simp add: kernel_ok_def idle_kernel_def)


text \<open>
  How long a wait lasts.  The timeout is given in milliseconds; the timeout handed to
  \<open>semtimedop\<close> never exceeds it and is a legal \<open>timespec\<close>, but equals it only when the timeout is a
  multiple of a second: the milliseconds left over are turned into microseconds.
\<close>

theorem event_wait_duration:
  "snd (wait_timespec timeout) < 1000000000
   \<and> fst (wait_timespec timeout) * 1000000000 + snd (wait_timespec timeout) \<le> unat timeout * 1000000
   \<and> (fst (wait_timespec timeout) * 1000000000 + snd (wait_timespec timeout) = unat timeout * 1000000
       \<longleftrightarrow> 1000 dvd unat timeout)"
proof -
  let ?t = "unat timeout"
  have r: "?t mod 1000 < 1000" by simp
  have ns: "snd (wait_timespec timeout) = (?t mod 1000) * 1000"
    using r by (simp add: wait_timespec_def unat_word_ariths unat_mod unat_of_nat)
  have sec: "fst (wait_timespec timeout) = ?t div 1000"
    by (simp add: wait_timespec_def unat_div)
  have whole: "?t * 1000000 = ?t div 1000 * 1000000000 + (?t mod 1000) * 1000000"
    using div_mult_mod_eq [of ?t 1000] by linarith
  show ?thesis
    unfolding ns sec whole using r by (auto simp: dvd_eq_mod_eq_0)
qed

text \<open>
  A registration that fails because \<open>ftok\<close> failed still destroys an event whose set number is the
  initial 0, and so removes the semaphore set 0 whatever process it belongs to.
\<close>

lemma failed_registration_removes_set_0:
  assumes "reachable_events m" "m_objects (m_events m) = []"
  shows "SsiGetEventHandle False s p d False (Some m) =
     ((SSI_StatusInsufficientResources, Some SSI_NULL_HANDLE),
      Some (event_destroy (allocated_events m)
        (m\<lparr>allocated_events := Suc (allocated_events m), m_semId := (m_semId m)(allocated_events m := 0),
           m_events := hm_empty\<rparr>)))
   \<and> sem_value (remove_set 0 (os m)) 0 = None"
proof -
  have "m_events m = hm_empty"
    using reachable_events_ok [OF assms(1)] assms(2) hm_empty_objects by (auto simp: events_ok_def hm_size_def)
  moreover have "hm_size hm_empty \<noteq> MAX_EVENT_HANDLES"
    by (simp add: hm_size_def hm_empty_def MAX_EVENT_HANDLES_def)
  ultimately show ?thesis
    using remove_one_event [of "allocated_events m"]
    by (simp add: SsiGetEventHandle_def registerEvent_def hm_insert_into_empty one_event_def [symmetric]
        event_register_def Let_def getHandle_def unregisterEvent_def remove_set_def)
       (auto simp: one_event_def)
qed

lemma unregister_all_empties: "reachable_events m \<Longrightarrow> m_objects (m_events (unregister_all m)) = []"
proof (induction m rule: unregister_all.induct)
  case (1 m)
  show ?case
  proof (cases "m_objects (m_events m)")
    case (Cons p ps)
    obtain h e where p: "p = (h, e)" by fastforce
    have "h \<noteq> SSI_NULL_HANDLE"
      using reachable_events_ok [OF 1(2)] Cons p by (auto simp: events_ok_def hm_ok_def live_def)
    with 1 Cons p show ?thesis by (simp add: reachable_events.unregister)
  qed simp
qed

end
