(* ===== verification/Utf8_String.thy ===== *)
theory Utf8_String
  imports Utils
begin

text \<open>
  \<open>class String\<close> (\<open>string.h\<close>, \<open>string.cpp\<close>) on its buffer of UTF-8 bytes.

  The first bytes of the buffer, up to the length of \<open>m_buffer\<close>, have been written; the others are
  allocated and indeterminate.  A store behind the capacity, or one that would leave an indeterminate
  byte inside the text, is \<open>None\<close>.  A \<open>const char *\<close> argument is the list of its bytes; the byte
  behind the end is the terminator.  Strings are shorter than \<open>npos\<close>, so that the
  32 bit sizes of the code do not overflow and are numbers here.

  The other theories treat command lines and messages as lists of characters.  The refinement
  theorem of this theory is the reason: on ASCII text every operation is the operation on lists.
\<close>

subsection \<open>UTF-8 sequences\<close>

definition byte_at :: "byte list \<Rightarrow> nat \<Rightarrow> byte" where
  "byte_at b i = (if i < length b then b ! i else 0)"

definition npos :: nat where "npos = 2 ^ 32 - 1"

definition utf8_sequence_type :: "byte \<Rightarrow> nat" where
  "utf8_sequence_type c =
     (if c < 0x7f then 1
      else if drop_bit 5 c = 0x06 then 2
      else if drop_bit 4 c = 0x0e then 3
      else if drop_bit 3 c = 0x1e then 4
      else 0)"

text \<open>\<open>None\<close> is the exception \<open>E_INVALID_SEQUENCE\<close>.\<close>

definition utf8_skip_byte :: "byte list \<Rightarrow> nat \<Rightarrow> nat option" where
  "utf8_skip_byte b i = (if drop_bit 6 (byte_at b i) \<noteq> 0x02 then None else Some (i + 1))"

definition utf8_skip_bytes :: "byte list \<Rightarrow> nat \<Rightarrow> nat \<Rightarrow> nat option" where
  "utf8_skip_bytes b i seqType =
     (if seqType = 1 then Some (i + 1)
      else if seqType = 2 then utf8_skip_byte b (i + 1)
      else if seqType = 3 then do { j \<leftarrow> utf8_skip_byte b (i + 1); utf8_skip_byte b j }
      else if seqType = 4
      then do { j \<leftarrow> utf8_skip_byte b (i + 1); k \<leftarrow> utf8_skip_byte b j; utf8_skip_byte b k }
      else None)"

definition utf8_skip_sequence :: "byte list \<Rightarrow> nat \<Rightarrow> nat option" where
  "utf8_skip_sequence b i = utf8_skip_bytes b i (utf8_sequence_type (byte_at b i))"

lemma byte_at_nonzero: "byte_at b i \<noteq> 0 \<Longrightarrow> i < length b"
  by (auto simp: byte_at_def split: if_splits)

lemma utf8_skip_bytes_forward: "utf8_skip_bytes b i n = Some j \<Longrightarrow> i < j"
  by (auto simp: utf8_skip_bytes_def utf8_skip_byte_def split: if_splits bind_splits)

function utf8_skip_invalid_sequence :: "byte list \<Rightarrow> nat \<Rightarrow> nat" where
  "utf8_skip_invalid_sequence b i =
     (if byte_at b i \<noteq> 0 \<and> utf8_sequence_type (byte_at b i) = 0 then utf8_skip_invalid_sequence b (i + 1) else i)"
  by pat_completeness auto
termination
  by (relation "measure (\<lambda>(b, i). length b - i)") (auto dest: byte_at_nonzero)

function utf8_offset :: "byte list \<Rightarrow> nat \<Rightarrow> nat \<Rightarrow> nat" where
  "utf8_offset b i offset =
     (if byte_at b i = 0 \<or> offset = 0 then i
      else case utf8_skip_sequence b i of
             None \<Rightarrow> i
           | Some j \<Rightarrow> utf8_offset b j (offset - 1))"
  by pat_completeness auto
termination
  by (relation "measure (\<lambda>(b, i, offset). offset)") auto

function utf8_length :: "byte list \<Rightarrow> nat \<Rightarrow> nat \<Rightarrow> nat" where
  "utf8_length b i count =
     (if byte_at b i = 0 \<or> count = 0 then 0
      else let t = utf8_sequence_type (byte_at b i) in
           case utf8_skip_bytes b i t of
             None \<Rightarrow> 0
           | Some j \<Rightarrow> 1 + utf8_length b j (if t < count then count - t else 0))"
  by pat_completeness auto
termination
  by (relation "measure (\<lambda>(b, i, count). length b - i)")
     (auto dest!: utf8_skip_bytes_forward byte_at_nonzero)

declare utf8_skip_invalid_sequence.simps [simp del] utf8_offset.simps [simp del] utf8_length.simps [simp del]

subsection \<open>Trimming\<close>

text \<open>\<open>isspace(c) == 0 && isprint(c)\<close> in the C locale\<close>

definition byte_graph :: "byte \<Rightarrow> bool" where
  "byte_graph c \<longleftrightarrow> 33 \<le> unat c \<and> unat c \<le> 126"

lemma skip_invalid_forward:
  "i \<le> utf8_skip_invalid_sequence b i"
  by (induction b i rule: utf8_skip_invalid_sequence.induct) (subst utf8_skip_invalid_sequence.simps, auto)

lemma skip_invalid_moves:
  "byte_at b i \<noteq> 0 \<Longrightarrow> utf8_sequence_type (byte_at b i) = 0 \<Longrightarrow> i < utf8_skip_invalid_sequence b i"
  using skip_invalid_forward [of "i + 1" b] by (subst utf8_skip_invalid_sequence.simps) auto

lemma sequence_types: "utf8_sequence_type c \<in> {0, 1, 2, 3, 4}"
  by (simp add: utf8_sequence_type_def)

function utf8_trim_left :: "byte list \<Rightarrow> nat \<Rightarrow> nat" where
  "utf8_trim_left b p =
     (if byte_at b p = 0 then p
      else let t = utf8_sequence_type (byte_at b p) in
           if t = 1 \<and> byte_graph (byte_at b p) then p
           else if t \<noteq> 1 \<and> t \<noteq> 0 then p
           else case utf8_skip_bytes b p t of
                  Some q \<Rightarrow> utf8_trim_left b q
                | None \<Rightarrow> utf8_trim_left b (utf8_skip_invalid_sequence b p))"
  by pat_completeness auto
termination
proof (relation "measure (\<lambda>(b, p). length b - p)")
  fix b :: "byte list" and p t
  assume "byte_at b p \<noteq> 0" "t = utf8_sequence_type (byte_at b p)" "\<not> (t \<noteq> 1 \<and> t \<noteq> 0)"
    "utf8_skip_bytes b p t = None"
  then have "p < utf8_skip_invalid_sequence b p" "p < length b"
    by (auto simp: utf8_skip_bytes_def intro: skip_invalid_moves byte_at_nonzero split: if_splits)
  then show "((b, utf8_skip_invalid_sequence b p), b, p) \<in> measure (\<lambda>(b, p). length b - p)" by simp
qed (auto dest!: utf8_skip_bytes_forward byte_at_nonzero)

declare utf8_trim_left.simps [simp del]

text \<open>The loop of \<open>__utf8_trim_right\<close> downwards from \<open>p\<close>; the byte at 0 is never examined.\<close>

fun trim_right_loop :: "byte list \<Rightarrow> nat \<Rightarrow> nat \<Rightarrow> nat" where
  "trim_right_loop b 0 count = 0"
| "trim_right_loop b (Suc p) count =
     (let c = byte_at b (Suc p) in
      if c < 0x7f then (if byte_graph c then Suc p else trim_right_loop b p count)
      else if drop_bit 6 c = 0x02 then trim_right_loop b p (count + 1)
      else if drop_bit 5 c = 0x06 \<and> count = 1 \<or> drop_bit 4 c = 0x0e \<and> count = 2
              \<or> drop_bit 3 c = 0x1e \<and> count = 3 then Suc p
      else trim_right_loop b p 0)"

definition utf8_trim_right :: "byte list \<Rightarrow> nat" where
  "utf8_trim_right b =
     (let e = utf8_offset b 0 npos; p = trim_right_loop b (if e \<noteq> 0 then e - 1 else e) 0 in
      case utf8_skip_sequence b p of None \<Rightarrow> 0 | Some q \<Rightarrow> q)"

subsection \<open>The class\<close>

record cstr =
  m_buffer :: "byte list"
  m_length :: nat
  m_size :: nat
  m_capacity :: nat

definition blank :: cstr where
  "blank = \<lparr>m_buffer = [], m_length = 0, m_size = 0, m_capacity = 0\<rparr>"

definition put :: "nat \<Rightarrow> byte list \<Rightarrow> nat \<Rightarrow> byte \<Rightarrow> byte list option" where
  "put capacity m k c =
     (if k < capacity then
        (if k < length m then Some (m[k := c]) else if k = length m then Some (m @ [c]) else None)
      else None)"

definition str_realloc :: "nat \<Rightarrow> bool \<Rightarrow> cstr \<Rightarrow> cstr" where
  "str_realloc buf_size buf_copy s =
     (if buf_size > m_capacity s
      then s\<lparr>m_buffer := (if buf_copy then take (m_size s) (m_buffer s) @ [0] else []), m_capacity := buf_size\<rparr>
      else s)"

fun copy_bytes :: "byte list \<Rightarrow> nat \<Rightarrow> nat \<Rightarrow> nat \<Rightarrow> byte list \<Rightarrow> (byte list \<times> nat) option" where
  "copy_bytes src k count capacity m =
     (case count of
        0 \<Rightarrow> Some (m, k)
      | Suc n \<Rightarrow>
          (case src of
             [] \<Rightarrow> Some (m, k)
           | c # cs \<Rightarrow> (if c = 0 then Some (m, k)
                        else do { m' \<leftarrow> put capacity m k c; copy_bytes cs (k + 1) n capacity m' })))"

declare copy_bytes.simps [simp del]

definition str_copy :: "byte list \<Rightarrow> nat \<Rightarrow> nat \<Rightarrow> cstr \<Rightarrow> cstr option" where
  "str_copy buf offset count s =
     do { (m, k) \<leftarrow> copy_bytes buf offset count (m_capacity s) (m_buffer s);
          m' \<leftarrow> put (m_capacity s) m k 0;
          Some (s\<lparr>m_buffer := m', m_size := k, m_length := utf8_length m' 0 npos\<rparr>) }"

definition str_assign :: "byte list option \<Rightarrow> nat \<Rightarrow> cstr \<Rightarrow> cstr option" where
  "str_assign buf count s =
     (let count = (case buf of None \<Rightarrow> 0 | Some b \<Rightarrow> if count > 0 then utf8_offset b 0 count else count);
          s1 = str_realloc (count + 1) False s in
      case buf of
        Some b \<Rightarrow> str_copy b 0 count s1
      | None \<Rightarrow> do { m \<leftarrow> put (m_capacity s1) (m_buffer s1) 0 0;
                     Some (s1\<lparr>m_buffer := m, m_size := 0, m_length := 0\<rparr>) })"

text \<open>\<open>String(buf, count)\<close>\<close>

definition mk :: "byte list \<Rightarrow> nat \<Rightarrow> cstr option" where
  "mk buf count = str_assign (Some buf) count blank"

text \<open>\<open>append\<close> of another object\<close>

definition str_append :: "cstr \<Rightarrow> nat \<Rightarrow> cstr \<Rightarrow> cstr option" where
  "str_append t count s =
     (if m_size t \<noteq> 0 \<and> count \<noteq> 0
      then let n = min (m_size t) (utf8_offset (m_buffer t) 0 count) in
           str_copy (m_buffer t) (m_length s) n (str_realloc (m_size s + n + 1) True s)
      else Some s)"

definition isEmpty :: "cstr \<Rightarrow> bool" where
  "isEmpty s \<longleftrightarrow> byte_at (m_buffer s) 0 = 0 \<or> m_length s = 0"

definition str_pop_back :: "cstr \<Rightarrow> exception + cstr" where
  "str_pop_back s =
     (if isEmpty s then Inl E_UNDERFLOW
      else Inr (s\<lparr>m_buffer := (m_buffer s)[m_size s - 1 := 0], m_size := m_size s - 1\<rparr>))"

definition str_last :: "cstr \<Rightarrow> exception + byte" where
  "str_last s = (if isEmpty s then Inl E_UNDERFLOW else Inr (byte_at (m_buffer s) (m_size s - 1)))"

function find_loop :: "byte list \<Rightarrow> nat \<Rightarrow> byte list \<Rightarrow> nat \<Rightarrow> nat \<Rightarrow> nat option" where
  "find_loop m sz pat offset j =
     (if offset + j \<le> sz
      then if byte_at pat j = 0 then Some offset
           else if byte_at m (offset + j) = byte_at pat j then find_loop m sz pat offset (j + 1)
           else find_loop m sz pat (offset + 1) 0
      else None)"
  by pat_completeness auto
termination
  by (relation "measures [\<lambda>(m, sz, pat, offset, j). sz + 1 - offset,
                          \<lambda>(m, sz, pat, offset, j). sz + 1 - (offset + j)]") auto

declare find_loop.simps [simp del]

definition string_find :: "byte list option \<Rightarrow> nat \<Rightarrow> cstr \<Rightarrow> exception + nat" where
  "string_find buf offset s =
     (case buf of
        None \<Rightarrow> Inl E_NOT_FOUND
      | Some b \<Rightarrow>
          (case find_loop (m_buffer s) (m_size s) b (utf8_offset (m_buffer s) 0 offset) 0 of
             None \<Rightarrow> Inl E_NOT_FOUND
           | Some p \<Rightarrow> Inr (utf8_length (m_buffer s) 0 p)))"

function reverse_find_loop :: "byte list \<Rightarrow> byte list \<Rightarrow> nat \<Rightarrow> nat \<Rightarrow> nat option" where
  "reverse_find_loop m pat offset j =
     (if byte_at pat j = 0 then Some offset
      else if byte_at m (offset + j) = byte_at pat j then reverse_find_loop m pat offset (j + 1)
      else if offset = 0 then None
      else reverse_find_loop m pat (offset - 1) 0)"
  by pat_completeness auto
termination
  by (relation "measures [\<lambda>(m, pat, offset, j). offset, \<lambda>(m, pat, offset, j). length pat - j]")
     (auto dest: byte_at_nonzero)

declare reverse_find_loop.simps [simp del]

definition string_reverse_find :: "byte list option \<Rightarrow> nat \<Rightarrow> cstr \<Rightarrow> exception + nat" where
  "string_reverse_find buf offset s =
     (case buf of
        None \<Rightarrow> Inl E_NOT_FOUND
      | Some b \<Rightarrow>
          (let off = utf8_offset (m_buffer s) 0 offset; i = utf8_offset b 0 npos in
           case (if off < i then None else reverse_find_loop (m_buffer s) b (off - i) 0) of
             None \<Rightarrow> Inl E_NOT_FOUND
           | Some p \<Rightarrow> Inr (utf8_length (m_buffer s) 0 p)))"

text \<open>\<open>get\<close>: the text from a character on\<close>

definition string_get :: "nat \<Rightarrow> cstr \<Rightarrow> exception + byte list" where
  "string_get offset s =
     (if offset > m_length s then Inl E_INVALID_OFFSET
      else Inr (drop (utf8_offset (m_buffer s) 0 offset) (m_buffer s)))"

definition string_left_n :: "nat \<Rightarrow> cstr \<Rightarrow> cstr option" where
  "string_left_n n s = mk (m_buffer s) n"

definition string_right_n :: "nat \<Rightarrow> cstr \<Rightarrow> cstr option" where
  "string_right_n n s = (case string_get n s of Inl e \<Rightarrow> mk [] npos | Inr b \<Rightarrow> mk b npos)"

definition string_left :: "byte list \<Rightarrow> cstr \<Rightarrow> cstr option" where
  "string_left pat s =
     (case string_find (Some pat) 0 s of Inl e \<Rightarrow> mk [] npos | Inr n \<Rightarrow> string_left_n n s)"

definition string_reverse_left :: "byte list \<Rightarrow> cstr \<Rightarrow> cstr option" where
  "string_reverse_left pat s =
     (case string_reverse_find (Some pat) npos s of Inl e \<Rightarrow> mk [] npos | Inr n \<Rightarrow> string_left_n n s)"

definition string_after :: "cstr \<Rightarrow> cstr \<Rightarrow> cstr option" where
  "string_after pat s =
     (case string_find (Some (m_buffer pat)) 0 s of
        Inl e \<Rightarrow> mk [] npos | Inr n \<Rightarrow> string_right_n (n + m_length pat) s)"

definition string_reverse_after :: "cstr \<Rightarrow> cstr \<Rightarrow> cstr option" where
  "string_reverse_after pat s =
     (case string_reverse_find (Some (m_buffer pat)) npos s of
        Inl e \<Rightarrow> mk [] npos | Inr n \<Rightarrow> string_right_n (n + m_length pat) s)"

definition string_mid :: "nat \<Rightarrow> nat \<Rightarrow> cstr \<Rightarrow> cstr option" where
  "string_mid start end' s =
     (if start < end'
      then case string_get start s of Inl e \<Rightarrow> mk [] npos | Inr b \<Rightarrow> mk b (end' - start)
      else mk [] npos)"

definition string_reverse_mid :: "nat \<Rightarrow> nat \<Rightarrow> cstr \<Rightarrow> cstr option" where
  "string_reverse_mid start end' s =
     (if start \<le> end'
      then do { leftPart \<leftarrow> mk (m_buffer s) start;
                if end' < m_length s
                then case string_get end' s of
                       Inl e \<Rightarrow> mk [] npos
                     | Inr b \<Rightarrow> do { rightPart \<leftarrow> mk b npos; str_append rightPart npos leftPart }
                else Some leftPart }
      else mk [] npos)"

text \<open>\<open>t - p\<close> is converted to \<open>unsigned int\<close>\<close>

definition string_trim :: "cstr \<Rightarrow> cstr option" where
  "string_trim s =
     (let p = utf8_trim_left (m_buffer s) 0; t = utf8_trim_right (m_buffer s);
          b = drop p (m_buffer s) in
      do { tmp \<leftarrow> mk b (utf8_length b 0 (nat ((int t - int p) mod 2 ^ 32)));
           str_assign (Some (m_buffer tmp)) npos s })"

text \<open>The sign of \<open>strncmp\<close>\<close>

fun strncmp :: "byte list \<Rightarrow> byte list \<Rightarrow> nat \<Rightarrow> int" where
  "strncmp a b 0 = 0"
| "strncmp a b (Suc n) =
     (let x = byte_at a 0; y = byte_at b 0 in
      if x \<noteq> y then (if x < y then -1 else 1)
      else if x = 0 then 0 else strncmp (tl a) (tl b) n)"

definition str_compare :: "cstr \<Rightarrow> cstr \<Rightarrow> int" where
  "str_compare t s =
     (let rv = strncmp (m_buffer s) (m_buffer t) (min (m_size t) (m_size s)) in
      if rv \<noteq> 0 then rv else int (m_size s) - int (m_size t))"

definition string_equal :: "cstr \<Rightarrow> cstr \<Rightarrow> bool" where
  "string_equal t s \<longleftrightarrow> str_compare t s = 0"

subsection \<open>ASCII text in a buffer\<close>

definition ascii :: "string \<Rightarrow> bool" where
  "ascii t \<longleftrightarrow> (\<forall>c\<in>set t. (of_char c :: nat) \<in> {1..126})"

definition bytes :: "string \<Rightarrow> byte list" where
  "bytes t = map of_char t"

text \<open>The buffer \<open>b\<close> holds the text \<open>t\<close> and a terminator, if only the end of the list.\<close>

definition holds :: "byte list \<Rightarrow> string \<Rightarrow> bool" where
  "holds b t \<longleftrightarrow> ascii t \<and> take (length t) b = bytes t \<and> byte_at b (length t) = 0"

definition repr :: "cstr \<Rightarrow> string \<Rightarrow> bool" where
  "repr s t \<longleftrightarrow> holds (m_buffer s) t \<and> length t < npos \<and> length t < length (m_buffer s) \<and>
     m_size s = length t \<and> m_length s = length t \<and> length (m_buffer s) \<le> m_capacity s"

lemma unat_of_char: "unat (of_char c :: byte) = of_char c"
proof -
  have "unat (of_nat (of_char c) :: byte) = (of_char c :: nat)"
    by (simp add: unat_of_nat take_bit_nat_eq_self)
  then show ?thesis by (simp add: of_nat_of_char)
qed

lemma of_char_byte_eq [simp]: "(of_char c :: byte) = of_char d \<longleftrightarrow> c = d"
  by (metis unat_of_char of_char_eq_iff)

lemma ascii_simps [simp]:
  "ascii []" "ascii (c # t) \<longleftrightarrow> of_char c \<in> {1..126::nat} \<and> ascii t" "ascii (t @ u) \<longleftrightarrow> ascii t \<and> ascii u"
  by (auto simp: ascii_def)

lemma ascii_nth: "ascii t \<Longrightarrow> i < length t \<Longrightarrow> of_char (t ! i) \<in> {1..126::nat}"
  by (simp add: ascii_def)

lemma ascii_take [simp]: "ascii t \<Longrightarrow> ascii (take n t)"
  and ascii_drop [simp]: "ascii t \<Longrightarrow> ascii (drop n t)"
  by (auto simp: ascii_def dest: in_set_takeD in_set_dropD)

lemma length_bytes [simp]: "length (bytes t) = length t"
  by (simp add: bytes_def)

lemma bytes_simps [simp]:
  "bytes [] = []" "bytes (c # t) = of_char c # bytes t" "bytes (t @ u) = bytes t @ bytes u"
  by (simp_all add: bytes_def)

lemma bytes_take: "bytes (take n t) = take n (bytes t)"
  and bytes_drop: "bytes (drop n t) = drop n (bytes t)"
  by (simp_all add: bytes_def take_map drop_map)

lemma ascii_byte: "of_char c \<in> {1..126::nat} \<Longrightarrow> (of_char c :: byte) \<noteq> 0 \<and> (of_char c :: byte) < 0x7f"
  by (simp add: word_less_nat_alt unat_of_char unat_eq_0 [symmetric])

lemma holds_byte: "holds b t \<Longrightarrow> i < length t \<Longrightarrow> byte_at b i = of_char (t ! i)"
proof -
  assume h: "holds b t" and i: "i < length t"
  then have "take (length t) b = bytes t" by (simp add: holds_def)
  moreover from this have "length t \<le> length b"
    by (metis length_bytes length_take min.absorb_iff1 min.commute)
  ultimately show ?thesis
    using i by (metis byte_at_def bytes_def dual_order.strict_trans1 nth_map nth_take)
qed

lemma holds_end: "holds b t \<Longrightarrow> byte_at b (length t) = 0"
  by (simp add: holds_def)

lemma holds_ascii: "holds b t \<Longrightarrow> i < length t \<Longrightarrow> byte_at b i \<noteq> 0 \<and> byte_at b i < 0x7f"
  using ascii_byte [OF ascii_nth] by (simp add: holds_byte) (simp add: holds_def)

lemma holds_nonzero: "holds b t \<Longrightarrow> i \<le> length t \<Longrightarrow> byte_at b i = 0 \<longleftrightarrow> i = length t"
  using holds_ascii [of b t i] holds_end [of b t] by (cases "i = length t") auto

lemma holds_bytes: "ascii t \<Longrightarrow> holds (bytes t) t"
  by (simp add: holds_def byte_at_def)

lemma holds_append: "ascii t \<Longrightarrow> holds (bytes t @ 0 # z) t"
  by (simp add: holds_def byte_at_def nth_append)

lemma holds_drop: "holds b t \<Longrightarrow> k \<le> length t \<Longrightarrow> holds (drop k b) (drop k t)"
  by (auto simp: holds_def byte_at_def bytes_drop drop_take [symmetric] add.commute split: if_splits)

lemma ascii_step:
  assumes "holds b t" "i < length t"
  shows "utf8_sequence_type (byte_at b i) = 1" "utf8_skip_bytes b i (Suc 0) = Some (i + 1)"
    "utf8_skip_sequence b i = Some (i + 1)"
  using holds_ascii [OF assms] by (simp_all add: utf8_sequence_type_def utf8_skip_bytes_def utf8_skip_sequence_def)

lemma ascii_offset: "holds b t \<Longrightarrow> i \<le> length t \<Longrightarrow> utf8_offset b i n = min (i + n) (length t)"
proof (induction n arbitrary: i)
  case 0
  then show ?case by (subst utf8_offset.simps) simp
next
  case (Suc n)
  then show ?case
    by (subst utf8_offset.simps) (cases "i = length t"; simp add: holds_nonzero ascii_step holds_end)
qed

lemma ascii_length: "holds b t \<Longrightarrow> i \<le> length t \<Longrightarrow> utf8_length b i n = min n (length t - i)"
proof (induction n arbitrary: i)
  case 0
  then show ?case by (subst utf8_length.simps) simp
next
  case (Suc n)
  show ?case
  proof (cases "i = length t")
    case True
    then show ?thesis using Suc.prems by (subst utf8_length.simps) (simp add: holds_end)
  next
    case False
    then have i: "i < length t" using Suc.prems by simp
    have "utf8_length b i (Suc n) = 1 + utf8_length b (i + 1) n"
      using Suc.prems i by (subst utf8_length.simps) (auto simp: Let_def holds_nonzero ascii_step)
    then show ?thesis using Suc.IH [of "i + 1"] Suc.prems i by simp
  qed
qed

subsection \<open>Copying\<close>

lemma put_Some: "k < capacity \<Longrightarrow> k \<le> length m \<Longrightarrow> put capacity m k c = Some (take k m @ c # drop (k + 1) m)"
  by (auto simp: put_def upd_conv_take_nth_drop)

lemma copy_bytes_ascii:
  assumes "holds src t" "k \<le> length m" "k + min count (length t) \<le> capacity"
  shows "copy_bytes src k count capacity m =
    Some (take k m @ bytes (take count t) @ drop (k + min count (length t)) m, k + min count (length t))"
  using assms
proof (induction count arbitrary: src t k m)
  case 0
  then show ?case by (subst copy_bytes.simps) simp
next
  case (Suc n)
  show ?case
  proof (cases t)
    case Nil
    then show ?thesis
      using Suc.prems by (subst copy_bytes.simps) (auto simp: holds_def byte_at_def split: list.splits)
  next
    case (Cons c u)
    obtain z where src: "src = of_char c # z"
      using Suc.prems(1) Cons by (cases src) (auto simp: holds_def)
    have z: "holds z u"
      using holds_drop [OF Suc.prems(1), of 1] src Cons by simp
    have nz: "(of_char c :: byte) \<noteq> 0"
      using ascii_byte [of c] Suc.prems(1) Cons by (simp add: holds_def)
    have "put capacity m k (of_char c) = Some (take k m @ of_char c # drop (k + 1) m)"
      using Suc.prems Cons by (intro put_Some) auto
    moreover have "copy_bytes z (k + 1) n capacity (take k m @ of_char c # drop (k + 1) m) =
        Some (take (k + 1) (take k m @ of_char c # drop (k + 1) m) @ bytes (take n u)
              @ drop (k + 1 + min n (length u)) (take k m @ of_char c # drop (k + 1) m), k + 1 + min n (length u))"
      using Suc.prems Cons by (intro Suc.IH z) auto
    ultimately show ?thesis
      using nz Suc.prems(2) unfolding src
      by (subst copy_bytes.simps) (simp add: Cons ac_simps)
  qed
qed

lemma str_copy_ascii:
  assumes "holds src t" "k \<le> length (m_buffer s)" "take k (m_buffer s) = bytes u" "ascii u" "k = length u"
    "k + min count (length t) < m_capacity s" "length (m_buffer s) \<le> m_capacity s" "k + length t < npos"
  shows "\<exists>s'. str_copy src k count s = Some s' \<and> repr s' (u @ take count t) \<and> m_capacity s' = m_capacity s"
proof -
  define n where "n = min count (length t)"
  have l: "length (take count t) = n" by (simp add: n_def min.commute)
  let ?n = n and ?m = "m_buffer s"
  let ?b = "bytes u @ bytes (take count t) @ drop (k + ?n) ?m"
  have c: "copy_bytes src k count (m_capacity s) ?m = Some (?b, k + ?n)"
    using copy_bytes_ascii [OF assms(1,2), of count "m_capacity s"] assms(3,6) unfolding n_def by simp
  have p: "put (m_capacity s) ?b (k + ?n) 0 = Some (bytes (u @ take count t) @ 0 # drop (k + ?n + 1) ?m)"
    using assms(5) assms(6) [folded n_def] l by (subst put_Some) (simp_all add: ac_simps)
  have a: "ascii (u @ take count t)" using assms(1,4) by (simp add: holds_def)
  have len: "utf8_length (bytes (u @ take count t) @ 0 # drop (k + ?n + 1) ?m) 0 npos = k + ?n"
    using ascii_length [OF holds_append [OF a], of 0 _ npos] assms(5,8) l n_def by simp
  show ?thesis
    using c p a len l n_def assms(5-8) holds_append [OF a, of "drop (k + ?n + 1) ?m"]
    by (auto simp: str_copy_def repr_def)
qed

lemma take_min_length [simp]: "take (min n (length t)) t = take n t"
  by (cases "n \<le> length t") (auto simp: min_def)

lemma mk_ascii:
  assumes "holds b t" "length t < npos"
  shows "\<exists>s. mk b n = Some s \<and> repr s (take n t)"
proof -
  have n: "(if n > 0 then utf8_offset b 0 n else n) = min n (length t)"
    using ascii_offset [OF assms(1), of 0 n] by simp
  have "\<exists>s'. str_copy b 0 (min n (length t)) (str_realloc (min n (length t) + 1) False blank) = Some s' \<and>
      repr s' ([] @ take (min n (length t)) t) \<and> m_capacity s' = m_capacity (str_realloc (min n (length t) + 1) False blank)"
    using assms by (intro str_copy_ascii) (auto simp: str_realloc_def blank_def)
  then show ?thesis
    unfolding mk_def str_assign_def n option.simps Let_def by auto
qed

lemma mk_empty: "\<exists>s. mk [] npos = Some s \<and> repr s []"
  using mk_ascii [OF holds_bytes, of "[]" npos] by (simp add: npos_def)

lemma assign_ascii:
  assumes "holds b t" "length t < npos" "length (m_buffer s) \<le> m_capacity s"
  shows "\<exists>s'. str_assign (Some b) n s = Some s' \<and> repr s' (take n t)"
proof -
  have n: "(if n > 0 then utf8_offset b 0 n else n) = min n (length t)"
    using ascii_offset [OF assms(1), of 0 n] by simp
  have "\<exists>s'. str_copy b 0 (min n (length t)) (str_realloc (min n (length t) + 1) False s) = Some s' \<and>
      repr s' ([] @ take (min n (length t)) t) \<and> m_capacity s' = m_capacity (str_realloc (min n (length t) + 1) False s)"
    using assms by (intro str_copy_ascii) (auto simp: str_realloc_def)
  then show ?thesis
    unfolding str_assign_def n option.simps Let_def by auto
qed

lemma append_ascii:
  assumes "repr s t" "repr s' u" "length t + length u < npos"
  shows "\<exists>r. str_append s' count s = Some r \<and> repr r (t @ take count u)"
proof (cases "u = [] \<or> count = 0")
  case True
  then show ?thesis using assms by (auto simp: str_append_def repr_def)
next
  case False
  let ?n = "min (length u) (min count (length u))"
  let ?s = "str_realloc (length t + ?n + 1) True s"
  have h: "holds (m_buffer s') u" "m_size s' = length u" using assms(2) by (simp_all add: repr_def)
  have off: "utf8_offset (m_buffer s') 0 count = min count (length u)"
    using ascii_offset [OF h(1), of 0 count] by simp
  have s: "take (length t) (m_buffer s) = bytes t" "ascii t" "m_size s = length t" "m_length s = length t"
    "length t < length (m_buffer s)" "length (m_buffer s) \<le> m_capacity s"
    using assms(1) by (auto simp: repr_def holds_def)
  have "\<exists>r. str_copy (m_buffer s') (length t) ?n ?s = Some r \<and> repr r (t @ take ?n u) \<and> m_capacity r = m_capacity ?s"
    using s assms(3) by (intro str_copy_ascii [OF h(1)]) (auto simp: str_realloc_def)
  moreover have "take ?n u = take count u" by (cases "count \<le> length u") (auto simp: min_def)
  ultimately show ?thesis
    using False unfolding str_append_def Let_def off h(2) s(3,4) by auto
qed

subsection \<open>Searching\<close>

lemma find_sub_unfold:
  "find_sub p (drop i s) =
     (if take (length p) (drop i s) = p then Some 0
      else if i < length s then map_option Suc (find_sub p (drop (i + 1) s)) else None)"
  by (subst find_sub.simps) (auto split: list.splits simp: Cons_nth_drop_Suc [symmetric])

lemma take_Suc_agree:
  assumes "take j (drop i s) = take j p" "j < length p" "j \<le> length p"
  shows "take (Suc j) (drop i s) = take (Suc j) p \<longleftrightarrow> i + j < length s \<and> s ! (i + j) = p ! j"
proof -
  have le: "i + j \<le> length s \<or> j = 0"
    using arg_cong [OF assms(1), of length] assms(2) by auto
  show ?thesis
  proof (cases "i + j < length s")
    case True
    then show ?thesis using assms by (simp add: take_Suc_conv_app_nth)
  next
    case False
    then have "length (take (Suc j) (drop i s)) < Suc j" by auto
    then show ?thesis using False assms(2) by (metis Suc_leI length_take min.absorb2 nat_less_le)
  qed
qed

lemma take_mono_agree: "take n a = take n b \<Longrightarrow> m \<le> n \<Longrightarrow> take m a = take m b"
  by (metis min.absorb1 take_take)

lemma match_iff:
  assumes "holds m t" "holds b p" "take j (drop i t) = take j p" "j < length p" "i \<le> length t"
  shows "byte_at m (i + j) = byte_at b j \<longleftrightarrow> take (Suc j) (drop i t) = take (Suc j) p"
proof -
  have le: "i + j \<le> length t"
    using arg_cong [OF assms(3), of length] assms(4,5) by (auto simp: min_def split: if_splits)
  have b: "byte_at b j = of_char (p ! j)" "byte_at b j \<noteq> 0"
    using holds_byte [OF assms(2,4)] holds_ascii [OF assms(2,4)] by auto
  have "byte_at m (i + j) = byte_at b j \<longleftrightarrow> i + j < length t \<and> t ! (i + j) = p ! j"
  proof (cases "i + j < length t")
    case True
    then show ?thesis using holds_byte [OF assms(1)] b by simp
  next
    case False
    then have "byte_at m (i + j) = 0" using le holds_end [OF assms(1)] by simp
    then show ?thesis using False b by simp
  qed
  then show ?thesis using take_Suc_agree [OF assms(3,4)] assms(4) by simp
qed

lemma disagree:
  assumes "take (Suc j) (drop i s) \<noteq> take (Suc j) p" "j < length p"
  shows "take (length p) (drop i s) \<noteq> p"
  using take_mono_agree [of "length p" "drop i s" p "Suc j"] assms by auto

lemma find_loop_ascii:
  "holds m t \<Longrightarrow> holds b p \<Longrightarrow> take j (drop i t) = take j p \<Longrightarrow> j \<le> length p \<Longrightarrow>
    find_loop m (length t) b i j = (if i \<le> length t then map_option ((+) i) (find_sub p (drop i t)) else None)"
proof (induction m "length t" b i j rule: find_loop.induct)
  case (1 m b i j)
  show ?case
  proof (cases "i \<le> length t")
    case False
    then show ?thesis by (subst find_loop.simps) simp
  next
    case i: True
    have le: "i + j \<le> length t"
      using arg_cong [OF "1.prems"(3), of length] "1.prems"(4) i by (auto simp: min_def split: if_splits)
    show ?thesis
    proof (cases "j = length p")
      case True
      with "1.prems" i le show ?thesis
        by (subst find_loop.simps, subst find_sub_unfold) (simp add: holds_end)
    next
      case False
      then have j: "j < length p" using "1.prems"(4) by simp
      have nz: "byte_at b j \<noteq> 0" using holds_ascii [OF "1.prems"(2) j] by simp
      note m = match_iff [OF "1.prems"(1-3) j i]
      show ?thesis
      proof (cases "byte_at m (i + j) = byte_at b j")
        case True
        then have "find_loop m (length t) b i (j + 1) =
            (if i \<le> length t then map_option ((+) i) (find_sub p (drop i t)) else None)"
          using m j le nz "1.prems" by (intro "1.hyps"(1)) auto
        then show ?thesis using True le nz by (subst find_loop.simps) simp
      next
        case False
        then have "find_loop m (length t) b (i + 1) 0 =
            (if i + 1 \<le> length t then map_option ((+) (i + 1)) (find_sub p (drop (i + 1) t)) else None)"
          using le nz "1.prems" by (intro "1.hyps"(2)) auto
        moreover have "take (length p) (drop i t) \<noteq> p"
          using disagree [OF _ j] m False by blast
        ultimately show ?thesis
          using False le nz i
          by (subst find_loop.simps, subst find_sub_unfold)
             (auto simp: option.map_comp comp_def cong: map_option_cong)
      qed
    qed
  qed
qed

lemma find_ascii:
  assumes "repr s t" "holds b p"
  shows "string_find (Some b) n s = (case str_find t p n of None \<Rightarrow> Inl E_NOT_FOUND | Some k \<Rightarrow> Inr k)"
proof -
  have h: "holds (m_buffer s) t" "m_size s = length t" "length t < npos" using assms(1) by (simp_all add: repr_def)
  let ?i = "min n (length t)"
  have off: "utf8_offset (m_buffer s) 0 n = ?i" using ascii_offset [OF h(1), of 0 n] by simp
  have "find_loop (m_buffer s) (length t) b ?i 0 = map_option ((+) ?i) (find_sub p (drop ?i t))"
    using find_loop_ascii [OF h(1) assms(2), of 0 ?i] by simp
  moreover have "utf8_length (m_buffer s) 0 (?i + k) = ?i + k" if "find_sub p (drop ?i t) = Some k" for k
  proof -
    have "?i + k \<le> length t" using find_sub_bound [OF that] by (simp add: le_diff_conv2)
    then show ?thesis using ascii_length [OF h(1), of 0 "?i + k"] by simp
  qed
  ultimately show ?thesis
    by (auto simp: string_find_def off h(2) str_find_def Let_def split: option.splits)
qed

text \<open>The last match at or before a position.\<close>

fun last_match :: "string \<Rightarrow> string \<Rightarrow> nat \<Rightarrow> nat option" where
  "last_match p t 0 = (if take (length p) t = p then Some 0 else None)"
| "last_match p t (Suc i) = (if take (length p) (drop (Suc i) t) = p then Some (Suc i) else last_match p t i)"

lemma last_or_none: "(case xs of [] \<Rightarrow> None | k # ks \<Rightarrow> Some (last (k # ks))) = (if xs = [] then None else Some (last xs))"
  by (cases xs) auto

lemma last_match_filter:
  "last_match p t i =
     (case filter (\<lambda>k. take (length p) (drop k t) = p) [0..<Suc i] of [] \<Rightarrow> None | k # ks \<Rightarrow> Some (last (k # ks)))"
  unfolding last_or_none
proof (induction i)
  case (Suc i)
  then show ?case by (auto simp del: upt_Suc simp: upt_Suc [of 0 "Suc i"])
qed simp

lemma last_match_bound: "last_match p t i = Some k \<Longrightarrow> k \<le> i \<and> take (length p) (drop k t) = p"
  by (induction i) (auto split: if_splits)

lemma reverse_find_loop_ascii:
  "holds m t \<Longrightarrow> holds b p \<Longrightarrow> take j (drop i t) = take j p \<Longrightarrow> j \<le> length p \<Longrightarrow> i \<le> length t \<Longrightarrow>
    reverse_find_loop m b i j = last_match p t i"
proof (induction m b i j rule: reverse_find_loop.induct)
  case (1 m b i j)
  show ?case
  proof (cases "j = length p")
    case True
    then have "byte_at b j = 0" using holds_end [OF "1.prems"(2)] by simp
    with "1.prems" True show ?thesis by (subst reverse_find_loop.simps) (cases i; simp)
  next
    case False
    then have j: "j < length p" using "1.prems"(4) by simp
    have nz: "byte_at b j \<noteq> 0" using holds_ascii [OF "1.prems"(2) j] by simp
    note m = match_iff [OF "1.prems"(1-3) j "1.prems"(5)]
    show ?thesis
    proof (cases "byte_at m (i + j) = byte_at b j")
      case True
      then have "reverse_find_loop m b i (j + 1) = last_match p t i"
        using m j nz "1.prems" by (intro "1.IH"(1)) auto
      then show ?thesis using True nz by (subst reverse_find_loop.simps) simp
    next
      case no: False
      then have "take (length p) (drop i t) \<noteq> p" using disagree [OF _ j] m by blast
      moreover have "reverse_find_loop m b (i - 1) 0 = last_match p t (i - 1)" if "i \<noteq> 0"
        using nz no that "1.prems" by (intro "1.IH"(2)) auto
      ultimately show ?thesis using no nz by (subst reverse_find_loop.simps) (cases i; simp)
    qed
  qed
qed

lemma reverse_find_ascii:
  assumes "repr s t" "holds b p" "length p < npos"
  shows "string_reverse_find (Some b) npos s = (case find_sub_last p t of None \<Rightarrow> Inl E_NOT_FOUND | Some k \<Rightarrow> Inr k)"
proof -
  have h: "holds (m_buffer s) t" "length t < npos" using assms(1) by (simp_all add: repr_def)
  have off: "utf8_offset (m_buffer s) 0 npos = length t" "utf8_offset b 0 npos = length p"
    using ascii_offset [OF h(1), of 0 npos] ascii_offset [OF assms(2), of 0 npos] h(2) assms(3) by auto
  have "(if length t < length p then None else reverse_find_loop (m_buffer s) b (length t - length p) 0)
      = find_sub_last p t"
  proof (cases "length t < length p")
    case True
    then have "take (length p) t \<noteq> p" by auto
    then show ?thesis using True by (simp add: find_sub_last_def)
  next
    case False
    then show ?thesis
      using reverse_find_loop_ascii [OF h(1) assms(2), of 0 "length t - length p"]
      by (simp add: last_match_filter find_sub_last_def)
  qed
  moreover have "utf8_length (m_buffer s) 0 k = k" if "find_sub_last p t = Some k" for k
  proof -
    have "last_match p t (length t - length p) = Some k"
      using that by (simp add: last_match_filter find_sub_last_def)
    then have "k \<le> length t" using last_match_bound by fastforce
    then show ?thesis using ascii_length [OF h(1), of 0 k] by simp
  qed
  ultimately show ?thesis
    by (auto simp: string_reverse_find_def off Let_def split: option.splits)
qed

subsection \<open>Trimming ASCII text\<close>

lemma byte_graph_of_char: "byte_graph (of_char c) = is_graph c"
  by (simp add: byte_graph_def is_graph_def unat_of_char Let_def)

lemma trim_left_ascii:
  "holds b t \<Longrightarrow> p \<le> length t \<Longrightarrow>
    utf8_trim_left b p = p + length (takeWhile (\<lambda>c. \<not> is_graph c) (drop p t))"
proof (induction "length t - p" arbitrary: p)
  case 0
  then have "p = length t" by simp
  then show ?case using holds_end [OF 0(2)] by (subst utf8_trim_left.simps) simp
next
  case (Suc n)
  then have p: "p < length t" by simp
  have t: "drop p t = t ! p # drop (Suc p) t" using p by (simp add: Cons_nth_drop_Suc)
  have "byte_graph (byte_at b p) = is_graph (t ! p)"
    using Suc.prems p by (simp add: holds_byte byte_graph_of_char)
  then have "utf8_trim_left b p = (if is_graph (t ! p) then p else utf8_trim_left b (p + 1))"
    using holds_ascii [OF Suc.prems(1) p] ascii_step [OF Suc.prems(1) p]
    by (subst utf8_trim_left.simps) simp
  then show ?case using Suc.hyps(1) [of "p + 1"] Suc.hyps(2) Suc.prems by (simp add: t)
qed

fun last_graph :: "string \<Rightarrow> nat \<Rightarrow> nat" where
  "last_graph t 0 = 0"
| "last_graph t (Suc p) = (if is_graph (t ! Suc p) then Suc p else last_graph t p)"

lemma trim_right_loop_ascii:
  "holds b t \<Longrightarrow> p < length t \<Longrightarrow> trim_right_loop b p 0 = last_graph t p"
proof (induction p)
  case (Suc p)
  then show ?case
    using holds_ascii [of b t "Suc p"] by (simp add: Let_def holds_byte byte_graph_of_char)
qed simp

lemma last_graph_bounds:
  "last_graph t p \<le> p" "last_graph t p < i \<Longrightarrow> i \<le> p \<Longrightarrow> \<not> is_graph (t ! i)"
  "last_graph t p \<noteq> 0 \<Longrightarrow> is_graph (t ! last_graph t p)"
proof -
  show "last_graph t p \<le> p" by (induction p) auto
  show "last_graph t p < i \<Longrightarrow> i \<le> p \<Longrightarrow> \<not> is_graph (t ! i)"
    by (induction p) (auto simp: le_Suc_eq split: if_splits)
  show "last_graph t p \<noteq> 0 \<Longrightarrow> is_graph (t ! last_graph t p)" by (induction p) auto
qed

lemma trim_right_ascii:
  assumes "holds b t" "length t < npos"
  shows "utf8_trim_right b = (if t = [] then 1 else last_graph t (length t - 1) + 1) \<or> t = [] \<and> utf8_trim_right b \<le> 1"
proof (cases "t = []")
  case True
  then show ?thesis
    using ascii_offset [OF assms(1), of 0 npos] holds_end [OF assms(1)]
    by (simp add: utf8_trim_right_def utf8_skip_sequence_def utf8_sequence_type_def utf8_skip_bytes_def)
next
  case False
  have e: "utf8_offset b 0 npos = length t" using ascii_offset [OF assms(1), of 0 npos] assms(2) by simp
  have l: "last_graph t (length t - 1) < length t"
    using last_graph_bounds(1) [of t "length t - 1"] False by (cases t) auto
  show ?thesis
    using False l trim_right_loop_ascii [OF assms(1), of "length t - 1"] ascii_step(3) [OF assms(1) l]
    by (simp add: utf8_trim_right_def e)
qed

lemma str_trim_slice:
  assumes "l = length (takeWhile (\<lambda>c. \<not> is_graph c) t)" "r = last_graph t (length t - 1) + 1" "t \<noteq> []"
  shows "l < r \<Longrightarrow> take (r - l) (drop l t) = str_trim t" "r \<le> l \<Longrightarrow> drop l t = [] \<and> str_trim t = []"
proof -
  let ?g = "\<lambda>c. \<not> is_graph c"
  have u: "dropWhile ?g t = drop l t" by (simp add: assms(1) dropWhile_eq_drop)
  have len: "l \<le> length t" by (simp add: assms(1) length_takeWhile_le)
  have first: "is_graph (t ! l)" if "l < length t"
    using nth_length_takeWhile [of ?g t] that assms(1) by simp
  have r: "r \<le> length t" using last_graph_bounds(1) [of t "length t - 1"] assms(2,3) by (cases t) auto
  show none: "r \<le> l \<Longrightarrow> drop l t = [] \<and> str_trim t = []"
  proof -
    assume rl: "r \<le> l"
    have "l = length t"
    proof (rule ccontr)
      assume "l \<noteq> length t"
      then have "l < length t" using len by simp
      then have "l < length t" "l \<le> length t - 1" by linarith+
      then show False
        using first last_graph_bounds(2) [of t "length t - 1" l] rl assms(2) by simp
    qed
    then show ?thesis by (simp add: str_trim_def u)
  qed
  show "l < r \<Longrightarrow> take (r - l) (drop l t) = str_trim t"
  proof (cases "l = length t")
    case True
    then show ?thesis by (simp add: str_trim_def u)
  next
    case False
    then have l: "l < length t" "is_graph (t ! l)" using len first by auto
    assume lr: "l < r"
    have last: "is_graph (t ! (r - 1))"
      using last_graph_bounds(3) [of t "length t - 1"] l lr assms(2) by (cases "last_graph t (length t - 1) = 0") auto
    define a where "a = take (r - l) (drop l t)"
    have split: "drop l t = a @ drop r t"
      using lr r unfolding a_def by (metis append_take_drop_id drop_drop le_add_diff_inverse2 less_imp_le)
    have tail: "\<forall>c\<in>set (drop r t). \<not> is_graph c"
      using last_graph_bounds(2) [of t "length t - 1"] assms(2) r
      by (auto simp: in_set_conv_nth)
    have la: "length a = r - l" using r by (simp add: a_def)
    then have ne: "a \<noteq> []" using lr by auto
    have "last a = t ! (r - 1)"
      using ne la lr r l by (simp add: last_conv_nth) (simp add: a_def)
    with ne have "dropWhile ?g (rev a) = rev a"
      using last by (cases "rev a") (auto simp: hd_rev [symmetric] dest: sym)
    moreover have "dropWhile ?g (rev (drop r t) @ rev a) = dropWhile ?g (rev a)"
      using tail by (intro dropWhile_append2) auto
    ultimately have "str_trim t = a" by (simp add: str_trim_def u split)
    then show ?thesis by (simp add: a_def)
  qed
qed

lemma trim_ascii:
  assumes "repr s t"
  shows "\<exists>r. string_trim s = Some r \<and> repr r (str_trim t)"
proof -
  have h: "holds (m_buffer s) t" "length t < npos" using assms by (simp_all add: repr_def)
  let ?l = "length (takeWhile (\<lambda>c. \<not> is_graph c) t)"
  have l: "utf8_trim_left (m_buffer s) 0 = ?l" "?l \<le> length t"
    using trim_left_ascii [OF h(1), of 0] by (simp_all add: length_takeWhile_le)
  let ?b = "drop ?l (m_buffer s)" and ?r = "utf8_trim_right (m_buffer s)"
  let ?n = "utf8_length ?b 0 (nat ((int ?r - int ?l) mod 2 ^ 32))"
  have hb: "holds ?b (drop ?l t)" by (rule holds_drop [OF h(1) l(2)])
  have n: "?n = min (nat ((int ?r - int ?l) mod 2 ^ 32)) (length t - ?l)"
    using ascii_length [OF hb, of 0] by simp
  have "take ?n (drop ?l t) = str_trim t"
  proof (cases "t = []")
    case True
    then show ?thesis by (simp add: str_trim_def)
  next
    case False
    have r: "?r = last_graph t (length t - 1) + 1" using trim_right_ascii [OF h] False by simp
    have rl: "?r \<le> length t"
      using last_graph_bounds(1) [of t "length t - 1"] False unfolding r by (cases t) auto
    show ?thesis
    proof (cases "?l < ?r")
      case True
      then have "(int ?r - int ?l) mod 2 ^ 32 = int (?r - ?l)"
        using rl h(2) by (simp add: npos_def of_nat_diff)
      then show ?thesis
        using str_trim_slice(1) [OF refl r False True] rl unfolding n by simp
    next
      case False
      then show ?thesis using str_trim_slice(2) [OF refl r \<open>t \<noteq> []\<close>] by simp
    qed
  qed
  moreover obtain tmp where tmp: "mk ?b ?n = Some tmp" "repr tmp (take ?n (drop ?l t))"
    using mk_ascii [OF hb, of ?n] le_less_trans [OF diff_le_self h(2), of ?l] by (metis length_drop)
  moreover have "\<exists>r. str_assign (Some (m_buffer tmp)) npos s = Some r \<and> repr r (take npos (take ?n (drop ?l t)))"
    using tmp(2) assms by (intro assign_ascii) (auto simp: repr_def)
  moreover have "length (take ?n (drop ?l t)) < npos"
    using le_less_trans [OF diff_le_self h(2), of ?l] by (simp add: min_less_iff_disj)
  ultimately show ?thesis
    by (auto simp: string_trim_def l(1) Let_def)
qed

subsection \<open>The operations on ASCII text\<close>

lemma repr_holds: "repr s t \<Longrightarrow> holds (m_buffer s) t" "repr s t \<Longrightarrow> length t < npos"
  by (simp_all add: repr_def)

lemma holds_short_drop: "repr s t \<Longrightarrow> k \<le> length t \<Longrightarrow> holds (drop k (m_buffer s)) (drop k t) \<and> length (drop k t) < npos"
  using holds_drop [OF repr_holds(1)] le_less_trans [OF diff_le_self repr_holds(2), of s t k] by simp

lemma get_ascii:
  "repr s t \<Longrightarrow> string_get n s = (if n \<le> length t then Inr (drop n (m_buffer s)) else Inl E_INVALID_OFFSET)"
  using ascii_offset [OF repr_holds(1), of s t 0 n] by (auto simp: string_get_def repr_def)

lemma left_n_ascii: "repr s t \<Longrightarrow> \<exists>r. string_left_n n s = Some r \<and> repr r (take n t)"
  using mk_ascii [OF repr_holds] by (simp add: string_left_n_def)

lemma take_npos: "length t < npos \<Longrightarrow> take npos t = t"
  by simp

lemma right_n_ascii: "repr s t \<Longrightarrow> \<exists>r. string_right_n n s = Some r \<and> repr r (drop n t)"
proof (cases "n \<le> length t")
  case True
  assume "repr s t"
  with holds_short_drop [OF this True] mk_ascii [of "drop n (m_buffer s)" "drop n t" npos] True show ?thesis
    by (simp add: string_right_n_def get_ascii)
next
  case False
  assume "repr s t"
  then show ?thesis using False mk_empty by (simp add: string_right_n_def get_ascii)
qed

lemma left_ascii:
  assumes "repr s t" "holds b p"
  shows "\<exists>r. string_left b s = Some r \<and> repr r (str_left t p)"
  using left_n_ascii [OF assms(1)] mk_empty
  by (auto simp: string_left_def find_ascii [OF assms] str_left_def str_find_def split: option.splits)

lemma reverse_left_ascii:
  assumes "repr s t" "holds b p" "length p < npos"
  shows "\<exists>r. string_reverse_left b s = Some r \<and> repr r (str_reverse_left t p)"
  using left_n_ascii [OF assms(1)] mk_empty
  by (auto simp: string_reverse_left_def reverse_find_ascii [OF assms] str_reverse_left_def split: option.splits)

lemma after_ascii:
  assumes "repr s t" "repr pat p"
  shows "\<exists>r. string_after pat s = Some r \<and> repr r (str_after t p)"
  using right_n_ascii [OF assms(1)] mk_empty assms(2)
  by (auto simp: string_after_def find_ascii [OF assms(1) repr_holds(1) [OF assms(2)]] str_after_def str_find_def
      repr_def split: option.splits)

lemma reverse_after_ascii:
  assumes "repr s t" "repr pat p"
  shows "\<exists>r. string_reverse_after pat s = Some r \<and> repr r (str_reverse_after t p)"
  using right_n_ascii [OF assms(1)] mk_empty assms(2)
  by (auto simp: string_reverse_after_def reverse_find_ascii [OF assms(1) repr_holds [OF assms(2)]]
      str_reverse_after_def repr_def split: option.splits)

lemma mid_ascii: "repr s t \<Longrightarrow> \<exists>r. string_mid i j s = Some r \<and> repr r (take (j - i) (drop i t))"
proof -
  assume r: "repr s t"
  consider "i < j" "i \<le> length t" | "i < j" "i > length t" | "\<not> i < j" by linarith
  then show ?thesis
  proof cases
    case 1
    then show ?thesis
      using holds_short_drop [OF r, of i] mk_ascii [of "drop i (m_buffer s)" "drop i t" "j - i"]
      by (simp add: string_mid_def get_ascii [OF r])
  qed (use mk_empty get_ascii [OF r] in \<open>simp_all add: string_mid_def\<close>)
qed

lemma reverse_mid_ascii:
  assumes "repr s t" "i \<le> j"
  shows "\<exists>r. string_reverse_mid i j s = Some r \<and> repr r (take i t @ drop j t)"
proof -
  obtain l where l: "mk (m_buffer s) i = Some l" "repr l (take i t)"
    using mk_ascii [OF repr_holds [OF assms(1)], of i] by auto
  have len: "m_length s = length t" using assms(1) by (simp add: repr_def)
  show ?thesis
  proof (cases "j < length t")
    case True
    then obtain r where r: "mk (drop j (m_buffer s)) npos = Some r" "repr r (drop j t)"
      using holds_short_drop [OF assms(1), of j] mk_ascii [of "drop j (m_buffer s)" "drop j t" npos] by auto
    have "length (take i t) + length (drop j t) < npos"
      using assms True repr_holds(2) [OF assms(1)] by (simp add: min_def)
    then show ?thesis
      using append_ascii [OF l(2) r(2), of npos] l r True assms(2) repr_holds(2) [OF r(2)]
      by (simp add: string_reverse_mid_def get_ascii [OF assms(1)] len)
  next
    case False
    then show ?thesis using l assms(2) by (simp add: string_reverse_mid_def len)
  qed
qed

lemma strncmp_zero:
  "holds a t \<Longrightarrow> holds b u \<Longrightarrow> n \<le> length t \<Longrightarrow> n \<le> length u \<Longrightarrow> strncmp a b n = 0 \<longleftrightarrow> take n t = take n u"
proof (induction n arbitrary: a b t u)
  case (Suc n)
  obtain c t' d u' where tu: "t = c # t'" "u = d # u'" using Suc.prems by (cases t; cases u) auto
  have "byte_at a 0 = of_char c" "byte_at b 0 = of_char d" "byte_at a 0 \<noteq> 0"
    using holds_byte [of a t 0] holds_byte [of b u 0] holds_ascii [of a t 0] Suc.prems tu by auto
  moreover have "holds (tl a) t'" "holds (tl b) u'"
    using holds_drop [of a t 1] holds_drop [of b u 1] Suc.prems tu by (simp_all add: drop_Suc)
  ultimately show ?case using Suc.IH [of "tl a" t' "tl b" u'] Suc.prems tu by (auto simp: Let_def)
qed simp

lemma equal_ascii:
  assumes "repr s t" "repr s' u"
  shows "string_equal s' s \<longleftrightarrow> t = u"
proof -
  let ?n = "min (length u) (length t)"
  have "strncmp (m_buffer s) (m_buffer s') ?n = 0 \<longleftrightarrow> take ?n t = take ?n u"
    using assms by (intro strncmp_zero repr_holds) auto
  moreover have "m_size s = length t" "m_size s' = length u" using assms by (simp_all add: repr_def)
  ultimately show ?thesis by (auto simp: string_equal_def str_compare_def Let_def)
qed

lemma isEmpty_ascii: "repr s t \<Longrightarrow> isEmpty s \<longleftrightarrow> t = []"
  using holds_nonzero [OF repr_holds(1), of s t 0] by (auto simp: isEmpty_def repr_def)

text \<open>
  C17. The class implements lists of characters.  For two strings that hold the ASCII texts \<open>t\<close>
  and \<open>u\<close>, appending, searching from either end, cutting before and behind a pattern, cutting out a
  range, trimming, comparing and the test for emptiness never leave the buffer and give exactly the
  operation on lists that the rest of the development uses.
\<close>

theorem string_refines_lists:
  assumes "repr s t" "repr s' u" "length t + length u < npos"
  shows "(\<exists>r. str_append s' npos s = Some r \<and> repr r (t @ u))
    \<and> string_find (Some (m_buffer s')) i s = (case str_find t u i of None \<Rightarrow> Inl E_NOT_FOUND | Some k \<Rightarrow> Inr k)
    \<and> string_reverse_find (Some (m_buffer s')) npos s
        = (case find_sub_last u t of None \<Rightarrow> Inl E_NOT_FOUND | Some k \<Rightarrow> Inr k)
    \<and> (\<exists>r. string_left (m_buffer s') s = Some r \<and> repr r (str_left t u))
    \<and> (\<exists>r. string_after s' s = Some r \<and> repr r (str_after t u))
    \<and> (\<exists>r. string_reverse_left (m_buffer s') s = Some r \<and> repr r (str_reverse_left t u))
    \<and> (\<exists>r. string_reverse_after s' s = Some r \<and> repr r (str_reverse_after t u))
    \<and> (\<exists>r. string_mid i j s = Some r \<and> repr r (take (j - i) (drop i t)))
    \<and> (\<exists>r. string_reverse_mid i (i + k) s = Some r \<and> repr r (take i t @ drop (i + k) t))
    \<and> (\<exists>r. string_trim s = Some r \<and> repr r (str_trim t))
    \<and> (string_equal s' s \<longleftrightarrow> t = u)
    \<and> (isEmpty s \<longleftrightarrow> t = [])"
  using append_ascii [OF assms, of npos] find_ascii [OF assms(1) repr_holds(1) [OF assms(2)]]
    reverse_find_ascii [OF assms(1) repr_holds [OF assms(2)]] left_ascii [OF assms(1) repr_holds(1) [OF assms(2)]]
    after_ascii [OF assms(1,2)] reverse_left_ascii [OF assms(1) repr_holds [OF assms(2)]]
    reverse_after_ascii [OF assms(1,2)] mid_ascii [OF assms(1)] reverse_mid_ascii [OF assms(1), of i "i + k"]
    trim_ascii [OF assms(1)] equal_ascii [OF assms(1,2)] isEmpty_ascii [OF assms(1)] take_npos [OF repr_holds(2) [OF assms(2)]]
  by simp

definition demo_text :: "string \<Rightarrow> cstr" where
  "demo_text t = \<lparr>m_buffer = bytes t @ [0], m_length = length t, m_size = length t, m_capacity = length t + 1\<rparr>"

lemma demo_text_repr: "ascii t \<Longrightarrow> length t < npos \<Longrightarrow> repr (demo_text t) t"
  using holds_append [of t "[]"] by (simp add: repr_def demo_text_def)

theorem string_refines_lists_witness:
  "string_find (Some (m_buffer (demo_text ''/''))) 0 (demo_text ''a/b'') = Inr 1
   \<and> (\<exists>r. string_trim (demo_text '' b'') = Some r \<and> repr r ''b'')"
  using string_refines_lists [OF demo_text_repr demo_text_repr, of "''a/b''" "''/''" 0]
    string_refines_lists [OF demo_text_repr demo_text_repr, of "'' b''" "''/''"]
  by (simp add: npos_def str_find_def find_sub.simps str_trim_def is_graph_def)

subsection \<open>Text that is not ASCII\<close>

definition utf8_text :: "cstr \<Rightarrow> byte list \<Rightarrow> bool" where
  "utf8_text s x \<longleftrightarrow> 0 \<notin> set x \<and> (\<exists>z. m_buffer s = x @ 0 # z) \<and> m_size s = length x
     \<and> m_length s = utf8_length (m_buffer s) 0 npos \<and> length (m_buffer s) \<le> m_capacity s"

lemma skip_byte_within:
  "utf8_skip_byte b i = Some j \<Longrightarrow> byte_at b e = 0 \<Longrightarrow> i \<le> e \<Longrightarrow> j \<le> e"
  by (cases "i = e") (auto simp: utf8_skip_byte_def split: if_splits)

lemma skip_bytes_within:
  "utf8_skip_bytes b i n = Some j \<Longrightarrow> byte_at b e = 0 \<Longrightarrow> i < e \<Longrightarrow> j \<le> e"
  by (auto simp: utf8_skip_bytes_def split: if_splits bind_splits dest!: skip_byte_within)

lemma utf8_length_within: "byte_at b e = 0 \<Longrightarrow> i \<le> e \<Longrightarrow> utf8_length b i n \<le> e - i"
proof (induction b i n rule: utf8_length.induct)
  case (1 b i n)
  show ?case
  proof (cases "byte_at b i = 0 \<or> n = 0 \<or> utf8_skip_bytes b i (utf8_sequence_type (byte_at b i)) = None")
    case True
    then show ?thesis by (subst utf8_length.simps) (auto simp: Let_def)
  next
    case False
    then obtain j where j: "utf8_skip_bytes b i (utf8_sequence_type (byte_at b i)) = Some j" by auto
    have i: "i < e" using False "1.prems" by (cases "i = e") auto
    let ?n = "if utf8_sequence_type (byte_at b i) < n then n - utf8_sequence_type (byte_at b i) else 0"
    have "i < j" "j \<le> e"
      using utf8_skip_bytes_forward [OF j] skip_bytes_within [OF j "1.prems"(1) i] by auto
    moreover have "utf8_length b j ?n \<le> e - j"
      using False j "1.prems"(1) \<open>j \<le> e\<close> by (intro "1.IH"(1)) auto
    moreover have "utf8_length b i n = 1 + utf8_length b j ?n"
      using False j by (subst utf8_length.simps) (simp add: Let_def)
    ultimately show ?thesis by linarith
  qed
qed

text \<open>
  Appending and the length in characters.  Appending the ASCII text \<open>u\<close> to a string that holds
  the bytes \<open>x\<close> writes behind the first \<open>m_length\<close> bytes, the number of its characters: the result is
  \<open>x\<close> with \<open>u\<close> behind it exactly when every character of \<open>x\<close> is one byte, and has lost the last bytes of
  \<open>x\<close> otherwise.
\<close>

theorem append_overwrites_utf8:
  assumes "utf8_text s x" "repr s' u" "u \<noteq> []" "length x + length u < npos"
  shows "\<exists>r. str_append s' npos s = Some r \<and> take (m_size r) (m_buffer r) = take (m_length s) x @ bytes u
    \<and> m_length s \<le> length x
    \<and> (take (m_size r) (m_buffer r) = x @ bytes u \<longleftrightarrow> m_length s = length x)"
proof -
  let ?k = "m_length s" and ?s = "str_realloc (length x + length u + 1) True s"
  obtain z where z: "m_buffer s = x @ 0 # z" using assms(1) by (auto simp: utf8_text_def)
  have h: "holds (m_buffer s') u" "m_size s' = length u" "length u < npos" using assms(2) by (simp_all add: repr_def)
  have off: "utf8_offset (m_buffer s') 0 npos = length u" using ascii_offset [OF h(1), of 0 npos] h(3) by simp
  have "byte_at (m_buffer s) (length x) = 0" by (simp add: z byte_at_def)
  from utf8_length_within [OF this, of 0 npos] have k: "?k \<le> length x"
    using assms(1) by (simp add: utf8_text_def)
  have s: "m_size s = length x" "length (m_buffer s) \<le> m_capacity s" using assms(1) by (simp_all add: utf8_text_def)
  have b: "take ?k (m_buffer ?s) = take ?k x" "length x < length (m_buffer ?s)" "length x + length u < m_capacity ?s"
    using k s z by (auto simp: str_realloc_def)
  have c: "copy_bytes (m_buffer s') ?k (length u) (m_capacity ?s) (m_buffer ?s) =
      Some (take ?k x @ bytes u @ drop (?k + length u) (m_buffer ?s), ?k + length u)"
    using copy_bytes_ascii [OF h(1), of ?k "m_buffer ?s" "length u" "m_capacity ?s"] b k by simp
  have p: "put (m_capacity ?s) (take ?k x @ bytes u @ drop (?k + length u) (m_buffer ?s)) (?k + length u) 0 =
      Some (take ?k x @ bytes u @ 0 # drop (?k + length u + 1) (m_buffer ?s))"
    using b k by (subst put_Some) auto
  have "take ?k x @ bytes u = x @ bytes u \<longleftrightarrow> ?k = length x" using k by auto
  moreover have "npos \<noteq> 0" by (simp add: npos_def)
  ultimately show ?thesis
    using c p k h(2) assms(3) by (simp add: str_append_def off s(1) str_copy_def Let_def)
qed

definition demo_e_acute :: cstr where
  "demo_e_acute = \<lparr>m_buffer = [0xC3, 0xA9, 0], m_length = 1, m_size = 2, m_capacity = 3\<rparr>"

theorem append_overwrites_utf8_witness:
  "\<exists>r. str_append (demo_text ''x'') npos demo_e_acute = Some r \<and> take (m_size r) (m_buffer r) = [0xC3, 0x78]"
proof -
  have l: "utf8_length [0xC3, 0xA9, 0] 0 npos = 1"
    by (simp add: utf8_length.simps byte_at_def npos_def utf8_sequence_type_def utf8_skip_bytes_def
        utf8_skip_byte_def drop_bit_eq_div Let_def)
  have "utf8_text demo_e_acute [0xC3, 0xA9]"
    using l by (simp add: utf8_text_def demo_e_acute_def)
  from append_overwrites_utf8 [OF this demo_text_repr, of "''x''"] show ?thesis
    by (auto simp: npos_def demo_e_acute_def)
qed

text \<open>
  \<open>pop_back\<close> leaves \<open>m_length\<close> behind.  Text appended afterwards starts behind the terminator, one byte
  further than the buffer was enlarged for: unless spare room is left the terminator is stored behind the
  buffer.
\<close>

lemma append_after_pop_back_overflows:
  assumes "repr s t" "t \<noteq> []" "repr s' u" "u \<noteq> []" "m_capacity s \<le> length t + length u"
  shows "\<exists>s1. str_pop_back s = Inr s1 \<and> str_append s' npos s1 = None"
proof -
  let ?n = "length t"
  let ?s1 = "s\<lparr>m_buffer := (m_buffer s)[m_size s - 1 := 0], m_size := m_size s - 1\<rparr>"
  let ?s = "str_realloc (m_size ?s1 + length u + 1) True ?s1"
  have s: "m_size s = ?n" "m_length s = ?n" "?n < length (m_buffer s)" "length (m_buffer s) \<le> m_capacity s"
    using assms(1) by (auto simp: repr_def)
  have h: "holds (m_buffer s') u" "m_size s' = length u" "length u < npos" using assms(3) by (simp_all add: repr_def)
  have off: "utf8_offset (m_buffer s') 0 npos = length u" using ascii_offset [OF h(1), of 0 npos] h(3) by simp
  have pos: "0 < ?n" using assms(2) by simp
  have cap: "m_capacity ?s = ?n + length u" "?n \<le> length (m_buffer ?s)"
    using s assms(5) pos by (auto simp: str_realloc_def)
  obtain m where c: "copy_bytes (m_buffer s') ?n (length u) (m_capacity ?s) (m_buffer ?s) = Some (m, ?n + length u)"
    using copy_bytes_ascii [OF h(1) cap(2), of "length u" "m_capacity ?s"] cap(1) by simp
  have "put (m_capacity ?s) m (?n + length u) 0 = None" unfolding put_def cap(1) by simp
  then have "str_copy (m_buffer s') ?n (length u) ?s = None" using c by (simp add: str_copy_def)
  moreover have "npos \<noteq> 0" by (simp add: npos_def)
  ultimately have "str_append s' npos ?s1 = None"
    using h(2) assms(4) by (simp add: str_append_def off s(2))
  moreover have "str_pop_back s = Inr ?s1" using isEmpty_ascii [OF assms(1)] assms(2) by (simp add: str_pop_back_def)
  ultimately show ?thesis by blast
qed

end
