(* ===== verification/Raid_Create.thy ===== *)
theory Raid_Create
  imports Raid_Volume
begin

text \<open>
  Making arrays and volumes: the device names of \<open>raid_device.cpp\<close>, the map file of mdadm in which a
  new device is looked up, \<open>Array::create\<close> and the whole of \<open>Volume::create\<close>.

  The pauses of the waiting loops are part of the trace, since what the system answers may change
  during them.
\<close>

subsection \<open>The map file\<close>

definition map_paths :: "string list" where
  "map_paths = [''/run/mdadm/map'', ''/var/run/mdadm/map'', ''/dev/.mdadm/map'']"

text \<open>\<open>None\<close> is \<open>E_NOT_FOUND\<close>.\<close>

definition getMapFile :: "env \<Rightarrow> world \<Rightarrow> string option" where
  "getMapFile os w = List.find (path_exists os (trace w)) map_paths"

lemma find_sub_exact: "find_sub p s = Some n \<Longrightarrow> s = take n s @ p @ drop (n + length p) s"
  using find_sub_bound [of p s n] by (metis append_take_drop_id drop_drop add.commute)

lemma str_left_after: "str_left s p \<noteq> [] \<Longrightarrow> length (str_after s p) < length s"
  by (auto simp: str_left_def str_after_def split: option.splits dest!: find_sub_bound)

text \<open>
  The first line in which \<open>name\<close> occurs, in the field behind the last slash for an object that has a
  name (\<open>by_name\<close>), in the first field otherwise.  An empty line ends the search.
\<close>

function map_line :: "bool \<Rightarrow> string \<Rightarrow> string \<Rightarrow> string option" where
  "map_line by_name name content =
     (let line = str_left content [CHR 0x0A];
          tmp = (if by_name then str_reverse_after line ''/'' else str_left line '' '') in
      if line = [] then None
      else if find_sub name tmp \<noteq> None then Some line
      else map_line by_name name (str_after content [CHR 0x0A]))"
  by pat_completeness auto
termination
  by (relation "measure (\<lambda>(by_name, name, content). length content)") (auto dest: str_left_after)

declare map_line.simps [simp del]

definition internal_update :: "string \<Rightarrow> 'a raid_device_scheme \<Rightarrow> exception + 'a raid_device_scheme" where
  "internal_update content d =
     (let create = m_Name d \<noteq> [] in
      case map_line create (if create then m_Name d else m_DevName d) (content @ [CHR 0x0A]) of
        None \<Rightarrow> Inl E_ARRAY_CREATE_FAILED
      | Some line \<Rightarrow>
          (let d1 = (if create then d\<lparr>m_DevName := str_left line '' ''\<rparr>
                     else d\<lparr>m_Name := str_reverse_after line ''/''\<rparr>) in
           Inr (d1\<lparr>m_Uuid := str_reverse_after (str_reverse_left line '' '') '' ''\<rparr>)))"

text \<open>\<open>update\<close> swallows every exception.\<close>

definition update :: "env \<Rightarrow> world \<Rightarrow> 'a raid_device_scheme \<Rightarrow> 'a raid_device_scheme" where
  "update os w d =
     (case getMapFile os w of
        None \<Rightarrow> d
      | Some path \<Rightarrow>
          (case read_file os (trace w) path of
             None \<Rightarrow> d
           | Some content \<Rightarrow>
               (case internal_update content d of
                  Inl e \<Rightarrow> d
                | Inr d' \<Rightarrow> d'\<lparr>m_Path := canonical_path os (''/sys/block/'' @ m_DevName d')\<rparr>)))"

text \<open>\<open>RaidDevice::discover\<close>, without the components, which \<open>addToSession\<close> resolves.\<close>

definition raid_device_discover :: "env \<Rightarrow> world \<Rightarrow> 'a raid_device_scheme \<Rightarrow> 'a raid_device_scheme" where
  "raid_device_discover os w d = update os w (d\<lparr>m_DevName := str_reverse_after (m_Path d) ''/''\<rparr>)"

subsection \<open>Device names\<close>

text \<open>
  The loop of \<open>determineDeviceName\<close>; \<open>None\<close> when it does not end.  \<open>exists\<close> tells whether \<open>stat\<close> answers
  anything else than ENOENT.
\<close>

partial_function (option) device_name :: "(string \<Rightarrow> bool) \<Rightarrow> string \<Rightarrow> u32 \<Rightarrow> string option" where
  "device_name exists' stem i =
     (let name = stem @ dec (unat i) in
      if \<not> exists' (''/dev/md/'' @ name) then Some name else device_name exists' stem (i + 1))"

declare device_name.simps [code]

definition determineDeviceName :: "env \<Rightarrow> string \<Rightarrow> world \<Rightarrow> 'a raid_device_scheme \<Rightarrow> 'a raid_device_scheme option" where
  "determineDeviceName os stem w d =
     do { name \<leftarrow> device_name (path_exists os (trace w)) stem 0; Some (d\<lparr>m_Name := name\<rparr>) }"

subsection \<open>Waiting\<close>

definition pause :: "nat \<Rightarrow> world \<Rightarrow> world" where
  "pause n w = w\<lparr>trace := trace w @ [Pause n]\<rparr>"

text \<open>The two loops of \<open>__wait_for_container\<close>, with the number of rounds left.\<close>

fun wait_for_uuid :: "env \<Rightarrow> nat \<Rightarrow> array \<Rightarrow> world \<Rightarrow> array \<times> world" where
  "wait_for_uuid os 0 a w = (a, w)"
| "wait_for_uuid os (Suc n) a w =
     (let a' = update os w a in
      if m_Uuid a' = [] then wait_for_uuid os n a' (pause 1000000 w) else (a', w))"

definition ls_command :: "array \<Rightarrow> string" where
  "ls_command a = ''ls '' @ quoted (''/dev/md/'' @ m_Name a)"

definition ln_command :: "array \<Rightarrow> string" where
  "ln_command a = ''ln -s '' @ dev (m_DevName a) @ '' '' @ quoted (''/dev/md/'' @ m_Name a)"

fun wait_for_link :: "env \<Rightarrow> nat \<Rightarrow> bool \<Rightarrow> array \<Rightarrow> world \<Rightarrow> world" where
  "wait_for_link os 0 link a w = w"
| "wait_for_link os (Suc n) link a w =
     (let (r, w1) = shell_command os (ls_command a) (pause 1000000 w) in
      if r = 0 then w1
      else if link
      then let (r', w2) = shell_command os (ln_command a) w1 in
           if r' = 0 then w2 else wait_for_link os n link a w2
      else wait_for_link os n link a w1)"

definition wait_for_container :: "env \<Rightarrow> array \<Rightarrow> world \<Rightarrow> array \<times> world" where
  "wait_for_container os a w =
     (let (a', w') = wait_for_uuid os 10 a w in
      (a', wait_for_link os 10 (m_DevName a' \<noteq> []) a' w'))"

fun wait_for_volume_loop :: "env \<Rightarrow> nat \<Rightarrow> volume \<Rightarrow> array \<Rightarrow> world \<Rightarrow> (volume \<times> array) \<times> world" where
  "wait_for_volume_loop os 0 v a w = ((v, a), w)"
| "wait_for_volume_loop os (Suc n) v a w =
     (if m_Uuid v = []
      then wait_for_volume_loop os n (update os w v) (update os w a) (pause 3000000 w)
      else ((v, a), w))"

subsection \<open>Creation\<close>

definition new_array :: "nat \<Rightarrow> array" where
  "new_array i =
     \<lparr>object_id = i, m_Path = [], m_DevName = [], m_Name = [], m_Uuid = [], m_BlockDevices = [],
      m_Volumes = [], m_Busy = False, m_TotalSize = 0, m_FreeSize = 0\<rparr>"

definition new_volume :: "nat \<Rightarrow> volume" where
  "new_volume i =
     \<lparr>object_id = i, m_Path = [], m_DevName = [], m_Name = [], m_Uuid = [], m_BlockDevices = [],
      m_Ordinal = - 1, m_RaidLevel = - 1, m_WriteThrough = False, m_CachingEnabled = False,
      m_SystemVolume = False, m_MismatchCount = 0, m_StripSize = 0, m_MigrProgress = 0,
      m_ComponentSize = 0, m_State = SSI_VolumeStateUnknown, blk_total_size = 0,
      blk_logical_sector_size = 0, blk_physical_sector_size = 0, m_pSourceDisk = None,
      m_RwhPolicy = SSI_RwhInvalid\<rparr>"

definition container_command :: "array \<Rightarrow> string" where
  "container_command a =
     ''mdadm -CR '' @ quoted (m_Name a) @ '' -f -amd -eimsm -n'' @ dec (length (m_BlockDevices a))
     @ concat (map (\<lambda>d. '' /dev/'' @ getDevName d) (locked a))"

definition array_create :: "env \<Rightarrow> array \<Rightarrow> world \<Rightarrow> ((exception option \<times> array) \<times> world) option" where
  "array_create os a w =
     do { a1 \<leftarrow> determineDeviceName os ''Imsm_'' w a;
          Some (if m_BlockDevices a1 = [] then ((Some E_BUFFER_TOO_SMALL, a1), w)
                else let (r, w1) = shellEx os (container_command a1) 3 0 w in
                     if r \<noteq> 0 then ((Some E_ARRAY_CREATE_FAILED, a1), w1)
                     else let (a2, w2) = wait_for_container os a1 w1 in ((None, a2), w2)) }"

text \<open>\<open>Volume::create\<close>: name, command and wait.\<close>

definition volume_create_wait ::
  "env \<Rightarrow> array option \<Rightarrow> volume \<Rightarrow> world \<Rightarrow> ((exception option \<times> volume \<times> array option) \<times> world) option" where
  "volume_create_wait os parent v w =
     do { v1 \<leftarrow> (if m_Name v = [] then determineDeviceName os ''Volume_'' w v else Some v);
          Some (case volume_create os v1 w of
                  (Some e, w1) \<Rightarrow> ((Some e, v1, parent), w1)
                | (None, w1) \<Rightarrow>
                    (case parent of
                       None \<Rightarrow> ((None, v1, None), w1)
                     | Some a \<Rightarrow>
                         (let ((v2, a2), w2) = wait_for_volume_loop os 10 v1 a w1 in ((None, v2, Some a2), w2)))) }"

subsection \<open>Names that are free\<close>

lemma device_name_step:
  "device_name ex stem i =
     (if ex (''/dev/md/'' @ stem @ dec (unat i)) then device_name ex stem (i + 1) else Some (stem @ dec (unat i)))"
  by (subst device_name.simps) (simp add: Let_def)

lemma u32_bound: "unat (x :: u32) < 2 ^ 32"
proof -
  have "unat x < 2 ^ LENGTH(32)" by (rule unsigned_less)
  then show ?thesis by simp
qed

lemma u32_next: "unat (i :: u32) < unat (j :: u32) \<Longrightarrow> unat (i + 1) = unat i + 1"
proof -
  assume "unat i < unat (j :: u32)"
  with u32_bound [of j] have "unat i + 1 < 2 ^ 32" by linarith
  then show ?thesis by (simp add: unat_word_ariths)
qed

lemma device_name_found:
  assumes "\<not> ex (''/dev/md/'' @ stem @ dec (unat k))" "unat i \<le> unat (k :: u32)"
    "\<forall>j :: u32. unat i \<le> unat j \<and> unat j < unat k \<longrightarrow> ex (''/dev/md/'' @ stem @ dec (unat j))"
  shows "device_name ex stem i = Some (stem @ dec (unat k))"
  using assms(2,3)
proof (induction "unat k - unat i" arbitrary: i)
  case 0
  then have "i = k" by (simp add: word_unat_eq_iff)
  then show ?case using assms(1) by (simp add: device_name_step)
next
  case (Suc n)
  then have less: "unat i < unat k" by simp
  have "device_name ex stem (i + 1) = Some (stem @ dec (unat k))"
    using Suc.hyps(2) Suc.prems u32_next [OF less] less by (intro Suc.hyps(1)) auto
  moreover have "ex (''/dev/md/'' @ stem @ dec (unat i))" using Suc.prems(2) less by blast
  ultimately show ?case by (subst device_name_step) simp
qed

lemma least_free:
  assumes "\<exists>k :: u32. \<not> P (unat k)"
  shows "\<exists>k :: u32. \<not> P (unat k) \<and> (\<forall>j :: u32. unat j < unat k \<longrightarrow> P (unat j))"
proof -
  define Q where "Q n \<longleftrightarrow> n < 2 ^ 32 \<and> \<not> P n" for n :: nat
  let ?m = "LEAST n. Q n"
  obtain k :: u32 where "\<not> P (unat k)" using assms by blast
  with u32_bound [of k] have "Q (unat k)" by (simp add: Q_def)
  then have "Q ?m" by (rule LeastI)
  then have m: "?m < 2 ^ 32" "\<not> P ?m" by (simp_all add: Q_def)
  have "P n" if "n < ?m" for n
    using not_less_Least [OF that] that m(1) by (auto simp: Q_def)
  moreover have "unat (of_nat ?m :: u32) = ?m" using m by (simp add: unat_of_nat_u32)
  ultimately show ?thesis using m by (intro exI [of _ "of_nat ?m"]) simp
qed

lemma device_name_some_free:
  assumes "device_name ex stem i = Some y"
  shows "\<exists>k :: u32. \<not> ex (''/dev/md/'' @ stem @ dec (unat k))"
proof (rule device_name.raw_induct
    [where P = "\<lambda>ex stem i y. \<exists>k :: u32. \<not> ex (''/dev/md/'' @ stem @ dec (unat k))", OF _ assms])
  fix f :: "(string \<Rightarrow> bool) \<Rightarrow> string \<Rightarrow> u32 \<Rightarrow> string option" and ex stem i y
  assume rec: "\<And>ex stem i y. f ex stem i = Some y \<Longrightarrow> \<exists>k :: u32. \<not> ex (''/dev/md/'' @ stem @ dec (unat k))"
    and body: "(let name = stem @ dec (unat i)
      in if \<not> ex (''/dev/md/'' @ name) then Some name else f ex stem (i + 1)) = Some y"
  show "\<exists>k :: u32. \<not> ex (''/dev/md/'' @ stem @ dec (unat k))"
  proof (cases "ex (''/dev/md/'' @ stem @ dec (unat i))")
    case True
    with body have "f ex stem (i + 1) = Some y" by (simp add: Let_def)
    then show ?thesis by (rule rec)
  qed blast
qed

text \<open>
  C25. Choosing a device name.  If one of the names \<open>Imsm_0\<close>, \<open>Imsm_1\<close>, ... is free, the search
  ends with the first free one and changes nothing but the name; if every number of 32 bits is taken
  it never ends.
\<close>

theorem device_name_is_first_free:
  "(determineDeviceName os stem w d = None \<longleftrightarrow>
      (\<forall>k :: u32. path_exists os (trace w) (''/dev/md/'' @ stem @ dec (unat k))))
   \<and> (determineDeviceName os stem w d = Some d' \<longrightarrow>
      (\<exists>k :: u32. d' = d\<lparr>m_Name := stem @ dec (unat k)\<rparr>
         \<and> \<not> path_exists os (trace w) (''/dev/md/'' @ stem @ dec (unat k))
         \<and> (\<forall>j :: u32. unat j < unat k \<longrightarrow> path_exists os (trace w) (''/dev/md/'' @ stem @ dec (unat j)))))"
proof -
  let ?P = "\<lambda>n. path_exists os (trace w) (''/dev/md/'' @ stem @ dec n)"
  show ?thesis
  proof (cases "\<exists>k :: u32. \<not> ?P (unat k)")
    case True
    from least_free [of ?P, OF True] obtain k :: u32
      where k: "\<not> ?P (unat k)" "\<forall>j :: u32. unat j < unat k \<longrightarrow> ?P (unat j)" by blast
    have "device_name (path_exists os (trace w)) stem 0 = Some (stem @ dec (unat k))"
      using k by (intro device_name_found) auto
    then show ?thesis using k by (auto simp: determineDeviceName_def)
  next
    case False
    then have "device_name (path_exists os (trace w)) stem 0 = None"
      using device_name_some_free [of "path_exists os (trace w)" stem 0]
      by (cases "device_name (path_exists os (trace w)) stem 0") auto
    then show ?thesis using False by (simp add: determineDeviceName_def)
  qed
qed

theorem device_name_is_first_free_witness:
  "determineDeviceName calm ''Imsm_'' start_world demo_array = Some (demo_array\<lparr>m_Name := ''Imsm_0''\<rparr>)"
proof -
  have step: "determineDeviceName calm ''Imsm_'' start_world demo_array = Some (demo_array\<lparr>m_Name := ''Imsm_0''\<rparr>)"
    by (simp add: determineDeviceName_def device_name_step calm_def dec.simps digit_def char_of_def bit_0)
  from device_name_is_first_free [of calm "''Imsm_''" start_world demo_array "demo_array\<lparr>m_Name := ''Imsm_0''\<rparr>"] step
  show ?thesis by blast
qed

subsection \<open>Reading the map file\<close>

lemma find_sub_char: "c \<notin> set xs \<Longrightarrow> find_sub [c] (xs @ c # ys) = Some (length xs)"
  by (induction xs) (subst find_sub.simps; auto)+

lemma str_left_char: "c \<notin> set xs \<Longrightarrow> str_left (xs @ c # ys) [c] = xs"
  and str_after_char: "c \<notin> set xs \<Longrightarrow> str_after (xs @ c # ys) [c] = ys"
  by (simp_all add: str_left_def str_after_def find_sub_char)

lemma find_sub_last_char:
  assumes "c \<notin> set ys"
  shows "find_sub_last [c] (xs @ c # ys) = Some (length xs)"
proof -
  let ?s = "xs @ c # ys"
  have "[0..<Suc (length ?s - length [c])] = [0..<Suc (length xs)] @ [Suc (length xs)..<length ?s]"
    using upt_add_eq_append [of 0 "Suc (length xs)" "length ys"] by simp
  moreover have "filter (\<lambda>k. take (length [c]) (drop k ?s) = [c]) [Suc (length xs)..<length ?s] = []"
  proof -
    have "take 1 (drop k ?s) \<noteq> [c]" if k: "Suc (length xs) \<le> k" "k < length ?s" for k
    proof -
      have "take 1 (drop k ?s) = [?s ! k]"
        using k(2) by (metis One_nat_def Cons_nth_drop_Suc take0 take_Suc_Cons)
      moreover have "?s ! k = ys ! (k - Suc (length xs))"
        using k(1) by (simp add: nth_append nth_Cons')
      moreover have "ys ! (k - Suc (length xs)) \<in> set ys" using k by (intro nth_mem) simp
      ultimately show ?thesis using assms by auto
    qed
    moreover have "length [c] = 1" by simp
    ultimately show ?thesis unfolding filter_empty_conv set_upt by (metis atLeastLessThan_iff)
  qed
  ultimately have f: "filter (\<lambda>k. take (length [c]) (drop k ?s) = [c]) [0..<Suc (length ?s - length [c])] =
      filter (\<lambda>k. take (length [c]) (drop k ?s) = [c]) [0..<length xs] @ [length xs]"
    by simp
  obtain k ks where kk: "filter (\<lambda>k. take (length [c]) (drop k ?s) = [c]) [0..<length xs] @ [length xs] = k # ks"
    by (cases "filter (\<lambda>k. take (length [c]) (drop k ?s) = [c]) [0..<length xs]") auto
  then have "last (k # ks) = length xs" by (metis last_snoc)
  then show ?thesis unfolding find_sub_last_def f kk by simp
qed

lemma str_reverse_left_char: "c \<notin> set ys \<Longrightarrow> str_reverse_left (xs @ c # ys) [c] = xs"
  and str_reverse_after_char: "c \<notin> set ys \<Longrightarrow> str_reverse_after (xs @ c # ys) [c] = ys"
  by (simp_all add: str_reverse_left_def str_reverse_after_def find_sub_last_char)

text \<open>A line of the file: device, metadata, UUID and the path with the name.\<close>

record map_entry =
  entry_dev :: string
  entry_metadata :: string
  entry_uuid :: string
  entry_name :: string

definition map_text :: "map_entry \<Rightarrow> string" where
  "map_text e = entry_dev e @ '' '' @ entry_metadata e @ '' '' @ entry_uuid e @ '' /dev/md/'' @ entry_name e"

definition map_file :: "map_entry list \<Rightarrow> string" where
  "map_file es = concat (map (\<lambda>e. map_text e @ [CHR 0x0A]) es)"

definition entry_ok :: "map_entry \<Rightarrow> bool" where
  "entry_ok e \<longleftrightarrow> (\<forall>s\<in>{entry_dev e, entry_metadata e, entry_uuid e, entry_name e}. set s \<inter> {CHR '' '', CHR 0x0A} = {})
     \<and> CHR ''/'' \<notin> set (entry_name e)"

lemma map_text_parts:
  assumes "entry_ok e"
  shows "CHR 0x0A \<notin> set (map_text e)" "map_text e \<noteq> []" "str_left (map_text e) '' '' = entry_dev e"
    "str_reverse_after (map_text e) ''/'' = entry_name e"
    "str_reverse_after (str_reverse_left (map_text e) '' '') '' '' = entry_uuid e"
proof -
  have no: "CHR '' '' \<notin> set (entry_dev e)" "CHR '' '' \<notin> set (entry_uuid e)" "CHR '' '' \<notin> set (entry_name e)"
    "CHR ''/'' \<notin> set (entry_name e)" using assms by (auto simp: entry_ok_def)
  show "CHR 0x0A \<notin> set (map_text e)" using assms by (auto simp: entry_ok_def map_text_def)
  show "map_text e \<noteq> []" by (simp add: map_text_def)
  show "str_left (map_text e) '' '' = entry_dev e"
    using str_left_char [OF no(1)] by (simp add: map_text_def)
  have n: "map_text e = (entry_dev e @ '' '' @ entry_metadata e @ '' '' @ entry_uuid e @ '' /dev/md'') @ CHR ''/'' # entry_name e"
    by (simp add: map_text_def)
  show "str_reverse_after (map_text e) ''/'' = entry_name e"
    by (simp only: n str_reverse_after_char [OF no(4)])
  have u: "map_text e = (entry_dev e @ '' '' @ entry_metadata e @ '' '' @ entry_uuid e) @ CHR '' '' # (''/dev/md/'' @ entry_name e)"
    by (simp add: map_text_def)
  have "CHR '' '' \<notin> set (''/dev/md/'' @ entry_name e)" using no(3) by simp
  then have "str_reverse_left (map_text e) '' '' = entry_dev e @ '' '' @ entry_metadata e @ '' '' @ entry_uuid e"
    by (simp only: u) (rule str_reverse_left_char)
  then have l: "str_reverse_left (map_text e) '' '' = (entry_dev e @ '' '' @ entry_metadata e) @ CHR '' '' # entry_uuid e"
    by simp
  show "str_reverse_after (str_reverse_left (map_text e) '' '') '' '' = entry_uuid e"
    by (simp only: l str_reverse_after_char [OF no(2)])
qed

lemma map_line_file:
  assumes "\<forall>e\<in>set es. entry_ok e"
  shows "map_line by_name name (map_file es @ [CHR 0x0A]) =
    map_option map_text (List.find (\<lambda>e. find_sub name (if by_name then entry_name e else entry_dev e) \<noteq> None) es)"
  using assms
proof (induction es)
  case Nil
  have "str_left [CHR 0x0A] [CHR 0x0A] = []" using str_left_char [of _ "[]" "[]"] by simp
  then show ?case by (subst map_line.simps) (simp add: map_file_def)
next
  case (Cons e es)
  let ?rest = "map_file es @ [CHR 0x0A]"
  have f: "map_file (e # es) @ [CHR 0x0A] = map_text e @ CHR 0x0A # ?rest" by (simp add: map_file_def)
  have e: "entry_ok e" using Cons.prems by simp
  note parts = map_text_parts [OF e]
  have "str_left (map_text e @ CHR 0x0A # ?rest) [CHR 0x0A] = map_text e"
    "str_after (map_text e @ CHR 0x0A # ?rest) [CHR 0x0A] = ?rest"
    using str_left_char [OF parts(1)] str_after_char [OF parts(1)] by auto
  then show ?case
    unfolding f using Cons by (subst map_line.simps) (auto simp: parts Let_def)
qed


text \<open>The names are compared by occurrence: \<open>Volume_1\<close> is found in the entry of \<open>Volume_10\<close>.\<close>

definition demo_map :: "map_entry list" where
  "demo_map =
     [\<lparr>entry_dev = ''md126'', entry_metadata = ''/md127/0'', entry_uuid = ''a'', entry_name = ''Volume_10''\<rparr>,
      \<lparr>entry_dev = ''md125'', entry_metadata = ''/md127/1'', entry_uuid = ''b'', entry_name = ''Volume_1''\<rparr>]"


end
