(* ===== verification/Raid_Api.thy ===== *)
theory Raid_Api
  imports Raid_Create Raid_Migration Sessions
begin

text \<open>
  The entry points that change arrays and volumes: \<open>src/volume.cpp\<close>, \<open>src/array.cpp\<close> and
  \<open>src/raid_level.cpp\<close>.

  Each of them scans the system into a temporary session, looks its handles up there, works on the
  objects it finds and destroys the session when it returns.  What the scan finds is the parameter
  \<open>machine\<close>: the objects it adds, as numbers, and what they are.  The commands the scan itself runs
  are not in the trace.  The numbers of objects made by a call are those of freshly allocated objects.
  The answer of an entry point is a status, or an exception that leaves it.
\<close>

record machine =
  sysfs :: "nat scan"
  disk_of :: "nat \<Rightarrow> end_device"
  volume_of :: "nat \<Rightarrow> volume"
  array_of :: "nat \<Rightarrow> array"
  parent_of :: "nat \<Rightarrow> nat option"
  new_array_id :: nat
  new_volume_id :: nat
  attributes_of :: "string \<Rightarrow> md_attributes"
  reports_of :: "string \<Rightarrow> md_reports"

type_synonym answer = "exception + SSI_Status"
type_synonym 'a body = "nat session \<Rightarrow> world \<Rightarrow> ('a \<times> nat session \<times> world) option"

subsection \<open>The temporary session\<close>

definition close_temp :: "nat session \<Rightarrow> world \<Rightarrow> world" where
  "close_temp s w = w\<lparr>registry := session_destroy s (registry w)\<rparr>"

text \<open>\<open>getTempSession\<close>, the rest of the entry point, and the destruction of the session.\<close>

definition with_temp_session ::
  "machine \<Rightarrow> (SSI_Status \<Rightarrow> 'a) \<Rightarrow> 'a body \<Rightarrow> world option \<Rightarrow> ('a \<times> world option) option" where
  "with_temp_session m failure body pContextMgr =
     (case pContextMgr of
        None \<Rightarrow> Some (failure SSI_StatusNotInitialized, None)
      | Some w \<Rightarrow>
          (let ((s, objects), ok) = session_initialize (sysfs m) (empty_session, registry w);
               w1 = w\<lparr>registry := objects\<rparr> in
           if \<not> ok then Some (failure SSI_StatusFailed, Some (close_temp s w1))
           else do { (r, s', w2) \<leftarrow> body s w1; Some (r, Some (close_temp s' w2)) }))"

definition lookup :: "kind \<Rightarrow> nat session \<Rightarrow> world \<Rightarrow> SSI_Handle \<Rightarrow> nat option" where
  "lookup k s w handle = container_find (getHandle (registry w)) (container k s) handle"

text \<open>The common start of the operations on one object: an unknown handle is refused.\<close>

definition on_object ::
  "kind \<Rightarrow> machine \<Rightarrow> SSI_Handle \<Rightarrow> (nat session \<Rightarrow> nat \<Rightarrow> world \<Rightarrow> (answer \<times> world) option) \<Rightarrow> world option
    \<Rightarrow> (answer \<times> world option) option" where
  "on_object k m handle operation =
     with_temp_session m Inr
       (\<lambda>s w. case lookup k s w handle of
                None \<Rightarrow> Some (Inr SSI_StatusInvalidHandle, s, w)
              | Some i \<Rightarrow> do { (r, w') \<leftarrow> operation s i w; Some (r, s, w') })"

definition status :: "SSI_Status \<times> world \<Rightarrow> (answer \<times> world) option" where
  "status p = Some (Inr (fst p), snd p)"

definition parent :: "machine \<Rightarrow> nat \<Rightarrow> array option" where
  "parent m i = map_option (array_of m) (parent_of m i)"

subsection \<open>Operations on a volume\<close>

definition SsiVolumeMarkAsNormal where
  "SsiVolumeMarkAsNormal m volumeHandle =
     on_object Volume m volumeHandle (\<lambda>s i w. status (SSI_StatusNotSupported, w))"

definition SsiVolumeRebuild where
  "SsiVolumeRebuild m os volumeHandle diskHandle =
     on_object Volume m volumeHandle (\<lambda>s i w.
       let v = volume_of m i in
       case lookup EndDevice s w diskHandle of
         None \<Rightarrow> status (SSI_StatusInvalidHandle, w)
       | Some j \<Rightarrow>
           (let d = disk_of m j in
            if isFultondalex8 d then status (SSI_StatusNotSupported, w)
            else if m_State v \<noteq> SSI_VolumeStateDegraded then status (SSI_StatusInvalidState, w)
            else if blk_logical_sector_size v \<noteq> getLogicalSectorSize d then status (SSI_StatusNotSupported, w)
            else status (rebuild os v (parent m i) d w)))"

definition SsiVolumeDelete where
  "SsiVolumeDelete m os volumeHandle =
     on_object Volume m volumeHandle (\<lambda>s i w. status (volume_remove os (volume_of m i) (parent m i) w))"

definition SsiVolumeRename where
  "SsiVolumeRename m os volumeHandle volumeName =
     on_object Volume m volumeHandle (\<lambda>s i w.
       if \<exists>j\<in>set (container Volume s). m_Name (volume_of m j) = volumeName
       then status (SSI_StatusInvalidString, setLastErrorMessage ''Volume name already in use'' w)
       else Some (rename os (volume_of m i) (parent m i) volumeName w))"

definition SsiExpandVolume where
  "SsiExpandVolume m os volumeHandle newSizeMB =
     on_object Volume m volumeHandle (\<lambda>s i w. status (expand os (volume_of m i) (newSizeMB * 1024) w))"

definition SsiVolumeSetCachePolicy where
  "SsiVolumeSetCachePolicy m volumeHandle (policy :: SSI_VolumeCachePolicy) =
     on_object Volume m volumeHandle (\<lambda>s i w. status (SSI_StatusNotSupported, w))"

definition SsiVolumeSetRwhPolicy where
  "SsiVolumeSetRwhPolicy m os volumeHandle policy =
     on_object Volume m volumeHandle (\<lambda>s i w.
       let ((st, v'), w') = changeRwhPolicy os policy (volume_of m i) w in status (st, w'))"

definition SsiVolumeInitialize where
  "SsiVolumeInitialize m volumeHandle =
     on_object Volume m volumeHandle (\<lambda>s i w. status (SSI_StatusNotSupported, w))"

definition SsiVolumeVerify where
  "SsiVolumeVerify m os volumeHandle repair =
     on_object Volume m volumeHandle (\<lambda>s i w.
       if m_State (volume_of m i) \<noteq> SSI_VolumeStateNormal then status (SSI_StatusInvalidState, w)
       else status (verify os (volume_of m i) repair w))"

definition SsiVolumeCancelVerify where
  "SsiVolumeCancelVerify m os volumeHandle =
     on_object Volume m volumeHandle (\<lambda>s i w.
       if m_State (volume_of m i) \<notin> {SSI_VolumeStateVerifying, SSI_VolumeStateVerifyingAndFix}
       then status (SSI_StatusInvalidState, w)
       else status (cancelVerify os (volume_of m i) w))"

text \<open>
  The disks of a handle array.  Reading behind its end is undefined; \<open>check\<close> is what the loop tests for
  each disk it has found.
\<close>

fun gather :: "machine \<Rightarrow> nat session \<Rightarrow> world \<Rightarrow> (end_device \<Rightarrow> SSI_Status option) \<Rightarrow> nat \<Rightarrow> SSI_Handle list
    \<Rightarrow> (SSI_Status + end_device list) option" where
  "gather m s w check 0 hs = Some (Inr [])"
| "gather m s w check (Suc n) [] = None"
| "gather m s w check (Suc n) (h # hs) =
     (case lookup EndDevice s w h of
        None \<Rightarrow> Some (Inl SSI_StatusInvalidHandle)
      | Some j \<Rightarrow>
          (case check (disk_of m j) of
             Some st \<Rightarrow> Some (Inl st)
           | None \<Rightarrow> map_option (map_sum id ((#) (disk_of m j))) (gather m s w check n hs)))"

definition SsiRaidLevelModify where
  "SsiRaidLevelModify m os junk volumeHandle newStripSize newRaidLevel newSize diskHandles (diskHandleCount :: u32) =
     on_object Volume m volumeHandle (\<lambda>s i w.
       let v = volume_of m i in
       if diskHandles = None \<and> diskHandleCount \<noteq> 0 then status (SSI_StatusInvalidParameter, w)
       else do {
         r \<leftarrow> gather m s w
           (\<lambda>d. if blk_logical_sector_size v \<noteq> getLogicalSectorSize d then Some SSI_StatusNotSupported else None)
           (unat diskHandleCount) (case diskHandles of None \<Rightarrow> [] | Some hs \<Rightarrow> hs);
         case r of
           Inl st \<Rightarrow> status (st, w)
         | Inr disks \<Rightarrow>
             do { p \<leftarrow> modify os junk v (parent m i) newStripSize newRaidLevel newSize disks w; status p } })"

subsection \<open>Operations on an array\<close>

text \<open>The flag is that of the last volume.\<close>

fun raid0_flag :: "volume list \<Rightarrow> bool \<Rightarrow> SSI_Status + bool" where
  "raid0_flag [] isRaid0 = Inr isRaid0"
| "raid0_flag (v # vs) isRaid0 =
     (let raid = ui2raidlevel (m_RaidLevel v) in
      if raid = SSI_Raid1 \<or> raid = SSI_Raid10 then Inl SSI_StatusInvalidRaidLevel
      else raid0_flag vs (raid = SSI_Raid0))"

definition SsiAddDisksToArray where
  "SsiAddDisksToArray m os handle diskHandles (diskHandleCount :: u32) =
     on_object Array m handle (\<lambda>s i w.
       let a = array_of m i in
       case raid0_flag (array.m_Volumes a) True of
         Inl st \<Rightarrow> status (st, w)
       | Inr isRaid0 \<Rightarrow>
           (case diskHandles of
              None \<Rightarrow> status (SSI_StatusInvalidParameter, w)
            | Some hs \<Rightarrow>
                (if diskHandleCount = 0 then status (SSI_StatusBufferTooSmall, w)
                 else case array_getEndDevices a True of
                   [] \<Rightarrow> status (SSI_StatusInternalError, w)
                 | first # _ \<Rightarrow>
                     do {
                       r \<leftarrow> gather m s w
                         (\<lambda>d. if \<not> isRaid0 \<and> isFultondalex8 d then Some SSI_StatusNotSupported
                              else if getLogicalSectorSize d \<noteq> getLogicalSectorSize first
                              then Some SSI_StatusNotSupported else None)
                         (unat diskHandleCount) hs;
                       case r of
                         Inl st \<Rightarrow> status (st, w)
                       | Inr disks \<Rightarrow> do { p \<leftarrow> grow os a disks w; status p } })))"

definition SsiArraySetWriteCacheState where
  "SsiArraySetWriteCacheState m handle cacheEnable =
     on_object Array m handle (\<lambda>s i w. status (setWriteCacheState (array_of m i) cacheEnable, w))"

subsection \<open>Making volumes\<close>

record create_params =
  numDisks :: u32
  disks :: "SSI_Handle list"
  sourceDisk :: SSI_Handle
  arrayOfVolume :: SSI_Handle
  volumeName :: string
  stripSize :: SSI_StripSize
  raidLevel :: SSI_RaidLevel
  sizeInBytes :: u64
  rwhPolicy :: SSI_RwhPolicy

fun array_error :: "exception \<Rightarrow> SSI_Status" where
  "array_error E_NOT_SUPPORTED = SSI_StatusNotSupported"
| "array_error E_INVALID_STRIP_SIZE = SSI_StatusInvalidStripSize"
| "array_error E_INVALID_NAME = SSI_StatusInvalidString"
| "array_error E_INVALID_SIZE = SSI_StatusInvalidSize"
| "array_error E_INVALID_RAID_LEVEL = SSI_StatusInvalidRaidLevel"
| "array_error E_INVALID_USAGE = SSI_StatusInvalidState"
| "array_error E_BUFFER_TOO_SMALL = SSI_StatusBufferTooSmall"
| "array_error E_SYSTEM_DEVICE = SSI_StatusInvalidParameter"
| "array_error e = SSI_StatusFailed"

definition array_failure :: "exception \<Rightarrow> world \<Rightarrow> SSI_Status \<times> world" where
  "array_failure e w =
     (array_error e,
      if e = E_SYSTEM_DEVICE then setLastErrorMessage ''Volume with system device is not allowed'' w else w)"

fun volume_error :: "exception \<Rightarrow> SSI_Status" where
  "volume_error E_INVALID_STRIP_SIZE = SSI_StatusInvalidStripSize"
| "volume_error E_INVALID_NAME = SSI_StatusInvalidString"
| "volume_error E_INVALID_RAID_LEVEL = SSI_StatusInvalidRaidLevel"
| "volume_error E_BUFFER_TOO_SMALL = SSI_StatusBufferTooSmall"
| "volume_error E_BUFFER_TOO_LARGE = SSI_StatusBufferTooLarge"
| "volume_error E_INVALID_OBJECT = SSI_StatusInvalidParameter"
| "volume_error E_NOT_SUPPORTED = SSI_StatusNotSupported"
| "volume_error e = SSI_StatusFailed"

fun then_do :: "exception + 'a \<Rightarrow> ('a \<Rightarrow> exception + 'b) \<Rightarrow> exception + 'b" where
  "then_do (Inl e) f = Inl e"
| "then_do (Inr x) f = f x"

text \<open>
  \<open>discover\<close> of a volume that is only being made, whose path is empty: the base class takes over what it
  finds in the map file, and the attributes are those at the path this leads to.
\<close>

definition fresh_volume :: "machine \<Rightarrow> env \<Rightarrow> world \<Rightarrow> volume" where
  "fresh_volume m os w =
     (let v = raid_device_discover os w (new_volume (new_volume_id m)) in
      discover (attributes_of m (m_Path v)) (reports_of m (m_Path v)) v)"

text \<open>The setters up to \<open>setName\<close>, then the others in the order of the entry point.\<close>

definition prepare_volume :: "SSI_RaidLevelInfo \<Rightarrow> create_params \<Rightarrow> end_device list
    \<Rightarrow> (volume \<Rightarrow> exception + volume) \<Rightarrow> volume \<Rightarrow> (exception + volume) option" where
  "prepare_volume junk p ds others v =
     (case raid_device_setEndDevices ds v of
        (Some e, v1) \<Rightarrow> Some (Inl e)
      | (None, v1) \<Rightarrow>
          do { r \<leftarrow> setComponentSize junk (sizeInBytes p) (of_nat (length ds)) (raidLevel p) v1;
               Some (then_do (then_do (then_do r (setName (volumeName p))) others) (setRwhPolicy (rwhPolicy p))) })"

definition volume_from_disks ::
  "machine \<Rightarrow> env \<Rightarrow> SSI_RaidLevelInfo \<Rightarrow> create_params \<Rightarrow> end_device list \<Rightarrow> array \<Rightarrow> nat session \<Rightarrow> world
    \<Rightarrow> ((answer \<times> SSI_Handle option) \<times> nat session \<times> world) option" where
  "volume_from_disks m os junk p ds a s w =
     (let rollback = (\<lambda>e w. Some ((Inr (volume_error e), None), s, snd (array_remove os a w)));
          level_then_strip = (\<lambda>v. then_do (setRaidLevel (raidLevel p) v)
             (\<lambda>v. if raidLevel p \<noteq> SSI_Raid1 then setStripSize (stripSize p) v else Inr v)) in
      do {
        r \<leftarrow> prepare_volume junk p ds level_then_strip (setSourceDisk None (fresh_volume m os w));
        case r of
          Inl e \<Rightarrow> rollback e w
        | Inr v \<Rightarrow>
            do {
              ((e, v', a'), w1) \<leftarrow> volume_create_wait os (Some a) v w;
              case e of
                Some e \<Rightarrow> rollback e w1
              | None \<Rightarrow>
                  (let (s1, r1) = add_object Volume (object_id v') (s, registry w1);
                       (s2, r2) = add_object Array (object_id a) (s1, r1) in
                   Some ((Inr SSI_StatusOk, Some (getHandle r2 (object_id v'))), s2, w1\<lparr>registry := r2\<rparr>)) } })"

definition refuse :: "nat session \<Rightarrow> SSI_Status \<times> world \<Rightarrow> ((answer \<times> SSI_Handle option) \<times> nat session \<times> world) option" where
  "refuse s p = Some ((Inr (fst p), None), s, snd p)"

text \<open>The container of the chosen disks, and the volume in it.\<close>

definition container_from_disks ::
  "machine \<Rightarrow> env \<Rightarrow> SSI_RaidLevelInfo \<Rightarrow> create_params \<Rightarrow> end_device list \<Rightarrow> nat session \<Rightarrow> world
    \<Rightarrow> ((answer \<times> SSI_Handle option) \<times> nat session \<times> world) option" where
  "container_from_disks m os junk p ds s w =
     (case array_setEndDevices ds (new_array (new_array_id m)) of
        (Some e, a) \<Rightarrow> refuse s (array_failure e w)
      | (None, a) \<Rightarrow>
          do {
            ((e, a'), w1) \<leftarrow> array_create os a w;
            case e of
              Some e \<Rightarrow> refuse s (array_failure e w1)
            | None \<Rightarrow> volume_from_disks m os junk p ds a' s (clearLastErrorMessage w1) })"

definition create_from_disks ::
  "machine \<Rightarrow> env \<Rightarrow> SSI_RaidLevelInfo \<Rightarrow> create_params \<Rightarrow> nat session \<Rightarrow> world
    \<Rightarrow> ((answer \<times> SSI_Handle option) \<times> nat session \<times> world) option" where
  "create_from_disks m os junk p s w =
     do {
       r \<leftarrow> gather m s w (\<lambda>_. None) (unat (numDisks p)) (disks p);
       case r of
         Inl st \<Rightarrow> refuse s (st, w)
       | Inr ds \<Rightarrow>
           (if \<exists>d\<in>set ds. getLogicalSectorSize d \<noteq> getLogicalSectorSize (hd ds)
            then refuse s (SSI_StatusNotSupported, w)
            else if lookup EndDevice s w (sourceDisk p) \<noteq> None then refuse s (SSI_StatusNotSupported, w)
            else container_from_disks m os junk p ds s w) }"

text \<open>The answer and the handle stored, if one is.\<close>

definition SsiVolumeCreateFromDisks ::
  "machine \<Rightarrow> env \<Rightarrow> SSI_RaidLevelInfo \<Rightarrow> create_params \<Rightarrow> bool \<Rightarrow> world option
    \<Rightarrow> ((answer \<times> SSI_Handle option) \<times> world option) option" where
  "SsiVolumeCreateFromDisks m os junk p volumeHandle_null pContextMgr =
     (if volumeHandle_null then Some ((Inr SSI_StatusInvalidParameter, None), pContextMgr)
      else if numDisks p = 0
      then Some ((Inr SSI_StatusInvalidParameter, None),
                 map_option (setLastErrorMessage ''Not enough disks to create volume'') pContextMgr)
      else with_temp_session m (\<lambda>st. (Inr st, None)) (create_from_disks m os junk p) pContextMgr)"

definition SsiVolumeCreate ::
  "machine \<Rightarrow> env \<Rightarrow> SSI_RaidLevelInfo \<Rightarrow> create_params \<Rightarrow> world option \<Rightarrow> (answer \<times> world option) option" where
  "SsiVolumeCreate m os junk p =
     with_temp_session m Inr
       (\<lambda>s w. case lookup Array s w (arrayOfVolume p) of
          None \<Rightarrow> Some (Inr SSI_StatusInvalidHandle, s, w)
        | Some i \<Rightarrow>
            (let a = array_of m i;
                 members = array_getEndDevices a False;
                 ds = (if members = [] then array_getEndDevices a True else members);
                 strip_then_level = (\<lambda>v. then_do (setStripSize (stripSize p) v) (setRaidLevel (raidLevel p))) in
             do {
               r \<leftarrow> prepare_volume junk p ds strip_then_level (fresh_volume m os w);
               case r of
                 Inl e \<Rightarrow> Some (Inr (volume_error e), s, w)
               | Inr v \<Rightarrow>
                   do {
                     ((e, v', a'), w1) \<leftarrow> volume_create_wait os (Some a) v w;
                     case e of
                       Some e \<Rightarrow> Some (Inr (volume_error e), s, w1)
                     | None \<Rightarrow>
                         (let v'' = update os w1 v';
                              (s1, r1) = add_object Volume (object_id v'') (s, registry w1) in
                          Some (Inr SSI_StatusOk, s1, w1\<lparr>registry := r1\<rparr>)) } }))"

subsection \<open>A query with a session\<close>

definition SsiGetRaidLevelInfo where
  "SsiGetRaidLevelInfo raid_info_of session raidInfoHandle level pInfo pContextMgr =
     (case ssi_getSession session pContextMgr of
        Inl st \<Rightarrow> (st, pInfo)
      | Inr i \<Rightarrow>
          (let c = the pContextMgr in
           case container_find (getHandle (m_HandleMgr c)) (container RaidInfo (session_at c i)) raidInfoHandle of
             None \<Rightarrow> (SSI_StatusInvalidHandle, pInfo)
           | Some x \<Rightarrow> getRaidLevelInfo (raid_info_of x) level pInfo))"

end
