(* ===== verification/Disks.thy ===== *)
theory Disks
  imports Raid_Api
begin

text \<open>
  Disks: \<open>block_device.cpp\<close>, the disk operations of \<open>end_device.cpp\<close> and \<open>nvme_disk.cpp\<close>,
  \<open>Controller::makeSpare\<close>, and the entry points of \<open>src/end_device.cpp\<close>, \<open>src/phy.cpp\<close> and
  \<open>src/port.cpp\<close> that work on them.

  A \<open>disk\<close> is an end device together with what only these operations look at: its dynamic type, the
  controller its parent leads to, its block counts.  The numbers that \<open>File\<close> reads from sysfs are
  parameters; the output of a command is ASCII text.
\<close>

record controller =
  getHardwareMode :: SSI_HardwareKeyType
  controller_arrays :: "array list"
  controller_volumes :: "volume list"

record disk = end_device +
  is_nvme_disk :: bool
  isIntelNvme :: bool
  getController :: "controller option"
  m_BlocksTotal :: u64
  m_BlocksFree :: u64

abbreviation end_device_of :: "disk \<Rightarrow> end_device" where
  "end_device_of d \<equiv> end_device.truncate d"

subsection \<open>Usage and system disk\<close>

text \<open>\<open>shell_cap\<close>: the output of the command, and the status \<open>pclose\<close> returns.\<close>

definition shell_cap :: "env \<Rightarrow> string \<Rightarrow> string \<Rightarrow> world \<Rightarrow> (int \<times> string) \<times> world" where
  "shell_cap os s r w =
     (case popen os (trace w) s of
        None \<Rightarrow> ((-1, r), w)
      | Some (st, result) \<Rightarrow> ((int st, result), w\<lparr>trace := trace w @ [Command s]\<rparr>))"

definition contains :: "string \<Rightarrow> string \<Rightarrow> bool" where
  "contains s p \<longleftrightarrow> str_find s p 0 \<noteq> None"

definition determine_disk_usage :: "env \<Rightarrow> disk \<Rightarrow> world \<Rightarrow> disk \<times> world" where
  "determine_disk_usage os d w =
     (let ((st, result), w') = shell_cap os (''mdadm -Es /dev/'' @ getDevName d) [] w;
          usage =
            (if st \<noteq> 0 then SSI_DiskUsagePassThru
             else if contains result ''spare''
             then (if getArray d \<noteq> None then SSI_DiskUsageSpare else SSI_DiskUsagePassThruReadOnlyMount)
             else if contains result ''ARRAY''
             then (if getArray d \<noteq> None then SSI_DiskUsageArrayMember else SSI_DiskUsageOfflineArray)
             else SSI_DiskUsagePassThru) in
      (d\<lparr>getDiskUsage := usage\<rparr>, w'))"

definition determine_disk_state :: "disk \<Rightarrow> disk" where
  "determine_disk_state d = d\<lparr>getDiskState := SSI_DiskStateNormal\<rparr>"

definition determine_disk_is_system :: "env \<Rightarrow> disk \<Rightarrow> world \<Rightarrow> disk \<times> world" where
  "determine_disk_is_system os d w =
     (let ((st, result), w') = shell_cap os ''df /boot'' [] w in
      (if st = 0 then d\<lparr>isSystemDisk := contains result (''/dev/'' @ getDevName d)\<rparr> else d, w'))"

text \<open>\<open>BlockDevice::discover\<close>, after \<open>EndDevice::discover\<close> has found the name and the sizes.\<close>

definition block_discover :: "env \<Rightarrow> disk \<Rightarrow> world \<Rightarrow> disk \<times> world" where
  "block_discover os d w =
     (let (d1, w1) = determine_disk_usage os (determine_disk_state d) w;
          (d2, w2) = determine_disk_is_system os d1 w1 in
      (d2\<lparr>m_BlocksFree := m_BlocksTotal d2\<rparr>, w2))"

subsection \<open>Sizes\<close>

text \<open>
  \<open>EndDevice::discover\<close>: the block size and the number of 512 byte sectors, each kept when its
  file cannot be read.  A block size below 512 divides by zero.
\<close>

definition discover_sizes :: "u32 option \<Rightarrow> u64 option \<Rightarrow> disk \<Rightarrow> disk option" where
  "discover_sizes logical_block_size sectors d =
     (let logical = (case logical_block_size of None \<Rightarrow> getLogicalSectorSize d | Some x \<Rightarrow> x);
          d1 = d\<lparr>getLogicalSectorSize := logical\<rparr> in
      case sectors of
        None \<Rightarrow> Some d1
      | Some n \<Rightarrow>
          (if logical div 512 = 0 then None
           else let total = n div ucast (logical div 512) in
                Some (d1\<lparr>m_BlocksTotal := total, getTotalSize := total * ucast logical\<rparr>)))"

text \<open>The loop over the volumes of the array.  \<open>occupied\<close>: what the volumes with this disk take from it.\<close>

record blocks =
  totalBlocks :: u64
  occupiedBlocks :: u64
  stripSize_of_last :: u32
  volumeCount :: nat

definition count_volume :: "string \<Rightarrow> u64 \<Rightarrow> volume \<Rightarrow> blocks \<Rightarrow> blocks" where
  "count_volume serial raidSectorSize v b =
     (let endDevices = locked v in
      if \<exists>e\<in>set endDevices. getSerialNum e = serial
      then \<lparr>totalBlocks = fold (\<lambda>e t. min t (getTotalSize e div raidSectorSize)) endDevices (totalBlocks b),
            occupiedBlocks =
              occupiedBlocks b + (m_ComponentSize v * 1024) div raidSectorSize + IMSM_RESERVED_SECTORS,
            stripSize_of_last = m_StripSize v,
            volumeCount = Suc (volumeCount b)\<rparr>
      else b)"

definition raid_sector_size :: "volume list \<Rightarrow> u64" where
  "raid_sector_size volumes =
     (case volumes of
        [] \<Rightarrow> DEFAULT_SECTOR_SIZE
      | v # _ \<Rightarrow> (if blk_logical_sector_size v = 0 then DEFAULT_SECTOR_SIZE
                  else ucast (blk_logical_sector_size v)))"

definition blocks_left :: "u64 \<Rightarrow> u64 \<Rightarrow> blocks \<Rightarrow> u64" where
  "blocks_left blocksTotal raidSectorSize b =
     (let occupied = (if occupiedBlocks b > 0 then occupiedBlocks b + MPB_SECTOR_CNT else occupiedBlocks b);
          free = (if volumeCount b = 0 then blocksTotal
                  else if occupied > totalBlocks b then 0
                  else totalBlocks b - occupied) in
      if free < ucast (stripSize_of_last b) div raidSectorSize \<or> volumeCount b > 1 then 0 else free)"

definition determineBlocksFree :: "array \<Rightarrow> disk \<Rightarrow> disk" where
  "determineBlocksFree a d =
     (let volumes = array.m_Volumes a;
          raidSectorSize = raid_sector_size volumes;
          b = fold (count_volume (getSerialNum d) raidSectorSize) volumes
                \<lparr>totalBlocks = - 1, occupiedBlocks = 0, stripSize_of_last = 0, volumeCount = 0\<rparr> in
      d\<lparr>m_BlocksFree := blocks_left (m_BlocksTotal d) raidSectorSize b\<rparr>)"

subsection \<open>Operations\<close>

text \<open>\<open>EndDevice::clearMetadata\<close> and \<open>BlockDevice::clearMetadata\<close>.\<close>

definition clearMetadata :: "env \<Rightarrow> disk \<Rightarrow> world \<Rightarrow> SSI_Status \<times> world" where
  "clearMetadata os d w =
     (if \<not> is_block d then (SSI_StatusNotSupported, w)
      else if getDiskState d \<noteq> SSI_DiskStateNormal then (SSI_StatusInvalidState, w)
      else if isSystemDisk d then (SSI_StatusInvalidState, w)
      else if getDiskUsage d \<notin> {SSI_DiskUsageOfflineArray, SSI_DiskUsagePassThruReadOnlyMount}
      then (SSI_StatusInvalidState, w)
      else let (r, w') = shellEx os (clear_command (end_device_of d)) 1 0 w in
           (if r = 0 then SSI_StatusOk else SSI_StatusFailed, w'))"

fun add_to_some :: "env \<Rightarrow> array list \<Rightarrow> end_device \<Rightarrow> world \<Rightarrow> bool \<times> world" where
  "add_to_some os [] d w = (False, w)"
| "add_to_some os (a # as) d w =
     (let (status, w') = addSpare_one os a (Some d) w in
      if status = SSI_StatusOk then (True, w') else add_to_some os as d w')"

text \<open>\<open>fresh\<close> is the number of the array allocated.  None: the search for a device name does not end.\<close>

definition controller_makeSpare ::
  "env \<Rightarrow> nat \<Rightarrow> controller \<Rightarrow> end_device \<Rightarrow> world \<Rightarrow> (SSI_Status \<times> world) option" where
  "controller_makeSpare os fresh c d w =
     (let (added, w1) = add_to_some os (controller_arrays c) d w in
      if added then Some (SSI_StatusOk, w1)
      else case array_setEndDevices [d] (new_array fresh) of
             (Some e, _) \<Rightarrow> Some (SSI_StatusInvalidState, w1)
           | (None, a) \<Rightarrow>
               do { ((e, _), w2) \<leftarrow> array_create os a w1;
                    Some (if e = None then SSI_StatusOk else SSI_StatusFailed, w2) })"

definition makeSpare :: "env \<Rightarrow> nat \<Rightarrow> disk \<Rightarrow> world \<Rightarrow> (SSI_Status \<times> world) option" where
  "makeSpare os fresh d w =
     (if \<not> is_block d then Some (SSI_StatusInvalidState, w)
      else case getController d of
             None \<Rightarrow> Some (SSI_StatusInvalidState, w)
           | Some c \<Rightarrow> controller_makeSpare os fresh c (end_device_of d) w)"

definition locate_command :: "bool \<Rightarrow> disk \<Rightarrow> string" where
  "locate_command mode d =
     ''ledctl '' @ (if mode then ''locate'' else ''normal'') @ ''='' @ dev (getDevName d)"

definition locate :: "env \<Rightarrow> bool \<Rightarrow> disk \<Rightarrow> world \<Rightarrow> SSI_Status \<times> world" where
  "locate os mode d w =
     (let (r, w') = shell_command os (locate_command mode d) w in
      (if r = 0 then SSI_StatusOk else SSI_StatusFailed, w'))"

text \<open>
  \<open>NVME_Disk::canRemoveDisk\<close>: the loops over the volumes of the controller that hold the disk.
  \<open>getId\<close> is the serial number behind a fixed prefix.
\<close>

definition canRemoveDisk :: "disk \<Rightarrow> bool" where
  "canRemoveDisk d \<longleftrightarrow>
     is_nvme_disk d \<and>
     (case getController d of
        None \<Rightarrow> \<not> isSystemDisk d
      | Some c \<Rightarrow>
          (if getHardwareMode c \<notin> {SSI_HardwareKeyVROCStandard, SSI_HardwareKeyVROCPremium} \<and> \<not> isIntelNvme d
           then False
           else let volumes = filter (\<lambda>v. \<exists>e\<in>set (locked v). getSerialNum e = getSerialNum d) (controller_volumes c) in
                if volumes \<noteq> []
                then \<not> (\<exists>v\<in>set volumes. m_SystemVolume v \<and>
                          (ui2raidlevel (m_RaidLevel v) = SSI_Raid0 \<or> m_State v \<noteq> SSI_VolumeStateNormal))
                else \<not> isSystemDisk d))"

text \<open>A file that cannot be opened and a write the kernel refuses both give 1.\<close>

definition sysfs_write :: "env \<Rightarrow> string \<Rightarrow> string \<Rightarrow> world \<Rightarrow> int \<times> world" where
  "sysfs_write os message file w =
     (case file_write os file message w of Inl e \<Rightarrow> (1, w) | Inr w' \<Rightarrow> (0, w'))"

definition remove_file :: "disk \<Rightarrow> string" where
  "remove_file d = ''/sys/class/block/'' @ getDevName d @ ''/device/device/remove''"

definition removeDevice :: "env \<Rightarrow> disk \<Rightarrow> world \<Rightarrow> SSI_Status \<times> world" where
  "removeDevice os d w =
     (if \<not> is_nvme_disk d then (SSI_StatusNotSupported, w)
      else let (r, w') = sysfs_write os ''1'' (remove_file d) w in
           (if r = 0 then SSI_StatusOk else SSI_StatusFailed, w'))"

definition removeDisk :: "env \<Rightarrow> disk \<Rightarrow> world \<Rightarrow> SSI_Status \<times> world" where
  "removeDisk os d w =
     (if \<not> canRemoveDisk d then (SSI_StatusNotSupported, w)
      else let (st, w') = locate os True d w in
           if st \<noteq> SSI_StatusOk then (st, w') else removeDevice os d w')"

subsection \<open>NVMe disks\<close>

definition whichFultondalex8Disk :: "string \<Rightarrow> nat" where
  "whichFultondalex8Disk serial =
     (if length serial > 1 \<and> serial ! (length serial - 2) = CHR ''-''
      then let last' = serial ! (length serial - 1) in
           if last' \<in> {CHR ''A'', CHR ''1''} then 1
           else if last' \<in> {CHR ''B'', CHR ''2''} then 2 else 0
      else 0)"

text \<open>The vendor of the PCI device, without the prefix \<open>0x\<close>, and what is derived from it.\<close>

definition nvme_vendor :: "string \<Rightarrow> string" where
  "nvme_vendor vendorId = (case str_find vendorId ''0x'' 0 of None \<Rightarrow> vendorId | Some pos \<Rightarrow> drop (pos + 2) vendorId)"

definition nvme_flags :: "string \<Rightarrow> disk \<Rightarrow> disk" where
  "nvme_flags vendorId d =
     d\<lparr>m_BlocksFree := m_BlocksTotal d,
       isFultondalex8 := whichFultondalex8Disk (getSerialNum d) \<noteq> 0,
       isIntelNvme := (if nvme_vendor vendorId = ''8086'' then True else isIntelNvme d)\<rparr>"

subsection \<open>Entry points\<close>

definition checkNvmeOperationSupport :: "disk \<Rightarrow> SSI_Status" where
  "checkNvmeOperationSupport d =
     (case getController d of
        None \<Rightarrow> SSI_StatusInvalidState
      | Some c \<Rightarrow>
          (if getDiskType d = SSI_DiskTypeVMD \<and>
              (getHardwareMode c = SSI_HardwareKeyVROCIntelSSDonly \<and> \<not> isIntelNvme d
               \<or> getHardwareMode c = SSI_HardwareKey3story)
           then SSI_StatusNotSupported else SSI_StatusOk))"

text \<open>
  \<open>disk_at i\<close> is the disk with the number \<open>i\<close>, of which the RAID code sees \<open>disk_of m i\<close>.
\<close>

definition SsiDiskClearMetadata where
  "SsiDiskClearMetadata m os disk_at diskHandle =
     on_object EndDevice m diskHandle (\<lambda>s i w. status (clearMetadata os (disk_at i) w))"

definition SsiDiskMarkAsSpare where
  "SsiDiskMarkAsSpare m os (disk_at :: nat \<Rightarrow> disk) diskHandle handle =
     on_object EndDevice m diskHandle (\<lambda>s i w.
       let d = disk_at i in
       if isFultondalex8 d then status (SSI_StatusNotSupported, w)
       else if checkNvmeOperationSupport d \<noteq> SSI_StatusOk then status (checkNvmeOperationSupport d, w)
       else if handle = SSI_NULL_HANDLE
       then do { p \<leftarrow> makeSpare os (new_array_id m) d w; status p }
       else case lookup Array s w handle of
              None \<Rightarrow> status (SSI_StatusInvalidHandle, w)
            | Some j \<Rightarrow>
                (if getArray d = Some j then status (SSI_StatusInvalidState, w)
                 else status (addSpare_one os (array_of m j) (Some (end_device_of d)) w)))"

definition SsiDiskUnmarkAsSpare where
  "SsiDiskUnmarkAsSpare m os (disk_at :: nat \<Rightarrow> disk) diskHandle =
     on_object EndDevice m diskHandle (\<lambda>s i w.
       let d = disk_at i in
       if isFultondalex8 d then status (SSI_StatusNotSupported, w)
       else if checkNvmeOperationSupport d \<noteq> SSI_StatusOk then status (checkNvmeOperationSupport d, w)
       else case getArray d of
              None \<Rightarrow> status (SSI_StatusInvalidState, w)
            | Some j \<Rightarrow> status (removeSpare os (array_of m j) False (end_device_of d) w))"

definition SsiDiskMarkAsNormal where
  "SsiDiskMarkAsNormal m diskHandle =
     on_object EndDevice m diskHandle (\<lambda>s i w. status (SSI_StatusNotSupported, w))"

definition SsiDiskUnlock where
  "SsiDiskUnlock m (disk_at :: nat \<Rightarrow> disk) diskHandle =
     on_object EndDevice m diskHandle (\<lambda>s i w.
       status (if is_block (disk_at i) then SSI_StatusOk else SSI_StatusNotSupported, w))"

definition SsiDiskAssignStoragePool where
  "SsiDiskAssignStoragePool m diskHandle (poolId :: 8 word) =
     on_object EndDevice m diskHandle (\<lambda>s i w. status (SSI_StatusNotSupported, w))"

definition SsiDiskResetSmartEvent where
  "SsiDiskResetSmartEvent m diskHandle =
     on_object EndDevice m diskHandle (\<lambda>s i w. status (SSI_StatusNotSupported, w))"

definition SsiPassthroughCommand where
  "SsiPassthroughCommand m deviceHandle =
     on_object EndDevice m deviceHandle (\<lambda>s i w. status (SSI_StatusNotSupported, w))"

text \<open>
  The object a phy or a port belongs to.  Only end devices know how to locate or remove a disk.
\<close>

datatype owner = Owner_disk disk | Owner_other

definition owner_locate :: "env \<Rightarrow> bool \<Rightarrow> owner option \<Rightarrow> world \<Rightarrow> SSI_Status \<times> world" where
  "owner_locate os mode p w =
     (case p of
        None \<Rightarrow> (SSI_StatusInvalidState, w)
      | Some Owner_other \<Rightarrow> (SSI_StatusNotSupported, w)
      | Some (Owner_disk d) \<Rightarrow> locate os mode d w)"

definition owner_remove :: "env \<Rightarrow> owner option \<Rightarrow> world \<Rightarrow> SSI_Status \<times> world" where
  "owner_remove os p w =
     (case p of
        None \<Rightarrow> (SSI_StatusInvalidState, w)
      | Some Owner_other \<Rightarrow> (SSI_StatusNotSupported, w)
      | Some (Owner_disk d) \<Rightarrow> removeDisk os d w)"

definition SsiPhyLocate where
  "SsiPhyLocate m os owner_of phyHandle mode =
     on_object Phy m phyHandle (\<lambda>s i w. status (owner_locate os mode (owner_of i) w))"

definition SsiPortLocate where
  "SsiPortLocate m os owner_of portHandle mode =
     on_object Port m portHandle (\<lambda>s i w. status (owner_locate os mode (owner_of i) w))"

definition SsiPhyRemove where
  "SsiPhyRemove m os owner_of phyHandle mode c =
     (if \<not> mode then Some (Inr SSI_StatusOk, c)
      else on_object Phy m phyHandle (\<lambda>s i w. status (owner_remove os (owner_of i) w)) c)"

definition SsiReadPatrolSetState where
  "SsiReadPatrolSetState m controllerHandle (enable :: bool) =
     on_object Controller m controllerHandle (\<lambda>s i w. status (SSI_StatusNotSupported, w))"

end
