(* ===== verification/Api_Laws.thy ===== *)
theory Api_Laws
  imports Raid_Api
begin

text \<open>
  What the entry points of \<open>Raid_Api\<close> keep: which of the operations touch the registry of handles,
  the release of the temporary session, and the refusal of handles that are not its own.
\<close>

subsection \<open>Operations that leave the registry alone\<close>

named_theorems keeps_registry \<open>operations that change no handle\<close>

lemma messages_registry [keeps_registry]:
  "registry (setLastErrorMessage t w) = registry w" "registry (clearLastErrorMessage w) = registry w"
  "registry (mixed_disks w) = registry w" "registry (pause n w) = registry w"
  by (simp_all add: clearLastErrorMessage_def mixed_disks_def pause_def)

lemma commands_registry [keeps_registry]:
  "registry (snd (shellEx os c n k w)) = registry w"
  "registry (snd (shell_output os c b w)) = registry w"
  "registry (snd (shell_command os c w)) = registry w"
  by (simp_all add: shellEx_registry shell_command_def shell_output_def split_beta Let_def split: option.splits)

lemma file_write_registry [keeps_registry]: "file_write os p c w = Inr w' \<Longrightarrow> registry w' = registry w"
  by (auto simp: file_write_def split: option.splits)

lemma spares_registry [keeps_registry]:
  "registry (snd (addSpare os a ds w)) = registry w"
  "registry (snd (addSpare_one os a od w)) = registry w"
  "registry (snd (removeSpare os a b d w)) = registry w"
  by (auto simp: addSpare_def addSpare_one_def removeSpare_def keeps_registry split_beta Let_def split: sum.splits option.splits)

lemma removeSpares_registry [keeps_registry]: "registry (snd (removeSpares os a b ds w)) = registry w"
proof -
  have "registry (snd (removeSpares_from os a b ds st w)) = registry w" for st
    by (induction ds arbitrary: st w) (simp_all add: keeps_registry split_beta Let_def)
  then show ?thesis by (simp add: removeSpares_def)
qed

lemma grow_registry [keeps_registry]: "grow os a ds w = Some (st, w') \<Longrightarrow> registry w' = registry w"
  by (auto simp: grow_def keeps_registry split_beta Let_def prod_eq_iff split: option.splits if_splits)

lemma volume_simple_registry [keeps_registry]:
  "registry (snd (rebuild os v p d w)) = registry w"
  "registry (snd (expand os v n w)) = registry w"
  "registry (snd (verify os v b w)) = registry w"
  "registry (snd (cancelVerify os v w)) = registry w"
  "registry (snd (changeRwhPolicy os pol v w)) = registry w"
  "registry (snd (removeVolume os a i w)) = registry w"
  "registry (snd (assemble os a w)) = registry w"
  "registry (snd (reshape os v opts w)) = registry w"
  by (auto simp: rebuild_def expand_def verify_def cancelVerify_def changeRwhPolicy_def removeVolume_def
      assemble_def reshape_def keeps_registry split_beta Let_def split: sum.splits option.splits)

lemma renameVolume_registry [keeps_registry]: "registry (snd (renameVolume os a i t w)) = registry w"
  by (auto simp: renameVolume_def keeps_registry split_beta Let_def split: sum.splits)

lemma rename_registry [keeps_registry]: "registry (snd (rename os v p t w)) = registry w"
  by (auto simp: rename_def keeps_registry split_beta Let_def split: sum.splits option.splits)

lemma createVolume_registry [keeps_registry]: "registry (snd (createVolume os c w)) = registry w"
  by (auto simp: createVolume_def keeps_registry split_beta Let_def)

lemma volume_create_registry [keeps_registry]: "registry (snd (volume_create os v w)) = registry w"
proof -
  have "fst (createVolume os c u) \<in> {None, Some E_VOLUME_CREATE_FAILED}" for c u
    by (simp add: createVolume_def split_beta Let_def)
  then have "(\<exists>u. createVolume os c w = (None, u) \<and> registry u = registry w) \<or>
      (\<exists>u. createVolume os c w = (Some E_VOLUME_CREATE_FAILED, u) \<and> registry u = registry w)" for c
    using createVolume_registry [of os c w] by (metis insertE singletonD prod.collapse)
  from this [of "create_command v '' --rwh-policy=ppl''"] show ?thesis
    by (auto simp: volume_create_def keeps_registry)
qed

lemma refused_registry [keeps_registry]: "registry (snd (refused st w)) = registry w"
  by (simp add: refused_def keeps_registry)

lemma from_registry [keeps_registry]:
  "raid0_from_0 os v a c ch ds w = Some (st, w') \<Longrightarrow> registry w' = registry w"
  "raid0_from_1 os v a c sz ds w = Some (st, w') \<Longrightarrow> registry w' = registry w"
  "raid0_from_10 os v a c ch ds w = Some (st, w') \<Longrightarrow> registry w' = registry w"
  "raid0_from_5 os v c ds w = Some (st, w') \<Longrightarrow> registry w' = registry w"
  "raid5_from_0 os v a ch ds w = Some (st, w') \<Longrightarrow> registry w' = registry w"
  "raid5_from_10 os v ch ds w = Some (st, w') \<Longrightarrow> registry w' = registry w"
  "raid5_from_5 os v a c ch ds w = Some (st, w') \<Longrightarrow> registry w' = registry w"
  unfolding raid0_from_0_def raid0_from_1_def raid0_from_10_def raid0_from_5_def raid5_from_0_def
    raid5_from_10_def raid5_from_5_def
  by (auto simp: keeps_registry split_beta Let_def prod_eq_iff split: option.splits if_splits dest!: grow_registry)


lemma toRaid0_registry: "toRaid0 os v p sz ds w = Some (st, w') \<Longrightarrow> registry w' = registry w"
  unfolding toRaid0_def Let_def by (auto split: option.splits sum.splits if_splits dest: from_registry)

lemma toRaid5_registry: "toRaid5 os v p sz ds w = Some (st, w') \<Longrightarrow> registry w' = registry w"
  unfolding toRaid5_def Let_def by (auto split: option.splits sum.splits if_splits dest: from_registry)

lemma toRaid10_registry: "toRaid10 os v p sz ds w = Some (st, w') \<Longrightarrow> registry w' = registry w"
  unfolding toRaid10_def
  by (auto simp: keeps_registry split_beta Let_def prod_eq_iff split: option.splits if_splits)

lemma migration_registry [keeps_registry]:
  "modify os junk v p sz l n ds w = Some (st, w') \<Longrightarrow> registry w' = registry w"
  unfolding modify_def Let_def
  by (auto split: option.splits if_splits dest: toRaid0_registry toRaid5_registry toRaid10_registry)

lemma wait_for_uuid_registry [keeps_registry]: "registry (snd (wait_for_uuid os n a w)) = registry w"
  by (induction n arbitrary: a w) (simp_all add: keeps_registry Let_def)

lemma wait_for_link_registry [keeps_registry]: "registry (wait_for_link os n b a w) = registry w"
  by (cases b; induction n arbitrary: w) (simp_all add: keeps_registry Let_def split_beta)

lemma wait_for_container_registry [keeps_registry]: "registry (snd (wait_for_container os a w)) = registry w"
  by (simp add: wait_for_container_def keeps_registry split_beta)

lemma wait_for_volume_registry [keeps_registry]: "registry (snd (wait_for_volume_loop os n v a w)) = registry w"
  by (induction n arbitrary: v a w) (simp_all add: keeps_registry)

lemma array_create_registry [keeps_registry]:
  "array_create os a w = Some (x, w') \<Longrightarrow> registry w' = registry w"
  by (auto simp: array_create_def keeps_registry split_beta Let_def prod_eq_iff split: bind_splits if_splits)

lemma volume_create_wait_registry [keeps_registry]:
  "volume_create_wait os p v w = Some (x, w') \<Longrightarrow> registry w' = registry w"
  using volume_create_registry [of os _ w]
  by (auto simp: volume_create_wait_def keeps_registry split_beta Let_def prod_eq_iff
      split: bind_splits if_splits option.splits prod.splits)

subsection \<open>Operations that release handles\<close>

text \<open>\<open>w'\<close> has released some of the objects \<open>X\<close> and is \<open>w\<close> otherwise.\<close>

definition releases :: "nat set \<Rightarrow> world \<Rightarrow> world \<Rightarrow> bool" where
  "releases X w w' \<longleftrightarrow> (hm_ok (registry w) \<longrightarrow> hm_ok (registry w') \<and>
     (\<forall>x. m_handle (registry w') x = m_handle (registry w) x
        \<or> x \<in> X \<and> m_handle (registry w') x = SSI_NULL_HANDLE))"

lemma releases_same: "registry w' = registry w \<Longrightarrow> releases X w w'"
  by (simp add: releases_def)

lemma releases_trans: "releases X u v \<Longrightarrow> releases X v w \<Longrightarrow> releases X u w"
  unfolding releases_def by metis

lemma releases_mono: "releases X u v \<Longrightarrow> X \<subseteq> Y \<Longrightarrow> releases Y u v"
  by (auto simp: releases_def)

lemma unregister_releases: "releases {object_id d} w (unregister d w)"
  using hm_remove_forgets [of "registry w" "object_id d"] by (auto simp: releases_def unregister_def)

lemma array_remove_loop_releases: "releases {object_id a} w (snd (array_remove_loop os a n w))"
proof (induction n arbitrary: w)
  case (Suc n)
  let ?w1 = "snd (shellEx os (stop_command a) 1 0 w)"
  let ?w2 = "snd (shellEx os (zero_command a) 1 0 (unregister a ?w1))"
  have 1: "releases {object_id a} w ?w1" by (rule releases_same) (simp add: keeps_registry)
  have "releases {object_id a} (unregister a ?w1) ?w2" by (rule releases_same) (simp add: keeps_registry)
  then have 2: "releases {object_id a} w ?w2"
    by (blast intro: releases_trans 1 unregister_releases)
  show ?case
    using 1 2 Suc.IH [of ?w1] Suc.IH [of ?w2] by (auto simp: split_beta Let_def intro: releases_trans)
qed (simp add: releases_same)

lemma array_remove_releases: "releases {object_id a} w (snd (array_remove os a w))"
  unfolding array_remove_def by (rule array_remove_loop_releases)

lemma volume_remove_releases:
  "releases (insert (object_id v) (object_id ` set_option p)) w (snd (volume_remove os v p w))"
proof (cases p)
  case None
  then show ?thesis by (simp add: volume_remove_def releases_same)
next
  case (Some a)
  let ?X = "{object_id v, object_id a}"
  let ?w1 = "snd (shellEx os (stop_command v) 1 0 w)" and ?w2 = "snd (removeVolume os a (m_Ordinal v) (snd (shellEx os (stop_command v) 1 0 w)))"
  have 1: "releases ?X w ?w1" "releases ?X w ?w2" by (rule releases_same; simp add: keeps_registry)+
  have 3: "releases ?X w (unregister v ?w2)"
    by (rule releases_trans [OF 1(2)]) (rule releases_mono [OF unregister_releases], simp)
  have 4: "releases ?X w (snd (array_remove os a (unregister v ?w2)))"
    by (rule releases_trans [OF 3]) (rule releases_mono [OF array_remove_releases], simp)
  show ?thesis
    using 1 3 4 by (auto simp: Some volume_remove_def split_beta Let_def)
qed

subsection \<open>Requests\<close>

text \<open>All entry points that change arrays and volumes, as values.\<close>

datatype request =
    Mark_as_normal SSI_Handle
  | Rebuild SSI_Handle SSI_Handle
  | Delete SSI_Handle
  | Rename SSI_Handle string
  | Expand SSI_Handle u64
  | Set_cache_policy SSI_Handle SSI_VolumeCachePolicy
  | Set_rwh_policy SSI_Handle SSI_RwhPolicy
  | Initialize SSI_Handle
  | Verify SSI_Handle bool
  | Cancel_verify SSI_Handle
  | Modify SSI_Handle SSI_StripSize SSI_RaidLevel u64 "SSI_Handle list option" u32
  | Add_disks SSI_Handle "SSI_Handle list option" u32
  | Set_write_cache SSI_Handle bool
  | Create_volume create_params
  | Create_from_disks create_params

definition no_handle :: "(answer \<times> world option) option \<Rightarrow> ((answer \<times> SSI_Handle option) \<times> world option) option" where
  "no_handle r = map_option (\<lambda>(a, w). ((a, None), w)) r"

fun perform :: "machine \<Rightarrow> env \<Rightarrow> SSI_RaidLevelInfo \<Rightarrow> request \<Rightarrow> world option
    \<Rightarrow> ((answer \<times> SSI_Handle option) \<times> world option) option" where
  "perform m os junk (Mark_as_normal h) c = no_handle (SsiVolumeMarkAsNormal m h c)"
| "perform m os junk (Rebuild h d) c = no_handle (SsiVolumeRebuild m os h d c)"
| "perform m os junk (Delete h) c = no_handle (SsiVolumeDelete m os h c)"
| "perform m os junk (Rename h n) c = no_handle (SsiVolumeRename m os h n c)"
| "perform m os junk (Expand h n) c = no_handle (SsiExpandVolume m os h n c)"
| "perform m os junk (Set_cache_policy h p) c = no_handle (SsiVolumeSetCachePolicy m h p c)"
| "perform m os junk (Set_rwh_policy h p) c = no_handle (SsiVolumeSetRwhPolicy m os h p c)"
| "perform m os junk (Initialize h) c = no_handle (SsiVolumeInitialize m h c)"
| "perform m os junk (Verify h b) c = no_handle (SsiVolumeVerify m os h b c)"
| "perform m os junk (Cancel_verify h) c = no_handle (SsiVolumeCancelVerify m os h c)"
| "perform m os junk (Modify h sz l n hs k) c = no_handle (SsiRaidLevelModify m os junk h sz l n hs k c)"
| "perform m os junk (Add_disks h hs k) c = no_handle (SsiAddDisksToArray m os h hs k c)"
| "perform m os junk (Set_write_cache h b) c = no_handle (SsiArraySetWriteCacheState m h b c)"
| "perform m os junk (Create_volume p) c = no_handle (SsiVolumeCreate m os junk p c)"
| "perform m os junk (Create_from_disks p) c = SsiVolumeCreateFromDisks m os junk p False c"

lemmas entry_points =
  SsiVolumeMarkAsNormal_def SsiVolumeRebuild_def SsiVolumeDelete_def SsiVolumeRename_def SsiExpandVolume_def
  SsiVolumeSetCachePolicy_def SsiVolumeSetRwhPolicy_def SsiVolumeInitialize_def SsiVolumeVerify_def
  SsiVolumeCancelVerify_def SsiRaidLevelModify_def SsiAddDisksToArray_def SsiArraySetWriteCacheState_def

text \<open>The object a request works on; of a creation from disks, the first disk.\<close>

fun target :: "request \<Rightarrow> SSI_Handle" where
  "target (Mark_as_normal h) = h"
| "target (Rebuild h d) = h"
| "target (Delete h) = h"
| "target (Rename h n) = h"
| "target (Expand h n) = h"
| "target (Set_cache_policy h p) = h"
| "target (Set_rwh_policy h p) = h"
| "target (Initialize h) = h"
| "target (Verify h b) = h"
| "target (Cancel_verify h) = h"
| "target (Modify h sz l n hs k) = h"
| "target (Add_disks h hs k) = h"
| "target (Set_write_cache h b) = h"
| "target (Create_volume p) = arrayOfVolume p"
| "target (Create_from_disks p) =
     (case disks p of [] \<Rightarrow> SSI_NULL_HANDLE | h # hs \<Rightarrow> if numDisks p = 0 then SSI_NULL_HANDLE else h)"

text \<open>
  What a scan delivers is consistent: the numbers of the objects are their own, the array of a volume
  has been found too, and the objects to be made are new.
\<close>

definition machine_ok :: "machine \<Rightarrow> world \<Rightarrow> bool" where
  "machine_ok m w \<longleftrightarrow> hm_ok (registry w) \<and> fresh_scan (sysfs m) (registry w)
     \<and> (\<forall>i. object_id (volume_of m i) = i) \<and> (\<forall>i. object_id (array_of m i) = i)
     \<and> (\<forall>i j. parent_of m i = Some j \<longrightarrow> j \<in> snd ` set (found (sysfs m)))
     \<and> m_handle (registry w) (new_array_id m) = SSI_NULL_HANDLE
     \<and> m_handle (registry w) (new_volume_id m) = SSI_NULL_HANDLE
     \<and> new_array_id m \<notin> snd ` set (found (sysfs m)) \<and> new_volume_id m \<notin> snd ` set (found (sysfs m))
     \<and> new_array_id m \<noteq> new_volume_id m"

abbreviation (input) scanned :: "machine \<Rightarrow> nat session" where
  "scanned m \<equiv> filled (sysfs m)"

abbreviation (input) scan_registry :: "machine \<Rightarrow> world \<Rightarrow> nat handle_mgr" where
  "scan_registry m w \<equiv> hm.register_all (map snd (found (sysfs m))) (registry w)"

lemma scan_registry_other: "hm_ok (registry w) \<Longrightarrow> x \<notin> held (scanned m) \<Longrightarrow> m_handle (scan_registry m w) x = m_handle (registry w) x"
  by (rule hm.register_all_other) (simp_all add: held_filled)

lemma with_temp_session_run:
  "with_temp_session m failure body (Some w) =
     (let w1 = w\<lparr>registry := scan_registry m w\<rparr> in
      if throws (sysfs m) then Some (failure SSI_StatusFailed, Some (close_temp (scanned m) w1))
      else do { (r, s', w2) \<leftarrow> body (scanned m) w1; Some (r, Some (close_temp s' w2)) })"
  by (simp add: with_temp_session_def session_initialize_def initialize_state Let_def)

text \<open>What the body of an entry point may do: add new objects to the session, and release objects of it.\<close>

definition session_frame :: "machine \<Rightarrow> world \<Rightarrow> nat session \<Rightarrow> world \<Rightarrow> bool" where
  "session_frame m w s' w2 \<longleftrightarrow> hm_ok (registry w2) \<and> held (scanned m) \<subseteq> held s'
     \<and> (\<forall>x\<in>held s'. m_handle (registry w) x = SSI_NULL_HANDLE)
     \<and> (\<forall>x. x \<notin> held s' \<longrightarrow> m_handle (registry w2) x = m_handle (registry w) x)"

lemma close_temp_restores:
  assumes "hm_ok (registry w)" "session_frame m w s' w2"
  shows "registry (close_temp s' w2) = registry w"
proof (rule hm_eqI)
  have ok: "hm_ok (registry w2)" using assms(2) by (simp add: session_frame_def)
  have "m_handle (session_destroy s' (registry w2)) x = m_handle (registry w) x" for x
    using assms(2) unfolding session_destroy_release hm.release_all_handles [OF ok] session_frame_def
    by (auto simp: held_def)
  then show "m_handle (registry (close_temp s' w2)) = m_handle (registry w)" by (auto simp: close_temp_def)
  show "hm_ok (registry (close_temp s' w2))"
    using ok by (simp add: close_temp_def session_destroy_release hm.ok_release_all)
qed (rule assms(1))

lemma fresh_null: "fresh_scan sys r \<Longrightarrow> x \<in> held (filled sys) \<Longrightarrow> m_handle r x = SSI_NULL_HANDLE"
  by (auto simp: fresh_scan_def held_filled)

lemma scan_frame:
  assumes "machine_ok m w" "releases (held (scanned m)) (w\<lparr>registry := scan_registry m w\<rparr>) w2"
  shows "session_frame m w (scanned m) w2"
proof -
  have ok: "hm_ok (registry w)" "fresh_scan (sysfs m) (registry w)" using assms(1) by (simp_all add: machine_ok_def)
  then have "hm_ok (scan_registry m w)" by (simp add: hm.ok_register_all)
  with assms(2) have w2: "hm_ok (registry w2)"
    "\<forall>x. x \<notin> held (scanned m) \<longrightarrow> m_handle (registry w2) x = m_handle (scan_registry m w) x"
    by (auto simp: releases_def)
  then show ?thesis
    using scan_registry_other [OF ok(1)] fresh_null [OF ok(2)] by (simp add: session_frame_def)
qed

lemma with_temp_restores:
  assumes "machine_ok m w" "with_temp_session m failure body (Some w) = Some (r, c)"
    "\<And>r s' w2. body (scanned m) (w\<lparr>registry := scan_registry m w\<rparr>) = Some (r, s', w2) \<Longrightarrow> session_frame m w s' w2"
  shows "\<exists>w'. c = Some w' \<and> registry w' = registry w"
proof -
  have ok: "hm_ok (registry w)" using assms(1) by (simp add: machine_ok_def)
  have "session_frame m w (scanned m) (w\<lparr>registry := scan_registry m w\<rparr>)"
    by (rule scan_frame [OF assms(1)]) (simp add: releases_same)
  then show ?thesis
    using assms(2,3) close_temp_restores [OF ok]
    by (auto simp: with_temp_session_run Let_def split: if_splits bind_splits)
qed

lemma lookup_held: "lookup k s w h = Some i \<Longrightarrow> i \<in> held s"
  by (auto simp: lookup_def held_iff dest: container_find_Some)

lemma on_object_restores:
  assumes "machine_ok m w" "on_object k m h operation (Some w) = Some (r, c)"
    "\<And>i w1 r w2. operation (scanned m) i w1 = Some (r, w2) \<Longrightarrow> i \<in> held (scanned m) \<Longrightarrow> releases (held (scanned m)) w1 w2"
  shows "\<exists>w'. c = Some w' \<and> registry w' = registry w"
proof (rule with_temp_restores [OF assms(1) assms(2) [unfolded on_object_def]])
  fix r s' w2
  let ?w1 = "w\<lparr>registry := scan_registry m w\<rparr>"
  assume "(case lookup k (scanned m) ?w1 h of None \<Rightarrow> Some (Inr SSI_StatusInvalidHandle, scanned m, ?w1)
      | Some i \<Rightarrow> operation (scanned m) i ?w1 \<bind> (\<lambda>(r, w'). Some (r, scanned m, w'))) = Some (r, s', w2)"
  then have "s' = scanned m \<and> releases (held (scanned m)) ?w1 w2"
    using assms(3) lookup_held by (auto simp: releases_same split: option.splits bind_splits)
  then show "session_frame m w s' w2" using scan_frame [OF assms(1)] by simp
qed

subsection \<open>Every request leaves the registry as it was\<close>

lemma status_world: "status p = Some (r, w') \<Longrightarrow> w' = snd p"
  by (simp add: status_def)

lemma delete_releases:
  assumes "machine_ok m w" "i \<in> held (scanned m)"
  shows "releases (held (scanned m)) w1 (snd (volume_remove os (volume_of m i) (parent m i) w1))"
proof (rule releases_mono [OF volume_remove_releases])
  have "object_id (volume_of m i) = i" "\<And>j. object_id (array_of m j) = j"
    "\<And>j. parent_of m i = Some j \<Longrightarrow> j \<in> held (scanned m)"
    using assms(1) by (auto simp: machine_ok_def held_filled)
  then show "insert (object_id (volume_of m i)) (object_id ` set_option (parent m i)) \<subseteq> held (scanned m)"
    using assms(2) by (auto simp: parent_def)
qed

lemma grow_releases: "grow os a ds w = Some p \<Longrightarrow> releases X w (snd p)"
  by (cases p) (simp add: releases_same grow_registry)

lemma modify_releases: "modify os junk v a sz l n ds w = Some p \<Longrightarrow> releases X w (snd p)"
  by (cases p) (simp add: releases_same migration_registry)

definition restored :: "world \<Rightarrow> world option \<Rightarrow> bool" where
  "restored w c \<longleftrightarrow> (\<exists>w'. c = Some w' \<and> registry w' = registry w)"

lemma on_object_restored:
  assumes "on_object k m h operation (Some w) = Some (r, c)" "machine_ok m w"
    "\<And>i w1 r w2. operation (scanned m) i w1 = Some (r, w2) \<Longrightarrow> i \<in> held (scanned m) \<Longrightarrow> releases (held (scanned m)) w1 w2"
  shows "restored w c"
  unfolding restored_def by (rule on_object_restores [OF assms(2,1,3)])

lemmas operation_cases =
  status_world grow_releases modify_releases

lemma volume_operations_restore:
  assumes "machine_ok m w"
  shows "SsiVolumeMarkAsNormal m h (Some w) = Some (r, c) \<Longrightarrow> restored w c"
    "SsiVolumeRebuild m os h d (Some w) = Some (r, c) \<Longrightarrow> restored w c"
    "SsiVolumeDelete m os h (Some w) = Some (r, c) \<Longrightarrow> restored w c"
    "SsiVolumeRename m os h t (Some w) = Some (r, c) \<Longrightarrow> restored w c"
    "SsiExpandVolume m os h n (Some w) = Some (r, c) \<Longrightarrow> restored w c"
    "SsiVolumeSetCachePolicy m h p (Some w) = Some (r, c) \<Longrightarrow> restored w c"
    "SsiVolumeSetRwhPolicy m os h q (Some w) = Some (r, c) \<Longrightarrow> restored w c"
    "SsiVolumeInitialize m h (Some w) = Some (r, c) \<Longrightarrow> restored w c"
    "SsiVolumeVerify m os h b (Some w) = Some (r, c) \<Longrightarrow> restored w c"
    "SsiVolumeCancelVerify m os h (Some w) = Some (r, c) \<Longrightarrow> restored w c"
    "SsiRaidLevelModify m os junk h sz l k hs cnt (Some w) = Some (r, c) \<Longrightarrow> restored w c"
    "SsiAddDisksToArray m os h hs cnt (Some w) = Some (r, c) \<Longrightarrow> restored w c"
    "SsiArraySetWriteCacheState m h b (Some w) = Some (r, c) \<Longrightarrow> restored w c"
  unfolding entry_points
  by (erule on_object_restored [OF _ assms];
      auto simp: Let_def releases_same keeps_registry split_beta delete_releases [OF assms]
        dest!: operation_cases arg_cong [of "rename _ _ _ _ _" _ snd]
        split: option.splits if_splits bind_splits sum.splits list.splits)+

subsection \<open>Creation keeps the number of the object it makes\<close>

lemma internal_update_id: "internal_update t d = Inr d' \<Longrightarrow> object_id d' = object_id d"
  by (auto simp: internal_update_def Let_def split: option.splits if_splits)

lemma update_id [simp]: "object_id (update os w d) = object_id d"
  by (auto simp: update_def dest!: internal_update_id split: option.splits sum.splits)

lemma discover_id [simp]: "object_id (discover md rep v) = object_id v"
  by (auto simp: discover_def discover_numbers_def discover_progress_def discover_sync_def discover_locked_def
      discover_level_def split: option.splits)

lemma fresh_volume_id [simp]: "object_id (fresh_volume m os w) = new_volume_id m"
  by (simp add: fresh_volume_def Let_def raid_device_discover_def new_volume_def)

lemma determineDeviceName_id: "determineDeviceName os t w d = Some d' \<Longrightarrow> object_id d' = object_id d"
  by (auto simp: determineDeviceName_def split: bind_splits)

lemma wait_for_uuid_id [simp]: "object_id (fst (wait_for_uuid os n a w)) = object_id a"
  by (induction n arbitrary: a w) (simp_all add: Let_def)

lemma array_create_id: "array_create os a w = Some ((e, a'), w') \<Longrightarrow> object_id a' = object_id a"
  by (auto simp: array_create_def wait_for_container_def split_beta Let_def dest!: determineDeviceName_id
      split: bind_splits if_splits)

lemma wait_for_volume_id [simp]: "object_id (fst (fst (wait_for_volume_loop os n v a w))) = object_id v"
  by (induction n arbitrary: v a w) simp_all

lemma volume_create_wait_id:
  "volume_create_wait os p v w = Some ((e, v', p'), w') \<Longrightarrow> object_id v' = object_id v"
  using wait_for_volume_id
  by (auto simp: volume_create_wait_def split_beta Let_def dest!: determineDeviceName_id
      split: bind_splits if_splits option.splits prod.splits)

lemma setters_id:
  "raid_device_setEndDevices ds v = (e, v') \<Longrightarrow> object_id v' = object_id v"
  "setComponentSize junk n k l v = Some (Inr v') \<Longrightarrow> object_id v' = object_id v"
  "setName t v = Inr v' \<Longrightarrow> object_id v' = object_id v"
  "setRaidLevel l v = Inr v' \<Longrightarrow> object_id v' = object_id v"
  "setStripSize s v = Inr v' \<Longrightarrow> object_id v' = object_id v"
  by (auto simp: raid_device_setEndDevices_def setComponentSize_def setName_def setRaidLevel_def setStripSize_def
      Let_def split: if_splits option.splits sum.splits prod.splits)

lemma setRwhPolicy_id: "setRwhPolicy q v = Inr v' \<Longrightarrow> object_id v' = object_id v"
  by (cases q) auto

lemma then_do_Inr: "then_do r f = Inr y \<longleftrightarrow> (\<exists>x. r = Inr x \<and> f x = Inr y)"
  by (cases r) auto

lemma prepare_volume_id:
  assumes "prepare_volume junk p ds others v = Some (Inr v')" "\<And>u u'. others u = Inr u' \<Longrightarrow> object_id u' = object_id u"
  shows "object_id v' = object_id v"
  using assms(1)
  by (auto simp: prepare_volume_def then_do_Inr split: prod.splits option.splits bind_splits
      dest!: setters_id setRwhPolicy_id assms(2))

subsection \<open>Creation leaves the registry as it was\<close>

lemma add_object_frame:
  assumes "session_frame m w s w2" "m_handle (registry w) x = SSI_NULL_HANDLE"
    "add_object k x (s, registry w2) = (s', r')"
  shows "session_frame m w s' (w2\<lparr>registry := r'\<rparr>)"
proof -
  have ok: "hm_ok (registry w2)" using assms(1) by (simp add: session_frame_def)
  have r: "s' = session_add k x s" "r' = snd (hm_insert x (registry w2))" using assms(3) by (auto simp: add_object_def)
  show ?thesis
    using assms(1,2) hm.insert_other [OF ok] hm.ok_insert [OF ok]
    unfolding session_frame_def r by (auto simp: held_add)
qed

lemma frame_same: "session_frame m w s w1 \<Longrightarrow> registry w2 = registry w1 \<Longrightarrow> session_frame m w s w2"
  by (simp add: session_frame_def)

lemma frame_rollback:
  assumes "session_frame m w s w1" "object_id a \<notin> held s" "m_handle (registry w) (object_id a) = SSI_NULL_HANDLE"
  shows "session_frame m w s (snd (array_remove os a w1))"
proof -
  have ok: "hm_ok (registry w1)" using assms(1) by (simp add: session_frame_def)
  have r: "hm_ok (registry (snd (array_remove os a w1)))"
    "\<And>x. m_handle (registry (snd (array_remove os a w1))) x = m_handle (registry w1) x
       \<or> x = object_id a \<and> m_handle (registry (snd (array_remove os a w1))) x = SSI_NULL_HANDLE"
    using array_remove_releases [of a w1 os] ok by (auto simp: releases_def)
  have "m_handle (registry (snd (array_remove os a w1))) x = m_handle (registry w) x" if "x \<notin> held s" for x
    using r(2) [of x] that assms by (auto simp: session_frame_def)
  then show ?thesis using r(1) assms(1) by (simp add: session_frame_def)
qed

lemma volume_from_disks_frame:
  assumes "machine_ok m w" "session_frame m w s w1" "object_id a = new_array_id m" "new_array_id m \<notin> held s"
    "volume_from_disks m os junk p ds a s w1 = Some (r, s', w2)"
  shows "session_frame m w s' w2"
proof -
  have null: "m_handle (registry w) (new_array_id m) = SSI_NULL_HANDLE" "m_handle (registry w) (new_volume_id m) = SSI_NULL_HANDLE"
    using assms(1) by (simp_all add: machine_ok_def)
  have undo: "session_frame m w s (snd (array_remove os a u))" if "registry u = registry w1" for u
    by (rule frame_rollback [OF frame_same [OF assms(2) that]]) (simp_all add: assms(3,4) null)
  let ?strip = "\<lambda>v. then_do (setRaidLevel (raidLevel p) v)
             (\<lambda>v. if raidLevel p \<noteq> SSI_Raid1 then setStripSize (stripSize p) v else Inr v)"
  obtain q where q: "prepare_volume junk p ds ?strip (setSourceDisk None (fresh_volume m os w1)) = Some q"
    using assms(5) by (auto simp: volume_from_disks_def Let_def split: bind_splits)
  show ?thesis
  proof (cases q)
    case (Inl e)
    with assms(5) have "s' = s \<and> w2 = snd (array_remove os a w1)"
      unfolding volume_from_disks_def Let_def q by simp
    then show ?thesis using undo by simp
  next
    case (Inr v)
    note run = assms(5) [unfolded volume_from_disks_def Let_def q Inr bind.bind_lunit sum.case]
    have "object_id v = object_id (setSourceDisk None (fresh_volume m os w1))"
    proof (rule prepare_volume_id [OF q [unfolded Inr]])
      fix u u' assume "?strip u = Inr u'"
      then obtain x where x: "setRaidLevel (raidLevel p) u = Inr x"
        "(if raidLevel p \<noteq> SSI_Raid1 then setStripSize (stripSize p) x else Inr x) = Inr u'"
        unfolding then_do_Inr by blast
      then show "object_id u' = object_id u"
        using setters_id(4) [OF x(1)] setters_id(5) [of "stripSize p" x u']
        by (cases "raidLevel p \<noteq> SSI_Raid1") auto
    qed
    then have v: "object_id v = new_volume_id m" by (simp add: setSourceDisk_def)
    obtain e v' a' u where c: "volume_create_wait os (Some a) v w1 = Some ((e, v', a'), u)"
      using run by (auto split: bind_splits)
    have u: "registry u = registry w1" by (rule volume_create_wait_registry [OF c])
    have v': "object_id v' = new_volume_id m" using volume_create_wait_id [OF c] v by simp
    show ?thesis
    proof (cases e)
      case (Some e)
      with run have "s' = s \<and> w2 = snd (array_remove os a u)" unfolding c by simp
      then show ?thesis using undo [OF u] by simp
    next
      case None
      obtain s1 r1 where 1: "add_object Volume (object_id v') (s, registry u) = (s1, r1)" by fastforce
      obtain s2 r2 where 2: "add_object Array (object_id a) (s1, r1) = (s2, r2)" by fastforce
      have f1: "session_frame m w s1 (u\<lparr>registry := r1\<rparr>)"
        by (rule add_object_frame [OF frame_same [OF assms(2) u] _ 1]) (simp add: v' null)
      have "session_frame m w s2 (u\<lparr>registry := r1\<rparr>\<lparr>registry := r2\<rparr>)"
        by (rule add_object_frame [OF f1, where x = "object_id a" and k = Array]) (simp_all add: assms(3) null 2 [unfolded assms(3)])
      moreover have "s' = s2 \<and> w2 = u\<lparr>registry := r2\<rparr>"
        using run unfolding c by (simp add: None 1 2)
      ultimately show ?thesis by simp
    qed
  qed
qed

lemma scan_frame_same:
  assumes "machine_ok m w" "registry w1 = scan_registry m w"
  shows "session_frame m w (scanned m) w1"
  using scan_frame [OF assms(1), of w1] assms(2) by (simp add: releases_same)

lemma container_from_disks_frame:
  assumes "machine_ok m w" "registry w1 = scan_registry m w"
    "container_from_disks m os junk p ds (scanned m) w1 = Some (r, s', w2)"
  shows "session_frame m w s' w2"
proof -
  have keep: "session_frame m w (scanned m) u" if "registry u = registry w1" for u
    by (rule scan_frame_same [OF assms(1)]) (simp add: that assms(2))
  have failure: "registry (snd (array_failure e u)) = registry u" for e u
    by (simp add: array_failure_def keeps_registry)
  obtain e a where a: "array_setEndDevices ds (new_array (new_array_id m)) = (e, a)" by fastforce
  note run = assms(3) [unfolded container_from_disks_def a prod.case]
  show ?thesis
  proof (cases e)
    case (Some e)
    with run have "s' = scanned m" "registry w2 = registry w1" by (auto simp: refuse_def failure)
    then show ?thesis using keep by simp
  next
    case None
    then obtain e' a' u where c: "array_create os a w1 = Some ((e', a'), u)"
      using run by (auto split: bind_splits)
    have u: "registry u = registry w1" by (rule array_create_registry [OF c])
    show ?thesis
    proof (cases e')
      case (Some e)
      with run None c have "s' = scanned m" "registry w2 = registry u" by (auto simp: refuse_def failure)
      then show ?thesis using keep u by simp
    next
      case none: None
      have "object_id a = new_array_id m"
        using a by (auto simp: array_setEndDevices_def new_array_def split: prod.splits)
      then have i: "object_id a' = new_array_id m" using array_create_id [OF c] by simp
      have k: "session_frame m w (scanned m) (clearLastErrorMessage u)"
        by (rule keep) (simp add: keeps_registry u)
      have n: "new_array_id m \<notin> held (scanned m)" using assms(1) by (simp add: machine_ok_def held_filled)
      have "volume_from_disks m os junk p ds a' (scanned m) (clearLastErrorMessage u) = Some (r, s', w2)"
        using run None c none by simp
      then show ?thesis by (rule volume_from_disks_frame [OF assms(1) k i n])
    qed
  qed
qed

lemma create_from_disks_frame:
  assumes "machine_ok m w" "registry w1 = scan_registry m w"
    "create_from_disks m os junk p (scanned m) w1 = Some (r, s', w2)"
  shows "session_frame m w s' w2"
proof -
  obtain q where q: "gather m (scanned m) w1 (\<lambda>_. None) (unat (numDisks p)) (disks p) = Some q"
    using assms(3) by (auto simp: create_from_disks_def split: bind_splits)
  note run = assms(3) [unfolded create_from_disks_def q bind.bind_lunit]
  have refused: "session_frame m w s' w2" if "refuse (scanned m) (st, w1) = Some (r, s', w2)" for st
    using that scan_frame_same [OF assms(1,2)] by (simp add: refuse_def)
  show ?thesis
  proof (cases q)
    case (Inl st)
    with run refused show ?thesis by simp
  next
    case (Inr ds)
    consider "refuse (scanned m) (SSI_StatusNotSupported, w1) = Some (r, s', w2)"
      | "container_from_disks m os junk p ds (scanned m) w1 = Some (r, s', w2)"
      using run unfolding Inr sum.case
      by (cases "\<exists>d\<in>set ds. getLogicalSectorSize d \<noteq> getLogicalSectorSize (hd ds)";
          cases "lookup EndDevice (scanned m) w1 (sourceDisk p) = None") (simp_all only: if_True if_False simp_thms)
    then show ?thesis
      by cases (rule refused, assumption, rule container_from_disks_frame [OF assms(1,2)])
  qed
qed

lemma create_from_disks_restores:
  assumes "machine_ok m w" "SsiVolumeCreateFromDisks m os junk p False (Some w) = Some (r, c)"
  shows "restored w c"
proof (cases "numDisks p = 0")
  case True
  then show ?thesis
    using assms(2) by (auto simp: SsiVolumeCreateFromDisks_def restored_def keeps_registry)
next
  case False
  then have "with_temp_session m (\<lambda>st. (Inr st, None)) (create_from_disks m os junk p) (Some w) = Some (r, c)"
    using assms(2) by (simp add: SsiVolumeCreateFromDisks_def)
  then show ?thesis
    unfolding restored_def
    by (rule with_temp_restores [OF assms(1)]) (erule create_from_disks_frame [OF assms(1), rotated], simp)
qed

lemma create_volume_restores:
  assumes "machine_ok m w" "SsiVolumeCreate m os junk p (Some w) = Some (r, c)"
  shows "restored w c"
  unfolding restored_def
proof (rule with_temp_restores [OF assms(1) assms(2) [unfolded SsiVolumeCreate_def]])
  fix r s' w2
  let ?w1 = "w\<lparr>registry := scan_registry m w\<rparr>"
  let ?strip = "\<lambda>v. then_do (setStripSize (stripSize p) v) (setRaidLevel (raidLevel p))"
  assume body: "(case lookup Array (scanned m) ?w1 (arrayOfVolume p) of
        None \<Rightarrow> Some (Inr SSI_StatusInvalidHandle, scanned m, ?w1)
      | Some i \<Rightarrow>
          let a = array_of m i; members = array_getEndDevices a False;
              ds = if members = [] then array_getEndDevices a True else members;
              strip_then_level = ?strip
          in prepare_volume junk p ds strip_then_level (fresh_volume m os ?w1) \<bind>
             (\<lambda>r. case r of Inl e \<Rightarrow> Some (Inr (volume_error e), scanned m, ?w1)
                 | Inr v \<Rightarrow>
                     volume_create_wait os (Some a) v ?w1 \<bind>
                     (\<lambda>((e, v', a'), w1). case e of
                         None \<Rightarrow> let v'' = update os w1 v';
                                     (s1, r1) = add_object Volume (object_id v'') (scanned m, registry w1)
                                 in Some (Inr SSI_StatusOk, s1, w1\<lparr>registry := r1\<rparr>)
                       | Some e \<Rightarrow> Some (Inr (volume_error e), scanned m, w1)))) = Some (r, s', w2)"
  have keep: "session_frame m w (scanned m) u" if "registry u = registry ?w1" for u
    by (rule scan_frame_same [OF assms(1)]) (simp add: that)
  have null: "m_handle (registry w) (new_volume_id m) = SSI_NULL_HANDLE" using assms(1) by (simp add: machine_ok_def)
  show "session_frame m w s' w2"
  proof (cases "lookup Array (scanned m) ?w1 (arrayOfVolume p)")
    case None
    with body have "s' = scanned m" "w2 = ?w1" by auto
    then show ?thesis using keep [of ?w1] by simp
  next
    case (Some i)
    define a where "a = array_of m i"
    define ds where "ds = (if array_getEndDevices a False = [] then array_getEndDevices a True else array_getEndDevices a False)"
    note run = body [unfolded Some option.case Let_def, folded a_def, folded ds_def]
    obtain q where q: "prepare_volume junk p ds ?strip (fresh_volume m os ?w1) = Some q"
      using run by (auto split: bind_splits)
    show ?thesis
    proof (cases q)
      case (Inl e)
      with run have "s' = scanned m" "w2 = ?w1" unfolding q by auto
      then show ?thesis using keep [of ?w1] by simp
    next
      case (Inr v)
      have "object_id v = object_id (fresh_volume m os ?w1)"
      proof (rule prepare_volume_id [OF q [unfolded Inr]])
        fix x x' assume "?strip x = Inr x'"
        then obtain y where "setStripSize (stripSize p) x = Inr y" "setRaidLevel (raidLevel p) y = Inr x'"
          unfolding then_do_Inr by blast
        then show "object_id x' = object_id x" using setters_id(4,5) by simp
      qed
      then have v: "object_id v = new_volume_id m" by simp
      note run = run [unfolded q Inr bind.bind_lunit sum.case]
      obtain e v' a' u where c: "volume_create_wait os (Some a) v ?w1 = Some ((e, v', a'), u)"
        using run by (auto split: bind_splits)
      have u: "registry u = registry ?w1" by (rule volume_create_wait_registry [OF c])
      have v': "object_id v' = new_volume_id m" using volume_create_wait_id [OF c] v by simp
      show ?thesis
      proof (cases e)
        case (Some e)
        with run have "s' = scanned m" "w2 = u" unfolding c by auto
        then show ?thesis using keep [OF u] by simp
      next
        case None
        obtain s1 r1 where 1: "add_object Volume (new_volume_id m) (scanned m, registry u) = (s1, r1)" by fastforce
        have "s' = s1" "w2 = u\<lparr>registry := r1\<rparr>" using run None v' 1 unfolding c by auto
        then show ?thesis using add_object_frame [OF keep [OF u] null 1] by simp
      qed
    qed
  qed
qed

subsection \<open>Properties\<close>

lemma perform_restored:
  assumes "machine_ok m w" "perform m os junk req (Some w) = Some (r, c)"
  shows "restored w c"
  using assms(2) volume_operations_restore [OF assms(1)] create_volume_restores [OF assms(1)]
    create_from_disks_restores [OF assms(1)]
  by (cases req) (auto simp: no_handle_def)

lemma from_disks_handle:
  assumes "volume_from_disks m os junk p ds a s w1 = Some ((x, Some h), s', w2)"
  shows "\<exists>y\<in>held s'. m_handle (registry w2) y = h"
  using assms
  by (auto simp: volume_from_disks_def Let_def add_object_def getHandle_def held_def destructor_order_def container_add_def
      split: bind_splits sum.splits option.splits prod.splits)

lemma create_handle:
  assumes "create_from_disks m os junk p s w1 = Some ((x, Some h), s', w2)"
  shows "\<exists>y\<in>held s'. m_handle (registry w2) y = h"
  using assms
  by (auto simp: create_from_disks_def container_from_disks_def refuse_def intro: from_disks_handle
      split: bind_splits sum.splits option.splits prod.splits if_splits)

lemma no_other_handle: "no_handle r = Some ((a, Some h), c) \<Longrightarrow> False"
  by (auto simp: no_handle_def)

lemma perform_handle:
  assumes "machine_ok m w" "perform m os junk req (Some w) = Some ((a, Some h), c)"
  shows "hm_at (registry w) h = None"
proof -
  obtain p where p: "req = Create_from_disks p" using assms(2) no_other_handle by (cases req) (auto dest: no_other_handle)
  have "with_temp_session m (\<lambda>st. (Inr st, None)) (create_from_disks m os junk p) (Some w) = Some ((a, Some h), c)"
    using assms(2) by (auto simp: p SsiVolumeCreateFromDisks_def split: if_splits)
  then obtain s' w2 where run: "create_from_disks m os junk p (scanned m) (w\<lparr>registry := scan_registry m w\<rparr>) = Some ((a, Some h), s', w2)"
    by (auto simp: with_temp_session_run Let_def split: if_splits bind_splits)
  obtain y where y: "y \<in> held s'" "m_handle (registry w2) y = h" using create_handle [OF run] by blast
  have f: "session_frame m w s' w2" by (rule create_from_disks_frame [OF assms(1) _ run]) simp
  have ok: "hm_ok (registry w)" "hm_ok (registry w2)" using assms(1) f by (simp_all add: machine_ok_def session_frame_def)
  show ?thesis
  proof (rule ccontr)
    assume "hm_at (registry w) h \<noteq> None"
    then obtain z where "hm_at (registry w) h = Some z" by blast
    then have z: "h \<noteq> SSI_NULL_HANDLE" "m_handle (registry w) z = h" using hm.consistent [OF ok(1)] by auto
    then have "z \<notin> held s'" "m_handle (registry w2) z = h" using f by (auto simp: session_frame_def)
    then show False using hm.handles_distinct [OF ok(2), of z y] y z by auto
  qed
qed

lemma on_object_total:
  assumes "\<And>s i w. \<exists>p. f s i w = Some p"
  shows "\<exists>r c. on_object k m h f (Some w) = Some (r, c)"
proof -
  let ?w1 = "w\<lparr>registry := scan_registry m w\<rparr>"
  show ?thesis
  proof (cases "lookup k (scanned m) ?w1 h")
    case None
    then show ?thesis by (simp add: on_object_def with_temp_session_run Let_def)
  next
    case (Some i)
    obtain r w2 where "f (scanned m) i ?w1 = Some (r, w2)" using assms by fastforce
    with Some show ?thesis by (simp add: on_object_def with_temp_session_run Let_def)
  qed
qed

text \<open>
  C1. The temporary session of a request.  Whatever a request does and answers, the registry is
  afterwards what it was before: the objects of the scan, those the request made and those it
  deleted have no handle left.  So the handle that \<open>SsiVolumeCreateFromDisks\<close> stores for the volume it made is
  no handle of any object any more when the function returns.
\<close>

theorem requests_restore_registry:
  assumes "machine_ok m w" "perform m os junk req (Some w) = Some ((a, h), c)"
  shows "(\<exists>w'. c = Some w' \<and> registry w' = registry w) \<and> (\<forall>k. h = Some k \<longrightarrow> hm_at (registry (the c)) k = None)"
proof -
  obtain w' where "c = Some w'" "registry w' = registry w"
    using perform_restored [OF assms] by (auto simp: restored_def)
  then show ?thesis using perform_handle [OF assms(1)] assms(2) by auto
qed

definition demo_machine :: machine where
  "demo_machine =
     \<lparr>sysfs = \<lparr>found = [(Volume, 2), (Array, 1)], throws = False\<rparr>, disk_of = (\<lambda>_. demo_disk ''sdc''),
      volume_of = (\<lambda>i. demo_volume\<lparr>object_id := i\<rparr>), array_of = (\<lambda>i. demo_array\<lparr>object_id := i\<rparr>),
      parent_of = [2 \<mapsto> 1], new_array_id = 3, new_volume_id = 4,
      attributes_of = (\<lambda>_. \<lparr>md_level = None, md_array_state = None, md_sync_action = None, md_degraded = None,
        md_chunk_size = None, md_mismatch_cnt = None, md_component_size = None, md_rwh_policy = None,
        md_consistency_policy = None\<rparr>),
      reports_of = (\<lambda>_. \<lparr>new_level = [], reshape_status = [], check_status = [], df_boot = None\<rparr>)\<rparr>"

lemma demo_machine_ok:
  "hm_ok (registry w) \<Longrightarrow> \<forall>i\<in>{1, 2, 3, 4}. m_handle (registry w) i = SSI_NULL_HANDLE \<Longrightarrow> machine_ok demo_machine w"
  by (auto simp: machine_ok_def demo_machine_def fresh_scan_def split: if_splits)

theorem requests_restore_registry_witness:
  "\<exists>r c. perform demo_machine calm blank_info (Expand 1 100) (Some start_world) = Some (r, Some c)
     \<and> registry c = hm_empty"
proof -
  have ok: "machine_ok demo_machine start_world"
    by (rule demo_machine_ok) (simp add: start_world_def hm_ok_empty, simp add: start_world_def hm_empty_def)
  have "\<exists>r c. SsiExpandVolume demo_machine calm 1 100 (Some start_world) = Some (r, c)"
    unfolding SsiExpandVolume_def by (rule on_object_total) (simp add: status_def)
  then obtain a h c where run: "perform demo_machine calm blank_info (Expand 1 100) (Some start_world) = Some ((a, h), c)"
    by (auto simp: no_handle_def)
  from requests_restore_registry [OF ok run] run show ?thesis by (auto simp: start_world_def)
qed

text \<open>
  C24. Handles of an open session.  While a session of the application is open its objects have the
  handles they were given when it was opened, and the objects of the temporary session get others: any
  request for an object by such a handle is refused as invalid, and nothing else happens.
\<close>

theorem open_session_handles_refused:
  assumes "machine_ok m w" "\<not> throws (sysfs m)" "hm_at (registry w) (target req) = Some x"
  shows "perform m os junk req (Some w) = Some ((Inr SSI_StatusInvalidHandle, None), Some w)"
proof -
  have ok: "hm_ok (registry w)" and fresh: "fresh_scan (sysfs m) (registry w)"
    using assms(1) by (simp_all add: machine_ok_def)
  have sr: "hm_ok (scan_registry m w)" using ok by (simp add: hm.ok_register_all)
  let ?w1 = "w\<lparr>registry := scan_registry m w\<rparr>" and ?h = "target req"
  have x: "?h \<noteq> SSI_NULL_HANDLE" "m_handle (registry w) x = ?h" using hm.consistent [OF ok] assms(3) by auto
  then have "x \<notin> held (scanned m)" using fresh_null [OF fresh] by auto
  then have hx: "m_handle (scan_registry m w) x = ?h" using scan_registry_other [OF ok] x(2) by simp
  have none: "lookup k (scanned m) ?w1 ?h = None" for k
  proof -
    have "m_handle (scan_registry m w) y \<noteq> ?h" if "y \<in> set (container k (scanned m))" for y
    proof
      assume "m_handle (scan_registry m w) y = ?h"
      then have "y = x" using hm.handles_distinct [OF sr, of y x] hx x(1) by simp
      then show False using that \<open>x \<notin> held (scanned m)\<close> by (auto simp: held_iff)
    qed
    then show ?thesis by (simp add: lookup_def container_find_None getHandle_def)
  qed
  have "registry (close_temp (scanned m) ?w1) = registry w"
    by (rule close_temp_restores [OF ok scan_frame_same [OF assms(1)]]) simp
  then have closed: "close_temp (scanned m) ?w1 = w" by (simp add: close_temp_def)
  have object: "no_handle (on_object k m ?h f (Some w)) = Some ((Inr SSI_StatusInvalidHandle, None), Some w)" for k f
    using none [of k] closed assms(2) by (simp add: on_object_def with_temp_session_run no_handle_def)
  show ?thesis
  proof (cases req)
    case (Create_volume p)
    then show ?thesis
      using none closed assms(2) by (simp add: SsiVolumeCreate_def with_temp_session_run no_handle_def)
  next
    case (Create_from_disks p)
    then obtain h hs where d: "disks p = h # hs" "numDisks p \<noteq> 0"
      using x(1) by (auto split: list.splits if_splits)
    then have h: "?h = h" using Create_from_disks by simp
    obtain n where "unat (numDisks p) = Suc n"
      using d(2) by (metis not0_implies_Suc unat_eq_0)
    then have "create_from_disks m os junk p (scanned m) ?w1 = Some ((Inr SSI_StatusInvalidHandle, None), scanned m, ?w1)"
      using none [of EndDevice] d(1) unfolding h by (simp add: create_from_disks_def refuse_def)
    then show ?thesis
      using d(2) closed assms(2) Create_from_disks
      by (simp add: SsiVolumeCreateFromDisks_def with_temp_session_run)
  qed (use object in \<open>simp_all add: entry_points\<close>)
qed

theorem open_session_handles_refused_witness:
  "perform demo_machine calm blank_info (Delete 1) (Some (start_world\<lparr>registry := snd (hm_insert 7 hm_empty)\<rparr>)) =
     Some ((Inr SSI_StatusInvalidHandle, None), Some (start_world\<lparr>registry := snd (hm_insert 7 hm_empty)\<rparr>))"
proof (rule open_session_handles_refused)
  show "machine_ok demo_machine (start_world\<lparr>registry := snd (hm_insert 7 hm_empty)\<rparr>)"
    by (rule demo_machine_ok)
       (simp_all add: hm_ok_insert hm_ok_empty, simp add: hm_insert_def getUniqueHandle_def hm_empty_def hm_at_def getHandle_def setHandle_def)
  show "\<not> throws (sysfs demo_machine)" by (simp add: demo_machine_def)
  show "hm_at (registry (start_world\<lparr>registry := snd (hm_insert 7 hm_empty)\<rparr>)) (target (Delete 1)) = Some 7"
    by (simp add: hm_insert_def getUniqueHandle_def hm_empty_def hm_at_def getHandle_def setHandle_def)
qed

subsection \<open>Undoing a creation\<close>

definition grows :: "world \<Rightarrow> world \<Rightarrow> bool" where
  "grows w w' \<longleftrightarrow> prefix (trace w) (trace w')"

lemma grows_refl [simp]: "grows w w" and grows_trans: "grows u v \<Longrightarrow> grows v w \<Longrightarrow> grows u w"
  by (auto simp: grows_def)

lemma commands_grow:
  "grows w (snd (shellEx os c n k w))" "grows w (snd (shell_output os c b w))" "grows w (pause i w)"
  "grows w (setLastErrorMessage t w)" "grows w (clearLastErrorMessage w)" "grows w (unregister d w)"
  by (auto simp: grows_def shellEx_trace prefix_started shell_output_def pause_def clearLastErrorMessage_def
      unregister_def Let_def split: option.splits)

lemma createVolume_grows: "grows w (snd (createVolume os c w))"
  using commands_grow(2) [of w os c True]
  by (auto simp: createVolume_def grows_def split_beta Let_def)

lemma volume_create_grows: "grows w (snd (volume_create os v w))"
proof -
  let ?r = "createVolume os (create_command v '' --rwh-policy=ppl'') w"
  have 1: "grows w (snd ?r)" by (rule createVolume_grows)
  have "fst ?r \<in> {None, Some E_VOLUME_CREATE_FAILED}" by (simp add: createVolume_def split_beta Let_def)
  then show ?thesis
    using 1 grows_trans [OF 1 createVolume_grows] by (auto simp: volume_create_def split_beta)
qed

lemma wait_for_volume_grows: "grows w (snd (wait_for_volume_loop os n v a w))"
  by (induction n arbitrary: v a w) (auto intro: grows_trans [OF commands_grow(3)])

lemma volume_create_wait_grows:
  assumes "volume_create_wait os p v w = Some (x, w')"
  shows "grows w w'"
proof -
  obtain v1 where 1: "(if m_Name v = [] then determineDeviceName os ''Volume_'' w v else Some v) = Some v1"
    using assms by (auto simp: volume_create_wait_def split: bind_splits)
  obtain e w1 where c: "volume_create os v1 w = (e, w1)" by fastforce
  have "grows w w1" using volume_create_grows [of w os v1] c by simp
  moreover have "grows w1 (snd (wait_for_volume_loop os 10 v1 a w1))" for a by (rule wait_for_volume_grows)
  ultimately show ?thesis
    using assms unfolding volume_create_wait_def 1 bind.bind_lunit c
    by (auto simp: split_beta Let_def intro: grows_trans split: option.splits)
qed

lemma array_remove_loop_grows: "grows w (snd (array_remove_loop os a n w))"
proof (induction n arbitrary: w)
  case (Suc n)
  let ?w1 = "snd (shellEx os (stop_command a) 1 0 w)"
  let ?w2 = "snd (shellEx os (zero_command a) 1 0 (unregister a ?w1))"
  have 1: "grows w ?w1" by (rule commands_grow)
  have "grows ?w1 (unregister a ?w1)" by (rule commands_grow)
  with 1 have 2: "grows w ?w2" by (meson grows_trans commands_grow(1))
  show ?case
    using 1 2 grows_trans [OF 1 Suc.IH] grows_trans [OF 2 Suc.IH] by (simp add: split_beta Let_def)
qed simp

lemma array_remove_stops:
  assumes "shell_works os"
  shows "\<exists>rest. trace (snd (array_remove os a w)) = trace w @ mdadm_run (stop_command a) # rest"
proof -
  let ?w1 = "snd (shellEx os (stop_command a) 1 0 w)"
  let ?w2 = "snd (shellEx os (zero_command a) 1 0 (unregister a ?w1))"
  have t: "trace ?w1 = trace w @ [mdadm_run (stop_command a)]"
    by (simp add: shellEx_trace started_if_works [OF assms])
  have "grows ?w1 ?w2" by (rule grows_trans [OF commands_grow(6) commands_grow(1)])
  then have "grows ?w1 (snd (array_remove_loop os a (Suc n) w))" for n
    using array_remove_loop_grows [of ?w1 os a n] grows_trans [OF _ array_remove_loop_grows [of ?w2 os a n]]
    by (simp add: split_beta Let_def)
  from this [of 3] have "grows ?w1 (snd (array_remove os a w))" by (simp add: array_remove_def)
  then show ?thesis using t by (auto simp: grows_def prefix_def)
qed

lemma volume_error_not_ok: "volume_error e \<noteq> SSI_StatusOk"
  by (cases e) simp_all


definition bad_params :: create_params where
  "bad_params = \<lparr>numDisks = 2, disks = [1, 2], sourceDisk = 0, arrayOfVolume = 0, volumeName = ''v'',
     stripSize = SSI_StripSize64kB, raidLevel = 0, sizeInBytes = 0, rwhPolicy = SSI_RwhOff\<rparr>"

lemma calm_update: "update calm w d = d"
  by (simp add: update_def getMapFile_def map_paths_def calm_def)

lemma calm_command: "fst (shell_command calm c w) = 0"
  by (simp add: shell_command_def calm_output)

lemma calm_array_create:
  assumes "m_BlockDevices a \<noteq> []"
  shows "\<exists>a' w'. array_create calm a w = Some ((None, a'), w')"
proof -
  have "determineDeviceName calm ''Imsm_'' w a = Some (a\<lparr>m_Name := ''Imsm_'' @ dec 0\<rparr>)"
    by (simp add: determineDeviceName_def device_name_step calm_def)
  then show ?thesis using assms by (simp add: array_create_def calm_run split_beta Let_def)
qed


end
