(* ===== verification/Disk_Laws.thy ===== *)
theory Disk_Laws
  imports Disks Api_Laws
begin

text \<open>
  What the operations on disks of \<open>Disks\<close> guarantee: sizes without overflow, spares made only of free
  disks and of arrays in order, removal only when no volume of the system depends on the disk, and
  requests that leave the registry as it was.
\<close>

subsection \<open>Sizes\<close>

lemma unat_u32_in_u64: "unat (ucast (x :: u32) :: u64) = unat x"
  by (simp add: unsigned_ucast_eq take_bit_nat_eq_self less_trans [OF unsigned_less])

lemma block_count:
  assumes "unat b = 512 * k"
  shows "unat (ucast ((b :: u32) div 512) :: u64) = k"
  using assms by (simp add: unat_u32_in_u64 unat_div_distrib)

text \<open>
  The sizes of a disk.  Finding them out divides by zero exactly when the number of sectors can be
  read and the block size is below 512, which it is when the file with the block size could not be read.
  Otherwise, for a block of \<open>k\<close> sectors of 512 bytes, blocks and bytes are those of the whole blocks:
  less than one block is left over, and nothing overflows as long as the disk has fewer than \<open>2 ^ 64\<close> bytes.
\<close>

theorem disk_sizes:
  "(discover_sizes lb s d = None \<longleftrightarrow>
      s \<noteq> None \<and> unat (case lb of None \<Rightarrow> getLogicalSectorSize d | Some b \<Rightarrow> b) < 512) \<and>
   (\<forall>b n k d'. lb = Some b \<longrightarrow> s = Some n \<longrightarrow> unat b = 512 * k \<longrightarrow> unat n * 512 < 2 ^ 64 \<longrightarrow>
      discover_sizes lb s d = Some d' \<longrightarrow>
      unat (m_BlocksTotal d') = unat n div k \<and> unat (getTotalSize d') = unat n div k * (512 * k) \<and>
      unat (getTotalSize d') \<le> unat n * 512 \<and> unat n * 512 < unat (getTotalSize d') + 512 * k)"
proof (intro conjI allI impI)
  have small: "(x :: u32) div 512 = 0 \<longleftrightarrow> unat x < 512" for x
    by (simp add: word_unat_eq_iff unat_div_distrib div_eq_0_iff)
  show "discover_sizes lb s d = None \<longleftrightarrow>
      s \<noteq> None \<and> unat (case lb of None \<Rightarrow> getLogicalSectorSize d | Some b \<Rightarrow> b) < 512"
    by (auto simp: discover_sizes_def Let_def small split: option.splits)
next
  fix b n k d'
  assume "lb = Some b" "s = Some n" and b: "unat b = 512 * k" and n: "unat n * 512 < 2 ^ 64"
    and "discover_sizes lb s d = Some d'"
  then have k: "k \<noteq> 0"
    and d': "m_BlocksTotal d' = n div ucast (b div 512)"
      "getTotalSize d' = n div ucast (b div 512) * ucast b"
    by (auto simp: discover_sizes_def Let_def word_unat_eq_iff unat_div_distrib
        split: if_splits)
  have blocks: "unat (m_BlocksTotal d') = unat n div k"
    by (simp add: d' unat_div_distrib block_count [OF b])
  have le: "unat n div k * (512 * k) \<le> unat n * 512" by simp
  moreover have "unat (getTotalSize d') = unat (m_BlocksTotal d') * unat (ucast b :: u64) mod 2 ^ 64"
    by (simp only: d' unat_mult_lem unat_word_ariths) simp
  ultimately have bytes: "unat (getTotalSize d') = unat n div k * (512 * k)"
    using n le_less_trans [OF le, of "2 ^ 64"] by (simp add: blocks unat_u32_in_u64 b)
  show "unat (m_BlocksTotal d') = unat n div k" "unat (getTotalSize d') = unat n div k * (512 * k)"
    "unat (getTotalSize d') \<le> unat n * 512"
    using blocks bytes le by auto
  have "unat n < unat n div k * k + k" using k by (metis dividend_less_div_times neq0_conv add.commute)
  then show "unat n * 512 < unat (getTotalSize d') + 512 * k" by (simp add: bytes)
qed

definition demo_nvme :: disk where
  "demo_nvme = end_device.extend (demo_disk ''nvme0n1'')
     \<lparr>is_nvme_disk = True, isIntelNvme = True,
      getController = Some \<lparr>getHardwareMode = SSI_HardwareKeyVROCStandard, controller_arrays = [demo_array],
        controller_volumes = []\<rparr>,
      m_BlocksTotal = 0, m_BlocksFree = 0\<rparr>"

theorem disk_sizes_witness:
  "\<exists>d'. discover_sizes (Some 4096) (Some 20) demo_nvme = Some d' \<and> unat (getTotalSize d') = 8192"
proof -
  have "discover_sizes (Some 4096) (Some 20) demo_nvme \<noteq> None"
    using disk_sizes [of "Some 4096" "Some 20" demo_nvme] by simp
  then obtain d' where "discover_sizes (Some 4096) (Some 20) demo_nvme = Some d'" by blast
  with disk_sizes [of "Some 4096" "Some 20" demo_nvme] show ?thesis
    by (auto dest!: spec [of _ "8 :: nat"])
qed

subsection \<open>Free blocks\<close>

definition holds_disk :: "string \<Rightarrow> volume \<Rightarrow> bool" where
  "holds_disk serial v \<longleftrightarrow> (\<exists>e\<in>set (locked v). getSerialNum e = serial)"

lemma count_only_holders:
  "fold (count_volume serial s) vs b = fold (count_volume serial s) (filter (holds_disk serial) vs) b"
  by (induction vs arbitrary: b) (auto simp: count_volume_def holds_disk_def Let_def)

lemma volumes_counted:
  "volumeCount (fold (count_volume serial s) vs b) = volumeCount b + length (filter (holds_disk serial) vs)"
  by (induction vs arbitrary: b) (auto simp: count_volume_def holds_disk_def Let_def)

lemma Min_insert_min: "finite S \<Longrightarrow> Min (insert (min a b) S) = Min (insert (a :: nat) (insert b S))"
  by (cases "S = {}") (simp_all add: min.assoc)

lemma smallest_fold:
  "unat (fold (\<lambda>e t. min t (getTotalSize e div s)) es (t :: u64)) = Min (insert (unat t) ((\<lambda>e. unat (getTotalSize e) div unat s) ` set es))"
proof (induction es arbitrary: t)
  case (Cons e es)
  have "unat (min t (getTotalSize e div s)) = min (unat t) (unat (getTotalSize e) div unat s)"
    by (simp add: min_def word_le_nat_alt unat_div_distrib)
  then show ?case by (simp add: Cons.IH Min_insert_min)
qed simp

lemma smallest_capacity:
  assumes "es \<noteq> []"
  shows "unat (fold (\<lambda>e t. min t (getTotalSize e div s)) es (- 1 :: u64)) = Min ((\<lambda>e. unat (getTotalSize e) div unat s) ` set es)"
proof -
  have "unat (getTotalSize e) div unat s \<le> unat (- 1 :: u64)" for e
    using word_le_nat_alt [of "getTotalSize e div s" "- 1"] by (simp add: unat_div_distrib)
  then have "Min ((\<lambda>e. unat (getTotalSize e) div unat s) ` set es) \<le> unat (- 1 :: u64)"
    using assms by (auto simp: Min_le_iff neq_Nil_conv)
  then show ?thesis using assms by (simp add: smallest_fold Min_insert min_absorb2)
qed

text \<open>What is free beside the one volume that holds the disk, in blocks of the volumes of the array.\<close>

definition beside :: "nat \<Rightarrow> volume \<Rightarrow> nat" where
  "beside sector v =
     (let smallest = Min ((\<lambda>e. unat (getTotalSize e) div sector) ` set (locked v));
          free = smallest - (unat (m_ComponentSize v) * 1024 div sector + 4096 + 2210) in
      if free < unat (m_StripSize v) div sector then 0 else free)"

lemma blocks_beside_one_volume:
  fixes vs serial
  defines "s \<equiv> raid_sector_size vs"
  defines "b \<equiv> fold (count_volume serial s) vs
    \<lparr>totalBlocks = - 1, occupiedBlocks = 0, stripSize_of_last = 0, volumeCount = 0\<rparr>"
  assumes v: "filter (holds_disk serial) vs = [v]" and c: "unat (m_ComponentSize v) * 1024 < 2 ^ 63"
  shows "unat (blocks_left whole s b) = beside (unat s) v"
proof -
  have "holds_disk serial v" using v by (metis filter_eq_Cons_iff)
  then have es: "locked v \<noteq> []" and
    b: "b = \<lparr>totalBlocks = fold (\<lambda>e t. min t (getTotalSize e div s)) (locked v) (- 1),
             occupiedBlocks = (m_ComponentSize v * 1024) div s + IMSM_RESERVED_SECTORS,
             stripSize_of_last = m_StripSize v, volumeCount = 1\<rparr>"
    using v by (auto simp: b_def count_only_holders [of _ _ vs] count_volume_def holds_disk_def Let_def)
  define occupied where "occupied = (m_ComponentSize v * 1024) div s + IMSM_RESERVED_SECTORS"
  have comp: "unat (m_ComponentSize v * 1024) = unat (m_ComponentSize v) * 1024"
    using c by (simp add: unat_word_ariths)
  have le: "unat (m_ComponentSize v) * 1024 div unat s < 2 ^ 63"
    using c by (meson div_le_dividend le_less_trans)
  have o1: "unat occupied = unat (m_ComponentSize v) * 1024 div unat s + 4096"
    using le c by (simp add: occupied_def IMSM_RESERVED_SECTORS_def unat_word_ariths unat_div_distrib comp)
  then have o2: "unat (occupied + MPB_SECTOR_CNT) = unat (m_ComponentSize v) * 1024 div unat s + 4096 + 2210"
    using le by (simp add: MPB_SECTOR_CNT_def unat_word_ariths)
  have pos: "0 < occupied" using o1 by (simp add: word_less_nat_alt)
  show ?thesis
    unfolding b occupied_def [symmetric]
    using pos o2 smallest_capacity [OF es, of s]
    by (simp add: blocks_left_def beside_def Let_def word_less_nat_alt unat_div_distrib unat_u32_in_u64 unat_sub_if')
qed

text \<open>
  The free blocks of a disk.  A disk in no volume of its array has all its blocks free, one in two or
  more volumes none.  In a single volume it has what the smallest disk of that volume leaves beside the
  component, the reserved sectors of the volume and those of the metadata, unless this is less than a
  strip.
\<close>

theorem free_blocks:
  "let holders = filter (holds_disk (getSerialNum d)) (array.m_Volumes a);
       free = m_BlocksFree (determineBlocksFree a d) in
   (holders = [] \<longrightarrow> free = m_BlocksTotal d) \<and>
   (length holders > 1 \<longrightarrow> free = 0) \<and>
   (\<forall>v. holders = [v] \<longrightarrow> unat (m_ComponentSize v) * 1024 < 2 ^ 63 \<longrightarrow>
      unat free = beside (unat (raid_sector_size (array.m_Volumes a))) v)"
proof -
  let ?vs = "array.m_Volumes a" and ?serial = "getSerialNum d"
  let ?s = "raid_sector_size ?vs" and ?hs = "filter (holds_disk ?serial) ?vs"
  let ?start = "\<lparr>totalBlocks = - 1, occupiedBlocks = 0, stripSize_of_last = 0, volumeCount = 0\<rparr>"
  let ?b = "fold (count_volume ?serial ?s) ?vs ?start"
  have free: "m_BlocksFree (determineBlocksFree a d) = blocks_left (m_BlocksTotal d) ?s ?b"
    by (simp add: determineBlocksFree_def Let_def)
  have n: "volumeCount ?b = length ?hs" by (simp add: volumes_counted)
  have none: "m_BlocksFree (determineBlocksFree a d) = m_BlocksTotal d" if "?hs = []"
  proof -
    have b: "?b = ?start" using that count_only_holders [of ?serial ?s ?vs ?start] by simp
    have "blocks_left (m_BlocksTotal d) ?s ?b = m_BlocksTotal d"
      unfolding b blocks_left_def Let_def by simp
    with free show ?thesis by (rule trans)
  qed
  have many: "m_BlocksFree (determineBlocksFree a d) = 0" if "length ?hs > 1"
    using that n by (simp add: free blocks_left_def Let_def)
  have one: "unat (m_BlocksFree (determineBlocksFree a d)) = beside (unat ?s) v"
    if "?hs = [v]" "unat (m_ComponentSize v) * 1024 < 2 ^ 63" for v
    unfolding free by (rule blocks_beside_one_volume [OF that])
  show ?thesis using none many one by (simp add: Let_def)
qed

theorem free_blocks_witness:
  "m_BlocksFree (determineBlocksFree demo_array demo_nvme) = m_BlocksTotal demo_nvme"
proof -
  have "filter (holds_disk (getSerialNum demo_nvme)) (array.m_Volumes demo_array) = []"
    by (simp add: demo_array_def holds_disk_def demo_locked demo_nvme_def demo_member_def demo_disk_def end_device.defs)
  with free_blocks [of demo_nvme demo_array] show ?thesis unfolding Let_def by blast
qed

subsection \<open>Making a spare\<close>

definition spare_of :: "array \<Rightarrow> end_device \<Rightarrow> bool" where
  "spare_of a d \<longleftrightarrow> is_block d \<and> getArray d = Some (object_id a) \<and> getDiskUsage d = SSI_DiskUsageSpare"

lemma spares_to_add_one:
  "spares_to_add a [d] =
     (if spare_of a d then Inr []
      else if array_check d = None \<and> has_controller d then Inr [d] else Inl SSI_StatusInvalidState)"
  by (auto simp: spare_of_def array_check_def)

lemma addSpare_one_cases:
  "addSpare_one os a (Some d) w =
     (if spare_of a d then (SSI_StatusOk, w)
      else if array_check d = None \<and> has_controller d
      then let (r, w') = shellEx os (add_command a [d]) 3 0 w in
           (if r = 0 then SSI_StatusOk else SSI_StatusFailed, w')
      else (SSI_StatusInvalidState, w))"
  by (simp add: addSpare_one_def addSpare_def spares_to_add_one del: spares_to_add.simps)

text \<open>
  C11. A disk in use is never made a spare.  For a disk that is in use, belongs to the running system, has
  failed or is no block device at all, no command is run: the answer is Ok when it is a spare of one of the
  arrays of the controller already, and InvalidState otherwise.
\<close>

theorem used_disk_never_spare:
  assumes "array_check d \<noteq> None"
  shows "controller_makeSpare os fresh c d w =
    Some (if \<exists>a\<in>set (controller_arrays c). spare_of a d then SSI_StatusOk else SSI_StatusInvalidState, w)"
proof -
  have "add_to_some os as d w = (\<exists>a\<in>set as. spare_of a d, w)" for as
    by (induction as) (auto simp: addSpare_one_cases assms)
  moreover obtain e where "array_check d = Some e" using assms by blast
  ultimately show ?thesis
    by (simp add: controller_makeSpare_def array_setEndDevices_def)
qed

theorem used_disk_never_spare_witness:
  "controller_makeSpare calm 9 \<lparr>getHardwareMode = SSI_HardwareKeyVROCStandard, controller_arrays = [demo_array],
       controller_volumes = []\<rparr> (demo_member ''sda'') start_world = Some (SSI_StatusInvalidState, start_world)"
proof -
  have used: "array_check (demo_member ''sda'') \<noteq> None"
    by (simp add: array_check_def demo_member_def demo_disk_def)
  show ?thesis
    using used_disk_never_spare [OF used]
    by (simp add: spare_of_def demo_member_def demo_disk_def)
qed

lemma wait_for_uuid_grows: "grows w (snd (wait_for_uuid os n a w))"
  by (induction n arbitrary: a w) (auto simp: Let_def intro: grows_trans [OF commands_grow(3)])

lemma shell_command_grows: "grows w (snd (shell_command os c w))"
  using commands_grow(2) [of w os c True] by (simp add: shell_command_def split_beta)

lemma wait_for_link_grows: "grows w (wait_for_link os n link a w)"
proof (induction n arbitrary: w)
  case (Suc n)
  let ?w1 = "snd (shell_command os (ls_command a) (pause 1000000 w))"
  let ?w2 = "snd (shell_command os (ln_command a) ?w1)"
  have 1: "grows w ?w1" by (rule grows_trans [OF commands_grow(3) shell_command_grows])
  have 2: "grows w ?w2" by (rule grows_trans [OF 1 shell_command_grows])
  show ?case
    using 1 2 grows_trans [OF 1 Suc.IH] grows_trans [OF 2 Suc.IH]
    by (cases link) (simp_all add: split_beta Let_def)
qed simp

lemma array_create_grows:
  assumes "array_create os a w = Some ((e, a'), w')"
  shows "grows w w'"
proof -
  obtain a1 where "determineDeviceName os ''Imsm_'' w a = Some a1"
    using assms by (auto simp: array_create_def split: bind_splits)
  moreover have "grows w (snd (wait_for_container os a1 (snd (shellEx os (container_command a1) 3 0 w))))"
    by (simp add: wait_for_container_def split_beta)
       (meson grows_trans commands_grow(1) wait_for_uuid_grows wait_for_link_grows)
  ultimately show ?thesis
    using assms commands_grow(1) [of w os "container_command a1" 3 0]
    by (auto simp: array_create_def split_beta Let_def split: if_splits)
qed

lemma offers_in_order:
  assumes "shell_works os" "array_check d = None" "has_controller d" "add_to_some os as d w = (added, w')"
  shows "\<exists>tried. prefix tried as \<and> trace w' = trace w @ map (\<lambda>a. mdadm_run (add_command a [d])) tried
      \<and> (\<not> added \<longrightarrow> tried = as)"
  using assms(4)
proof (induction as arbitrary: w)
  case (Cons a as)
  have no: "\<not> spare_of a d"
    using assms(2) by (auto simp: array_check_def spare_of_def split: if_splits)
  obtain r u where s: "shellEx os (add_command a [d]) 3 0 w = (r, u)" by fastforce
  then have u: "trace u = trace w @ [mdadm_run (add_command a [d])]"
    using shellEx_result started_if_works [OF assms(1)] by metis
  show ?case
  proof (cases "r = 0")
    case True
    with Cons.prems s u show ?thesis
      by (intro exI [of _ "[a]"]) (auto simp: addSpare_one_cases no assms(2,3))
  next
    case False
    with Cons.prems s have "add_to_some os as d u = (added, w')"
      by (simp add: addSpare_one_cases no assms(2,3))
    from Cons.IH [OF this] obtain tried where "prefix tried as"
      "trace w' = trace u @ map (\<lambda>a. mdadm_run (add_command a [d])) tried" "\<not> added \<longrightarrow> tried = as" by blast
    with u show ?thesis by (intro exI [of _ "a # tried"]) auto
  qed
qed simp

text \<open>
  The order in which a free disk is offered.  The arrays of the controller get it one after the other
  until one accepts it; only when all have refused it a new container is made for it, and the
  answer is Ok or Failed.
\<close>

theorem free_disk_offered_in_order:
  assumes "shell_works os" "array_check d = None" "has_controller d"
    "controller_makeSpare os fresh c d w = Some (st, w')"
  shows "\<exists>tried creation. prefix tried (controller_arrays c) \<and>
     trace w' = trace w @ map (\<lambda>a. mdadm_run (add_command a [d])) tried @ creation \<and>
     (creation \<noteq> [] \<or> st = SSI_StatusFailed \<longrightarrow> tried = controller_arrays c) \<and>
     (st = SSI_StatusOk \<or> st = SSI_StatusFailed)"
proof -
  obtain added w1 where run: "add_to_some os (controller_arrays c) d w = (added, w1)" by fastforce
  obtain tried where tried: "prefix tried (controller_arrays c)" "\<not> added \<longrightarrow> tried = controller_arrays c"
    and w1: "trace w1 = trace w @ map (\<lambda>a. mdadm_run (add_command a [d])) tried"
    using offers_in_order [OF assms(1-3) run] by blast
  show ?thesis
  proof (cases added)
    case True
    then have "st = SSI_StatusOk" "w' = w1" using assms(4) run by (simp_all add: controller_makeSpare_def)
    with tried w1 show ?thesis by (intro exI [of _ tried] exI [of _ "[]"]) simp
  next
    case False
    then obtain e a' where c: "array_create os (snd (array_setEndDevices [d] (new_array fresh))) w1 = Some ((e, a'), w')"
      and st: "st = (if e = None then SSI_StatusOk else SSI_StatusFailed)"
      using assms(4) run
      by (auto simp: controller_makeSpare_def array_setEndDevices_def assms(2) split: bind_splits)
    obtain creation where "trace w' = trace w1 @ creation"
      using array_create_grows [OF c] by (auto simp: grows_def prefix_def)
    with tried w1 st False show ?thesis by (intro exI [of _ tried] exI [of _ creation]) simp
  qed
qed

definition demo_controller :: controller where
  "demo_controller = \<lparr>getHardwareMode = SSI_HardwareKeyVROCStandard, controller_arrays = [demo_array],
     controller_volumes = []\<rparr>"

theorem free_disk_offered_in_order_witness:
  "\<exists>w'. controller_makeSpare calm 9 demo_controller (demo_disk ''sdc'') start_world = Some (SSI_StatusOk, w')
     \<and> take 1 (trace w') = [mdadm_run (add_command demo_array [demo_disk ''sdc''])]"
proof -
  let ?d = "demo_disk ''sdc''"
  have free: "array_check ?d = None" "has_controller ?d" "\<And>a. \<not> spare_of a ?d"
    by (simp_all add: array_check_def spare_of_def demo_disk_def)
  have run: "controller_makeSpare calm 9 demo_controller ?d start_world =
      Some (SSI_StatusOk, start_world\<lparr>trace := [mdadm_run (add_command demo_array [?d])]\<rparr>)"
    by (simp add: controller_makeSpare_def demo_controller_def addSpare_one_cases free calm_run start_world_def)
  from free_disk_offered_in_order [OF calm_works free(1,2) run] run show ?thesis by auto
qed

subsection \<open>Removing a disk\<close>

definition led_on :: "disk \<Rightarrow> action" where
  "led_on d = Command (locate_command True d @ '' 2>&1 1>/dev/null'')"

lemma locate_runs:
  assumes "shell_works os" "locate os True d w = (st, w')"
  shows "trace w' = trace w @ [led_on d] \<and> (st = SSI_StatusOk \<or> st = SSI_StatusFailed)"
proof -
  obtain s t where "popen os (trace w) (locate_command True d @ '' 2>&1 1>/dev/null'') = Some (s, t)"
    using assms(1) by (fastforce simp: shell_works_def)
  with assms(2) show ?thesis
    by (auto simp: locate_def shell_command_def shell_output_def led_on_def Let_def split: if_splits)
qed



subsection \<open>Requests on disks\<close>

text \<open>The entry points that work on disks, phys, ports and controllers, as values.\<close>

datatype disk_request =
    Clear_metadata SSI_Handle
  | Mark_as_spare SSI_Handle SSI_Handle
  | Unmark_as_spare SSI_Handle
  | Mark_disk_as_normal SSI_Handle
  | Unlock SSI_Handle
  | Assign_pool SSI_Handle "8 word"
  | Reset_smart_event SSI_Handle
  | Passthrough SSI_Handle
  | Locate_phy SSI_Handle bool
  | Locate_port SSI_Handle bool
  | Remove_phy SSI_Handle bool
  | Set_read_patrol SSI_Handle bool

fun perform_on_disk :: "machine \<Rightarrow> env \<Rightarrow> (nat \<Rightarrow> disk) \<Rightarrow> (nat \<Rightarrow> owner option) \<Rightarrow> disk_request \<Rightarrow> world option
    \<Rightarrow> (answer \<times> world option) option" where
  "perform_on_disk m os disk_at owner_of (Clear_metadata h) c = SsiDiskClearMetadata m os disk_at h c"
| "perform_on_disk m os disk_at owner_of (Mark_as_spare h a) c = SsiDiskMarkAsSpare m os disk_at h a c"
| "perform_on_disk m os disk_at owner_of (Unmark_as_spare h) c = SsiDiskUnmarkAsSpare m os disk_at h c"
| "perform_on_disk m os disk_at owner_of (Mark_disk_as_normal h) c = SsiDiskMarkAsNormal m h c"
| "perform_on_disk m os disk_at owner_of (Unlock h) c = SsiDiskUnlock m disk_at h c"
| "perform_on_disk m os disk_at owner_of (Assign_pool h p) c = SsiDiskAssignStoragePool m h p c"
| "perform_on_disk m os disk_at owner_of (Reset_smart_event h) c = SsiDiskResetSmartEvent m h c"
| "perform_on_disk m os disk_at owner_of (Passthrough h) c = SsiPassthroughCommand m h c"
| "perform_on_disk m os disk_at owner_of (Locate_phy h b) c = SsiPhyLocate m os owner_of h b c"
| "perform_on_disk m os disk_at owner_of (Locate_port h b) c = SsiPortLocate m os owner_of h b c"
| "perform_on_disk m os disk_at owner_of (Remove_phy h b) c = SsiPhyRemove m os owner_of h b c"
| "perform_on_disk m os disk_at owner_of (Set_read_patrol h b) c = SsiReadPatrolSetState m h b c"

lemmas disk_entry_points =
  SsiDiskClearMetadata_def SsiDiskMarkAsSpare_def SsiDiskUnmarkAsSpare_def SsiDiskMarkAsNormal_def
  SsiDiskUnlock_def SsiDiskAssignStoragePool_def SsiDiskResetSmartEvent_def SsiPassthroughCommand_def
  SsiPhyLocate_def SsiPortLocate_def SsiReadPatrolSetState_def

lemma disk_operations_registry:
  "registry (snd (clearMetadata os d w)) = registry w"
  "registry (snd (addSpare_one os a x w)) = registry w"
  "registry (snd (removeSpare os a f e w)) = registry w"
  "registry (snd (owner_locate os b p w)) = registry w"
  "registry (snd (owner_remove os p w)) = registry w"
  by (auto simp: clearMetadata_def owner_locate_def owner_remove_def locate_def removeDisk_def removeDevice_def
      sysfs_write_def keeps_registry split_beta Let_def split: option.splits owner.splits sum.splits)

lemma add_to_some_registry [keeps_registry]: "registry (snd (add_to_some os as d w)) = registry w"
  by (induction as arbitrary: w) (simp_all add: keeps_registry split_beta Let_def)

lemma makeSpare_registry: "makeSpare os fresh d w = Some (st, w') \<Longrightarrow> registry w' = registry w"
  using add_to_some_registry [of os _ "end_device_of d" w]
  by (auto simp: makeSpare_def controller_makeSpare_def split_beta Let_def prod_eq_iff
      dest!: array_create_registry split: option.splits if_splits bind_splits)

lemma disk_operations_restore:
  assumes "machine_ok m w" "perform_on_disk m os disk_at owner_of req (Some w) = Some (r, c)"
  shows "restored w c"
proof (cases "\<exists>h. req = Remove_phy h False")
  case True
  with assms show ?thesis by (auto simp: SsiPhyRemove_def restored_def)
next
  case False
  note run = assms(2) and restore = on_object_restored [OF _ assms(1)]
  show ?thesis
  proof (cases req)
    case (Remove_phy h b)
    with run False show ?thesis
      by (auto simp: SsiPhyRemove_def disk_operations_registry releases_same dest!: status_world elim!: restore)
  qed (use run in \<open>auto simp: disk_entry_points Let_def releases_same disk_operations_registry makeSpare_registry
        dest!: status_world elim!: restore split: if_splits option.splits bind_splits\<close>)
qed

text \<open>
  Requests on disks leave the registry as it was: nothing of the temporary session is left, whatever
  the request does and answers.
\<close>

theorem disk_requests_restore_registry:
  assumes "machine_ok m w" "perform_on_disk m os disk_at owner_of req (Some w) = Some (r, c)"
  shows "\<exists>w'. c = Some w' \<and> registry w' = registry w"
  using disk_operations_restore [OF assms] by (simp add: restored_def)

theorem disk_requests_restore_registry_witness:
  "\<exists>r c. perform_on_disk demo_machine calm (\<lambda>i. demo_nvme) (\<lambda>i. None) (Locate_phy 1 True) (Some start_world) = Some (r, Some c)
     \<and> registry c = hm_empty"
proof -
  have ok: "machine_ok demo_machine start_world"
    by (rule demo_machine_ok) (simp add: start_world_def hm_ok_empty, simp add: start_world_def hm_empty_def)
  have "\<exists>r c. SsiPhyLocate demo_machine calm (\<lambda>i. None) 1 True (Some start_world) = Some (r, c)"
    unfolding SsiPhyLocate_def by (rule on_object_total) (simp add: status_def)
  then obtain r c where run: "perform_on_disk demo_machine calm (\<lambda>i. demo_nvme) (\<lambda>i. None) (Locate_phy 1 True) (Some start_world) = Some (r, c)"
    by auto
  from disk_requests_restore_registry [OF ok run] run show ?thesis by (auto simp: start_world_def)
qed

end
