(* ===== verification/Sysfs.thy ===== *)
theory Sysfs
  imports Utils
begin

text \<open>
  Directories of \<open>filesystem.h\<close> and \<open>filesystem.cpp\<close>.  What the kernel tells about a path is a parameter:
  the names \<open>readdir\<close> returns, the type \<open>stat\<close> reports, and the canonical name, which is empty when the path
  does not exist.
\<close>

datatype file_type = Regular_file | Directory_file | Other_file

record sys_tree =
  entries :: "string \<Rightarrow> string list option"
  stat_type :: "string \<Rightarrow> file_type option"
  canonical :: "string \<Rightarrow> string"

text \<open>\<open>operator +\<close> of two paths.\<close>

definition join :: "string \<Rightarrow> string \<Rightarrow> string" where
  "join left right = left @ ''/'' @ right"

definition has :: "string \<Rightarrow> string \<Rightarrow> bool" where
  "has s p \<longleftrightarrow> str_find s p 0 \<noteq> None"

text \<open>
  The loop of \<open>Directory::__internal_read_content\<close>: the entries that pass the filter.  None is the exception
  thrown when an entry cannot be examined.
\<close>

fun read_entries :: "sys_tree \<Rightarrow> string \<Rightarrow> string \<Rightarrow> string list \<Rightarrow> (string \<times> file_type) list option" where
  "read_entries fs path flt [] = Some []"
| "read_entries fs path flt (d # ds) =
     (if d = ''.'' \<or> d = ''..'' then read_entries fs path flt ds
      else if flt \<noteq> [] \<and> \<not> has d flt then read_entries fs path flt ds
      else case stat_type fs (join path d) of
             None \<Rightarrow> None
           | Some Other_file \<Rightarrow> read_entries fs path flt ds
           | Some t \<Rightarrow> map_option ((#) (join path d, t)) (read_entries fs path flt ds))"

definition read_content :: "sys_tree \<Rightarrow> string \<Rightarrow> string \<Rightarrow> (string \<times> file_type) list option" where
  "read_content fs path flt =
     (case entries fs path of None \<Rightarrow> None | Some ds \<Rightarrow> read_entries fs path flt ds)"

text \<open>\<open>__internal_update_content\<close>: an exception empties the directory.\<close>

definition contents :: "sys_tree \<Rightarrow> string \<Rightarrow> string \<Rightarrow> (string \<times> file_type) list" where
  "contents fs path flt = (case read_content fs path flt of None \<Rightarrow> [] | Some c \<Rightarrow> c)"

definition dirs :: "sys_tree \<Rightarrow> string \<Rightarrow> string \<Rightarrow> string list" where
  "dirs fs path flt = map fst (filter (\<lambda>(p, t). t = Directory_file) (contents fs path flt))"

definition count :: "sys_tree \<Rightarrow> string \<Rightarrow> string \<Rightarrow> nat" where
  "count fs path flt = length (contents fs path flt)"

text \<open>
  \<open>String::compare\<close>: the difference of the first characters that differ, else of the lengths.
\<close>

fun compare :: "string \<Rightarrow> string \<Rightarrow> int" where
  "compare (c # s) (d # t) = (if c = d then compare s t else int (of_char c) - int (of_char d))"
| "compare s t = int (length s) - int (length t)"

lemma dirs_le_count: "length (dirs fs path flt) \<le> count fs path flt"
  by (simp add: dirs_def count_def)

lemma compare_prefix: "compare (s @ t) s = int (length t)"
  by (induction s) (cases t; simp)+

end
