(* ===== verification/Topology.thy ===== *)
theory Topology
  imports Sysfs Sessions
begin

text \<open>
  The objects the scan of the system makes, and how they are attached to each other: the classes derived from
  \<open>StorageObject\<close>, with their discovery for AHCI and VMD controllers.

  Objects point to each other, so they live in a store and are named by numbers; a virtual function is a
  function by cases on the class.  Every object that is reachable stays alive, so weak pointers never
  expire.  A function that returns None does not return: it recurses for ever, follows a null
  pointer or reads behind the end of a list; \<open>Inl\<close> is an exception.
\<close>

datatype obj_class =
    AHCI | VMD
  | AHCI_Phy | NVME_Phy | Plain_phy
  | AHCI_Port | NVME_Port | Plain_port | RemotePort
  | AHCI_Multiplier
  | AHCI_Disk | AHCI_CDROM | AHCI_Tape | NVME_Disk

definition is_controller :: "obj_class \<Rightarrow> bool" where
  "is_controller c \<longleftrightarrow> c \<in> {AHCI, VMD}"

definition is_phy :: "obj_class \<Rightarrow> bool" where
  "is_phy c \<longleftrightarrow> c \<in> {AHCI_Phy, NVME_Phy, Plain_phy}"

definition is_plain_port :: "obj_class \<Rightarrow> bool" where
  "is_plain_port c \<longleftrightarrow> c \<in> {AHCI_Port, NVME_Port, Plain_port}"

definition is_routing_device :: "obj_class \<Rightarrow> bool" where
  "is_routing_device c \<longleftrightarrow> c = AHCI_Multiplier"

definition is_block_device :: "obj_class \<Rightarrow> bool" where
  "is_block_device c \<longleftrightarrow> c \<in> {AHCI_Disk, NVME_Disk}"

definition is_end_device :: "obj_class \<Rightarrow> bool" where
  "is_end_device c \<longleftrightarrow> c \<in> {AHCI_Disk, AHCI_CDROM, AHCI_Tape, NVME_Disk}"

lemmas class_defs = is_controller_def is_phy_def is_plain_port_def is_routing_device_def is_block_device_def
  is_end_device_def

text \<open>
  An object has the fields of its class; those of other classes are unused.  \<open>own_phy\<close> and \<open>own_port\<close> are the
  phy and the port of an end device, and the phy and the subtractive port of a multiplier.
\<close>

record obj =
  obj_class :: obj_class
  obj_path :: string
  obj_parent :: "nat option"
  phy_number :: nat
  phys :: "nat list"
  ports :: "nat list"
  direct_devices :: "nat list"
  indirect_devices :: "nat list"
  direct_routers :: "nat list"
  indirect_routers :: "nat list"
  raid_arrays :: "nat list"
  raid_volumes :: "nat list"
  own_phy :: "nat option"
  own_port :: "nat option"
  remote_port :: "nat option"
  remote_phy :: "nat option"
  port_of_phy :: "nat option"
  array_of_disk :: "nat option"
  raid_info_of :: "nat option"

record topo =
  store :: "nat \<Rightarrow> obj"
  fresh :: nat

type_synonym attach_outcome = "(exception + topo) option"

abbreviation class_in :: "topo \<Rightarrow> nat \<Rightarrow> obj_class" where
  "class_in s x \<equiv> obj_class (store s x)"

definition new_obj :: "obj_class \<Rightarrow> string \<Rightarrow> nat option \<Rightarrow> nat \<Rightarrow> obj" where
  "new_obj c p parent n =
     \<lparr>obj_class = c, obj_path = p, obj_parent = parent, phy_number = n, phys = [], ports = [],
      direct_devices = [], indirect_devices = [], direct_routers = [], indirect_routers = [],
      raid_arrays = [], raid_volumes = [], own_phy = None, own_port = None, remote_port = None,
      remote_phy = None, port_of_phy = None, array_of_disk = None, raid_info_of = None\<rparr>"

definition alloc :: "obj_class \<Rightarrow> string \<Rightarrow> nat option \<Rightarrow> nat \<Rightarrow> topo \<Rightarrow> nat \<times> topo" where
  "alloc c p parent n s =
     (fresh s, s\<lparr>store := (store s)(fresh s := new_obj c p parent n), fresh := Suc (fresh s)\<rparr>)"

definition upd :: "nat \<Rightarrow> (obj \<Rightarrow> obj) \<Rightarrow> topo \<Rightarrow> topo" where
  "upd x f s = s\<lparr>store := (store s)(x := f (store s x))\<rparr>"

text \<open>The rest of a function after a call that may throw or not return.\<close>

definition andThen :: "attach_outcome \<Rightarrow> (topo \<Rightarrow> attach_outcome) \<Rightarrow> attach_outcome" where
  "andThen r f = (case r of None \<Rightarrow> None | Some (Inl e) \<Rightarrow> Some (Inl e) | Some (Inr s) \<Rightarrow> f s)"

definition setParent :: "nat \<Rightarrow> nat option \<Rightarrow> topo \<Rightarrow> topo" where
  "setParent x p s = (if p = Some x then s else upd x (obj_parent_update (\<lambda>_. p)) s)"

subsection \<open>What hangs below a device\<close>

definition getEndDevices :: "nat \<Rightarrow> bool \<Rightarrow> topo \<Rightarrow> nat list" where
  "getEndDevices x all s = direct_devices (store s x) @ (if all then indirect_devices (store s x) else [])"

definition getRoutingDevices :: "nat \<Rightarrow> bool \<Rightarrow> topo \<Rightarrow> nat list" where
  "getRoutingDevices x all s = direct_routers (store s x) @ (if all then indirect_routers (store s x) else [])"

text \<open>\<open>getPhys\<close> and \<open>getPorts\<close> of controllers, ports, routing devices and end devices.\<close>

definition getPhys :: "nat \<Rightarrow> topo \<Rightarrow> nat list" where
  "getPhys x s =
     (let ob = store s x in
      if is_end_device (obj_class ob) then (case own_phy ob of None \<Rightarrow> [] | Some f \<Rightarrow> [f])
      else if is_routing_device (obj_class ob)
      then phys ob @ (case own_phy ob of None \<Rightarrow> [] | Some f \<Rightarrow> [f])
      else phys ob)"

definition getPorts :: "nat \<Rightarrow> topo \<Rightarrow> nat list" where
  "getPorts x s =
     (let ob = store s x in
      if is_end_device (obj_class ob) then (case own_port ob of None \<Rightarrow> [] | Some p \<Rightarrow> [p])
      else if is_routing_device (obj_class ob)
      then ports ob @ (case own_port ob of None \<Rightarrow> [] | Some p \<Rightarrow> [p])
      else ports ob)"

subsection \<open>Attaching\<close>

text \<open>\<open>attachEndDevice\<close> of controllers, routing devices and ports; the others throw.\<close>

partial_function (option) attachEndDevice :: "nat \<Rightarrow> nat \<Rightarrow> topo \<Rightarrow> attach_outcome" where
  "attachEndDevice x e s =
     (let ob = store s x; c = obj_class ob in
      if is_controller c \<or> is_routing_device c
      then Some (Inr (upd x (direct_devices_update (\<lambda>ds. ds @ [e])) s))
      else if is_plain_port c \<or> c = RemotePort
      then (case obj_parent ob of None \<Rightarrow> Some (Inr s) | Some y \<Rightarrow> attachEndDevice y e s)
      else Some (Inl E_INVALID_OPERATION))"

partial_function (option) attachRoutingDevice :: "nat \<Rightarrow> nat \<Rightarrow> topo \<Rightarrow> attach_outcome" where
  "attachRoutingDevice x r s =
     (let ob = store s x; c = obj_class ob in
      if is_controller c \<or> is_routing_device c
      then Some (Inr (upd x (\<lambda>ob. ob\<lparr>direct_routers := direct_routers ob @ [r],
             indirect_devices := indirect_devices ob @ getEndDevices r True s,
             indirect_routers := indirect_routers ob @ getRoutingDevices r True s\<rparr>) s))
      else if is_plain_port c \<or> c = RemotePort
      then (case obj_parent ob of None \<Rightarrow> Some (Inr s) | Some y \<Rightarrow> attachRoutingDevice y r s)
      else Some (Inl E_INVALID_OPERATION))"

text \<open>
  \<open>attachPort\<close>.  A plain port calls the other port back; a remote port hangs the device it belongs to
  below the other port.
\<close>

partial_function (option) attachPort :: "nat \<Rightarrow> nat \<Rightarrow> topo \<Rightarrow> attach_outcome" where
  "attachPort x p s =
     (let ob = store s x; c = obj_class ob in
      if is_controller c \<or> is_routing_device c then Some (Inr (upd x (ports_update (\<lambda>ps. ps @ [p])) s))
      else if is_end_device c then Some (Inr (upd x (own_port_update (\<lambda>_. Some p)) s))
      else if is_phy c then Some (Inr (upd x (port_of_phy_update (\<lambda>_. Some p)) s))
      else if p = x then Some (Inl E_INVALID_OBJECT)
      else let s1 = upd x (remote_port_update (\<lambda>_. Some p)) s in
           if c = RemotePort
           then (case obj_parent ob of
                   None \<Rightarrow> Some (Inr s1)
                 | Some d \<Rightarrow>
                     (if is_routing_device (class_in s d) then attachRoutingDevice p d s1
                      else if is_end_device (class_in s d) then attachEndDevice p d s1
                      else Some (Inr s1)))
           else attachPort p x s1)"

text \<open>\<open>attachPhy\<close>; a port also tells the phy, and two phys tell each other for ever.\<close>

partial_function (option) attachPhy :: "nat \<Rightarrow> nat \<Rightarrow> topo \<Rightarrow> attach_outcome" where
  "attachPhy x f s =
     (let c = class_in s x in
      if is_controller c \<or> is_routing_device c then Some (Inr (upd x (phys_update (\<lambda>fs. fs @ [f])) s))
      else if is_end_device c then Some (Inr (upd x (own_phy_update (\<lambda>_. Some f)) s))
      else if is_phy c
      then (if f = x then Some (Inr s) else attachPhy f x (upd x (remote_phy_update (\<lambda>_. Some f)) s))
      else attachPort f x (upd x (phys_update (\<lambda>fs. fs @ [f])) s))"

text \<open>\<open>attachArray\<close> and \<open>attachVolume\<close> climb from a disk to its controller.\<close>

partial_function (option) attachArray :: "nat \<Rightarrow> nat \<Rightarrow> topo \<Rightarrow> attach_outcome" where
  "attachArray x a s =
     (let ob = store s x; c = obj_class ob in
      if is_controller c
      then Some (Inr (if a \<in> set (raid_arrays ob) then s else upd x (raid_arrays_update (\<lambda>as. as @ [a])) s))
      else if is_routing_device c
      then (case own_port ob of None \<Rightarrow> None | Some p \<Rightarrow> attachArray p a s)
      else if c = RemotePort then (case remote_port ob of None \<Rightarrow> Some (Inr s) | Some q \<Rightarrow> attachArray q a s)
      else if is_plain_port c then (case obj_parent ob of None \<Rightarrow> Some (Inr s) | Some y \<Rightarrow> attachArray y a s)
      else if is_block_device c
      then (case own_port ob of
              None \<Rightarrow> None
            | Some p \<Rightarrow> attachArray p a (upd x (array_of_disk_update (\<lambda>_. Some a)) s))
      else Some (Inl E_INVALID_OPERATION))"

partial_function (option) attachVolume :: "nat \<Rightarrow> nat \<Rightarrow> topo \<Rightarrow> attach_outcome" where
  "attachVolume x v s =
     (let ob = store s x; c = obj_class ob in
      if is_controller c
      then Some (Inr (if v \<in> set (raid_volumes ob) then s else upd x (raid_volumes_update (\<lambda>vs. vs @ [v])) s))
      else if is_routing_device c
      then (case own_port ob of None \<Rightarrow> None | Some p \<Rightarrow> attachVolume p v s)
      else if c = RemotePort then (case remote_port ob of None \<Rightarrow> Some (Inr s) | Some q \<Rightarrow> attachVolume q v s)
      else if is_plain_port c then (case obj_parent ob of None \<Rightarrow> Some (Inr s) | Some y \<Rightarrow> attachVolume y v s)
      else if is_block_device c
      then (case own_port ob of
              None \<Rightarrow> None
            | Some p \<Rightarrow> attachVolume p v (upd x (raid_volumes_update (\<lambda>vs. vs @ [v])) s))
      else Some (Inl E_INVALID_OPERATION))"

text \<open>\<open>getController\<close> follows the parents, \<open>getRaidInfo\<close> the ports.\<close>

partial_function (option) getController :: "nat \<Rightarrow> topo \<Rightarrow> nat option option" where
  "getController x s =
     (let ob = store s x; c = obj_class ob in
      if is_controller c then Some (Some x)
      else if is_end_device c \<or> is_routing_device c
      then (case obj_parent ob of None \<Rightarrow> Some None | Some y \<Rightarrow> getController y s)
      else Some None)"

partial_function (option) object_getRaidInfo :: "nat \<Rightarrow> topo \<Rightarrow> nat option option" where
  "object_getRaidInfo x s =
     (let ob = store s x; c = obj_class ob in
      if is_controller c then Some (raid_info_of ob)
      else if is_routing_device c then (case own_port ob of None \<Rightarrow> None | Some p \<Rightarrow> object_getRaidInfo p s)
      else if is_end_device c then (case own_port ob of None \<Rightarrow> Some None | Some p \<Rightarrow> object_getRaidInfo p s)
      else if c = RemotePort then (case remote_port ob of None \<Rightarrow> Some None | Some q \<Rightarrow> object_getRaidInfo q s)
      else if is_plain_port c then (case obj_parent ob of None \<Rightarrow> Some None | Some y \<Rightarrow> object_getRaidInfo y s)
      else Some None)"

declare attachEndDevice.simps [code] attachRoutingDevice.simps [code] attachPort.simps [code] attachPhy.simps [code]
  attachArray.simps [code] attachVolume.simps [code] getController.simps [code] object_getRaidInfo.simps [code]

subsection \<open>Discovery of end devices\<close>

text \<open>\<open>EndDevice::discover\<close>: the phy and the port of the device.\<close>

definition end_device_discover :: "nat \<Rightarrow> topo \<Rightarrow> attach_outcome" where
  "end_device_discover e s =
     (let p = obj_path (store s e);
          (f, s1) = alloc Plain_phy p (Some e) 0 s;
          (r, s2) = alloc RemotePort p None 0 (upd e (own_phy_update (\<lambda>_. Some f)) s1) in
      attachPhy r f (setParent r (Some e) (upd e (own_port_update (\<lambda>_. Some r)) s2)))"

text \<open>The driver of a SCSI device decides about the class.\<close>

definition ahci_drivers :: "(string \<times> obj_class) list" where
  "ahci_drivers =
     [(''/sys/bus/scsi/drivers/sd'', AHCI_Disk), (''/sys/bus/scsi/drivers/sr'', AHCI_CDROM),
      (''/sys/bus/scsi/drivers/st'', AHCI_Tape)]"

definition driver_class :: "sys_tree \<Rightarrow> string \<Rightarrow> obj_class option" where
  "driver_class fs path = map_of ahci_drivers (canonical fs (join path ''driver''))"

text \<open>\<open>AHCI_Phy::__internal_attach_end_device\<close>: the first subdirectory with a known driver.\<close>

fun first_device :: "sys_tree \<Rightarrow> string list \<Rightarrow> (obj_class \<times> string) option" where
  "first_device fs [] = None"
| "first_device fs (p # ps) =
     (case driver_class fs p of Some c \<Rightarrow> Some (c, p) | None \<Rightarrow> first_device fs ps)"

definition new_end_device :: "obj_class \<Rightarrow> string \<Rightarrow> topo \<Rightarrow> nat \<times> attach_outcome" where
  "new_end_device c p s = (let (e, s1) = alloc c p None 0 s in (e, end_device_discover e s1))"

text \<open>
  The device found on a phy: its parent is that of the phy, its port is attached to the port of the
  phy.
\<close>

definition connect_device :: "nat option \<Rightarrow> nat \<Rightarrow> nat \<Rightarrow> topo \<Rightarrow> attach_outcome" where
  "connect_device parent port e s =
     (let s1 = setParent e parent s in
      case own_port (store s1 e) of None \<Rightarrow> None | Some r \<Rightarrow> attachPort port r s1)"

definition attach_found :: "nat option \<Rightarrow> nat \<Rightarrow> (obj_class \<times> string) option \<Rightarrow> topo \<Rightarrow> attach_outcome" where
  "attach_found parent port d s =
     (case d of
        None \<Rightarrow> Some (Inr s)
      | Some (c, p) \<Rightarrow> (let (e, r) = new_end_device c p s in andThen r (connect_device parent port e)))"

subsection \<open>Port multipliers\<close>

text \<open>\<open>AHCI_Multiplier::__internal_attach_end_device\<close>.\<close>

definition multiplier_attach :: "nat \<Rightarrow> obj_class \<Rightarrow> string \<Rightarrow> nat \<Rightarrow> topo \<Rightarrow> attach_outcome" where
  "multiplier_attach m c path n s =
     (let (e, r) = new_end_device c path s in
      andThen r (\<lambda>s1.
        let (f, s2) = alloc Plain_phy path (Some m) n s1 in
        andThen (attachPhy m f s2) (\<lambda>s3.
          let (p, s4) = alloc Plain_port path None 0 s3 in
          andThen (attachPort m p s4) (\<lambda>s5.
            andThen (attachPhy p f (setParent p (Some m) s5)) (\<lambda>s6.
              case own_port (store s6 e) of None \<Rightarrow> None | Some q \<Rightarrow> attachPort p q s6)))))"

text \<open>The inner and the outer loop; \<open>n\<close> is the number of the last phy.\<close>

fun multiplier_target :: "sys_tree \<Rightarrow> nat \<Rightarrow> string list \<Rightarrow> nat \<Rightarrow> topo \<Rightarrow> nat \<times> attach_outcome" where
  "multiplier_target fs m [] n s = (n, Some (Inr s))"
| "multiplier_target fs m (p # ps) n s =
     (case driver_class fs p of
        Some c \<Rightarrow> (Suc n, multiplier_attach m c p (Suc n) s)
      | None \<Rightarrow> multiplier_target fs m ps (Suc n) s)"

fun multiplier_targets :: "sys_tree \<Rightarrow> nat \<Rightarrow> string list \<Rightarrow> nat \<Rightarrow> topo \<Rightarrow> attach_outcome" where
  "multiplier_targets fs m [] n s = Some (Inr s)"
| "multiplier_targets fs m (t # ts) n s =
     (let (n', r) = multiplier_target fs m (dirs fs t []) n s in andThen r (multiplier_targets fs m ts n'))"

definition multiplier_discover :: "sys_tree \<Rightarrow> string list \<Rightarrow> nat \<Rightarrow> topo \<Rightarrow> attach_outcome" where
  "multiplier_discover fs targets m s =
     (let path = obj_path (store s m);
          (f, s1) = alloc AHCI_Phy path (Some m) 0 s;
          (r, s2) = alloc RemotePort path None 0 (upd m (own_phy_update (\<lambda>_. Some f)) s1) in
      andThen (attachPhy r f (setParent r (Some m) (upd m (own_port_update (\<lambda>_. Some r)) s2)))
        (multiplier_targets fs m targets 0))"

subsection \<open>Controllers\<close>

text \<open>
  \<open>AHCI_Phy::discover\<close>.  With one entry that is no directory the code reads the first element of an empty
  list.
\<close>

definition ahci_phy_discover :: "sys_tree \<Rightarrow> nat \<Rightarrow> topo \<Rightarrow> attach_outcome" where
  "ahci_phy_discover fs f s =
     (let path = obj_path (store s f); parent = obj_parent (store s f) in
      if count fs path ''target'' = 0 then Some (Inr s)
      else
        let (p, s1) = alloc AHCI_Port path None 0 s;
            s2 = setParent p parent (upd f (port_of_phy_update (\<lambda>_. Some p)) s1) in
        andThen (attachPhy p f s2) (\<lambda>s3.
          andThen
            (if count fs path ''target'' = 1
             then (case dirs fs path ''target'' of
                     [] \<Rightarrow> None
                   | t # _ \<Rightarrow> attach_found parent p (first_device fs (dirs fs t [])) s3)
             else let (m, s4) = alloc AHCI_Multiplier path None 0 s3 in
                  andThen (multiplier_discover fs (dirs fs path ''target'') m s4) (\<lambda>s5.
                    case own_port (store s5 m) of
                      None \<Rightarrow> None
                    | Some r \<Rightarrow> attachPort p r (setParent m parent s5)))
            (\<lambda>s6. case parent of None \<Rightarrow> Some (Inr s6) | Some y \<Rightarrow> attachPort y p s6)))"

fun ahci_hosts_discover :: "sys_tree \<Rightarrow> nat \<Rightarrow> string list \<Rightarrow> nat \<Rightarrow> topo \<Rightarrow> attach_outcome" where
  "ahci_hosts_discover fs c [] n s = Some (Inr s)"
| "ahci_hosts_discover fs c (h # hs) n s =
     (if canonical fs (join h ''scsi_host'') = [] then ahci_hosts_discover fs c hs n s
      else let (f, s1) = alloc AHCI_Phy (canonical fs h) (Some c) n s in
           andThen (attachPhy c f s1) (\<lambda>s2.
             andThen (ahci_phy_discover fs f s2) (ahci_hosts_discover fs c hs (Suc n))))"

text \<open>The host directories, directly or below those of the ports; None: a port without a host.\<close>

fun hosts_of_ports :: "sys_tree \<Rightarrow> string list \<Rightarrow> string list option" where
  "hosts_of_ports fs [] = Some []"
| "hosts_of_ports fs (p # ps) =
     (case dirs fs p ''host'' of [] \<Rightarrow> None | h # _ \<Rightarrow> map_option ((#) h) (hosts_of_ports fs ps))"

definition ahci_hosts :: "sys_tree \<Rightarrow> string \<Rightarrow> string list option" where
  "ahci_hosts fs path =
     (if count fs path ''host'' > 0 then Some (dirs fs path ''host'')
      else hosts_of_ports fs (dirs fs path ''ata''))"

definition ahci_discover :: "sys_tree \<Rightarrow> nat \<Rightarrow> topo \<Rightarrow> attach_outcome" where
  "ahci_discover fs c s =
     (case ahci_hosts fs (obj_path (store s c)) of
        None \<Rightarrow> None
      | Some hs \<Rightarrow> ahci_hosts_discover fs c hs 0 s)"

text \<open>
  \<open>NVME_Phy::discover\<close>.  \<open>identified\<close> tells whether the disk at a path answers the identification;
  otherwise its discovery throws and the object is dropped.
\<close>

definition nvme_phy_discover :: "(string \<Rightarrow> bool) \<Rightarrow> nat \<Rightarrow> topo \<Rightarrow> attach_outcome" where
  "nvme_phy_discover identified f s =
     (let path = obj_path (store s f); parent = obj_parent (store s f);
          (p, s1) = alloc NVME_Port path None 0 s;
          s2 = setParent p parent (upd f (port_of_phy_update (\<lambda>_. Some p)) s1) in
      andThen (attachPhy p f s2) (\<lambda>s3.
        andThen (attach_found parent p (if identified path then Some (NVME_Disk, path) else None) s3)
          (\<lambda>s4. case parent of None \<Rightarrow> Some (Inr s4) | Some y \<Rightarrow> attachPort y p s4)))"

text \<open>
  \<open>VMD::discover\<close> for one VMD domain; \<open>n\<close> is \<open>m_EndDevicesCount\<close>, which is returned.  The test whether
  the disk lies below the domain compares the result of \<open>compare\<close>, as an unsigned number, with the difference
  of the lengths.
\<close>

definition below_vmd :: "string \<Rightarrow> string \<Rightarrow> bool" where
  "below_vmd nvmePath vmdPath \<longleftrightarrow>
     (word_of_int (compare nvmePath vmdPath) :: u32) = of_nat (length nvmePath) - of_nat (length vmdPath)"

fun vmd_paths_discover ::
  "sys_tree \<Rightarrow> (string \<Rightarrow> bool) \<Rightarrow> nat \<Rightarrow> string \<Rightarrow> string list \<Rightarrow> nat \<Rightarrow> topo \<Rightarrow> nat \<times> attach_outcome" where
  "vmd_paths_discover fs identified c vmdPath [] n s = (n, Some (Inr s))"
| "vmd_paths_discover fs identified c vmdPath (i # is) n s =
     (if canonical fs (join i ''driver'') = ''/sys/bus/pci/drivers/nvme'' \<and> below_vmd (canonical fs i) vmdPath
      then let (f, s1) = alloc NVME_Phy (canonical fs i) (Some c) n s;
               r = andThen (attachPhy c f s1) (nvme_phy_discover identified f) in
           (case r of
              Some (Inr s2) \<Rightarrow> vmd_paths_discover fs identified c vmdPath is (Suc n) s2
            | _ \<Rightarrow> (Suc n, r))
      else vmd_paths_discover fs identified c vmdPath is n s)"

definition vmd_discover :: "sys_tree \<Rightarrow> (string \<Rightarrow> bool) \<Rightarrow> nat \<Rightarrow> string \<Rightarrow> nat \<Rightarrow> topo \<Rightarrow> nat \<times> attach_outcome" where
  "vmd_discover fs identified c path n s =
     vmd_paths_discover fs identified c (canonical fs path) (dirs fs ''/sys/bus/pci/drivers/nvme'' []) n s"

subsection \<open>Adding to a session\<close>

text \<open>
  \<open>addToSession\<close> as a list of things to do: an object to visit, or one to register.  No array is
  attached yet when the controllers are added.  The recursion ends when the devices form a tree.
\<close>

datatype task = Visit nat | Register kind nat

definition register_own :: "kind \<Rightarrow> nat option \<Rightarrow> task list option" where
  "register_own k x = map_option (\<lambda>x. [Register k x]) x"

definition addToSession_tasks :: "nat \<Rightarrow> topo \<Rightarrow> task list option" where
  "addToSession_tasks x s =
     (let ob = store s x; c = obj_class ob;
          below = map Visit (direct_devices ob) in
      if is_controller c
      then Some (Register Controller x # below @ map Visit (direct_routers ob) @ map Visit (ports ob)
             @ map Visit (phys ob))
      else if is_routing_device c
      then do { f \<leftarrow> register_own Phy (own_phy ob); p \<leftarrow> register_own Port (own_port ob);
                Some (f @ Register RoutingDevice x # below @ map Visit (phys ob) @ map Visit (ports ob)
                  @ map Visit (direct_routers ob) @ p) }
      else if is_end_device c
      then do { f \<leftarrow> register_own Phy (own_phy ob); p \<leftarrow> register_own Port (own_port ob);
                Some (Register EndDevice x # f @ p) }
      else if is_phy c then Some [Register Phy x]
      else Some [Register Port x])"

partial_function (option) addToSession :: "topo \<Rightarrow> task list \<Rightarrow> (kind \<times> nat) list option" where
  "addToSession s ts =
     (case ts of
        [] \<Rightarrow> Some []
      | Register k x # ts \<Rightarrow> do { rest \<leftarrow> addToSession s ts; Some ((k, x) # rest) }
      | Visit x # ts \<Rightarrow> do { below \<leftarrow> addToSession_tasks x s; addToSession s (below @ ts) })"

declare addToSession.simps [code]

subsection \<open>The controllers of the machine\<close>

text \<open>
  \<open>Session::initialize\<close>: every controller is discovered and then added to the session, the VMD domains together
  as one controller.  \<open>attribute\<close> is what can be read from a file.  The result has the objects that
  have been registered.
\<close>

type_synonym scan_outcome = "(kind \<times> nat) list \<times> attach_outcome"

definition add_controller :: "nat \<Rightarrow> attach_outcome \<Rightarrow> (topo \<Rightarrow> scan_outcome) \<Rightarrow> scan_outcome" where
  "add_controller c r rest =
     (case r of
        Some (Inr s) \<Rightarrow>
          (case addToSession s [Visit c] of
             None \<Rightarrow> ([], None)
           | Some xs \<Rightarrow> (let (ys, r) = rest s in (xs @ ys, r)))
      | _ \<Rightarrow> ([], r))"

fun ahci_scan :: "sys_tree \<Rightarrow> (string \<Rightarrow> string option) \<Rightarrow> string list \<Rightarrow> topo \<Rightarrow> scan_outcome" where
  "ahci_scan fs attribute [] s = ([], Some (Inr s))"
| "ahci_scan fs attribute (p # ps) s =
     (if canonical fs (join p ''driver'') = ''/sys/bus/pci/drivers/ahci''
         \<and> attribute (join p ''vendor'') = Some ''0x8086''
      then let (c, s1) = alloc AHCI (canonical fs p) None 0 s in
           add_controller c (ahci_discover fs c s1) (ahci_scan fs attribute ps)
      else ahci_scan fs attribute ps s)"

fun vmd_domains ::
  "sys_tree \<Rightarrow> (string \<Rightarrow> bool) \<Rightarrow> string list \<Rightarrow> nat option \<Rightarrow> nat \<Rightarrow> topo \<Rightarrow> nat option \<times> attach_outcome" where
  "vmd_domains fs identified [] ctrl n s = (ctrl, Some (Inr s))"
| "vmd_domains fs identified (p # ps) ctrl n s =
     (if canonical fs (join p ''driver'') = ''/sys/bus/pci/drivers/vmd''
      then let (c, s1) = (case ctrl of None \<Rightarrow> alloc VMD (canonical fs p) None 0 s | Some c \<Rightarrow> (c, s));
               (n', r) = vmd_discover fs identified c p n s1 in
           (case r of
              Some (Inr s2) \<Rightarrow> vmd_domains fs identified ps (Some c) n' s2
            | _ \<Rightarrow> (Some c, r))
      else vmd_domains fs identified ps ctrl n s)"

definition vmd_scan :: "sys_tree \<Rightarrow> (string \<Rightarrow> bool) \<Rightarrow> string list \<Rightarrow> topo \<Rightarrow> scan_outcome" where
  "vmd_scan fs identified ps s =
     (case vmd_domains fs identified ps None 0 s of
        (Some c, r) \<Rightarrow> add_controller c r (\<lambda>s. ([], Some (Inr s)))
      | (None, r) \<Rightarrow> ([], r))"

definition controllers_scan ::
  "sys_tree \<Rightarrow> (string \<Rightarrow> string option) \<Rightarrow> (string \<Rightarrow> bool) \<Rightarrow> topo \<Rightarrow> scan_outcome" where
  "controllers_scan fs attribute identified s =
     (case ahci_scan fs attribute (dirs fs ''/sys/bus/pci/drivers/ahci'' []) s of
        (xs, Some (Inr s1)) \<Rightarrow>
          (let (ys, r) = vmd_scan fs identified (dirs fs ''/sys/bus/pci/drivers/vmd'' []) s1 in (xs @ ys, r))
      | (xs, r) \<Rightarrow> (xs, r))"

end
