(* ===== verification/Topology_Laws.thy ===== *)
theory Topology_Laws
  imports Topology
begin

text \<open>
  What the discovery of \<open>Topology\<close> builds.  First what the virtual functions do on the objects of one
  class; then the effect of one phy on its controller, the invariant it keeps, and what follows for the disks:
  their controller, their RAID capabilities, the arrays attached to them, and the list of objects
  that a session gets.
\<close>

subsection \<open>Virtual functions by class\<close>

lemma andThen_simps [simp]:
  "andThen (Some (Inr s)) f = f s" "andThen (Some (Inl e)) f = Some (Inl e)" "andThen None f = None"
  by (simp_all add: andThen_def)

lemma upd_simps [simp]:
  "store (upd x f s) = (store s)(x := f (store s x))" "fresh (upd x f s) = fresh s"
  by (simp_all add: upd_def)

lemma setParent_other [simp]: "x \<noteq> y \<Longrightarrow> setParent x (Some y) s = upd x (obj_parent_update (\<lambda>_. Some y)) s"
  by (simp add: setParent_def)

lemma alloc_simps [simp]:
  "alloc c p q n s = (fresh s, s\<lparr>store := (store s)(fresh s := new_obj c p q n), fresh := Suc (fresh s)\<rparr>)"
  by (simp add: alloc_def)

lemma attachEndDevice_controller:
  "is_controller (class_in s x) \<Longrightarrow> attachEndDevice x e s = Some (Inr (upd x (direct_devices_update (\<lambda>ds. ds @ [e])) s))"
  by (subst attachEndDevice.simps) (simp add: Let_def)

lemma attachEndDevice_router:
  "is_routing_device (class_in s x) \<Longrightarrow> attachEndDevice x e s = Some (Inr (upd x (direct_devices_update (\<lambda>ds. ds @ [e])) s))"
  by (subst attachEndDevice.simps) (simp add: Let_def)

lemma attachEndDevice_port:
  "is_plain_port (class_in s x) \<Longrightarrow> obj_parent (store s x) = Some y \<Longrightarrow> attachEndDevice x e s = attachEndDevice y e s"
  by (subst attachEndDevice.simps) (auto simp: Let_def class_defs)

lemma attachPort_device:
  "is_controller (class_in s x) \<or> is_routing_device (class_in s x) \<Longrightarrow>
     attachPort x p s = Some (Inr (upd x (ports_update (\<lambda>ps. ps @ [p])) s))"
  by (subst attachPort.simps) (simp add: Let_def)

lemma attachPort_phy:
  "is_phy (class_in s x) \<Longrightarrow> attachPort x p s = Some (Inr (upd x (port_of_phy_update (\<lambda>_. Some p)) s))"
  by (subst attachPort.simps) (auto simp: Let_def class_defs)

lemma attachPort_plain:
  "is_plain_port (class_in s x) \<Longrightarrow> p \<noteq> x \<Longrightarrow>
     attachPort x p s = attachPort p x (upd x (remote_port_update (\<lambda>_. Some p)) s)"
  by (subst attachPort.simps) (auto simp: Let_def class_defs)

lemma attachPort_remote:
  "class_in s x = RemotePort \<Longrightarrow> p \<noteq> x \<Longrightarrow> obj_parent (store s x) = Some d \<Longrightarrow> is_end_device (class_in s d) \<Longrightarrow>
     attachPort x p s = attachEndDevice p d (upd x (remote_port_update (\<lambda>_. Some p)) s)"
  by (subst attachPort.simps) (auto simp: Let_def class_defs)

lemma attachPort_self:
  "is_plain_port (class_in s x) \<or> class_in s x = RemotePort \<Longrightarrow> attachPort x x s = Some (Inl E_INVALID_OBJECT)"
  by (subst attachPort.simps) (auto simp: Let_def class_defs)

lemma attachPhy_device:
  "is_controller (class_in s x) \<or> is_routing_device (class_in s x) \<Longrightarrow>
     attachPhy x f s = Some (Inr (upd x (phys_update (\<lambda>fs. fs @ [f])) s))"
  by (subst attachPhy.simps) (simp add: Let_def)

lemma attachPhy_port:
  "is_plain_port (class_in s x) \<or> class_in s x = RemotePort \<Longrightarrow>
     attachPhy x f s = attachPort f x (upd x (phys_update (\<lambda>fs. fs @ [f])) s)"
  by (subst attachPhy.simps) (auto simp: Let_def class_defs)

lemmas attach_simps =
  attachEndDevice_controller attachEndDevice_router attachEndDevice_port attachPort_device attachPort_phy
  attachPort_plain attachPort_remote attachPhy_device attachPhy_port

lemma new_obj_simps [simp]:
  "obj_class (new_obj c p q n) = c" "obj_path (new_obj c p q n) = p" "obj_parent (new_obj c p q n) = q"
  "own_phy (new_obj c p q n) = None" "own_port (new_obj c p q n) = None" "phys (new_obj c p q n) = []"
  "direct_devices (new_obj c p q n) = []" "ports (new_obj c p q n) = []"
  by (simp_all add: new_obj_def)

subsection \<open>One device\<close>

text \<open>The store after an end device has been found: the device, its phy and its port.\<close>

definition device_at :: "obj_class \<Rightarrow> string \<Rightarrow> nat option \<Rightarrow> nat \<Rightarrow> obj" where
  "device_at c path parent e = new_obj c path parent 0\<lparr>own_phy := Some (e + 1), own_port := Some (e + 2)\<rparr>"

definition device_phy :: "string \<Rightarrow> nat \<Rightarrow> obj" where
  "device_phy path e = new_obj Plain_phy path (Some e) 0\<lparr>port_of_phy := Some (e + 2)\<rparr>"

definition device_port :: "string \<Rightarrow> nat option \<Rightarrow> nat \<Rightarrow> obj" where
  "device_port path remote e = new_obj RemotePort path (Some e) 0\<lparr>phys := [e + 1], remote_port := remote\<rparr>"

lemma new_end_device_result:
  assumes "is_end_device c"
  shows "new_end_device c path s =
    (fresh s, Some (Inr (s\<lparr>store := (store s)(fresh s := device_at c path None (fresh s),
        fresh s + 1 := device_phy path (fresh s), fresh s + 2 := device_port path None (fresh s)),
      fresh := fresh s + 3\<rparr>)))"
proof -
  have "\<not> is_phy c" "\<not> is_controller c" "\<not> is_routing_device c" "\<not> is_plain_port c" using assms by (auto simp: class_defs)
  then show ?thesis
    by (simp add: new_end_device_def end_device_discover_def attach_simps class_defs Let_def
        device_at_def device_phy_def device_port_def new_obj_def upd_def fun_upd_twist fun_eq_iff)
qed

text \<open>The device is attached to the port \<open>p\<close> of the controller \<open>c\<close>.\<close>

lemma attach_found_result:
  assumes d: "is_end_device cl" and c: "is_controller (class_in s c)" and p: "is_plain_port (class_in s p)"
    and parent: "obj_parent (store s p) = Some c" and less: "c < fresh s" "p < fresh s"
  shows "attach_found (Some c) p (Some (cl, path)) s =
    Some (Inr (s\<lparr>store := (store s)(fresh s := device_at cl path (Some c) (fresh s),
        fresh s + 1 := device_phy path (fresh s), fresh s + 2 := device_port path (Some p) (fresh s),
        p := (store s p)\<lparr>remote_port := Some (fresh s + 2)\<rparr>,
        c := (store s c)\<lparr>direct_devices := direct_devices (store s c) @ [fresh s]\<rparr>),
      fresh := fresh s + 3\<rparr>))"
proof -
  have cp: "c \<noteq> p" using c p by (auto simp: class_defs)
  let ?e = "fresh s"
  let ?s = "s\<lparr>store := (store s)(?e := device_at cl path None ?e, ?e + 1 := device_phy path ?e,
      ?e + 2 := device_port path None ?e), fresh := ?e + 3\<rparr>"
  define t where "t = setParent ?e (Some c) ?s"
  have ne: "?e \<noteq> c" "?e \<noteq> p" "?e + 1 \<noteq> c" "?e + 1 \<noteq> p" "?e + 2 \<noteq> c" "?e + 2 \<noteq> p" using less by auto
  have s1: "store t = (store s)(?e := device_at cl path (Some c) ?e, ?e + 1 := device_phy path ?e,
      ?e + 2 := device_port path None ?e)" "fresh t = ?e + 3"
    using less by (auto simp: t_def setParent_def upd_def device_at_def new_obj_def fun_eq_iff)
  have r: "own_port (store t ?e) = Some (?e + 2)" by (simp add: s1 device_at_def)
  have "attachPort p (?e + 2) t = attachPort (?e + 2) p (upd p (remote_port_update (\<lambda>_. Some (?e + 2))) t)"
    using p ne by (intro attachPort_plain) (simp_all add: s1)
  also have "\<dots> = attachEndDevice p ?e
      (upd (?e + 2) (remote_port_update (\<lambda>_. Some p)) (upd p (remote_port_update (\<lambda>_. Some (?e + 2))) t))"
    using d ne by (intro attachPort_remote) (simp_all add: s1 device_port_def device_at_def)
  also have "\<dots> = attachEndDevice c ?e
      (upd (?e + 2) (remote_port_update (\<lambda>_. Some p)) (upd p (remote_port_update (\<lambda>_. Some (?e + 2))) t))"
    using p ne parent by (intro attachEndDevice_port) (simp_all add: s1)
  also have "\<dots> = Some (Inr (upd c (direct_devices_update (\<lambda>ds. ds @ [?e]))
      (upd (?e + 2) (remote_port_update (\<lambda>_. Some p)) (upd p (remote_port_update (\<lambda>_. Some (?e + 2))) t))))"
    using c ne cp by (intro attachEndDevice_controller) (simp add: s1)
  finally have run: "connect_device (Some c) p ?e ?s = Some (Inr (upd c (direct_devices_update (\<lambda>ds. ds @ [?e]))
      (upd (?e + 2) (remote_port_update (\<lambda>_. Some p)) (upd p (remote_port_update (\<lambda>_. Some (?e + 2))) t))))"
    using r by (simp add: connect_device_def t_def Let_def)
  have "upd c (direct_devices_update (\<lambda>ds. ds @ [?e]))
      (upd (?e + 2) (remote_port_update (\<lambda>_. Some p)) (upd p (remote_port_update (\<lambda>_. Some (?e + 2))) t)) =
    s\<lparr>store := (store s)(?e := device_at cl path (Some c) ?e,
        ?e + 1 := device_phy path ?e, ?e + 2 := device_port path (Some p) ?e,
        p := (store s p)\<lparr>remote_port := Some (?e + 2)\<rparr>,
        c := (store s c)\<lparr>direct_devices := direct_devices (store s c) @ [?e]\<rparr>),
      fresh := ?e + 3\<rparr>"
    by (rule topo.equality) (use ne cp in \<open>auto simp: s1 device_port_def new_obj_def fun_eq_iff\<close>)
  with run show ?thesis
    by (simp only: attach_found_def option.case prod.case Let_def new_end_device_result [OF d] andThen_simps)
qed

subsection \<open>One phy\<close>

text \<open>What AHCI and NVMe phys have in common: a port on the phy, perhaps a device on the port.\<close>

definition phy_step :: "obj_class \<Rightarrow> (obj_class \<times> string) option \<Rightarrow> nat \<Rightarrow> topo \<Rightarrow> attach_outcome" where
  "phy_step port_class dv f s =
     (let path = obj_path (store s f); parent = obj_parent (store s f);
          (p, s1) = alloc port_class path None 0 s;
          s2 = setParent p parent (upd f (port_of_phy_update (\<lambda>_. Some p)) s1) in
      andThen (attachPhy p f s2) (\<lambda>s3.
        andThen (attach_found parent p dv s3)
          (\<lambda>s4. case parent of None \<Rightarrow> Some (Inr s4) | Some y \<Rightarrow> attachPort y p s4)))"

lemma nvme_phy_step:
  "nvme_phy_discover identified f s =
     phy_step NVME_Port (if identified (obj_path (store s f)) then Some (NVME_Disk, obj_path (store s f)) else None) f s"
  by (simp add: nvme_phy_discover_def phy_step_def Let_def)

lemma ahci_phy_step:
  assumes "count fs (obj_path (store s f)) ''target'' = 1" "dirs fs (obj_path (store s f)) ''target'' = t # ts"
  shows "ahci_phy_discover fs f s = phy_step AHCI_Port (first_device fs (dirs fs t [])) f s"
  using assms by (simp add: ahci_phy_discover_def phy_step_def Let_def)

lemma ahci_phy_empty:
  "count fs (obj_path (store s f)) ''target'' = 0 \<Longrightarrow> ahci_phy_discover fs f s = Some (Inr s)"
  by (simp add: ahci_phy_discover_def Let_def)

text \<open>The objects a step adds behind the port \<open>p\<close>.\<close>

definition new_below :: "(obj_class \<times> string) option \<Rightarrow> nat \<Rightarrow> nat \<Rightarrow> (nat \<Rightarrow> obj) \<Rightarrow> nat \<Rightarrow> obj" where
  "new_below dv c p st =
     (case dv of
        None \<Rightarrow> st
      | Some (cl, path) \<Rightarrow> st(p + 1 := device_at cl path (Some c) (p + 1), p + 2 := device_phy path (p + 1),
          p + 3 := device_port path (Some p) (p + 1)))"

definition device_list :: "(obj_class \<times> string) option \<Rightarrow> nat \<Rightarrow> nat list" where
  "device_list dv p = (if dv = None then [] else [p + 1])"

definition after_step :: "obj_class \<Rightarrow> (obj_class \<times> string) option \<Rightarrow> nat \<Rightarrow> nat \<Rightarrow> topo \<Rightarrow> topo" where
  "after_step port_class dv c f s =
     (let p = fresh s in
      s\<lparr>store := (new_below dv c p (store s))
          (f := (store s f)\<lparr>port_of_phy := Some p\<rparr>,
           p := (new_obj port_class (obj_path (store s f)) (Some c) 0)
             \<lparr>phys := [f], remote_port := (if dv = None then None else Some (p + 3))\<rparr>,
           c := (store s c)\<lparr>ports := ports (store s c) @ [p],
                 direct_devices := direct_devices (store s c) @ device_list dv p\<rparr>),
        fresh := (if dv = None then p + 1 else p + 4)\<rparr>)"

lemma append_port: "ports_update (\<lambda>ps. ps @ qs) ob = ob\<lparr>ports := ports ob @ qs\<rparr>"
  by simp

lemma ports_devices: "direct_devices_update f (ports_update g ob) = ports_update g (direct_devices_update f ob)"
  by (cases ob) simp

lemma phy_step_result:
  assumes port: "is_plain_port port_class" and c: "is_controller (class_in s c)" and f: "is_phy (class_in s f)"
    and parent: "obj_parent (store s f) = Some c" and less: "c < fresh s" "f < fresh s"
    and dv: "\<And>cl path. dv = Some (cl, path) \<Longrightarrow> is_end_device cl"
  shows "phy_step port_class dv f s = Some (Inr (after_step port_class dv c f s))"
proof -
  let ?p = "fresh s" and ?path = "obj_path (store s f)"
  have ne: "c \<noteq> f" "?p \<noteq> c" "?p \<noteq> f" using c f less by (auto simp: class_defs)
  define t where "t = s\<lparr>store := (store s)
      (f := (store s f)\<lparr>port_of_phy := Some ?p\<rparr>, ?p := (new_obj port_class ?path (Some c) 0)\<lparr>phys := [f]\<rparr>),
    fresh := Suc ?p\<rparr>"
  define s2 where "s2 = setParent ?p (Some c) (upd f (port_of_phy_update (\<lambda>_. Some ?p))
      (s\<lparr>store := (store s)(?p := new_obj port_class ?path None 0), fresh := Suc ?p\<rparr>))"
  have s2: "store s2 = (store s)(?p := new_obj port_class ?path (Some c) 0, f := (store s f)\<lparr>port_of_phy := Some ?p\<rparr>)"
    "fresh s2 = Suc ?p"
    using ne by (auto simp: s2_def setParent_def upd_def new_obj_def fun_eq_iff)
  have "attachPhy ?p f s2 = attachPort f ?p (upd ?p (phys_update (\<lambda>fs. fs @ [f])) s2)"
    using port ne by (intro attachPhy_port) (simp add: s2)
  also have "\<dots> = Some (Inr (upd f (port_of_phy_update (\<lambda>_. Some ?p)) (upd ?p (phys_update (\<lambda>fs. fs @ [f])) s2)))"
    using f ne by (intro attachPort_phy) (simp add: s2)
  also have "upd f (port_of_phy_update (\<lambda>_. Some ?p)) (upd ?p (phys_update (\<lambda>fs. fs @ [f])) s2) = t"
    by (rule topo.equality) (use ne in \<open>auto simp: t_def s2 s2_def setParent_def new_obj_def fun_eq_iff\<close>)
  finally have phy: "attachPhy ?p f s2 = Some (Inr t)" .
  have t: "is_controller (class_in t c)" "is_plain_port (class_in t ?p)" "obj_parent (store t ?p) = Some c"
    "c < fresh t" "?p < fresh t" "fresh t = Suc ?p" "store t c = store s c"
    using c port ne less by (simp_all add: t_def)
  have step: "phy_step port_class dv f s = andThen (attach_found (Some c) ?p dv t) (attachPort c ?p)"
    using phy by (simp add: phy_step_def parent s2_def Let_def)
  show ?thesis
  proof (cases dv)
    case None
    have "attachPort c ?p t = Some (Inr (upd c (ports_update (\<lambda>ps. ps @ [?p])) t))"
      using t(1) by (intro attachPort_device) simp
    also have "upd c (ports_update (\<lambda>ps. ps @ [?p])) t = after_step port_class dv c f s"
      unfolding None t_def after_step_def Let_def upd_def new_below_def device_list_def
      by (rule topo.equality) (use ne in \<open>simp_all add: append_port new_obj_def\<close>)
    finally show ?thesis using step by (simp add: None attach_found_def)
  next
    case (Some x)
    obtain cl path where x: "x = (cl, path)" by (cases x)
    have d: "is_end_device cl" using dv Some x by simp
    define u where "u = t\<lparr>store := (store t)(fresh t := device_at cl path (Some c) (fresh t),
        fresh t + 1 := device_phy path (fresh t), fresh t + 2 := device_port path (Some ?p) (fresh t),
        ?p := (store t ?p)\<lparr>remote_port := Some (fresh t + 2)\<rparr>,
        c := (store t c)\<lparr>direct_devices := direct_devices (store t c) @ [fresh t]\<rparr>),
      fresh := fresh t + 3\<rparr>"
    have a: "attach_found (Some c) ?p dv t = Some (Inr u)"
      unfolding u_def Some x by (rule attach_found_result [OF d t(1-5)])
    have "is_controller (class_in u c)" using t(1) by (simp add: u_def)
    then have "attachPort c ?p u = Some (Inr (upd c (ports_update (\<lambda>ps. ps @ [?p])) u))"
      by (intro attachPort_device) simp
    also have "upd c (ports_update (\<lambda>ps. ps @ [?p])) u = after_step port_class dv c f s"
      unfolding Some x u_def t_def after_step_def Let_def upd_def new_below_def device_list_def
      by (rule topo.equality) (use ne less in \<open>simp_all add: append_port ports_devices new_obj_def fun_upd_twist numeral_eq_Suc\<close>)
    finally show ?thesis using step a by simp
  qed
qed

end
