(* ===== verification/Topology_Scan.thy ===== *)
theory Topology_Scan
  imports Topology_Laws "HOL-Library.Multiset"
begin

text \<open>
  The invariant of a controller whose devices hang directly on its ports, which the discovery of AHCI and
  VMD controllers establishes, and what it means for the disks and for the session.
\<close>

subsection \<open>The invariant\<close>

definition device_ok :: "nat \<Rightarrow> topo \<Rightarrow> nat \<Rightarrow> bool" where
  "device_ok c s d \<longleftrightarrow>
     is_end_device (class_in s d) \<and> obj_parent (store s d) = Some c \<and> own_phy (store s d) = Some (d + 1)
     \<and> own_port (store s d) = Some (d + 2) \<and> class_in s (d + 2) = RemotePort
     \<and> (\<exists>q \<in> set (ports (store s c)). remote_port (store s (d + 2)) = Some q)"

definition below_device :: "nat \<Rightarrow> nat list" where
  "below_device d = [d, d + 1, d + 2]"

definition owned :: "nat \<Rightarrow> topo \<Rightarrow> nat list" where
  "owned c s = c # phys (store s c) @ ports (store s c) @ concat (map below_device (direct_devices (store s c)))"

definition direct_ok :: "nat \<Rightarrow> topo \<Rightarrow> bool" where
  "direct_ok c s \<longleftrightarrow>
     is_controller (class_in s c) \<and> direct_routers (store s c) = []
     \<and> (\<forall>f \<in> set (phys (store s c)). is_phy (class_in s f))
     \<and> (\<forall>p \<in> set (ports (store s c)). is_plain_port (class_in s p) \<and> obj_parent (store s p) = Some c)
     \<and> (\<forall>d \<in> set (direct_devices (store s c)). device_ok c s d)
     \<and> distinct (owned c s) \<and> (\<forall>x \<in> set (owned c s). x < fresh s)"

text \<open>The class and the path of the devices of a controller, in the order of their discovery.\<close>

definition devices_of :: "nat \<Rightarrow> topo \<Rightarrow> (obj_class \<times> string) list" where
  "devices_of c s = map (\<lambda>d. (class_in s d, obj_path (store s d))) (direct_devices (store s c))"

text \<open>What a step of the discovery of \<open>c\<close> that finds the devices \<open>ds\<close> does.\<close>

definition extends_by :: "nat \<Rightarrow> (obj_class \<times> string) list \<Rightarrow> topo \<Rightarrow> topo \<Rightarrow> bool" where
  "extends_by c ds s s' \<longleftrightarrow> fresh s \<le> fresh s' \<and> (\<forall>x < fresh s. x \<noteq> c \<longrightarrow> store s' x = store s x)
     \<and> obj_path (store s' c) = obj_path (store s c) \<and> raid_info_of (store s' c) = raid_info_of (store s c)
     \<and> direct_ok c s' \<and> devices_of c s' = devices_of c s @ ds
     \<and> (\<forall>x \<in> set (owned c s'). x \<in> set (owned c s) \<or> fresh s \<le> x)"

lemma extends_by_refl: "direct_ok c s \<Longrightarrow> extends_by c [] s s"
  by (simp add: extends_by_def)

lemma extends_by_trans: "extends_by c ds s s' \<Longrightarrow> extends_by c ds' s' s'' \<Longrightarrow> extends_by c (ds @ ds') s s''"
  by (fastforce simp: extends_by_def)

lemma extends_by_ok: "extends_by c ds s s' \<Longrightarrow> direct_ok c s'"
  by (simp add: extends_by_def)

text \<open>New phys, ports and devices of a controller keep the invariant when they are new objects.\<close>

lemma direct_ok_extend:
  assumes ok: "direct_ok c s" and le: "fresh s \<le> fresh s'"
    and same: "\<And>x. x < fresh s \<Longrightarrow> x \<noteq> c \<Longrightarrow> store s' x = store s x"
    and ctrl: "store s' c = (store s c)\<lparr>phys := phys (store s c) @ fs, ports := ports (store s c) @ ps,
      direct_devices := direct_devices (store s c) @ ds\<rparr>"
    and new: "\<forall>f \<in> set fs. is_phy (class_in s' f)"
      "\<forall>p \<in> set ps. is_plain_port (class_in s' p) \<and> obj_parent (store s' p) = Some c"
      "\<forall>d \<in> set ds. device_ok c s' d"
    and apart: "distinct (fs @ ps @ concat (map below_device ds))"
      "\<forall>x \<in> set (fs @ ps @ concat (map below_device ds)). fresh s \<le> x \<and> x < fresh s'"
  shows "extends_by c (map (\<lambda>d. (class_in s' d, obj_path (store s' d))) ds) s s'"
proof -
  have owned: "distinct (owned c s)" "\<And>x. x \<in> set (owned c s) \<Longrightarrow> x < fresh s"
    using ok by (auto simp: direct_ok_def)
  have old: "store s' x = store s x" if "x \<in> set (phys (store s c) @ ports (store s c))" for x
    using owned that by (intro same) (auto simp: owned_def)
  have dev: "store s' x = store s x" if "x \<in> set (below_device d)" "d \<in> set (direct_devices (store s c))" for x d
    using owned that by (intro same) (auto simp: owned_def)
  have device: "device_ok c s' d" if d: "d \<in> set (direct_devices (store s c))" for d
    using ok d dev [of d d] dev [of "d + 2" d] unfolding direct_ok_def device_ok_def
    by (auto simp: ctrl below_device_def)
  let ?old = "owned c s" and ?new = "fs @ ps @ concat (map below_device ds)"
  have perm: "mset (owned c s') = mset (?old @ ?new)" by (simp add: owned_def ctrl union_ac)
  have "set ?old \<inter> set ?new = {}" using owned(2) apart(2) by (meson disjoint_iff leD)
  then have "distinct (?old @ ?new)" using owned(1) apart(1) by (simp only: distinct_append)
  then have "distinct (owned c s')" using perm by (metis mset_eq_imp_distinct_iff)
  moreover have "\<forall>x \<in> set (owned c s'). x < fresh s'"
    using owned(2) apart(2) le mset_eq_setD [OF perm] by fastforce
  moreover have "\<forall>d \<in> set (direct_devices (store s' c)). device_ok c s' d"
    using device new(3) by (auto simp: ctrl)
  moreover have "\<forall>p \<in> set (ports (store s' c)). is_plain_port (class_in s' p) \<and> obj_parent (store s' p) = Some c"
    using ok new(2) old by (auto simp: ctrl direct_ok_def)
  moreover have "\<forall>f \<in> set (phys (store s' c)). is_phy (class_in s' f)"
    using ok new(1) old by (auto simp: ctrl direct_ok_def)
  moreover have "is_controller (class_in s' c)" "direct_routers (store s' c) = []"
    using ok by (auto simp: ctrl direct_ok_def)
  ultimately have "direct_ok c s'" by (simp add: direct_ok_def)
  moreover have "devices_of c s' = devices_of c s @ map (\<lambda>d. (class_in s' d, obj_path (store s' d))) ds"
    using dev [of d d for d] by (simp add: devices_of_def ctrl below_device_def)
  moreover have "\<forall>x \<in> set (owned c s'). x \<in> set (owned c s) \<or> fresh s \<le> x"
    using apart(2) mset_eq_setD [OF perm] by auto
  ultimately show ?thesis using le same by (simp add: extends_by_def ctrl)
qed

subsection \<open>Phys\<close>

text \<open>A phy without a port, and a phy with a port and perhaps a device.\<close>

definition with_phy :: "obj_class \<Rightarrow> string \<Rightarrow> nat \<Rightarrow> nat \<Rightarrow> topo \<Rightarrow> topo" where
  "with_phy cl path n c s = upd c (phys_update (\<lambda>fs. fs @ [fresh s]))
     (s\<lparr>store := (store s)(fresh s := new_obj cl path (Some c) n), fresh := Suc (fresh s)\<rparr>)"

lemma direct_ok_less: "direct_ok c s \<Longrightarrow> c < fresh s"
  by (simp add: direct_ok_def owned_def)

lemma with_phy_grows:
  assumes ok: "direct_ok c s" and phy: "is_phy cl"
  shows "extends_by c [] s (with_phy cl path n c s)"
    "attachPhy c (fresh s) (s\<lparr>store := (store s)(fresh s := new_obj cl path (Some c) n), fresh := Suc (fresh s)\<rparr>) =
       Some (Inr (with_phy cl path n c s))"
proof -
  have c: "c < fresh s" using ok by (rule direct_ok_less)
  have "extends_by c (map (\<lambda>d. (class_in (with_phy cl path n c s) d, obj_path (store (with_phy cl path n c s) d))) [])
      s (with_phy cl path n c s)"
    using c phy by (intro direct_ok_extend [OF ok, where fs = "[fresh s]" and ps = "[]"]) (simp_all add: with_phy_def)
  then show "extends_by c [] s (with_phy cl path n c s)" by simp
  have "is_controller (class_in s c)" using ok by (simp add: direct_ok_def)
  then show "attachPhy c (fresh s) (s\<lparr>store := (store s)(fresh s := new_obj cl path (Some c) n), fresh := Suc (fresh s)\<rparr>) =
       Some (Inr (with_phy cl path n c s))"
    using c by (subst attachPhy_device) (simp_all add: with_phy_def)
qed

definition found_list :: "'a option \<Rightarrow> 'a list" where
  "found_list dv = (case dv of None \<Rightarrow> [] | Some x \<Rightarrow> [x])"

lemma found_list_simps [simp]: "found_list None = []" "found_list (Some x) = [x]"
  by (simp_all add: found_list_def)

lemma phy_and_step:
  assumes ok: "direct_ok c s" and phy: "is_phy cl" and port: "is_plain_port port_class"
    and dv: "\<And>cl path. dv = Some (cl, path) \<Longrightarrow> is_end_device cl"
  shows "\<exists>s'. phy_step port_class dv (fresh s) (with_phy cl path n c s) = Some (Inr s')
    \<and> extends_by c (found_list dv) s s'"
proof -
  let ?s1 = "with_phy cl path n c s"
  let ?s' = "after_step port_class dv c (fresh s) ?s1"
  have c: "c < fresh s" "is_controller (class_in s c)" using ok direct_ok_less [OF ok] by (simp_all add: direct_ok_def)
  have "phy_step port_class dv (fresh s) ?s1 = Some (Inr ?s')"
    using c phy dv by (intro phy_step_result [OF port]) (simp_all add: with_phy_def)
  moreover have "extends_by c (map (\<lambda>d. (class_in ?s' d, obj_path (store ?s' d))) (device_list dv (Suc (fresh s)))) s ?s'"
  proof (rule direct_ok_extend [OF ok, where fs = "[fresh s]" and ps = "[Suc (fresh s)]"])
    show "store ?s' x = store s x" if "x < fresh s" "x \<noteq> c" for x
      using that c by (auto simp: after_step_def with_phy_def new_below_def Let_def split: option.split)
    show "\<forall>d \<in> set (device_list dv (Suc (fresh s))). device_ok c ?s' d"
      using c dv by (auto simp: after_step_def with_phy_def new_below_def Let_def device_list_def device_ok_def
          device_at_def device_port_def new_obj_def)
  qed (use c port phy in \<open>auto simp: after_step_def with_phy_def new_below_def Let_def device_list_def
      below_device_def split: option.split\<close>)
  moreover have "map (\<lambda>d. (class_in ?s' d, obj_path (store ?s' d))) (device_list dv (Suc (fresh s))) = found_list dv"
    using c by (cases dv) (auto simp: device_list_def after_step_def new_below_def Let_def device_at_def with_phy_def)
  ultimately show ?thesis by auto
qed

subsection \<open>AHCI controllers without a port multiplier\<close>

text \<open>The hosts that are scan_state, and the device behind each.\<close>

definition scsi_host :: "sys_tree \<Rightarrow> string \<Rightarrow> bool" where
  "scsi_host fs h \<longleftrightarrow> canonical fs (join h ''scsi_host'') \<noteq> []"

definition targets :: "sys_tree \<Rightarrow> string \<Rightarrow> string list" where
  "targets fs h = dirs fs (canonical fs h) ''target''"

definition single_target :: "sys_tree \<Rightarrow> string \<Rightarrow> bool" where
  "single_target fs h \<longleftrightarrow> Sysfs.count fs (canonical fs h) ''target'' = length (targets fs h) \<and> length (targets fs h) \<le> 1"

definition device_on :: "sys_tree \<Rightarrow> string \<Rightarrow> (obj_class \<times> string) option" where
  "device_on fs h = (case targets fs h of [] \<Rightarrow> None | t # _ \<Rightarrow> first_device fs (dirs fs t []))"

lemma first_device_class: "first_device fs ps = Some (cl, path) \<Longrightarrow> is_end_device cl"
  by (induction ps) (auto simp: driver_class_def ahci_drivers_def class_defs split: option.splits if_splits)

lemma device_on_class: "device_on fs h = Some (cl, path) \<Longrightarrow> is_end_device cl"
  by (auto simp: device_on_def first_device_class split: list.splits)

text \<open>One host.\<close>

lemma ahci_host:
  assumes ok: "direct_ok c s" and h: "single_target fs h"
  shows "\<exists>s'. ahci_phy_discover fs (fresh s) (with_phy AHCI_Phy (canonical fs h) n c s) = Some (Inr s')
    \<and> extends_by c (found_list (device_on fs h)) s s'"
proof -
  let ?s1 = "with_phy AHCI_Phy (canonical fs h) n c s"
  have c: "c < fresh s" using ok by (rule direct_ok_less)
  have path: "obj_path (store ?s1 (fresh s)) = canonical fs h" using c by (simp add: with_phy_def)
  show ?thesis
  proof (cases "targets fs h")
    case Nil
    then have "ahci_phy_discover fs (fresh s) ?s1 = Some (Inr ?s1)"
      using h path by (intro ahci_phy_empty) (simp add: single_target_def)
    then show ?thesis
      using with_phy_grows(1) [OF ok, of AHCI_Phy] Nil by (simp add: device_on_def class_defs)
  next
    case (Cons t ts)
    then have "ahci_phy_discover fs (fresh s) ?s1 = phy_step AHCI_Port (first_device fs (dirs fs t [])) (fresh s) ?s1"
      using h path by (intro ahci_phy_step [where ts = ts]) (simp_all add: single_target_def targets_def)
    moreover have "is_phy AHCI_Phy" "is_plain_port AHCI_Port" by (simp_all add: class_defs)
    ultimately show ?thesis
      using phy_and_step [OF ok, of AHCI_Phy AHCI_Port "first_device fs (dirs fs t [])" "canonical fs h" n]
      by (simp add: Cons device_on_def first_device_class)
  qed
qed

lemma ahci_hosts_grow:
  assumes "direct_ok c s" "\<forall>h \<in> set hs. scsi_host fs h \<longrightarrow> single_target fs h"
  shows "\<exists>s'. ahci_hosts_discover fs c hs n s = Some (Inr s')
    \<and> extends_by c (concat (map (\<lambda>h. found_list (device_on fs h)) (filter (scsi_host fs) hs))) s s'"
  using assms
proof (induction hs arbitrary: n s)
  case Nil
  then show ?case by (simp add: extends_by_refl)
next
  case (Cons h hs)
  show ?case
  proof (cases "scsi_host fs h")
    case False
    then show ?thesis using Cons.IH [OF Cons.prems(1)] Cons.prems(2) by (simp add: scsi_host_def)
  next
    case True
    obtain s1 where s1: "ahci_phy_discover fs (fresh s) (with_phy AHCI_Phy (canonical fs h) n c s) = Some (Inr s1)"
      "extends_by c (found_list (device_on fs h)) s s1"
      using ahci_host Cons.prems True by (metis list.set_intros(1))
    have attach: "attachPhy c (fresh s)
        (s\<lparr>store := (store s)(fresh s := new_obj AHCI_Phy (canonical fs h) (Some c) n), fresh := Suc (fresh s)\<rparr>) =
      Some (Inr (with_phy AHCI_Phy (canonical fs h) n c s))"
      by (rule with_phy_grows(2) [OF Cons.prems(1)]) (simp add: class_defs)
    obtain s2 where "ahci_hosts_discover fs c hs (Suc n) s1 = Some (Inr s2)"
      "extends_by c (concat (map (\<lambda>h. found_list (device_on fs h)) (filter (scsi_host fs) hs))) s1 s2"
      using Cons.IH [OF extends_by_ok [OF s1(2)]] Cons.prems(2) by fastforce
    then show ?thesis
      using True s1 attach extends_by_trans [OF s1(2)] unfolding scsi_host_def by (auto simp del: fun_upd_apply)
  qed
qed

lemma new_controller_ok: "is_controller cl \<Longrightarrow> direct_ok (fresh s) (snd (alloc cl path None 0 s))"
  by (simp add: direct_ok_def owned_def new_obj_def)

lemma ahci_discover_grows:
  assumes "direct_ok c s" "ahci_hosts fs (obj_path (store s c)) = Some hs"
    and "\<forall>h \<in> set hs. scsi_host fs h \<longrightarrow> single_target fs h"
  shows "\<exists>s'. ahci_discover fs c s = Some (Inr s')
    \<and> extends_by c (concat (map (\<lambda>h. found_list (device_on fs h)) (filter (scsi_host fs) hs))) s s'"
  using ahci_hosts_grow [OF assms(1,3)] assms(2) by (simp add: ahci_discover_def)

subsection \<open>VMD controllers\<close>

definition nvme_below :: "sys_tree \<Rightarrow> string \<Rightarrow> string \<Rightarrow> bool" where
  "nvme_below fs vmdPath i \<longleftrightarrow>
     canonical fs (join i ''driver'') = ''/sys/bus/pci/drivers/nvme'' \<and> below_vmd (canonical fs i) vmdPath"

definition nvme_on :: "(string \<Rightarrow> bool) \<Rightarrow> string \<Rightarrow> (obj_class \<times> string) option" where
  "nvme_on identified path = (if identified path then Some (NVME_Disk, path) else None)"

lemma nvme_on_class: "nvme_on identified path = Some (cl, p) \<Longrightarrow> is_end_device cl"
  by (auto simp: nvme_on_def class_defs split: if_splits)

lemma vmd_paths_grow:
  assumes "direct_ok c s"
  shows "\<exists>s'. vmd_paths_discover fs identified c vmdPath ps n s =
      (n + length (filter (nvme_below fs vmdPath) ps), Some (Inr s'))
    \<and> extends_by c (concat (map (\<lambda>i. found_list (nvme_on identified (canonical fs i)))
        (filter (nvme_below fs vmdPath) ps))) s s'"
  using assms
proof (induction ps arbitrary: n s)
  case Nil
  then show ?case by (simp add: extends_by_refl)
next
  case (Cons i ps)
  show ?case
  proof (cases "nvme_below fs vmdPath i")
    case False
    then show ?thesis using Cons.IH [OF Cons.prems] by (auto simp: nvme_below_def)
  next
    case True
    let ?s1 = "with_phy NVME_Phy (canonical fs i) n c s"
    have path: "obj_path (store ?s1 (fresh s)) = canonical fs i"
      using direct_ok_less [OF Cons.prems] by (simp add: with_phy_def)
    have nvme: "nvme_phy_discover identified (fresh s) ?s1 =
        phy_step NVME_Port (nvme_on identified (canonical fs i)) (fresh s) ?s1"
      by (simp only: nvme_phy_step path nvme_on_def)
    have "is_phy NVME_Phy" "is_plain_port NVME_Port" by (simp_all add: class_defs)
    then obtain s2 where s2: "nvme_phy_discover identified (fresh s) ?s1 = Some (Inr s2)"
      "extends_by c (found_list (nvme_on identified (canonical fs i))) s s2"
      using phy_and_step [OF Cons.prems, of NVME_Phy NVME_Port "nvme_on identified (canonical fs i)" "canonical fs i" n]
        nvme_on_class unfolding nvme by blast
    have attach: "attachPhy c (fresh s)
        (s\<lparr>store := (store s)(fresh s := new_obj NVME_Phy (canonical fs i) (Some c) n), fresh := Suc (fresh s)\<rparr>) =
      Some (Inr ?s1)"
      by (rule with_phy_grows(2) [OF Cons.prems]) (simp add: class_defs)
    obtain s3 where "vmd_paths_discover fs identified c vmdPath ps (Suc n) s2 =
        (Suc n + length (filter (nvme_below fs vmdPath) ps), Some (Inr s3))"
      "extends_by c (concat (map (\<lambda>i. found_list (nvme_on identified (canonical fs i)))
        (filter (nvme_below fs vmdPath) ps))) s2 s3"
      using Cons.IH [OF extends_by_ok [OF s2(2)]] by blast
    moreover have "vmd_paths_discover fs identified c vmdPath (i # ps) n s =
        vmd_paths_discover fs identified c vmdPath ps (Suc n) s2"
      using True [unfolded nvme_below_def] s2(1) attach by simp
    ultimately show ?thesis using True extends_by_trans [OF s2(2)] by auto
  qed
qed

subsection \<open>The devices of a controller\<close>

lemma direct_okD:
  assumes "direct_ok c s" "d \<in> set (direct_devices (store s c))"
  obtains q where "is_end_device (class_in s d)" "obj_parent (store s d) = Some c" "is_controller (class_in s c)"
    "own_phy (store s d) = Some (d + 1)" "own_port (store s d) = Some (d + 2)" "class_in s (d + 2) = RemotePort"
    "remote_port (store s (d + 2)) = Some q" "is_plain_port (class_in s q)" "obj_parent (store s q) = Some c"
  using assms by (auto simp: direct_ok_def device_ok_def)

lemma getController_direct:
  assumes "direct_ok c s" "d \<in> set (direct_devices (store s c))"
  shows "getController d s = Some (Some c)"
proof (rule direct_okD [OF assms])
  assume d: "is_end_device (class_in s d)" "obj_parent (store s d) = Some c" and c: "is_controller (class_in s c)"
  have "getController d s = getController c s"
    using d by (subst getController.simps) (auto simp: Let_def class_defs)
  also have "\<dots> = Some (Some c)" using c by (subst getController.simps) (simp add: Let_def)
  finally show ?thesis .
qed

lemma object_getRaidInfo_direct:
  assumes "direct_ok c s" "d \<in> set (direct_devices (store s c))"
  shows "object_getRaidInfo d s = Some (raid_info_of (store s c))"
proof (rule direct_okD [OF assms])
  fix q
  assume d: "is_end_device (class_in s d)" "own_port (store s d) = Some (d + 2)"
    and r: "class_in s (d + 2) = RemotePort" "remote_port (store s (d + 2)) = Some q"
    and q: "is_plain_port (class_in s q)" "obj_parent (store s q) = Some c" and c: "is_controller (class_in s c)"
  have "object_getRaidInfo d s = object_getRaidInfo (d + 2) s"
    using d by (subst object_getRaidInfo.simps) (auto simp: Let_def class_defs)
  also have "\<dots> = object_getRaidInfo q s" using r by (subst object_getRaidInfo.simps) (auto simp: Let_def class_defs)
  also have "\<dots> = object_getRaidInfo c s" using q by (subst object_getRaidInfo.simps) (auto simp: Let_def class_defs)
  also have "\<dots> = Some (raid_info_of (store s c))" using c by (subst object_getRaidInfo.simps) (simp add: Let_def)
  finally show ?thesis .
qed

text \<open>The array of a disk arrives at the controller, once.\<close>

lemma attachArray_direct:
  assumes ok: "direct_ok c s" "d \<in> set (direct_devices (store s c))" and block: "is_block_device (class_in s d)"
  shows "attachArray d a s = Some (Inr (let s1 = upd d (array_of_disk_update (\<lambda>_. Some a)) s in
    if a \<in> set (raid_arrays (store s c)) then s1 else upd c (raid_arrays_update (\<lambda>as. as @ [a])) s1))"
proof (rule direct_okD [OF ok])
  fix q
  let ?s = "upd d (array_of_disk_update (\<lambda>_. Some a)) s"
  assume d: "is_end_device (class_in s d)" "own_port (store s d) = Some (d + 2)"
    and r: "class_in s (d + 2) = RemotePort" "remote_port (store s (d + 2)) = Some q"
    and q: "is_plain_port (class_in s q)" "obj_parent (store s q) = Some c" and c: "is_controller (class_in s c)"
  have ne: "d \<noteq> q" "d \<noteq> c" using d q c by (auto simp: class_defs)
  have "attachArray d a s = attachArray (d + 2) a ?s"
    using d block by (subst attachArray.simps) (auto simp: Let_def class_defs)
  also have "\<dots> = attachArray q a ?s" using r by (subst attachArray.simps) (auto simp: Let_def class_defs)
  also have "\<dots> = attachArray c a ?s" using q ne by (subst attachArray.simps) (auto simp: Let_def class_defs)
  also have "\<dots> = Some (Inr (if a \<in> set (raid_arrays (store s c)) then ?s
      else upd c (raid_arrays_update (\<lambda>as. as @ [a])) ?s))"
    using c ne by (subst attachArray.simps) (simp add: Let_def)
  finally show ?thesis by (simp add: Let_def)
qed

subsection \<open>The objects of a session\<close>

definition objects_of :: "nat \<Rightarrow> topo \<Rightarrow> (kind \<times> nat) list" where
  "objects_of c s = (Controller, c)
     # concat (map (\<lambda>d. [(EndDevice, d), (Phy, d + 1), (Port, d + 2)]) (direct_devices (store s c)))
     @ map (Pair Port) (ports (store s c)) @ map (Pair Phy) (phys (store s c))"

lemma addToSession_visit:
  "addToSession_tasks x s = Some below \<Longrightarrow> addToSession s (Visit x # ts) = addToSession s (below @ ts)"
  by (subst addToSession.simps) simp

lemma addToSession_register:
  "addToSession s (Register k x # ts) = map_option ((#) (k, x)) (addToSession s ts)"
  by (subst addToSession.simps) (cases "addToSession s ts"; simp)

lemma addToSession_Nil: "addToSession s [] = Some []"
  by (subst addToSession.simps) simp

lemma append_nothing: "map_option ((@) []) r = r"
  by (cases r) simp_all

lemma visit_phys:
  "\<forall>f \<in> set fs. is_phy (class_in s f) \<Longrightarrow> addToSession s (map Visit fs @ ts) = map_option ((@) (map (Pair Phy) fs)) (addToSession s ts)"
proof (induction fs)
  case (Cons f fs)
  then have "addToSession_tasks f s = Some [Register Phy f]"
    by (auto simp: addToSession_tasks_def Let_def class_defs)
  then show ?case
    using Cons by (simp add: addToSession_visit addToSession_register option.map_comp comp_def)
qed (simp add: append_nothing)

lemma visit_ports:
  "\<forall>p \<in> set ps. is_plain_port (class_in s p) \<Longrightarrow> addToSession s (map Visit ps @ ts) = map_option ((@) (map (Pair Port) ps)) (addToSession s ts)"
proof (induction ps)
  case (Cons p ps)
  then have "addToSession_tasks p s = Some [Register Port p]"
    by (auto simp: addToSession_tasks_def Let_def class_defs)
  then show ?case
    using Cons by (simp add: addToSession_visit addToSession_register option.map_comp comp_def)
qed (simp add: append_nothing)

lemma visit_devices:
  "\<forall>d \<in> set ds. device_ok c s d \<Longrightarrow> addToSession s (map Visit ds @ ts) =
     map_option ((@) (concat (map (\<lambda>d. [(EndDevice, d), (Phy, d + 1), (Port, d + 2)]) ds))) (addToSession s ts)"
proof (induction ds)
  case (Cons d ds)
  then have "addToSession_tasks d s = Some [Register EndDevice d, Register Phy (d + 1), Register Port (d + 2)]"
    by (auto simp: addToSession_tasks_def Let_def class_defs device_ok_def register_own_def)
  then show ?case
    using Cons by (simp add: addToSession_visit addToSession_register option.map_comp comp_def)
qed (simp add: append_nothing)

lemma addToSession_direct:
  assumes "direct_ok c s"
  shows "addToSession s [Visit c] = Some (objects_of c s)"
proof -
  let ?o = "store s c"
  have "addToSession_tasks c s = Some (Register Controller c # map Visit (direct_devices ?o) @ map Visit (ports ?o) @ map Visit (phys ?o))"
    using assms by (simp add: addToSession_tasks_def direct_ok_def Let_def)
  then have "addToSession s [Visit c] =
      map_option ((#) (Controller, c)) (addToSession s (map Visit (direct_devices ?o) @ map Visit (ports ?o) @ map Visit (phys ?o) @ []))"
    by (simp add: addToSession_visit addToSession_register)
  also have "\<dots> = Some (objects_of c s)"
    using assms visit_devices [of "direct_devices ?o" c] visit_ports [of "ports ?o"] visit_phys [of "phys ?o"]
    by (simp add: direct_ok_def addToSession_Nil objects_of_def del: append_Nil2)
  finally show ?thesis .
qed

lemma objects_distinct:
  assumes "direct_ok c s"
  shows "distinct (map snd (objects_of c s))" "set (map snd (objects_of c s)) = set (owned c s)"
proof -
  have "map snd (concat (map (\<lambda>d. [(EndDevice, d), (Phy, d + 1), (Port, d + 2)]) ds)) = concat (map below_device ds)" for ds
    by (induction ds) (simp_all add: below_device_def)
  then have snd: "map snd (objects_of c s) = c # concat (map below_device (direct_devices (store s c))) @ ports (store s c) @ phys (store s c)"
    by (simp add: objects_of_def comp_def)
  then have "mset (map snd (objects_of c s)) = mset (owned c s)"
    by (simp add: owned_def union_ac)
  then show "distinct (map snd (objects_of c s))" "set (map snd (objects_of c s)) = set (owned c s)"
    using assms mset_eq_imp_distinct_iff mset_eq_setD unfolding direct_ok_def by blast+
qed

end
