(* ===== verification/Discovery.thy ===== *)
theory Discovery
  imports Topology_Scan
begin

text \<open>
  The properties of the scan: what a session gets from the AHCI and VMD controllers of a machine, which
  controller a disk belongs to, and the arrays a controller learns of through its disks.
\<close>

subsection \<open>Several controllers\<close>

lemma direct_ok_frame:
  assumes "direct_ok c s" "\<And>x. x < fresh s \<Longrightarrow> store s' x = store s x" "fresh s \<le> fresh s'"
  shows "direct_ok c s'" "objects_of c s' = objects_of c s"
proof -
  have less: "x < fresh s" if "x \<in> set (owned c s)" for x using assms(1) that by (simp add: direct_ok_def)
  have c: "store s' c = store s c" using assms(2) direct_ok_less [OF assms(1)] by simp
  then have owned: "owned c s' = owned c s" by (simp add: owned_def)
  have "store s' x = store s x" if "x \<in> set (owned c s)" for x using assms(2) less [OF that] .
  then have same: "store s' x = store s x" if "x \<in> set (phys (store s c)) \<or> x \<in> set (ports (store s c))
      \<or> (\<exists>d \<in> set (direct_devices (store s c)). x \<in> {d, d + 1, d + 2})" for x
    using that by (auto simp: owned_def below_device_def)
  show "objects_of c s' = objects_of c s" by (simp add: objects_of_def c)
  have devices: "\<forall>d \<in> set (direct_devices (store s c)). device_ok c s' d"
  proof
    fix d assume d: "d \<in> set (direct_devices (store s c))"
    then have "store s' d = store s d" "store s' (d + 2) = store s (d + 2)" by (blast intro: same)+
    then show "device_ok c s' d" using assms(1) d by (simp add: direct_ok_def device_ok_def c)
  qed
  have "\<forall>f \<in> set (phys (store s c)). is_phy (class_in s' f)"
    "\<forall>p \<in> set (ports (store s c)). is_plain_port (class_in s' p) \<and> obj_parent (store s' p) = Some c"
    using assms(1) same by (auto simp: direct_ok_def)
  moreover have "\<forall>x \<in> set (owned c s). x < fresh s'" using less assms(3) by fastforce
  ultimately show "direct_ok c s'" using assms(1) devices unfolding direct_ok_def owned c by blast
qed

text \<open>The state after some controllers have been found.\<close>

definition scan_state :: "topo \<Rightarrow> (kind \<times> nat) list \<Rightarrow> topo \<Rightarrow> nat list \<Rightarrow> bool" where
  "scan_state s xs s' cs \<longleftrightarrow> fresh s \<le> fresh s' \<and> (\<forall>x < fresh s. store s' x = store s x)
     \<and> (\<forall>c \<in> set cs. direct_ok c s') \<and> xs = concat (map (\<lambda>c. objects_of c s') cs)
     \<and> distinct (map snd xs) \<and> (\<forall>x \<in> set (map snd xs). fresh s \<le> x \<and> x < fresh s')"

lemma scan_state_nothing: "scan_state s [] s []"
  by (simp add: scan_state_def)

lemma scan_state_append:
  assumes "scan_state s xs s1 cs" "scan_state s1 ys s2 ds"
  shows "scan_state s (xs @ ys) s2 (cs @ ds)"
proof -
  have frame: "direct_ok c s2" "objects_of c s2 = objects_of c s1" if "c \<in> set cs" for c
    using direct_ok_frame [of c s1 s2] assms that unfolding scan_state_def by blast+
  have "set (map snd xs) \<inter> set (map snd ys) = {}"
    using assms unfolding scan_state_def by (meson disjoint_iff leD)
  moreover have "distinct (map snd xs)" "distinct (map snd ys)" using assms unfolding scan_state_def by blast+
  ultimately have "distinct (map snd (xs @ ys))" by (simp only: map_append distinct_append)
  moreover have "xs @ ys = concat (map (\<lambda>c. objects_of c s2) (cs @ ds))"
    using assms frame(2) by (simp add: scan_state_def cong: map_cong)
  moreover have "\<forall>x < fresh s. store s2 x = store s x"
    using assms unfolding scan_state_def by (metis order_less_le_trans)
  moreover have "\<forall>x \<in> set (map snd (xs @ ys)). fresh s \<le> x \<and> x < fresh s2"
    using assms unfolding scan_state_def map_append set_append by (meson Un_iff order_trans order_less_le_trans)
  moreover have "\<forall>c \<in> set (cs @ ds). direct_ok c s2" using assms(2) frame(1) by (auto simp: scan_state_def)
  moreover have "fresh s \<le> fresh s2" using assms unfolding scan_state_def by linarith
  ultimately show ?thesis unfolding scan_state_def by (intro conjI)
qed

text \<open>One controller, from its construction to its registration.\<close>

lemma extends_scan:
  assumes cl: "is_controller cl" and g: "extends_by (fresh s) ds (snd (alloc cl path None 0 s)) s'"
  shows "scan_state s (objects_of (fresh s) s') s' [fresh s]" "addToSession s' [Visit (fresh s)] = Some (objects_of (fresh s) s')"
proof -
  have ok: "direct_ok (fresh s) s'" using g by (rule extends_by_ok)
  then show "addToSession s' [Visit (fresh s)] = Some (objects_of (fresh s) s')" by (rule addToSession_direct)
  have "\<forall>x \<in> set (owned (fresh s) s'). fresh s \<le> x \<and> x < fresh s'"
    using g ok unfolding extends_by_def direct_ok_def by (fastforce simp: owned_def)
  moreover have "fresh s \<le> fresh s'" "\<forall>x < fresh s. store s' x = store s x"
    using g by (auto simp: extends_by_def)
  ultimately show "scan_state s (objects_of (fresh s) s') s' [fresh s]"
    using ok objects_distinct [OF ok] by (simp add: scan_state_def del: set_map)
qed

definition single_targets :: "sys_tree \<Rightarrow> string \<Rightarrow> bool" where
  "single_targets fs p \<longleftrightarrow>
     (\<exists>hs. ahci_hosts fs (canonical fs p) = Some hs \<and> (\<forall>h \<in> set hs. scsi_host fs h \<longrightarrow> single_target fs h))"

lemma ahci_scan_scanned:
  assumes "\<forall>p \<in> set ps. single_targets fs p"
  shows "\<exists>xs s' cs. ahci_scan fs attribute ps s = (xs, Some (Inr s')) \<and> scan_state s xs s' cs"
  using assms
proof (induction ps arbitrary: s)
  case Nil
  then show ?case using scan_state_nothing by auto
next
  case (Cons p ps)
  show ?case
  proof (cases "canonical fs (join p ''driver'') = ''/sys/bus/pci/drivers/ahci'' \<and> attribute (join p ''vendor'') = Some ''0x8086''")
    case False
    then show ?thesis using Cons by auto
  next
    case True
    let ?s1 = "snd (alloc AHCI (canonical fs p) None 0 s)"
    obtain hs where hs: "ahci_hosts fs (canonical fs p) = Some hs" "\<forall>h \<in> set hs. scsi_host fs h \<longrightarrow> single_target fs h"
      using Cons.prems by (auto simp: single_targets_def)
    have cl: "is_controller AHCI" by (simp add: class_defs)
    obtain s2 ds where s2: "ahci_discover fs (fresh s) ?s1 = Some (Inr s2)" "extends_by (fresh s) ds ?s1 s2"
      using ahci_discover_grows [OF new_controller_ok [OF cl, of s "canonical fs p"] _ hs(2)] hs(1) by auto
    note one = extends_scan [OF cl s2(2)]
    obtain ys s3 cs where s3: "ahci_scan fs attribute ps s2 = (ys, Some (Inr s3))" "scan_state s2 ys s3 cs"
      using Cons.IH [of s2] Cons.prems by auto
    have "ahci_scan fs attribute (p # ps) s = (objects_of (fresh s) s2 @ ys, Some (Inr s3))"
      using True s2(1) one(2) s3(1) by (simp add: add_controller_def)
    then show ?thesis using scan_state_append [OF one(1) s3(2)] by blast
  qed
qed

lemma vmd_domains_grow:
  assumes "direct_ok c s"
  shows "\<exists>s' ds. vmd_domains fs identified ps (Some c) n s = (Some c, Some (Inr s')) \<and> extends_by c ds s s'"
  using assms
proof (induction ps arbitrary: n s)
  case Nil
  then show ?case using extends_by_refl by fastforce
next
  case (Cons p ps)
  obtain n' s1 ds where s1: "vmd_discover fs identified c p n s = (n', Some (Inr s1))" "extends_by c ds s s1"
    using vmd_paths_grow [OF Cons.prems] unfolding vmd_discover_def by blast
  obtain s2 ds2 where "vmd_domains fs identified ps (Some c) n' s1 = (Some c, Some (Inr s2))" "extends_by c ds2 s1 s2"
    using Cons.IH [OF extends_by_ok [OF s1(2)]] by blast
  then show ?case using s1 extends_by_trans Cons by fastforce
qed

lemma vmd_scan_scanned:
  "\<exists>xs s' cs. vmd_scan fs identified ps s = (xs, Some (Inr s')) \<and> scan_state s xs s' cs"
proof (induction ps)
  case Nil
  then show ?case using scan_state_nothing by (auto simp: vmd_scan_def)
next
  case (Cons p ps)
  show ?case
  proof (cases "canonical fs (join p ''driver'') = ''/sys/bus/pci/drivers/vmd''")
    case False
    then show ?thesis using Cons by (simp add: vmd_scan_def)
  next
    case True
    let ?s1 = "snd (alloc VMD (canonical fs p) None 0 s)"
    have cl: "is_controller VMD" by (simp add: class_defs)
    then have ok: "direct_ok (fresh s) ?s1" by (rule new_controller_ok)
    obtain n' s2 ds where s2: "vmd_discover fs identified (fresh s) p 0 ?s1 = (n', Some (Inr s2))" "extends_by (fresh s) ds ?s1 s2"
      using vmd_paths_grow [OF ok] unfolding vmd_discover_def by blast
    obtain s3 ds3 where s3: "vmd_domains fs identified ps (Some (fresh s)) n' s2 = (Some (fresh s), Some (Inr s3))"
      "extends_by (fresh s) ds3 s2 s3"
      using vmd_domains_grow [OF extends_by_ok [OF s2(2)]] by blast
    note one = extends_scan [OF cl extends_by_trans [OF s2(2) s3(2)]]
    have "vmd_scan fs identified (p # ps) s = (objects_of (fresh s) s3, Some (Inr s3))"
      using True s2(1) s3(1) one(2) by (simp add: vmd_scan_def add_controller_def)
    then show ?thesis using one(1) by blast
  qed
qed

lemma controllers_scan_scanned:
  assumes "\<forall>p \<in> set (dirs fs ''/sys/bus/pci/drivers/ahci'' []). single_targets fs p"
  shows "\<exists>xs s' cs. controllers_scan fs attribute identified s = (xs, Some (Inr s')) \<and> scan_state s xs s' cs"
proof -
  obtain xs s1 cs where a: "ahci_scan fs attribute (dirs fs ''/sys/bus/pci/drivers/ahci'' []) s = (xs, Some (Inr s1))"
    "scan_state s xs s1 cs"
    using ahci_scan_scanned [OF assms] by blast
  obtain ys s2 ds where "vmd_scan fs identified (dirs fs ''/sys/bus/pci/drivers/vmd'' []) s1 = (ys, Some (Inr s2))"
    "scan_state s1 ys s2 ds"
    using vmd_scan_scanned by blast
  then show ?thesis using a scan_state_append by (fastforce simp: controllers_scan_def)
qed

lemma objects_devices:
  "(EndDevice, d) \<in> set (objects_of c s) \<longleftrightarrow> d \<in> set (direct_devices (store s c))" "(Controller, c) \<in> set (objects_of c s)"
  by (auto simp: objects_of_def)

subsection \<open>Properties\<close>

text \<open>A machine with an AHCI controller and a disk on it, and an NVMe disk below a VMD domain.\<close>

definition demo_sysfs :: sys_tree where
  "demo_sysfs = \<lparr>
     entries = (\<lambda>p.
       if p = ''/sys/bus/pci/drivers/ahci'' then Some [''.'', ''c'']
       else if p = ''/sys/bus/pci/drivers/vmd'' then Some [''v'', ''bind'']
       else if p = ''/sys/bus/pci/drivers/nvme'' then Some [''n'']
       else if p = ''/c'' then Some [''host0'', ''irq'']
       else if p = ''/c/host0'' then Some [''target0:0'']
       else if p = ''/c/host0/target0:0'' then Some [''0:0'', ''power'']
       else None),
     stat_type = (\<lambda>p. Some (if p = ''/sys/bus/pci/drivers/vmd/bind'' then Regular_file else Directory_file)),
     canonical = (\<lambda>p.
       if p = ''/sys/bus/pci/drivers/ahci/c'' then ''/c''
       else if p = ''/sys/bus/pci/drivers/ahci/c/driver'' then ''/sys/bus/pci/drivers/ahci''
       else if p = ''/sys/bus/pci/drivers/vmd/v'' then ''/v''
       else if p = ''/sys/bus/pci/drivers/vmd/v/driver'' then ''/sys/bus/pci/drivers/vmd''
       else if p = ''/sys/bus/pci/drivers/nvme/n'' then ''/v/n''
       else if p = ''/sys/bus/pci/drivers/nvme/n/driver'' then ''/sys/bus/pci/drivers/nvme''
       else if p = ''/c/host0/target0:0/0:0/driver'' then ''/sys/bus/scsi/drivers/sd''
       else p)\<rparr>"

definition demo_vendor :: "string \<Rightarrow> string option" where
  "demo_vendor p = (if p = ''/sys/bus/pci/drivers/ahci/c/vendor'' then Some ''0x8086'' else None)"

definition empty_topo :: topo where
  "empty_topo = \<lparr>store = (\<lambda>_. new_obj AHCI [] None 0), fresh = 0\<rparr>"


lemma demo_single: "\<forall>p \<in> set (dirs demo_sysfs ''/sys/bus/pci/drivers/ahci'' []). single_targets demo_sysfs p"
proof -
  have "dirs demo_sysfs ''/sys/bus/pci/drivers/ahci'' [] = [''/sys/bus/pci/drivers/ahci/c'']"
    "ahci_hosts demo_sysfs (canonical demo_sysfs ''/sys/bus/pci/drivers/ahci/c'') = Some [''/c/host0'']"
    "single_target demo_sysfs ''/c/host0''"
    by code_simp+
  then show ?thesis by (simp add: single_targets_def)
qed





lemma demo_disk_found:
  "\<exists>xs s' d. controllers_scan demo_sysfs demo_vendor (\<lambda>_. True) empty_topo = (xs, Some (Inr s'))
     \<and> (EndDevice, d) \<in> set xs \<and> class_in s' d = AHCI_Disk"
proof -
  let ?p = "''/sys/bus/pci/drivers/ahci/c''" and ?t = "''/c/host0/target0:0/0:0''"
  let ?s0 = "snd (alloc AHCI ''/c'' None 0 empty_topo)"
  have demo: "dirs demo_sysfs ''/sys/bus/pci/drivers/ahci'' [] = [?p]" "canonical demo_sysfs ?p = ''/c''"
    "canonical demo_sysfs (join ?p ''driver'') = ''/sys/bus/pci/drivers/ahci''"
    "demo_vendor (join ?p ''vendor'') = Some ''0x8086''"
    by code_simp+
  have hosts: "ahci_hosts demo_sysfs ''/c'' = Some [''/c/host0'']" "single_target demo_sysfs ''/c/host0''"
    "concat (map (\<lambda>h. found_list (device_on demo_sysfs h)) (filter (scsi_host demo_sysfs) [''/c/host0''])) = [(AHCI_Disk, ?t)]"
    by code_simp+
  have zero: "fresh empty_topo = 0" by (simp add: empty_topo_def)
  have cl: "is_controller AHCI" by (simp add: class_defs)
  obtain s1 where s1: "ahci_discover demo_sysfs 0 ?s0 = Some (Inr s1)" "extends_by 0 [(AHCI_Disk, ?t)] ?s0 s1"
    using ahci_discover_grows [OF new_controller_ok [OF cl, of empty_topo "''/c''"], of demo_sysfs "[''/c/host0'']"] hosts zero
    by auto
  have ok: "direct_ok 0 s1" using s1(2) by (rule extends_by_ok)
  have "devices_of 0 s1 = [(AHCI_Disk, ?t)]" using s1(2) zero by (simp add: extends_by_def devices_of_def)
  then obtain d where d: "direct_devices (store s1 0) = [d]" "class_in s1 d = AHCI_Disk" by (auto simp: devices_of_def)
  have "d < fresh s1" using ok d(1) by (simp add: direct_ok_def owned_def below_device_def)
  moreover obtain ys s2 cs where s2: "vmd_scan demo_sysfs (\<lambda>_. True) (dirs demo_sysfs ''/sys/bus/pci/drivers/vmd'' []) s1 =
      (ys, Some (Inr s2))" "scan_state s1 ys s2 cs"
    using vmd_scan_scanned by blast
  ultimately have "class_in s2 d = AHCI_Disk" using d(2) by (simp add: scan_state_def)
  moreover have "controllers_scan demo_sysfs demo_vendor (\<lambda>_. True) empty_topo = (objects_of 0 s1 @ ys, Some (Inr s2))"
    using demo s1(1) s2(1) addToSession_direct [OF ok] zero by (simp add: controllers_scan_def add_controller_def)
  ultimately show ?thesis using d(1) objects_devices(1) [of d 0 s1] by auto
qed


lemma getController_orphan:
  "is_end_device (class_in s d) \<Longrightarrow> obj_parent (store s d) = None \<Longrightarrow> getController d s = Some None"
  by (subst getController.simps) (auto simp: Let_def class_defs)

text \<open>
  A disk behind a port multiplier is listed among the devices of the multiplier, yet it has no controller: the
  multiplier does not make itself the parent of its disks.
\<close>

theorem multiplier_disks_lost:
  assumes "class_in s m = AHCI_Multiplier" "m < fresh s" "is_end_device cl"
  shows "\<exists>s'. multiplier_attach m cl path n s = Some (Inr s') \<and> fresh s \<in> set (direct_devices (store s' m))
    \<and> getController (fresh s) s' = Some None"
proof -
  let ?e = "fresh s"
  define t where "t = s\<lparr>store := (store s)(?e := device_at cl path None ?e, ?e + 1 := device_phy path ?e,
      ?e + 2 := device_port path None ?e), fresh := ?e + 3\<rparr>"
  have run: "new_end_device cl path s = (?e, Some (Inr t))"
    unfolding t_def by (rule new_end_device_result [OF assms(3)])
  have t: "fresh t = ?e + 3" "store t m = store s m" "store t ?e = device_at cl path None ?e"
    "store t (?e + 2) = device_port path None ?e"
    using assms(2) by (simp_all add: t_def)
  show ?thesis
    using assms t by (simp add: multiplier_attach_def run attach_simps getController_orphan class_defs Let_def device_at_def device_port_def)
qed

theorem multiplier_disks_lost_witness:
  "\<exists>s'. multiplier_attach 0 AHCI_Disk ''/d'' 1 \<lparr>store = (\<lambda>_. new_obj AHCI_Multiplier ''/m'' None 0), fresh = 1\<rparr> = Some (Inr s')
     \<and> getController 1 s' = Some None"
  using multiplier_disks_lost [of "\<lparr>store = (\<lambda>_. new_obj AHCI_Multiplier ''/m'' None 0), fresh = 1\<rparr>" 0 AHCI_Disk "''/d''" 1]
  by (auto simp: class_defs)

text \<open>
  Two phys that are attached to each other never come back: each passes the call on to the other.
\<close>

theorem phys_attach_forever:
  assumes "is_phy (class_in s x)" "is_phy (class_in s f)" "x \<noteq> f"
  shows "attachPhy x f s = None"
proof -
  let ?P = "\<lambda>x f s (_ :: exception + topo). \<not> (is_phy (class_in s x) \<and> is_phy (class_in s f) \<and> x \<noteq> f)"
  have "?P x f s r" if "attachPhy x f s = Some r" for r
    by (rule attachPhy.raw_induct [of ?P "((x, f), s)" r, unfolded prod.case, OF _ that])
       (fastforce simp: class_defs Let_def split: if_splits)
  then show ?thesis using assms by (cases "attachPhy x f s") auto
qed

theorem phys_attach_forever_witness:
  "attachPhy 0 1 \<lparr>store = (\<lambda>_. new_obj Plain_phy ''/p'' None 0), fresh = 2\<rparr> = None"
  by (rule phys_attach_forever) (simp_all add: class_defs)

end
