(* ===== verification/Safe_Str_Search.thy ===== *)
theory Safe_Str_Search
  imports Safe_Str Utils
begin

text \<open>
  The queries of the bounds-checked string library: \<open>strnlen_s.c\<close>, \<open>strcmp_s.c\<close>, \<open>strcmpfld_s.c\<close>,
  \<open>strstr_s.c\<close>, \<open>strcasestr_s.c\<close> and \<open>strcspn_s.c\<close>.  None of them writes to memory.

  A pointer to a result is a flag that says whether it is not null; the result is returned beside the error
  code, None when the pointer was null.  A loop condition \<open>*dest && dmax\<close> reads \<open>*dest\<close> even
  when \<open>dmax\<close> is used up.
\<close>

subsection \<open>\<open>strnlen_s\<close>\<close>

fun nlen_loop :: "heap \<Rightarrow> addr \<Rightarrow> nat \<Rightarrow> nat option" where
  "nlen_loop h dest 0 = do { c \<leftarrow> rd8 h dest; Some 0 }"
| "nlen_loop h dest (Suc dmax) =
     do { c \<leftarrow> rd8 h dest;
          if c = 0 then Some 0 else map_option Suc (nlen_loop h (dest + 1) dmax) }"

definition strnlen_s :: "addr \<Rightarrow> nat \<Rightarrow> cstate \<Rightarrow> nat crun" where
  "strnlen_s dest dmax s =
     (if dest = NULL then Some (Returned 0, s)
      else if dmax = 0 then Some (str_fail ''strnlen_s: dmax is 0'' ESZEROL 0 s)
      else if dmax > RSIZE_MAX_STR then Some (str_fail ''strnlen_s: dmax exceeds max'' ESLEMAX 0 s)
      else do { n \<leftarrow> nlen_loop (mem s) dest dmax; Some (Returned n, s) })"

subsection \<open>\<open>strcmp_s\<close> and \<open>strcmpfld_s\<close>\<close>

text \<open>Characters are signed; the indicator is the difference of two of them.\<close>

definition char_diff :: "heap \<Rightarrow> addr \<Rightarrow> addr \<Rightarrow> int option" where
  "char_diff h dest src = do { d \<leftarrow> rd8 h dest; c \<leftarrow> rd8 h src; Some (sint d - sint c) }"

fun cmp_loop :: "heap \<Rightarrow> addr \<Rightarrow> addr \<Rightarrow> nat \<Rightarrow> int option" where
  "cmp_loop h dest src 0 = char_diff h dest src"
| "cmp_loop h dest src (Suc dmax) =
     do { d \<leftarrow> rd8 h dest;
          if d = 0 then char_diff h dest src
          else do { c \<leftarrow> rd8 h src;
                    if c = 0 \<or> d \<noteq> c then char_diff h dest src
                    else cmp_loop h (dest + 1) (src + 1) dmax } }"

fun cmpfld_loop :: "heap \<Rightarrow> addr \<Rightarrow> addr \<Rightarrow> nat \<Rightarrow> int option" where
  "cmpfld_loop h dest src 0 = char_diff h dest src"
| "cmpfld_loop h dest src (Suc dmax) =
     do { d \<leftarrow> rd8 h dest; c \<leftarrow> rd8 h src;
          if d \<noteq> c then char_diff h dest src else cmpfld_loop h (dest + 1) (src + 1) dmax }"

text \<open>The checks of both: \<open>indicator\<close> is set to 0 as soon as it is known not to be null.\<close>

definition compare_with ::
  "string \<Rightarrow> (heap \<Rightarrow> addr \<Rightarrow> addr \<Rightarrow> nat \<Rightarrow> int option) \<Rightarrow> addr \<Rightarrow> nat \<Rightarrow> addr \<Rightarrow> bool \<Rightarrow> cstate \<Rightarrow>
   (errno \<times> int option) crun" where
  "compare_with name loop dest dmax src indicator s =
     (if \<not> indicator then Some (str_fail (name @ '': indicator is null'') ESNULLP (ESNULLP, None) s)
      else if dest = NULL then Some (str_fail (name @ '': dest is null'') ESNULLP (ESNULLP, Some 0) s)
      else if src = NULL then Some (str_fail (name @ '': src is null'') ESNULLP (ESNULLP, Some 0) s)
      else if dmax = 0 then Some (str_fail (name @ '': dmax is 0'') ESZEROL (ESZEROL, Some 0) s)
      else if dmax > RSIZE_MAX_STR
        then Some (str_fail (name @ '': dmax exceeds max'') ESLEMAX (ESLEMAX, Some 0) s)
      else do { n \<leftarrow> loop (mem s) dest src dmax; Some (Returned (EOK, Some n), s) })"

definition strcmp_s :: "addr \<Rightarrow> nat \<Rightarrow> addr \<Rightarrow> bool \<Rightarrow> cstate \<Rightarrow> (errno \<times> int option) crun" where
  "strcmp_s = compare_with ''strcmp_s'' cmp_loop"

definition strcmpfld_s :: "addr \<Rightarrow> nat \<Rightarrow> addr \<Rightarrow> bool \<Rightarrow> cstate \<Rightarrow> (errno \<times> int option) crun" where
  "strcmpfld_s = compare_with ''strcmpfld_s'' cmpfld_loop"

subsection \<open>\<open>strstr_s\<close> and \<open>strcasestr_s\<close>\<close>

text \<open>The inner loops: does the pattern stand at \<open>dest\<close>?\<close>

fun match_at :: "heap \<Rightarrow> addr \<Rightarrow> addr \<Rightarrow> nat \<Rightarrow> nat \<Rightarrow> bool option" where
  "match_at h dest src 0 len = do { c \<leftarrow> rd8 h src; Some False }"
| "match_at h dest src (Suc dlen) len =
     do { c \<leftarrow> rd8 h src;
          if c = 0 then Some False
          else do { d \<leftarrow> rd8 h dest;
                    if d \<noteq> c then Some False
                    else do { c' \<leftarrow> rd8 h (src + 1);
                              if c' = 0 \<or> len - 1 = 0 then Some True
                              else match_at h (dest + 1) (src + 1) dlen (len - 1) } } }"

definition toupper :: "byte \<Rightarrow> byte" where
  "toupper c = (if 97 \<le> c \<and> c \<le> 122 then c - 32 else c)"

fun match_case :: "heap \<Rightarrow> addr \<Rightarrow> addr \<Rightarrow> nat \<Rightarrow> nat \<Rightarrow> bool option" where
  "match_case h dest src 0 len = do { d \<leftarrow> rd8 h dest; Some False }"
| "match_case h dest src (Suc dlen) len =
     do { d \<leftarrow> rd8 h dest;
          if d = 0 then Some False
          else do { c \<leftarrow> rd8 h src;
                    if toupper d \<noteq> toupper c then Some False
                    else do { c' \<leftarrow> rd8 h (src + 1);
                              if c' = 0 \<or> len - 1 = 0 then Some True
                              else match_case h (dest + 1) (src + 1) dlen (len - 1) } } }"

text \<open>The outer loop, \<open>found\<close> being the inner one.\<close>

fun search_loop :: "heap \<Rightarrow> (addr \<Rightarrow> nat \<Rightarrow> bool option) \<Rightarrow> addr \<Rightarrow> nat \<Rightarrow> addr option option" where
  "search_loop h at dest 0 = do { c \<leftarrow> rd8 h dest; Some None }"
| "search_loop h at dest (Suc dmax) =
     do { c \<leftarrow> rd8 h dest;
          if c = 0 then Some None
          else do { m \<leftarrow> at dest (Suc dmax);
                    if m then Some (Some dest) else search_loop h at (dest + 1) dmax } }"

text \<open>The substring that is returned: None for a null pointer.\<close>

definition search_with ::
  "string \<Rightarrow> (heap \<Rightarrow> addr \<Rightarrow> addr \<Rightarrow> nat \<Rightarrow> nat \<Rightarrow> bool option) \<Rightarrow> addr \<Rightarrow> nat \<Rightarrow> addr \<Rightarrow> nat \<Rightarrow> bool \<Rightarrow>
   cstate \<Rightarrow> (errno \<times> addr option) crun" where
  "search_with name at dest dmax src slen substring s =
     (if \<not> substring then Some (str_fail (name @ '': substring is null'') ESNULLP (ESNULLP, None) s)
      else if dest = NULL then Some (str_fail (name @ '': dest is null'') ESNULLP (ESNULLP, None) s)
      else if dmax = 0 then Some (str_fail (name @ '': dmax is 0'') ESZEROL (ESZEROL, None) s)
      else if dmax > RSIZE_MAX_STR
        then Some (str_fail (name @ '': dmax exceeds max'') ESLEMAX (ESLEMAX, None) s)
      else if src = NULL then Some (str_fail (name @ '': src is null'') ESNULLP (ESNULLP, None) s)
      else if slen = 0 then Some (str_fail (name @ '': slen is 0'') ESZEROL (ESZEROL, None) s)
      else if slen > RSIZE_MAX_STR
        then Some (str_fail (name @ '': slen exceeds max'') ESLEMAX (ESLEMAX, None) s)
      else do { c \<leftarrow> rd8 (mem s) src;
                if c = 0 \<or> dest = src then Some (Returned (EOK, Some dest), s)
                else do { r \<leftarrow> search_loop (mem s) (\<lambda>d n. at (mem s) d src n slen) dest dmax;
                          Some (Returned (if r = None then ESNOTFND else EOK, r), s) } })"

definition strstr_s :: "addr \<Rightarrow> nat \<Rightarrow> addr \<Rightarrow> nat \<Rightarrow> bool \<Rightarrow> cstate \<Rightarrow> (errno \<times> addr option) crun" where
  "strstr_s = search_with ''strstr_s'' match_at"

definition strcasestr_s :: "addr \<Rightarrow> nat \<Rightarrow> addr \<Rightarrow> nat \<Rightarrow> bool \<Rightarrow> cstate \<Rightarrow> (errno \<times> addr option) crun" where
  "strcasestr_s = search_with ''strcasestr_s'' match_case"

subsection \<open>\<open>strcspn_s\<close>\<close>

text \<open>The inner loop: is the character one of the first \<open>smax\<close> of the exclusion string?\<close>

fun excluded :: "heap \<Rightarrow> byte \<Rightarrow> addr \<Rightarrow> nat \<Rightarrow> bool option" where
  "excluded h d scan2 0 = do { c \<leftarrow> rd8 h scan2; Some False }"
| "excluded h d scan2 (Suc smax) =
     do { c \<leftarrow> rd8 h scan2;
          if c = 0 then Some False else if d = c then Some True else excluded h d (scan2 + 1) smax }"

fun span_loop :: "heap \<Rightarrow> addr \<Rightarrow> nat \<Rightarrow> addr \<Rightarrow> nat \<Rightarrow> nat option" where
  "span_loop h dest 0 src slen = do { c \<leftarrow> rd8 h dest; Some 0 }"
| "span_loop h dest (Suc dmax) src slen =
     do { c \<leftarrow> rd8 h dest;
          if c = 0 then Some 0
          else do { e \<leftarrow> excluded h c src slen;
                    if e then Some 0 else map_option Suc (span_loop h (dest + 1) dmax src slen) } }"

definition strcspn_s :: "addr \<Rightarrow> nat \<Rightarrow> addr \<Rightarrow> nat \<Rightarrow> bool \<Rightarrow> cstate \<Rightarrow> (errno \<times> nat option) crun" where
  "strcspn_s dest dmax src slen count s =
     (if \<not> count then Some (str_fail ''strcspn_s: count is null'' ESNULLP (ESNULLP, None) s)
      else if dest = NULL then Some (str_fail ''strcspn_s: dest is null'' ESNULLP (ESNULLP, Some 0) s)
      else if src = NULL then Some (str_fail ''strcspn_s: src is null'' ESNULLP (ESNULLP, Some 0) s)
      else if dmax = 0 then Some (str_fail ''strcspn_s: dmax is 0'' ESZEROL (ESZEROL, Some 0) s)
      else if dmax > RSIZE_MAX_STR
        then Some (str_fail ''strcspn_s: dmax exceeds max'' ESLEMAX (ESLEMAX, Some 0) s)
      else if slen = 0 then Some (str_fail ''strcspn_s: slen is 0'' ESZEROL (ESZEROL, Some 0) s)
      else if slen > RSIZE_MAX_STR
        then Some (str_fail ''strcspn_s: slen exceeds max'' ESLEMAX (ESLEMAX, Some 0) s)
      else do { n \<leftarrow> span_loop (mem s) dest dmax src slen; Some (Returned (EOK, Some n), s) })"

subsection \<open>The loops compute the functions of the standard\<close>

lemma cstr_Nil: "cstr h a [] \<longleftrightarrow> h a = Some 0"
  by (simp add: cstr_def)

lemma nlen_loop_cstr: "cstr h dest xs \<Longrightarrow> nlen_loop h dest n = Some (min n (length xs))"
proof (induction n arbitrary: dest xs)
  case 0
  then show ?case by (cases xs) (auto simp: rd8_def cstr_Cons cstr_Nil)
next
  case (Suc n)
  then show ?case by (cases xs) (auto simp: rd8_def cstr_Cons cstr_Nil)
qed

text \<open>The difference at the first place where two byte strings, closed by a zero, differ.\<close>

fun text_diff :: "byte list \<Rightarrow> byte list \<Rightarrow> int" where
  "text_diff (x # xs) (y # ys) = (if x = y then text_diff xs ys else sint x - sint y)"
| "text_diff (x # xs) [] = sint x"
| "text_diff [] (y # ys) = - sint y"
| "text_diff [] [] = 0"

lemma cmp_loop_cstr:
  "cstr h dest xs \<Longrightarrow> cstr h src ys \<Longrightarrow> length xs \<le> n \<Longrightarrow> cmp_loop h dest src n = Some (text_diff xs ys)"
proof (induction xs ys arbitrary: dest src n rule: text_diff.induct)
  case (1 x xs y ys)
  then show ?case by (cases n) (auto simp: rd8_def cstr_Cons char_diff_def)
next
  case (2 x xs)
  then show ?case by (cases n) (auto simp: rd8_def cstr_Cons cstr_Nil char_diff_def)
next
  case (3 y ys)
  then show ?case by (cases n) (auto simp: rd8_def cstr_Cons cstr_Nil char_diff_def)
next
  case 4
  then show ?case by (cases n) (auto simp: rd8_def cstr_Nil char_diff_def)
qed

lemma cmpfld_loop_equal:
  "mapped h dest n \<Longrightarrow> mapped h src n \<Longrightarrow> bytes_of h dest n = bytes_of h src n \<Longrightarrow>
   cmpfld_loop h dest src n = char_diff h (dest + n) (src + n)"
proof (induction n arbitrary: dest src)
  case (Suc n)
  then show ?case by (auto simp: mapped_Suc rd8_def bytes_of_Suc)
qed simp

lemma match_at_cstr:
  "cstr h dest xs \<Longrightarrow> cstr h src ys \<Longrightarrow> ys \<noteq> [] \<Longrightarrow> 0 < len \<Longrightarrow>
   match_at h dest src n len = Some (take (length (take len ys)) (take n xs) = take len ys)"
proof (induction n arbitrary: dest src xs ys len)
  case 0
  then show ?case by (cases ys; cases len) (auto simp: rd8_def cstr_Cons)
next
  case (Suc n)
  obtain y ys' l where y: "ys = y # ys'" "len = Suc l" using Suc.prems by (cases ys; cases len) auto
  then have src: "h src = Some y" "y \<noteq> 0" "cstr h (Suc src) ys'" using Suc.prems by (simp_all add: cstr_Cons)
  show ?case
  proof (cases xs)
    case Nil
    then show ?thesis using Suc.prems src by (auto simp: rd8_def cstr_Nil y)
  next
    case (Cons x xs')
    then have dest: "h dest = Some x" "cstr h (Suc dest) xs'" using Suc.prems by (simp_all add: cstr_Cons)
    obtain c where c: "h (Suc src) = Some c" "c = 0 \<longleftrightarrow> ys' = []"
      using src(3) by (cases ys') (auto simp: cstr_Cons cstr_Nil)
    show ?thesis
      using Suc.IH [OF dest(2) src(3), of l] c by (auto simp: rd8_def y Cons dest src)
  qed
qed

lemma match_case_cstr:
  "cstr h dest xs \<Longrightarrow> cstr h src ys \<Longrightarrow> ys \<noteq> [] \<Longrightarrow> 0 < len \<Longrightarrow>
   match_case h dest src n len =
     Some (take (length (take len ys)) (map toupper (take n xs)) = map toupper (take len ys))"
proof (induction n arbitrary: dest src xs ys len)
  case 0
  then show ?case by (cases ys; cases len; cases xs) (auto simp: rd8_def cstr_Cons cstr_Nil)
next
  case (Suc n)
  obtain y ys' l where y: "ys = y # ys'" "len = Suc l" using Suc.prems by (cases ys; cases len) auto
  then have src: "h src = Some y" "y \<noteq> 0" "cstr h (Suc src) ys'" using Suc.prems by (simp_all add: cstr_Cons)
  show ?case
  proof (cases xs)
    case Nil
    then show ?thesis using Suc.prems src by (auto simp: rd8_def cstr_Nil y)
  next
    case (Cons x xs')
    then have dest: "h dest = Some x" "x \<noteq> 0" "cstr h (Suc dest) xs'" using Suc.prems by (simp_all add: cstr_Cons)
    obtain c where c: "h (Suc src) = Some c" "c = 0 \<longleftrightarrow> ys' = []"
      using src(3) by (cases ys') (auto simp: cstr_Cons cstr_Nil)
    show ?thesis
      using Suc.IH [OF dest(3) src(3), of l] c by (auto simp: rd8_def y Cons dest src)
  qed
qed

text \<open>\<open>f\<close> is what the characters are compared by.\<close>

lemma search_loop_cstr:
  assumes at: "\<And>dest xs n. cstr h dest xs \<Longrightarrow> at dest n = Some (take (length p) (map f (take n xs)) = p)"
    and "p \<noteq> []" "cstr h dest xs"
  shows "search_loop h at dest n = Some (map_option ((+) dest) (find_sub p (map f (take n xs))))"
  using assms(3)
proof (induction n arbitrary: dest xs)
  case 0
  then show ?case using assms(2) by (cases xs) (auto simp: rd8_def cstr_Cons cstr_Nil find_sub.simps)
next
  case (Suc n)
  show ?case
  proof (cases xs)
    case Nil
    then show ?thesis using Suc.prems assms(2) by (simp add: rd8_def cstr_Nil find_sub.simps)
  next
    case (Cons x xs')
    then have x: "h dest = Some x" "x \<noteq> 0" "cstr h (Suc dest) xs'" using Suc.prems by (simp_all add: cstr_Cons)
    have "find_sub p (map f (take (Suc n) xs)) =
        (if take (length p) (map f (take (Suc n) xs)) = p then Some 0 else map_option Suc (find_sub p (map f (take n xs'))))"
      by (subst find_sub.simps) (simp add: Cons)
    then show ?thesis
      using at [OF Suc.prems, of "Suc n"] Suc.IH [OF x(3)] x
      by (auto simp: rd8_def option.map_comp comp_def)
  qed
qed

lemma excluded_cstr: "cstr h src ys \<Longrightarrow> excluded h d src n = Some (d \<in> set (take n ys))"
proof (induction n arbitrary: src ys)
  case 0
  then show ?case by (cases ys) (auto simp: rd8_def cstr_Cons cstr_Nil)
next
  case (Suc n)
  then show ?case by (cases ys) (auto simp: rd8_def cstr_Cons cstr_Nil)
qed

lemma span_loop_cstr:
  "cstr h dest xs \<Longrightarrow> cstr h src ys \<Longrightarrow>
   span_loop h dest n src slen = Some (length (takeWhile (\<lambda>c. c \<notin> set (take slen ys)) (take n xs)))"
proof (induction n arbitrary: dest xs)
  case 0
  then show ?case by (cases xs) (auto simp: rd8_def cstr_Cons cstr_Nil)
next
  case (Suc n)
  then show ?case by (cases xs) (auto simp: rd8_def cstr_Cons cstr_Nil excluded_cstr)
qed

subsection \<open>Properties\<close>

text \<open>
  C26. The searches agree with their reference definitions on null-terminated strings: \<open>strstr_s\<close> finds the
  first occurrence of the first \<open>slen\<close> characters of the pattern within the first \<open>dmax\<close>
  characters, \<open>strcasestr_s\<close> the same up to the case of letters, and \<open>strcspn_s\<close> measures the
  longest prefix without a character of the exclusion string.
\<close>

theorem searches_meet_reference:
  assumes "dest \<noteq> NULL" "0 < dmax" "dmax \<le> RSIZE_MAX_STR" "src \<noteq> NULL" "0 < slen" "slen \<le> RSIZE_MAX_STR"
    and "dest \<noteq> src" "cstr (mem s) dest xs" "cstr (mem s) src ys" "ys \<noteq> []"
  shows "strstr_s dest dmax src slen True s =
      Some (Returned (case find_sub (take slen ys) (take dmax xs) of
        None \<Rightarrow> (ESNOTFND, None) | Some k \<Rightarrow> (EOK, Some (dest + k))), s)
    \<and> strcasestr_s dest dmax src slen True s =
      Some (Returned (case find_sub (map toupper (take slen ys)) (map toupper (take dmax xs)) of
        None \<Rightarrow> (ESNOTFND, None) | Some k \<Rightarrow> (EOK, Some (dest + k))), s)
    \<and> strcspn_s dest dmax src slen True s =
      Some (Returned (EOK, Some (length (takeWhile (\<lambda>c. c \<notin> set (take slen ys)) (take dmax xs)))), s)"
proof -
  obtain c where c: "mem s src = Some c" "c \<noteq> 0"
    using assms(9,10) by (cases ys) (auto simp: cstr_Cons)
  have p: "take slen ys \<noteq> []" using assms(5,10) by simp
  have "search_loop (mem s) (\<lambda>d n. match_at (mem s) d src n slen) dest dmax =
      Some (map_option ((+) dest) (find_sub (take slen ys) (take dmax xs)))"
    using search_loop_cstr [of "mem s" "\<lambda>d n. match_at (mem s) d src n slen" "take slen ys" "\<lambda>c. c", OF _ p assms(8)]
      match_at_cstr [OF _ assms(9,10,5)] by simp
  moreover have "search_loop (mem s) (\<lambda>d n. match_case (mem s) d src n slen) dest dmax =
      Some (map_option ((+) dest) (find_sub (map toupper (take slen ys)) (map toupper (take dmax xs))))"
    using search_loop_cstr [of "mem s" "\<lambda>d n. match_case (mem s) d src n slen" "map toupper (take slen ys)" toupper, OF _ _ assms(8)]
      match_case_cstr [OF _ assms(9,10,5)] p by simp
  ultimately show ?thesis
    using assms c span_loop_cstr [OF assms(8,9)]
    by (simp add: strstr_s_def strcasestr_s_def search_with_def strcspn_s_def rd8_def split: option.split)
qed

definition demo_strings :: heap where
  "demo_strings = put_bytes (put_bytes Map.empty 100 [97, 98, 67, 0]) 200 [66, 99, 0]"

lemma demo_strings_cstr: "cstr demo_strings 100 [97, 98, 67]" "cstr demo_strings 200 [66, 99]"
  by (simp_all add: demo_strings_def cstr_Cons cstr_Nil put_bytes_def)

theorem searches_meet_reference_witness:
  "strstr_s 100 4 200 2 True (demo_state demo_strings) = Some (Returned (ESNOTFND, None), demo_state demo_strings)
   \<and> strcasestr_s 100 4 200 2 True (demo_state demo_strings) = Some (Returned (EOK, Some 101), demo_state demo_strings)"
  using searches_meet_reference [of 100 4 200 2 "demo_state demo_strings" "[97, 98, 67]" "[66, 99]"] demo_strings_cstr
  by (simp add: RSIZE_MAX_STR_def find_sub.simps toupper_def)

text \<open>
  Fields that fill their object.  On a field of \<open>dmax\<close> characters without a terminator \<open>strnlen_s\<close>
  reads the byte behind the field, although at most \<open>dmax\<close> characters are to be accessed, and \<open>strcmpfld_s\<close>
  answers for two equal fields the difference of the bytes behind them instead of zero; neither
  returns when that byte belongs to no object.
\<close>

theorem fields_read_behind:
  assumes "dest \<noteq> NULL" "0 < dmax" "dmax \<le> RSIZE_MAX_STR" "src \<noteq> NULL"
    and "chars_at (mem s) dest xs" "chars_at (mem s) src xs" "length xs = dmax"
  shows "strnlen_s dest dmax s = (if mem s (dest + dmax) = None then None else Some (Returned dmax, s))
    \<and> strcmpfld_s dest dmax src True s =
        (case (mem s (dest + dmax), mem s (src + dmax)) of
           (Some d, Some c) \<Rightarrow> Some (Returned (EOK, Some (sint d - sint c)), s)
         | _ \<Rightarrow> None)"
proof -
  have len: "nlen_loop h a (length xs) = (if h (a + length xs) = None then None else Some (length xs))"
    if "chars_at h a xs" for h a
    using that by (induction xs arbitrary: a) (auto simp: chars_at_Cons rd8_def)
  have m: "mapped (mem s) dest dmax" "mapped (mem s) src dmax"
    using assms(5-7) by (auto simp: mapped_def chars_at_def)
  have "bytes_of (mem s) dest dmax = bytes_of (mem s) src dmax"
    using chars_at_bytes [OF assms(5)] chars_at_bytes [OF assms(6)] assms(7) by simp
  then show ?thesis
    using assms len [OF assms(5)] cmpfld_loop_equal [OF m]
    by (auto simp: strnlen_s_def strcmpfld_s_def compare_with_def char_diff_def rd8_def split: option.split)
qed

theorem fields_read_behind_witness:
  "strnlen_s 10 1 (demo_state [10 \<mapsto> 65, 20 \<mapsto> 65]) = None
   \<and> strcmpfld_s 10 1 20 True (demo_state [10 \<mapsto> 65, 11 \<mapsto> 1, 20 \<mapsto> 65, 21 \<mapsto> 3]) =
       Some (Returned (EOK, Some (- 2)), demo_state [10 \<mapsto> 65, 11 \<mapsto> 1, 20 \<mapsto> 65, 21 \<mapsto> 3])"
  using fields_read_behind [of 10 1 20 "demo_state [10 \<mapsto> 65, 20 \<mapsto> 65]" "[65]"]
    fields_read_behind [of 10 1 20 "demo_state [10 \<mapsto> 65, 11 \<mapsto> 1, 20 \<mapsto> 65, 21 \<mapsto> 3]" "[65]"]
  by (simp add: RSIZE_MAX_STR_def chars_at_Cons)

text \<open>
  The length and the comparison of null-terminated strings: \<open>strnlen_s\<close> measures the shorter of the string and
  its limit, and the indicator of \<open>strcmp_s\<close> is the difference at the first place where the strings
  differ when the limit covers the string.
\<close>

theorem strings_measured_and_compared:
  assumes "dest \<noteq> NULL" "0 < dmax" "dmax \<le> RSIZE_MAX_STR" "src \<noteq> NULL"
    and "cstr (mem s) dest xs" "cstr (mem s) src ys"
  shows "strnlen_s dest dmax s = Some (Returned (min dmax (length xs)), s)
    \<and> (length xs \<le> dmax \<longrightarrow> strcmp_s dest dmax src True s = Some (Returned (EOK, Some (text_diff xs ys)), s))"
  using assms nlen_loop_cstr [OF assms(5)] cmp_loop_cstr [OF assms(5,6)]
  by (simp add: strnlen_s_def strcmp_s_def compare_with_def)

end
