(* ===== verification/Safe_Str_Token.thy ===== *)
theory Safe_Str_Token
  imports Safe_Str_Search
begin

text \<open>
  \<open>strtok_s.c\<close>: one call takes the next token off a string.  The length and the context are cells of the
  caller; a call gets their values, None for a null pointer, and returns them as it leaves them.
\<close>

definition STRTOK_DELIM_MAX_LEN :: nat where
  "STRTOK_DELIM_MAX_LEN = 16"

text \<open>The scan of the delimiter list for one character; an empty list says nothing about it.\<close>

datatype delim = Delimiter | Other_char | Empty_list | Too_long

fun delim_scan :: "heap \<Rightarrow> byte \<Rightarrow> addr \<Rightarrow> nat \<Rightarrow> bool \<Rightarrow> delim option" where
  "delim_scan h c pt 0 seen =
     do { d \<leftarrow> rd8 h pt; Some (if d = 0 then if seen then Other_char else Empty_list else Too_long) }"
| "delim_scan h c pt (Suc slen) seen =
     do { d \<leftarrow> rd8 h pt;
          if d = 0 then Some (if seen then Other_char else Empty_list)
          else if c = d then Some Delimiter
          else delim_scan h c (pt + 1) slen True }"

datatype token_scan =
    Token_at addr addr nat
  | No_token nat
  | Failed string

text \<open>
  The first loop.  \<open>Token_at token dest dlen\<close>: the token and where the scan stands, behind its first
  character.
\<close>

fun token_start :: "heap \<Rightarrow> addr \<Rightarrow> addr \<Rightarrow> nat \<Rightarrow> token_scan option" where
  "token_start h src dest 0 =
     do { c \<leftarrow> rd8 h dest; Some (if c = 0 then No_token 0 else Failed ''strtok_s: dest is unterminated'') }"
| "token_start h src dest (Suc dlen) =
     do { c \<leftarrow> rd8 h dest;
          if c = 0 then Some (No_token (Suc dlen))
          else do { d \<leftarrow> delim_scan h c src STRTOK_DELIM_MAX_LEN False;
                    case d of
                      Too_long \<Rightarrow> Some (Failed ''strtok_s: src is unterminated'')
                    | Other_char \<Rightarrow> Some (Token_at dest (dest + 1) dlen)
                    | _ \<Rightarrow> token_start h src (dest + 1) dlen } }"

text \<open>The second loop: the delimiter behind the token, or the end of the string.\<close>

datatype token_end = Ends_at addr nat | Ends_string nat | Failed_end string

fun token_finish :: "heap \<Rightarrow> addr \<Rightarrow> addr \<Rightarrow> nat \<Rightarrow> token_end option" where
  "token_finish h src dest 0 =
     do { c \<leftarrow> rd8 h dest; Some (if c = 0 then Ends_string 0 else Failed_end ''strtok_s: dest is unterminated'') }"
| "token_finish h src dest (Suc dlen) =
     do { c \<leftarrow> rd8 h dest;
          if c = 0 then Some (Ends_string (Suc dlen))
          else do { d \<leftarrow> delim_scan h c src STRTOK_DELIM_MAX_LEN False;
                    case d of
                      Too_long \<Rightarrow> Some (Failed_end ''strtok_s: src is unterminated'')
                    | Delimiter \<Rightarrow> Some (Ends_at dest dlen)
                    | _ \<Rightarrow> token_finish h src (dest + 1) dlen } }"

text \<open>The token (null when there is none), \<open>*dmax\<close> and \<open>*ptr\<close>.\<close>

type_synonym token_result = "(addr \<times> nat option \<times> addr option) crun"

definition strtok_s :: "addr \<Rightarrow> nat option \<Rightarrow> addr \<Rightarrow> addr option \<Rightarrow> cstate \<Rightarrow> token_result" where
  "strtok_s dest dmax src ptr s =
     (case dmax of
        None \<Rightarrow> Some (str_fail ''strtok_s: dmax is NULL'' ESNULLP (NULL, dmax, ptr) s)
      | Some n \<Rightarrow>
          if n = 0 then Some (str_fail ''strtok_s: dmax is 0'' ESZEROL (NULL, dmax, ptr) s)
          else if n > RSIZE_MAX_STR
            then Some (str_fail ''strtok_s: dmax exceeds max'' ESLEMAX (NULL, dmax, ptr) s)
          else if src = NULL then Some (str_fail ''strtok_s: src is null'' ESNULLP (NULL, dmax, ptr) s)
          else (case ptr of
                  None \<Rightarrow> Some (str_fail ''strtok_s: ptr is null'' ESNULLP (NULL, dmax, ptr) s)
                | Some p \<Rightarrow>
                    do { t \<leftarrow> token_start (mem s) src (if dest = NULL then p else dest) n;
                         case t of
                           Failed msg \<Rightarrow> Some (str_fail msg ESUNTERM (NULL, dmax, Some NULL) s)
                         | No_token dlen \<Rightarrow> Some (Returned (NULL, Some dlen, ptr), s)
                         | Token_at token d dlen \<Rightarrow>
                             do { e \<leftarrow> token_finish (mem s) src d dlen;
                                  case e of
                                    Failed_end msg \<Rightarrow> Some (str_fail msg ESUNTERM (NULL, dmax, Some NULL) s)
                                  | Ends_string l \<Rightarrow> Some (Returned (token, Some l, ptr), s)
                                  | Ends_at d l \<Rightarrow>
                                      do { m \<leftarrow> wr8 (mem s) d 0;
                                           Some (Returned (token, Some l, Some (d + 1)), s\<lparr>mem := m\<rparr>) } } }))"

subsection \<open>The scans on null-terminated strings\<close>

lemma delim_scan_cstr:
  "cstr h pt ys \<Longrightarrow> length ys \<le> slen \<Longrightarrow> delim_scan h c pt slen seen =
     Some (if c \<in> set ys then Delimiter else if seen \<or> ys \<noteq> [] then Other_char else Empty_list)"
proof (induction slen arbitrary: pt ys seen)
  case 0
  then show ?case by (simp add: rd8_def cstr_Nil)
next
  case (Suc slen)
  then show ?case by (cases ys) (auto simp: rd8_def cstr_Cons cstr_Nil)
qed

text \<open>\<open>pre\<close> are the delimiters in front, \<open>tok\<close> is the token, \<open>rest\<close> begins with a delimiter.\<close>

definition delimiters :: "heap \<Rightarrow> addr \<Rightarrow> byte list \<Rightarrow> bool" where
  "delimiters h src ys \<longleftrightarrow> cstr h src ys \<and> ys \<noteq> [] \<and> length ys \<le> STRTOK_DELIM_MAX_LEN"

lemma delim_scan_list:
  "delimiters h src ys \<Longrightarrow> delim_scan h c src STRTOK_DELIM_MAX_LEN False =
     Some (if c \<in> set ys then Delimiter else Other_char)"
  using delim_scan_cstr [of h src ys STRTOK_DELIM_MAX_LEN c False] by (auto simp: delimiters_def)

lemma token_start_skip:
  "delimiters h src ys \<Longrightarrow> chars_at h dest pre \<Longrightarrow> set pre \<subseteq> set ys \<Longrightarrow> length pre \<le> n \<Longrightarrow>
   token_start h src dest n = token_start h src (dest + length pre) (n - length pre)"
proof (induction pre arbitrary: dest n)
  case (Cons c pre)
  then obtain m where "n = Suc m" by (cases n) auto
  with Cons show ?case by (simp add: chars_at_Cons rd8_def delim_scan_list)
qed simp

lemma token_finish_skip:
  "delimiters h src ys \<Longrightarrow> chars_at h dest tok \<Longrightarrow> set tok \<inter> set ys = {} \<Longrightarrow> length tok \<le> n \<Longrightarrow>
   token_finish h src dest n = token_finish h src (dest + length tok) (n - length tok)"
proof (induction tok arbitrary: dest n)
  case (Cons c tok)
  then obtain m where "n = Suc m" by (cases n) auto
  with Cons show ?case by (simp add: chars_at_Cons rd8_def delim_scan_list)
qed simp

lemma cstr_append_iff: "cstr h a (xs @ ys) \<longleftrightarrow> chars_at h a xs \<and> cstr h (a + length xs) ys"
  by (auto simp: cstr_def chars_at_append add.assoc)

lemma token_start_found:
  assumes "delimiters h src ys" "cstr h dest (pre @ c # follow)" "set pre \<subseteq> set ys" "c \<notin> set ys" "length pre < n"
  shows "token_start h src dest n = Some (Token_at (dest + length pre) (dest + length pre + 1) (n - length pre - 1))"
proof -
  obtain m where m: "n - length pre = Suc m" using assms(5) by (cases "n - length pre") auto
  show ?thesis
    using assms token_start_skip [OF assms(1) _ assms(3), of dest n]
    by (simp add: cstr_append_iff cstr_Cons m rd8_def delim_scan_list)
qed

lemma token_start_none:
  assumes "delimiters h src ys" "cstr h dest pre" "set pre \<subseteq> set ys" "length pre \<le> n"
  shows "token_start h src dest n = Some (No_token (n - length pre))"
proof -
  have "h (dest + length pre) = Some 0" "chars_at h dest pre" using assms(2) by (simp_all add: cstr_def)
  then show ?thesis
    using token_start_skip [OF assms(1) _ assms(3,4)] by (cases "n - length pre") (simp_all add: rd8_def)
qed

lemma token_finish_delim:
  assumes "delimiters h src ys" "cstr h dest (tok @ d # rest)" "set tok \<inter> set ys = {}" "d \<in> set ys" "length tok < n"
  shows "token_finish h src dest n = Some (Ends_at (dest + length tok) (n - length tok - 1))"
proof -
  obtain m where m: "n - length tok = Suc m" using assms(5) by (cases "n - length tok") auto
  show ?thesis
    using assms token_finish_skip [OF assms(1) _ assms(3), of dest n]
    by (simp add: cstr_append_iff cstr_Cons m rd8_def delim_scan_list)
qed

lemma token_finish_end:
  assumes "delimiters h src ys" "cstr h dest tok" "set tok \<inter> set ys = {}" "length tok \<le> n"
  shows "token_finish h src dest n = Some (Ends_string (n - length tok))"
proof -
  have "h (dest + length tok) = Some 0" "chars_at h dest tok" using assms(2) by (simp_all add: cstr_def)
  then show ?thesis
    using token_finish_skip [OF assms(1) _ assms(3,4)] by (cases "n - length tok") (simp_all add: rd8_def)
qed

subsection \<open>Properties\<close>

text \<open>
  One call on a string that begins with the delimiters \<open>pre\<close>, a token and a delimiter: it returns the token, which
  is now a string of its own, and leaves the context on the rest of the string and the length that remains;
  nothing but the one delimiter is overwritten.
\<close>

theorem strtok_takes_token:
  assumes ys: "delimiters (mem s) src ys" and src: "src \<noteq> NULL" and n: "n \<le> RSIZE_MAX_STR"
    and str: "cstr (mem s) a (pre @ tok @ d # rest)" and a: "a = (if dest = NULL then p else dest)"
    and parts: "set pre \<subseteq> set ys" "tok \<noteq> []" "set tok \<inter> set ys = {}" "d \<in> set ys"
    and room: "length pre + length tok < n"
  shows "\<exists>s'. strtok_s dest (Some n) src (Some p) s =
      Some (Returned (a + length pre, Some (n - (length pre + length tok + 1)), Some (a + length pre + length tok + 1)), s')
    \<and> cstr (mem s') (a + length pre) tok \<and> cstr (mem s') (a + length pre + length tok + 1) rest
    \<and> s' = s\<lparr>mem := (mem s)(a + length pre + length tok \<mapsto> 0)\<rparr>"
proof -
  obtain c tok' where tok: "tok = c # tok'" using parts(2) by (cases tok) auto
  let ?t = "a + length pre" and ?d = "a + length pre + length tok"
  have c: "c \<notin> set ys" "set tok' \<inter> set ys = {}" using parts(3) by (auto simp: tok)
  have start: "token_start (mem s) src a n = Some (Token_at ?t (?t + 1) (n - length pre - 1))"
    using token_start_found [OF ys _ parts(1) c(1), of a "tok' @ d # rest" n] str room by (simp add: tok)
  have "cstr (mem s) (?t + 1) (tok' @ d # rest)" using str by (simp add: tok cstr_append_iff cstr_Cons)
  then have fin: "token_finish (mem s) src (?t + 1) (n - length pre - 1) = Some (Ends_at ?d (n - (length pre + length tok + 1)))"
    using token_finish_delim [OF ys _ c(2) parts(4), of "?t + 1" rest "n - length pre - 1"] room by (simp add: tok)
  have d: "mem s ?d = Some d" "chars_at (mem s) ?t tok" "cstr (mem s) (?d + 1) rest"
    using str by (simp_all add: cstr_append_iff cstr_Cons)
  let ?m = "(mem s)(?d \<mapsto> 0)"
  have "cstr ?m ?t tok" using d(2) by (simp add: cstr_def chars_at_def)
  moreover have "cstr ?m (?d + 1) rest" using d(3) by (simp add: cstr_def chars_at_def)
  moreover have "0 < n" using room by simp
  ultimately show ?thesis
    using start fin d(1) src n by (simp add: strtok_s_def a wr8_def)
qed

definition demo_tokens :: heap where
  "demo_tokens = put_bytes (put_bytes Map.empty 100 [44, 97, 98, 44, 99, 0]) 200 [44, 0]"

lemma demo_tokens_cstr: "cstr demo_tokens 100 ([44] @ [97, 98] @ 44 # [99])" "delimiters demo_tokens 200 [44]"
  by (simp_all add: demo_tokens_def delimiters_def STRTOK_DELIM_MAX_LEN_def cstr_Cons cstr_Nil put_bytes_def)

theorem strtok_takes_token_witness:
  "\<exists>s'. strtok_s 100 (Some 6) 200 (Some 0) (demo_state demo_tokens) = Some (Returned (101, Some 2, Some 104), s')
     \<and> cstr (mem s') 101 [97, 98] \<and> cstr (mem s') 104 [99]"
  using strtok_takes_token [of "demo_state demo_tokens" 200 "[44]" 6 100 "[44]" "[97, 98]" 44 "[99]" 100 0] demo_tokens_cstr
  by (auto simp: RSIZE_MAX_STR_def)

text \<open>
  The last token.  When the token reaches to the end of the string the context is left where it was, so that the
  next call, which starts from the context, returns the same token again, as often as the length that
  remains allows; a null pointer was to be returned.
\<close>

theorem strtok_repeats_last_token:
  assumes ys: "delimiters (mem s) src ys" and src: "src \<noteq> NULL" and n: "n \<le> RSIZE_MAX_STR"
    and str: "cstr (mem s) p (pre @ tok)" and parts: "set pre \<subseteq> set ys" "tok \<noteq> []" "set tok \<inter> set ys = {}"
    and room: "2 * (length pre + length tok) \<le> n"
  shows "strtok_s NULL (Some n) src (Some p) s =
      Some (Returned (p + length pre, Some (n - (length pre + length tok)), Some p), s)
    \<and> strtok_s NULL (Some (n - (length pre + length tok))) src (Some p) s =
      Some (Returned (p + length pre, Some (n - 2 * (length pre + length tok)), Some p), s)"
proof -
  have one: "strtok_s NULL (Some n) src (Some p) s =
      Some (Returned (p + length pre, Some (n - (length pre + length tok)), Some p), s)"
    if "length pre + length tok \<le> n" "n \<le> RSIZE_MAX_STR" for n
  proof -
    obtain c tok' where tok: "tok = c # tok'" using parts(2) by (cases tok) auto
    have c: "c \<notin> set ys" "set tok' \<inter> set ys = {}" using parts(3) by (auto simp: tok)
    have start: "token_start (mem s) src p n = Some (Token_at (p + length pre) (p + length pre + 1) (n - length pre - 1))"
      using token_start_found [OF ys _ parts(1) c(1), of p tok' n] str that by (simp add: tok)
    have "cstr (mem s) (p + length pre + 1) tok'" using str by (simp add: tok cstr_append_iff cstr_Cons)
    then have "token_finish (mem s) src (p + length pre + 1) (n - length pre - 1) = Some (Ends_string (n - (length pre + length tok)))"
      using token_finish_end [OF ys _ c(2), of "p + length pre + 1" "n - length pre - 1"] that by (simp add: tok)
    then show ?thesis using start src that by (simp add: strtok_s_def tok)
  qed
  show ?thesis using one [of n] one [of "n - (length pre + length tok)"] n room by (simp add: mult_2)
qed

theorem strtok_repeats_last_token_witness:
  "strtok_s NULL (Some 2) 200 (Some 104) (demo_state demo_tokens) =
     Some (Returned (104, Some 1, Some 104), demo_state demo_tokens)
   \<and> strtok_s NULL (Some 1) 200 (Some 104) (demo_state demo_tokens) =
     Some (Returned (104, Some 0, Some 104), demo_state demo_tokens)"
  using strtok_repeats_last_token [of "demo_state demo_tokens" 200 "[44]" 2 104 "[]" "[99]"] demo_tokens_cstr
  by (simp add: RSIZE_MAX_STR_def cstr_Cons)

end
