(* ===== verification/Safe_Str_Field.thy ===== *)
theory Safe_Str_Field
  imports Safe_Str_Copy
begin

text \<open>
  The copies that return the end of the string or fill a field: \<open>stpcpy_s.c\<close>, \<open>stpncpy_s.c\<close> and
  \<open>strcpyfldin_s.c\<close>.  The pointer to the error code is never checked, so it is taken to be valid; the
  code is returned beside the pointer.  Lengths have 64 bits.
\<close>

subsection \<open>\<open>stpcpy_s\<close>\<close>

fun returning :: "'b \<Rightarrow> ('a outcome \<times> cstate) \<Rightarrow> (('b \<times> 'a) outcome \<times> cstate)" where
  "returning p (Returned e, s) = (Returned (p, e), s)"
| "returning p (Aborted, s) = (Aborted, s)"

text \<open>With null slack \<open>dest\<close> has run to the end of the buffer when it is returned.\<close>

fun copy_end_pointer :: "bool \<Rightarrow> copy_end \<Rightarrow> addr" where
  "copy_end_pointer slack (Hit_null h dest dmax) = (if slack then dest + dmax else dest)"
| "copy_end_pointer slack e = NULL"

definition stpcpy_s :: "bool \<Rightarrow> addr \<Rightarrow> nat \<Rightarrow> addr \<Rightarrow> cstate \<Rightarrow> (addr \<times> errno) crun" where
  "stpcpy_s slack dest dmax src s =
     (if dest = NULL then Some (str_fail ''stpcpy_s: dest is null'' ESNULLP (NULL, ESNULLP) s)
      else if dmax = 0 then Some (str_fail ''stpcpy_s: dmax is 0'' ESZEROL (NULL, ESZEROL) s)
      else if dmax > RSIZE_MAX_STR
        then Some (str_fail ''stpcpy_s: dmax exceeds max'' ESLEMAX (NULL, ESLEMAX) s)
      else if src = NULL
        then do { m \<leftarrow> terminate slack (mem s) dest dmax;
                  Some (str_fail ''stpcpy_s: src is null'' ESNULLP (NULL, ESNULLP) (s\<lparr>mem := m\<rparr>)) }
      else if dest = src
        then do { e \<leftarrow> find_end False NULL (mem s) dest dmax;
                  case e of
                    Found d n \<Rightarrow>
                      do { m \<leftarrow> slack_fill slack (mem s) d n;
                           Some (Returned (if slack then d + n else d, EOK), s\<lparr>mem := m\<rparr>) }
                  | _ \<Rightarrow> handle_error slack dest dmax ''stpcpy_s: not enough space for src'' ESNOSPC
                           (NULL, ESNOSPC) s }
      else do { e \<leftarrow> copy_loop (dest < src) (if dest < src then src else dest) (mem s) dest src dmax;
                map_option (returning (copy_end_pointer slack e)) (finish_copy slack ''stpcpy_s'' dest dmax e s) })"

subsection \<open>\<open>stpncpy_s\<close>\<close>

definition sub64 :: "nat \<Rightarrow> nat \<Rightarrow> nat" where
  "sub64 a b = unat ((of_nat a :: u64) - of_nat b)"

text \<open>The fill at the end of the text; \<open>dest\<close> is returned as it is.\<close>

definition stpn_fill :: "bool \<Rightarrow> heap \<Rightarrow> addr \<Rightarrow> nat \<Rightarrow> nat \<Rightarrow> heap option" where
  "stpn_fill slack h dest dmax smax =
     do { m \<leftarrow> null_fill h dest smax; slack_fill slack m (dest + smax) (sub64 dmax smax) }"

text \<open>The loops; None inside is that \<open>dmax\<close> is used up.\<close>

type_synonym stpn_end = "heap \<times> addr option"

fun stpn_same :: "bool \<Rightarrow> heap \<Rightarrow> addr \<Rightarrow> nat \<Rightarrow> nat \<Rightarrow> stpn_end option" where
  "stpn_same slack h dest 0 smax = Some (h, None)"
| "stpn_same slack h dest (Suc dmax) smax =
     do { c \<leftarrow> rd8 h dest;
          if c = 0 then do { m \<leftarrow> stpn_fill slack h dest (Suc dmax) smax; Some (m, Some dest) }
          else do { m \<leftarrow> (if sub64 smax 1 = 0 then wr8 h (dest + 1) 0 else Some h);
                    stpn_same slack m (dest + 1) dmax (sub64 smax 1) } }"

fun stpn_loop :: "bool \<Rightarrow> heap \<Rightarrow> addr \<Rightarrow> addr \<Rightarrow> nat \<Rightarrow> nat \<Rightarrow> stpn_end option" where
  "stpn_loop slack h dest src 0 smax = Some (h, None)"
| "stpn_loop slack h dest src (Suc dmax) smax =
     do { c \<leftarrow> rd8 h src;
          h1 \<leftarrow> wr8 h dest c;
          h2 \<leftarrow> (if smax = 0 then wr8 h1 dest 0 else Some h1);
          if smax = 0 \<or> c = 0
          then do { m \<leftarrow> stpn_fill slack h2 dest (Suc dmax) smax; Some (m, Some dest) }
          else stpn_loop slack h2 (dest + 1) (src + 1) dmax (sub64 smax 1) }"

definition stpn_finish :: "bool \<Rightarrow> addr \<Rightarrow> nat \<Rightarrow> stpn_end \<Rightarrow> cstate \<Rightarrow> (addr \<times> errno) crun" where
  "stpn_finish slack orig_dest orig_dmax e s =
     (case e of
        (m, Some p) \<Rightarrow> Some (Returned (p, EOK), s\<lparr>mem := m\<rparr>)
      | (m, None) \<Rightarrow> handle_error slack orig_dest orig_dmax ''stpncpy_s: not enough space for src'' ESNOSPC
                       (NULL, ESNOSPC) (s\<lparr>mem := m\<rparr>))"

text \<open>A refusal that clears the first character after the handler has been called.\<close>

definition fail_clear :: "string \<Rightarrow> errno \<Rightarrow> addr \<Rightarrow> cstate \<Rightarrow> (addr \<times> errno) crun" where
  "fail_clear msg e dest s =
     (case str_fail msg e (NULL, e) s of
        (Returned r, s1) \<Rightarrow> do { m \<leftarrow> wr8 (mem s1) dest 0; Some (Returned r, s1\<lparr>mem := m\<rparr>) }
      | (Aborted, s1) \<Rightarrow> Some (Aborted, s1))"

definition stpncpy_s :: "bool \<Rightarrow> addr \<Rightarrow> nat \<Rightarrow> addr \<Rightarrow> nat \<Rightarrow> cstate \<Rightarrow> (addr \<times> errno) crun" where
  "stpncpy_s slack dest dmax src smax s =
     (if dest = NULL then Some (str_fail ''stpncpy_s: dest is null'' ESNULLP (NULL, ESNULLP) s)
      else if src = NULL then fail_clear ''stpncpy_s: src is null'' ESNULLP dest s
      else if dmax = 0 then Some (str_fail ''stpncpy_s: dmax is 0'' ESZEROL (NULL, ESZEROL) s)
      else if dmax > RSIZE_MAX_STR
        then Some (str_fail ''stpncpy_s: dmax exceeds max'' ESLEMAX (NULL, ESLEMAX) s)
      else if smax > RSIZE_MAX_STR
        then Some (str_fail ''stpncpy_s: smax exceeds max'' ESLEMAX (NULL, ESLEMAX) s)
      else if dmax < smax + 1 then fail_clear ''stpncpy_s: dmax too short for smax'' ESNOSPC dest s
      else if src < dest \<and> src + smax \<ge> dest
        then fail_clear ''stpncpy_s: src+smax overlaps into dest'' ESOVRLP dest s
      else if dest < src \<and> dest + smax \<ge> src
        then fail_clear ''stpncpy_s: dest+smax overlaps into src'' ESOVRLP dest s
      else if slack \<and> src < dest \<and> src + dmax \<ge> dest
        then Some (str_fail ''stpncpy_s: src+dmax overlaps into dest'' ESOVRLP (NULL, ESOVRLP) s)
      else if slack \<and> dest < src \<and> dest + dmax \<ge> src
        then Some (str_fail ''stpncpy_s: dest+dmax overlaps into src'' ESOVRLP (NULL, ESOVRLP) s)
      else if dest = src
        then do { e \<leftarrow> stpn_same slack (mem s) dest dmax smax; stpn_finish slack dest dmax e s }
      else do { e \<leftarrow> stpn_loop slack (mem s) dest src dmax smax; stpn_finish slack dest dmax e s })"

subsection \<open>\<open>strcpyfldin_s\<close>\<close>

text \<open>Where the loop stands at its end, or None when it ran into the bumper.\<close>

fun fldin_loop :: "bool \<Rightarrow> addr \<Rightarrow> heap \<Rightarrow> addr \<Rightarrow> addr \<Rightarrow> nat \<Rightarrow> (heap \<times> (addr \<times> nat) option) option" where
  "fldin_loop below bumper h dest src 0 = Some (h, Some (dest, 0))"
| "fldin_loop below bumper h dest src (Suc dmax) =
     do { c \<leftarrow> rd8 h src;
          if c = 0 then Some (h, Some (dest, Suc dmax))
          else if (if below then dest else src) = bumper then Some (h, None)
          else do { h' \<leftarrow> wr8 h dest c; fldin_loop below bumper h' (dest + 1) (src + 1) dmax } }"

definition clear_and_fail :: "addr \<Rightarrow> nat \<Rightarrow> string \<Rightarrow> errno \<Rightarrow> cstate \<Rightarrow> errno crun" where
  "clear_and_fail dest dmax msg e s =
     do { m \<leftarrow> null_fill (mem s) dest dmax; Some (str_fail msg e e (s\<lparr>mem := m\<rparr>)) }"

definition strcpyfldin_s :: "addr \<Rightarrow> nat \<Rightarrow> addr \<Rightarrow> nat \<Rightarrow> cstate \<Rightarrow> errno crun" where
  "strcpyfldin_s dest dmax src slen s =
     (if dest = NULL then Some (str_fail ''strcpyfldin_s: dest is null'' ESNULLP ESNULLP s)
      else if dmax = 0 then Some (str_fail ''strcpyfldin_s: dmax is 0'' ESZEROL ESZEROL s)
      else if dmax > RSIZE_MAX_STR
        then Some (str_fail ''strcpyfldin_s: dmax exceeds max'' ESLEMAX ESLEMAX s)
      else if src = NULL then clear_and_fail dest dmax ''strcpyfldin_s: src is null'' ESNULLP s
      else if slen = 0 then clear_and_fail dest dmax ''strcpyfldin_s: slen is 0'' ESZEROL s
      else if slen > dmax then clear_and_fail dest dmax ''strcpyfldin_s: slen exceeds max'' ESLEMAX s
      else do { (h, e) \<leftarrow> fldin_loop (dest < src) (if dest < src then src else dest) (mem s) dest src dmax;
                case e of
                  None \<Rightarrow> clear_and_fail dest dmax ''strcpyfldin_s: overlapping objects'' ESOVRLP (s\<lparr>mem := h\<rparr>)
                | Some (d, n) \<Rightarrow> do { m \<leftarrow> null_fill h d n; Some (Returned EOK, s\<lparr>mem := m\<rparr>) } })"

subsection \<open>The field copy\<close>

lemma cstr_keeps_src:
  "tracks below bumper dest src g \<Longrightarrow> length (x # xs) < g \<Longrightarrow> cstr h src (x # xs) \<Longrightarrow> cstr (h(dest \<mapsto> v)) (Suc src) xs"
  by (auto simp: tracks_def cstr_def chars_at_def nth_Cons split: if_splits)

lemma fldin_loop_cstr:
  "cstr h src xs \<Longrightarrow> length xs < g \<Longrightarrow> tracks below bumper dest src g \<Longrightarrow> mapped h dest n \<Longrightarrow>
   fldin_loop below bumper h dest src n =
     Some (put_bytes h dest (take n xs), Some (dest + min n (length xs), n - length xs))"
proof (induction n arbitrary: h dest src xs g)
  case (Suc n)
  show ?case
  proof (cases xs)
    case Nil
    then show ?thesis using Suc.prems by (simp add: cstr_def rd8_def)
  next
    case (Cons x xs')
    obtain g' where g: "g = Suc g'" using Suc.prems(2) by (cases g) auto
    have x: "h src = Some x" "x \<noteq> 0" using Suc.prems(1) by (simp_all add: Cons cstr_Cons)
    have t: "tracks below bumper (dest + 1) (src + 1) g'" "(if below then dest else src) \<noteq> bumper"
      using tracks_Suc Suc.prems(3) unfolding g by blast+
    have c: "cstr (h(dest \<mapsto> x)) (Suc src) xs'"
      using cstr_keeps_src [OF Suc.prems(3)] Suc.prems(1,2) by (simp add: Cons)
    have m: "mapped (h(dest \<mapsto> x)) (Suc dest) n" "h dest \<noteq> None"
      using Suc.prems(4) by (simp_all add: mapped_Suc mapped_put_bytes flip: put_bytes_single)
    have "fldin_loop below bumper h dest src (Suc n) = fldin_loop below bumper (h(dest \<mapsto> x)) (Suc dest) (Suc src) n"
      using x t(2) m(2) by (simp add: rd8_def wr8_mapped)
    then show ?thesis
      using Suc.IH [OF c _ _ m(1), of g'] t(1) Suc.prems(2) by (simp add: Cons g put_bytes_Cons del: fun_upd_apply fldin_loop.simps)
  qed
qed simp

text \<open>
  \<open>strcpyfldin_s\<close> fills the whole field: the text, cut at \<open>dmax\<close> characters, and zeros behind it.  The limit
  \<open>slen\<close> of the characters to copy has no influence once it has passed the checks, although at most
  \<open>slen\<close> characters are to be copied.
\<close>

theorem strcpyfldin_s_ignores_slen:
  assumes w: "writable (mem s) dest dmax" and src: "src \<noteq> NULL" "cstr (mem s) src xs" "length xs < gap dest src"
    and slen: "0 < slen" "slen \<le> dmax"
  shows "strcpyfldin_s dest dmax src slen s =
    Some (Returned EOK, s\<lparr>mem := put_bytes (mem s) dest (take dmax xs @ replicate (dmax - length xs) 0)\<rparr>)"
proof -
  let ?k = "min dmax (length xs)"
  have m: "mapped (mem s) dest dmax" using w by (simp add: writable_def)
  have loop: "fldin_loop (dest < src) (if dest < src then src else dest) (mem s) dest src dmax =
      Some (put_bytes (mem s) dest (take dmax xs), Some (dest + ?k, dmax - length xs))"
    by (rule fldin_loop_cstr [OF src(2,3) tracks_start m])
  have "mapped (put_bytes (mem s) dest (take dmax xs)) (dest + ?k) (dmax - length xs)"
    using mapped_sub [OF m, of ?k "dmax - length xs"] by (simp add: mapped_put_bytes)
  then have "null_fill (put_bytes (mem s) dest (take dmax xs)) (dest + ?k) (dmax - length xs) =
      Some (put_bytes (mem s) dest (take dmax xs @ replicate (dmax - length xs) 0))"
    by (simp add: null_fill_ok put_bytes_append min.commute)
  then show ?thesis
    using w src(1) slen loop by (simp add: strcpyfldin_s_def writable_def)
qed

definition demo_field :: heap where
  "demo_field = put_bytes (put_bytes Map.empty 100 [1, 1, 1, 1]) 200 [97, 98, 0]"

lemma demo_field_facts: "writable demo_field 100 4" "cstr demo_field 200 [97, 98]"
proof -
  have "mapped (put_bytes Map.empty 100 [1, 1, 1, 1 :: byte]) 100 4" by simp
  then show "writable demo_field 100 4"
    by (simp add: demo_field_def writable_def RSIZE_MAX_STR_def mapped_put_bytes)
  show "cstr demo_field 200 [97, 98]" unfolding demo_field_def
    using cstr_put_bytes [of "[97, 98]" "put_bytes Map.empty 100 [1, 1, 1, 1]" 200] by simp
qed

theorem strcpyfldin_s_ignores_slen_witness:
  "strcpyfldin_s 100 4 200 1 (demo_state demo_field) =
     Some (Returned EOK, (demo_state demo_field)\<lparr>mem := put_bytes demo_field 100 [97, 98, 0, 0]\<rparr>)"
  using strcpyfldin_s_ignores_slen [of "demo_state demo_field" 100 4 200 "[97, 98]" 1] demo_field_facts
  by (simp add: gap_def numeral_eq_Suc)

subsection \<open>The end pointers\<close>

text \<open>
  \<open>stpcpy_s\<close> writes what \<open>strcpy_s\<close> writes, and returns the terminator of the copy when slack is not
  nulled; with null slack the pointer it returns stands behind the whole buffer, although it is to point
  to the terminator.
\<close>

theorem stpcpy_s_end:
  assumes w: "writable (mem s) dest dmax" and src: "src \<noteq> NULL" "cstr (mem s) src xs"
    and room: "length xs < dmax" "length xs < gap dest src"
  shows "stpcpy_s slack dest dmax src s =
      Some (Returned (if slack then dest + dmax else dest + length xs, EOK),
            s\<lparr>mem := put_bytes (mem s) dest (padded slack dmax xs)\<rparr>)
    \<and> strcpy_s slack dest dmax src s = Some (Returned EOK, s\<lparr>mem := put_bytes (mem s) dest (padded slack dmax xs)\<rparr>)"
proof -
  have m: "mapped (mem s) dest dmax" using w by (simp add: writable_def)
  have ne: "dest \<noteq> src" using room(2) by (auto simp: gap_def)
  let ?e = "copy_result False (mem s) dest dmax (gap dest src) xs"
  have loop: "copy_loop (dest < src) (if dest < src then src else dest) (mem s) dest src dmax = Some ?e"
    by (rule copy_loop_result [OF src(2) tracks_start m])
  have fin: "finish_copy slack name dest dmax ?e s = Some (Returned EOK, s\<lparr>mem := put_bytes (mem s) dest (padded slack dmax xs)\<rparr>)" for name
    using finish_copy_effect [OF m, of "[]" slack name False "gap dest src" xs] w room
    by (auto simp: writable_def bytes_of_def string_effect_def text_verdict_def)
  have p: "copy_end_pointer slack ?e = (if slack then dest + dmax else dest + length xs)"
    using room by (simp add: copy_result_def)
  show ?thesis
    using w src(1) ne loop fin p by (simp add: stpcpy_s_def strcpy_s_def writable_def)
qed

theorem stpcpy_s_end_witness:
  "stpcpy_s True 100 4 200 (demo_state demo_field) =
     Some (Returned (104, EOK), (demo_state demo_field)\<lparr>mem := put_bytes demo_field 100 [97, 98, 0, 0]\<rparr>)"
  using stpcpy_s_end [of "demo_state demo_field" 100 4 200 "[97, 98]" True] demo_field_facts
  by (simp add: gap_def numeral_eq_Suc padded_def)

subsection \<open>\<open>stpncpy_s\<close>\<close>

lemma sub64_less: "b \<le> a \<Longrightarrow> a < 2 ^ 64 \<Longrightarrow> sub64 a b = a - b"
  by (simp add: sub64_def unat_sub unat_of_nat take_bit_nat_eq_self word_le_nat_alt)

lemma sub64_wrap: "sub64 0 1 = 2 ^ 64 - 1"
  by (simp add: sub64_def unsigned_minus_1_eq_mask mask_eq_exp_minus_1)

lemma stpn_fill_ok:
  "mapped h dest dmax \<Longrightarrow> smax \<le> dmax \<Longrightarrow> dmax < 2 ^ 64 \<Longrightarrow>
   stpn_fill slack h dest dmax smax = Some (put_bytes h dest (replicate (if slack then dmax else smax) 0))"
proof -
  assume m: "mapped h dest dmax" and le: "smax \<le> dmax" "dmax < 2 ^ 64"
  have a: "null_fill h dest smax = Some (put_bytes h dest (replicate smax 0))"
    using m le(1) by (intro null_fill_ok) (rule mapped_mono)
  have "mapped (put_bytes h dest (replicate smax 0)) (dest + smax) (dmax - smax)"
    using mapped_sub [OF m, of smax "dmax - smax"] le(1) by simp
  then have "null_fill (put_bytes h dest (replicate smax 0)) (dest + smax) (dmax - smax) =
      Some (put_bytes h dest (replicate smax 0 @ replicate (dmax - smax) 0))"
    by (simp add: null_fill_ok put_bytes_append)
  then show ?thesis
    using a le by (simp add: stpn_fill_def sub64_less slack_fill_def flip: replicate_add)
qed

text \<open>
  What \<open>stpncpy_s\<close> copies: the first \<open>smax\<close> characters of the source, or less up to its terminator; the
  character behind them is read, too.
\<close>

definition span_text :: "heap \<Rightarrow> addr \<Rightarrow> nat \<Rightarrow> byte list \<Rightarrow> bool" where
  "span_text h src smax xs \<longleftrightarrow> length xs \<le> smax \<and> chars_at h src xs
     \<and> (if length xs < smax then h (src + length xs) = Some 0 else h (src + length xs) \<noteq> None)"

lemma span_text_Cons:
  "span_text h src (Suc smax) (x # xs) \<longleftrightarrow> h src = Some x \<and> x \<noteq> 0 \<and> span_text h (Suc src) smax xs"
  by (auto simp: span_text_def chars_at_Cons)

lemma span_text_other:
  "span_text h src smax xs \<Longrightarrow> dest < src \<or> src + smax < dest \<Longrightarrow> span_text (h(dest \<mapsto> v)) src smax xs"
  by (auto simp: span_text_def chars_at_def)

definition zeros :: "bool \<Rightarrow> nat \<Rightarrow> nat \<Rightarrow> nat \<Rightarrow> byte list" where
  "zeros slack dmax smax len = replicate (if slack then dmax - len else max 1 (smax - len)) 0"

lemma stpn_loop_ok:
  "span_text h src smax xs \<Longrightarrow> dest + smax < src \<or> src + smax < dest \<Longrightarrow> mapped h dest dmax \<Longrightarrow> smax < dmax \<Longrightarrow>
   dmax < 2 ^ 64 \<Longrightarrow> stpn_loop slack h dest src dmax smax =
     Some (put_bytes h dest (xs @ zeros slack dmax smax (length xs)), Some (dest + length xs))"
proof (induction xs arbitrary: h dest src dmax smax)
  case Nil
  obtain n where n: "dmax = Suc n" using Nil.prems(4) by (cases dmax) auto
  obtain c where c: "h src = Some c" "smax = 0 \<or> c = 0" using Nil.prems(1) by (auto simp: span_text_def split: if_splits)
  have d: "h dest \<noteq> None" using Nil.prems(3) by (simp add: n mapped_Suc)
  have m: "mapped (h(dest \<mapsto> 0)) dest dmax" using Nil.prems(3) by (simp add: mapped_put_bytes flip: put_bytes_single)
  have "put_bytes (h(dest \<mapsto> 0)) dest (replicate k 0) = put_bytes h dest (replicate (max 1 k) 0)" for k
    by (cases k) (simp_all add: put_bytes_Cons)
  then show ?case
    using c d stpn_fill_ok [OF m _ Nil.prems(5), of smax slack] Nil.prems(4)
    by (cases "smax = 0") (auto simp: n rd8_def wr8_mapped zeros_def)
next
  case (Cons x xs)
  obtain n where n: "dmax = Suc n" using Cons.prems(4) by (cases dmax) auto
  obtain k where k: "smax = Suc k" using Cons.prems(1) by (cases smax) (auto simp: span_text_def)
  have x: "h src = Some x" "x \<noteq> 0" "span_text h (Suc src) k xs" using Cons.prems(1) by (simp_all add: k span_text_Cons)
  have d: "h dest \<noteq> None" using Cons.prems(3) by (simp add: n mapped_Suc)
  have m: "mapped (h(dest \<mapsto> x)) (Suc dest) n" using Cons.prems(3) by (simp add: n mapped_Suc mapped_put_bytes flip: put_bytes_single)
  have "span_text (h(dest \<mapsto> x)) (Suc src) k xs"
    using x(3) Cons.prems(2) by (intro span_text_other) (auto simp: k)
  moreover have "sub64 smax 1 = k" using Cons.prems(4,5) by (simp add: k sub64_less)
  moreover have "put_bytes (h(dest \<mapsto> x)) (Suc dest) (xs @ zeros slack n k (length xs)) =
      put_bytes h dest (x # xs @ zeros slack dmax smax (Suc (length xs)))"
    by (simp add: put_bytes_Cons n k zeros_def)
  moreover have "Suc dest + k < Suc src \<or> Suc src + k < Suc dest" "k < n" "n < 2 ^ 64"
    using Cons.prems(2,4,5) by (auto simp: n k)
  ultimately show ?case
    using Cons.IH [of "h(dest \<mapsto> x)" "Suc src" k "Suc dest" n] x d m
    by (simp add: n k rd8_def wr8_mapped del: fun_upd_apply add_Suc)
qed

text \<open>
  \<open>stpncpy_s\<close> on two buffers that are far enough apart: the first \<open>smax\<close> characters of the source with zeros
  behind them, at least one, up to \<open>smax\<close> characters or up to the end of the buffer with null slack, and a
  pointer to the first of the zeros.
\<close>

theorem stpncpy_s_copies:
  assumes w: "writable (mem s) dest dmax" and src: "src \<noteq> NULL" "span_text (mem s) src smax xs" and smax: "smax < dmax"
    and apart: "(if slack then dmax else smax) < gap dest src"
  shows "stpncpy_s slack dest dmax src smax s = Some (Returned (dest + length xs, EOK),
    s\<lparr>mem := put_bytes (mem s) dest (xs @ zeros slack dmax smax (length xs))\<rparr>)"
proof -
  have "dest + smax < src \<or> src + smax < dest" using apart smax by (auto simp: gap_def split: if_splits)
  moreover have "mapped (mem s) dest dmax" "dmax < 2 ^ 64" "dmax \<le> RSIZE_MAX_STR" "dest \<noteq> NULL"
    using w by (auto simp: writable_def RSIZE_MAX_STR_def)
  ultimately have "stpn_loop slack (mem s) dest src dmax smax =
      Some (put_bytes (mem s) dest (xs @ zeros slack dmax smax (length xs)), Some (dest + length xs))"
    using stpn_loop_ok [OF src(2)] smax by blast
  then show ?thesis
    using w src(1) smax apart by (auto simp: stpncpy_s_def writable_def stpn_finish_def gap_def split: if_splits)
qed

theorem stpncpy_s_copies_witness:
  "stpncpy_s False 100 4 200 1 (demo_state demo_field) =
     Some (Returned (101, EOK), (demo_state demo_field)\<lparr>mem := put_bytes demo_field 100 [97, 0]\<rparr>)"
proof -
  have "span_text demo_field 200 1 [97]"
    using demo_field_facts(2) by (simp add: span_text_def cstr_Cons chars_at_Cons)
  then show ?thesis
    using stpncpy_s_copies [of "demo_state demo_field" 100 4 200 1 "[97]" False] demo_field_facts(1)
    by (simp add: gap_def zeros_def)
qed

subsection \<open>\<open>stpncpy_s\<close> on one buffer\<close>

lemma null_fill_mapped: "null_fill h dest n \<noteq> None \<Longrightarrow> mapped h dest n"
proof (induction n arbitrary: h dest)
  case (Suc n)
  then obtain h' where "wr8 h dest 0 = Some h'" "null_fill h' (dest + 1) n \<noteq> None"
    by (auto split: Option.bind_splits)
  then have "mapped h' (Suc dest) n" "h dest \<noteq> None" "h' = h(dest \<mapsto> 0)"
    using Suc.IH [of h' "dest + 1"] wr8_SomeD [of h dest 0 h'] by auto
  moreover from this have "mapped h (Suc dest) n" by (auto simp: mapped_def split: if_splits)
  ultimately show ?case by (simp add: mapped_Suc)
qed simp

lemma sub64_again: "0 < j \<Longrightarrow> j < 2 ^ 64 \<Longrightarrow> sub64 (2 ^ 64 - j) 1 = 2 ^ 64 - Suc j"
  by (simp add: sub64_less)

lemma stpn_same_wrapped:
  "cstr h dest xs \<Longrightarrow> length xs < n \<Longrightarrow> 0 < j \<Longrightarrow> j + length xs < 2 ^ 63 \<Longrightarrow> stpn_same slack h dest n (2 ^ 64 - j) =
     do { m \<leftarrow> stpn_fill slack h (dest + length xs) (n - length xs) (2 ^ 64 - (j + length xs)); Some (m, Some (dest + length xs)) }"
proof (induction xs arbitrary: dest n j)
  case Nil
  then obtain m where "n = Suc m" by (cases n) auto
  then show ?case using Nil by (simp add: rd8_def cstr_def)
next
  case (Cons x xs)
  then obtain m where m: "n = Suc m" by (cases n) auto
  have "sub64 (2 ^ 64 - j) 1 = 2 ^ 64 - Suc j" using Cons.prems by (intro sub64_again) auto
  moreover have "2 ^ 64 - Suc j \<noteq> 0" using Cons.prems by simp
  ultimately show ?case
    using Cons.IH [of "Suc dest" m "Suc j"] Cons.prems by (simp add: m rd8_def cstr_Cons)
qed

text \<open>
  C27. \<open>stpncpy_s\<close> with the destination as its source and \<open>smax\<close> zero, which passes every check: the counter
  wraps to the largest number, and the fill behind the text leaves every memory that ends below
  \<open>2 ^ 63\<close>.
\<close>

theorem stpncpy_s_same_overflows:
  assumes w: "writable (mem s) dest dmax" and str: "cstr (mem s) dest xs" "xs \<noteq> []" "length xs < dmax"
    and ends: "\<forall>a \<ge> 2 ^ 63. mem s a = None"
  shows "stpncpy_s slack dest dmax dest 0 s = None"
proof -
  obtain x xs' n where x: "xs = x # xs'" "dmax = Suc n" using str(2,3) by (cases xs; cases dmax) auto
  have len: "Suc (length xs') < 2 ^ 12 + 1" using w str(3) by (simp add: x writable_def RSIZE_MAX_STR_def)
  have "null_fill (mem s) (dest + 1 + length xs') (2 ^ 64 - (1 + length xs')) = None"
  proof (rule ccontr)
    assume "null_fill (mem s) (dest + 1 + length xs') (2 ^ 64 - (1 + length xs')) \<noteq> None"
    then have "mapped (mem s) (dest + 1 + length xs') (2 ^ 64 - (1 + length xs'))" by (rule null_fill_mapped)
    moreover have "2 ^ 63 < 2 ^ 64 - (1 + length xs')" using len by simp
    ultimately obtain v where "mem s (dest + 1 + length xs' + 2 ^ 63) = Some v" using mapped_Some by blast
    moreover have "2 ^ 63 \<le> dest + 1 + length xs' + 2 ^ 63" by (rule le_add2)
    ultimately show False using ends by (metis option.distinct(1))
  qed
  moreover have "stpn_same slack (mem s) dest dmax 0 = stpn_same slack (mem s) (dest + 1) n (2 ^ 64 - 1)"
    using str(1) sub64_wrap by (simp add: x rd8_def cstr_Cons)
  moreover have "stpn_same slack (mem s) (dest + 1) n (2 ^ 64 - 1) =
      do { m \<leftarrow> stpn_fill slack (mem s) (dest + 1 + length xs') (n - length xs') (2 ^ 64 - (1 + length xs'));
           Some (m, Some (dest + 1 + length xs')) }"
    using str len by (intro stpn_same_wrapped) (simp_all add: x cstr_Cons)
  ultimately have "stpn_same slack (mem s) dest dmax 0 = None" by (simp add: stpn_fill_def)
  then show ?thesis using w by (simp add: stpncpy_s_def writable_def)
qed

theorem stpncpy_s_same_overflows_witness: "stpncpy_s False 200 3 200 0 (demo_state demo_field) = None"
proof -
  have "writable demo_field 200 3"
    by (simp add: demo_field_def writable_def RSIZE_MAX_STR_def)
  moreover have "\<forall>a \<ge> 2 ^ 63. demo_field a = None" by (simp add: demo_field_def put_bytes_def)
  ultimately show ?thesis
    using stpncpy_s_same_overflows [of "demo_state demo_field" 200 3 "[97, 98]" False] demo_field_facts(2) by simp
qed

end
