(* ===== verification/Orom.thy ===== *)
theory Orom
  imports CMem Sysfs Ssi_Types
begin

text \<open>
  Where the RAID capabilities come from: the option ROM (\<open>lib/orom/orom.c\<close>), the EFI variables
  (\<open>lib/efi/efi.cpp\<close>), and \<open>findRaidInfo\<close> of the controllers, which lets the controllers of one option
  ROM share one \<open>RaidInfo\<close>.

  The ROM region is a heap whose addresses are offsets; None is a read behind the mapped region, which
  ends the program.  No read inside the region raises a bus error, and memory for a node is never short.  A table
  is the list of the bytes of \<open>struct orom_info\<close>, which is packed.
\<close>

definition VIDEO_BIOS_START_ADDR :: nat where "VIDEO_BIOS_START_ADDR = 0xC0000"
definition SYSTEM_BIOS_START_ADDR :: nat where "SYSTEM_BIOS_START_ADDR = 0xF0000"
definition OROM_PCIR_SIGNATURE :: u32 where "OROM_PCIR_SIGNATURE = 0x52494350"
definition OROM_SVER_SIGNATURE :: u32 where "OROM_SVER_SIGNATURE = 0x52455624"
definition OROM_VALID_SIGNATURE :: u16 where "OROM_VALID_SIGNATURE = 0xAA55"
definition OROM_SCAN_STEP :: nat where "OROM_SCAN_STEP = 2048"
definition OROM_SCAN_LAST :: nat where "OROM_SCAN_LAST = 0xDFFFF - VIDEO_BIOS_START_ADDR"
definition OROM_REGION_SIZE :: nat where "OROM_REGION_SIZE = SYSTEM_BIOS_START_ADDR - VIDEO_BIOS_START_ADDR"
definition OROM_CHUNK_SIZE :: nat where "OROM_CHUNK_SIZE = 512"
definition INTEL_PCI_VENDOR_ID :: u16 where "INTEL_PCI_VENDOR_ID = 0x8086"
definition orom_info_size :: nat where "orom_info_size = 38"

record orom_node =
  node_data :: "byte list"
  orom_dev_id :: u32
  device_id :: u32

subsection \<open>Option ROM\<close>

text \<open>A 16-bit read that need not be aligned.\<close>

definition le16 :: "heap \<Rightarrow> addr \<Rightarrow> u16 option" where
  "le16 h a = do { b0 \<leftarrow> h a; b1 \<leftarrow> h (a + 1); Some (ucast b0 OR push_bit 8 (ucast b1)) }"

fun read_bytes :: "heap \<Rightarrow> addr \<Rightarrow> nat \<Rightarrow> byte list option" where
  "read_bytes h a 0 = Some []"
| "read_bytes h a (Suc n) = do { b \<leftarrow> h a; bs \<leftarrow> read_bytes h (a + 1) n; Some (b # bs) }"

fun orom_sum :: "heap \<Rightarrow> addr \<Rightarrow> nat \<Rightarrow> byte \<Rightarrow> byte option" where
  "orom_sum h p 0 result = Some result"
| "orom_sum h p (Suc n) result = do { b \<leftarrow> h p; orom_sum h (p + 1) n (result + b) }"

definition orom_checksum :: "heap \<Rightarrow> addr \<Rightarrow> nat \<Rightarrow> byte option" where
  "orom_checksum h start len = orom_sum h start (len * OROM_CHUNK_SIZE) 0"

text \<open>The device list behind a PCI data structure; it ends with a zero.\<close>

partial_function (option) listed :: "heap \<Rightarrow> addr \<Rightarrow> u32 \<Rightarrow> u16 \<Rightarrow> bool option" where
  "listed h devid dev orom_id =
     do { d \<leftarrow> le16 h devid;
          if d = 0 then Some False
          else if ucast d = dev \<and> orom_id \<noteq> 0 then Some True
          else listed h (devid + 2) dev orom_id }"

declare listed.simps [code]

fun find_device :: "heap \<Rightarrow> addr \<Rightarrow> nat \<Rightarrow> u32 \<Rightarrow> u16 option" where
  "find_device h p 0 dev = Some 0"
| "find_device h p (Suc n) dev =
     do { w \<leftarrow> rd32 h p;
          if w \<noteq> OROM_PCIR_SIGNATURE then find_device h (p + 4) n dev
          else do { v \<leftarrow> rd32 h (p + 4); l \<leftarrow> rd32 h (p + 8);
                    if ucast v = INTEL_PCI_VENDOR_ID
                    then do { found \<leftarrow> listed h (p + unat (ucast l :: u16)) dev (ucast (drop_bit 16 v));
                              if found then Some (ucast (drop_bit 16 v)) else find_device h (p + 4) n dev }
                    else find_device h (p + 4) n dev } }"

definition orom_check_for_device :: "heap \<Rightarrow> addr \<Rightarrow> nat \<Rightarrow> u32 \<Rightarrow> u16 option" where
  "orom_check_for_device h start len dev = find_device h start (len * OROM_CHUNK_SIZE div 4) dev"

fun find_version :: "heap \<Rightarrow> addr \<Rightarrow> nat \<Rightarrow> addr option option" where
  "find_version h p 0 = Some None"
| "find_version h p (Suc n) =
     do { w \<leftarrow> rd32 h p; if w = OROM_SVER_SIGNATURE then Some (Some p) else find_version h (p + 4) n }"

text \<open>\<open>__orom_check_for_data\<close> with \<open>__orom_add_info\<close>: the node that is put in front of the cache.\<close>

definition orom_check_for_data :: "heap \<Rightarrow> addr \<Rightarrow> nat \<Rightarrow> u32 \<Rightarrow> u32 \<Rightarrow> orom_node option option" where
  "orom_check_for_data h start len dev orom_id =
     do { v \<leftarrow> find_version h start (len * OROM_CHUNK_SIZE div 4);
          case v of
            None \<Rightarrow> Some None
          | Some p \<Rightarrow>
              do { bs \<leftarrow> read_bytes h p orom_info_size;
                   Some (Some \<lparr>node_data = bs, orom_dev_id = orom_id, device_id = dev\<rparr>) } }"

definition orom_check_block :: "heap \<Rightarrow> addr \<Rightarrow> u32 \<Rightarrow> orom_node option option" where
  "orom_check_block h hdr dev =
     do { sig \<leftarrow> le16 h hdr;
          if sig \<noteq> OROM_VALID_SIGNATURE then Some None
          else do { len \<leftarrow> h (hdr + 2);
                    sum \<leftarrow> orom_checksum h hdr (unat len);
                    if sum \<noteq> 0 then Some None
                    else do { orom_id \<leftarrow> orom_check_for_device h hdr (unat len) dev;
                              if orom_id = 0 then Some None
                              else orom_check_for_data h hdr (unat len) dev (ucast orom_id) } } }"

function orom_scan :: "heap \<Rightarrow> nat \<Rightarrow> u32 \<Rightarrow> orom_node option option" where
  "orom_scan h offset dev =
     (if offset < OROM_SCAN_LAST
      then do { r \<leftarrow> orom_check_block h offset dev;
                case r of Some n \<Rightarrow> Some (Some n) | None \<Rightarrow> orom_scan h (offset + OROM_SCAN_STEP) dev }
      else Some None)"
  by pat_completeness auto
termination
  by (relation "measure (\<lambda>(h, offset, dev). OROM_SCAN_LAST - offset)") (auto simp: OROM_SCAN_STEP_def)

declare orom_scan.simps [simp del]

text \<open>\<open>rom\<close> is None when the memory device cannot be mapped.\<close>

definition orom_get :: "heap option \<Rightarrow> u32 \<Rightarrow> orom_node list \<Rightarrow> (orom_node option \<times> orom_node list) option" where
  "orom_get rom dev cache =
     (case find (\<lambda>n. device_id n = dev) cache of
        Some n \<Rightarrow> Some (Some n, cache)
      | None \<Rightarrow>
          (case rom of
             None \<Rightarrow> Some (None, cache)
           | Some h \<Rightarrow>
               do { r \<leftarrow> orom_scan h 0 dev;
                    Some (case r of None \<Rightarrow> (None, cache) | Some n \<Rightarrow> (Some n, n # cache)) }))"

subsection \<open>EFI variables\<close>

definition hex_digit :: "nat \<Rightarrow> char" where
  "hex_digit n = ''0123456789abcdef'' ! n"

definition hex2 :: "byte \<Rightarrow> string" where
  "hex2 b = [hex_digit (unat b div 16), hex_digit (unat b mod 16)]"

definition EFI_GUID :: "u32 \<Rightarrow> u16 \<Rightarrow> u16 \<Rightarrow> byte list \<Rightarrow> byte list" where
  "EFI_GUID a b c d =
     [ucast a, ucast (drop_bit 8 a), ucast (drop_bit 16 a), ucast (drop_bit 24 a),
      ucast b, ucast (drop_bit 8 b), ucast c, ucast (drop_bit 8 c)] @ d"

definition VENDOR_GUID :: "byte list" where
  "VENDOR_GUID = EFI_GUID 0x193dfefa 0xa445 0x4302 [0x99, 0xd8, 0xef, 0x3a, 0xad, 0x1a, 0x04, 0xc6]"

text \<open>The text of a GUID, and \<open>guid2str\<close>, which prints into \<open>sizeof(guid.b)\<close> bytes.\<close>

definition guid_text :: "byte list \<Rightarrow> string" where
  "guid_text b =
     concat (map (\<lambda>i. hex2 (b ! i)) [3, 2, 1, 0]) @ ''-'' @ concat (map (\<lambda>i. hex2 (b ! i)) [5, 4]) @ ''-''
     @ concat (map (\<lambda>i. hex2 (b ! i)) [7, 6]) @ ''-'' @ concat (map (\<lambda>i. hex2 (b ! i)) [8, 9]) @ ''-''
     @ concat (map (\<lambda>i. hex2 (b ! i)) [10, 11, 12, 13, 14, 15])"

definition guid2str :: "byte list \<Rightarrow> string" where
  "guid2str guid = take (length guid - 1) (guid_text guid)"

definition EFI_VAR_DIR :: string where "EFI_VAR_DIR = ''/sys/firmware/efi/vars''"
definition EFIVARS_DIR :: string where "EFIVARS_DIR = ''/sys/firmware/efi/efivars''"

text \<open>
  What is read from files: their bytes, and the number in a text file.  A data file is as long as its size
  file says.
\<close>

record efi_files =
  file_bytes :: "string \<Rightarrow> byte list option"
  file_number :: "string \<Rightarrow> nat option"

definition read_efi_var :: "efi_files \<Rightarrow> string \<Rightarrow> byte list option" where
  "read_efi_var files var_name =
     (case file_bytes files (EFIVARS_DIR @ ''/'' @ var_name @ ''-'' @ guid2str VENDOR_GUID) of
        None \<Rightarrow> None
      | Some bs \<Rightarrow> (let data = take orom_info_size (drop 4 bs) in
                   if length data < orom_info_size then None else Some data))"

definition read_efi_variable :: "sys_tree \<Rightarrow> efi_files \<Rightarrow> string \<Rightarrow> byte list option" where
  "read_efi_variable fs files var_name =
     (case read_efi_var files var_name of
        Some data \<Rightarrow> Some data
      | None \<Rightarrow>
          (case find (\<lambda>d. has d (guid2str VENDOR_GUID)) (dirs fs EFI_VAR_DIR var_name) of
             None \<Rightarrow> None
           | Some d \<Rightarrow>
               (if file_number files (join d ''size'') = Some orom_info_size
                then map_option (take orom_info_size) (file_bytes files (join d ''data'')) else None)))"

definition SATA_DEV_ID :: u32 where "SATA_DEV_ID = 0x2826"
definition SSATA_DEV_ID :: u32 where "SSATA_DEV_ID = 0x2827"

definition efi_init :: "(string \<Rightarrow> byte list option) \<Rightarrow> SSI_ControllerType \<Rightarrow> u32 \<Rightarrow> (byte list \<times> u32) option" where
  "efi_init var controllerType dev =
     (if controllerType = SSI_ControllerTypeSCU then map_option (\<lambda>d. (d, dev)) (var ''RstScuV'')
      else if controllerType = SSI_ControllerTypeAHCI
      then (case (if dev = SATA_DEV_ID then map_option (\<lambda>d. (d, SATA_DEV_ID)) (var ''RstSataV'')
                  else if dev = SSATA_DEV_ID then map_option (\<lambda>d. (d, SSATA_DEV_ID)) (var ''RstsSatV'')
                  else None) of
              Some r \<Rightarrow> Some r
            | None \<Rightarrow> map_option (\<lambda>d. (d, SATA_DEV_ID)) (var ''RstcSatV''))
      else if controllerType = SSI_ControllerTypeVMD then map_option (\<lambda>d. (d, dev)) (var ''RstUefiV'')
      else None)"

definition efi_get ::
  "(string \<Rightarrow> byte list option) \<Rightarrow> SSI_ControllerType \<Rightarrow> u32 \<Rightarrow> orom_node list \<Rightarrow> orom_node option \<times> orom_node list" where
  "efi_get var controllerType dev efi_cache =
     (case find (\<lambda>n. device_id n = dev) efi_cache of
        Some n \<Rightarrow> (Some n, efi_cache)
      | None \<Rightarrow>
          (case efi_init var controllerType dev of
             None \<Rightarrow> (None, efi_cache)
           | Some (data, orom_id) \<Rightarrow>
               (let n = \<lparr>node_data = data, orom_dev_id = orom_id, device_id = dev\<rparr> in (Some n, n # efi_cache))))"

subsection \<open>What the firmware says of a controller\<close>

definition PCI_CLASS_RAID_CNTRL :: u32 where "PCI_CLASS_RAID_CNTRL = 0x010400"

record pci_controller =
  pci_type :: SSI_ControllerType
  m_PciDeviceId :: u16
  m_ClassId :: byte
  m_SubClassCode :: byte
  m_prgIface :: byte

text \<open>The variables of the firmware, its option ROM, and the two caches of the library.\<close>

record firmware =
  efi_var :: "string \<Rightarrow> byte list option"
  option_rom :: "heap option"
  efi_cache :: "orom_node list"
  orom_cache :: "orom_node list"

text \<open>
  The first lines of \<open>findRaidInfo\<close>: an AHCI controller is asked for only in RAID mode, and there is no option ROM for
  VMD.
\<close>

definition firmware_info :: "pci_controller \<Rightarrow> firmware \<Rightarrow> (orom_node option \<times> firmware) option" where
  "firmware_info c f =
     (if pci_type c = SSI_ControllerTypeAHCI
         \<and> (push_bit 16 (ucast (m_ClassId c)) OR push_bit 8 (ucast (m_SubClassCode c))) OR ucast (m_prgIface c) \<noteq> PCI_CLASS_RAID_CNTRL
      then Some (None, f)
      else (case efi_get (efi_var f) (pci_type c) (ucast (m_PciDeviceId c)) (efi_cache f) of
              (Some n, cs) \<Rightarrow> Some (Some n, f\<lparr>efi_cache := cs\<rparr>)
            | (None, cs) \<Rightarrow>
                (if pci_type c = SSI_ControllerTypeVMD then Some (None, f\<lparr>efi_cache := cs\<rparr>)
                 else do { (r, os) \<leftarrow> orom_get (option_rom f) (ucast (m_PciDeviceId c)) (orom_cache f);
                           Some (r, f\<lparr>efi_cache := cs, orom_cache := os\<rparr>) })))"

fun firmware_infos ::
  "pci_controller list \<Rightarrow> firmware \<Rightarrow> ((SSI_ControllerType \<times> orom_node option) list \<times> firmware) option" where
  "firmware_infos [] f = Some ([], f)"
| "firmware_infos (c # cs) f =
     do { (n, f1) \<leftarrow> firmware_info c f; (ns, f2) \<leftarrow> firmware_infos cs f1; Some ((pci_type c, n) # ns, f2) }"

subsection \<open>Sharing of the capabilities\<close>

text \<open>A \<open>RaidInfo\<close>: the type of its controller, the option ROM's id, and the controller attached last.\<close>

record raid_entry =
  entry_type :: SSI_ControllerType
  m_OromDevId :: u32
  entry_table :: "byte list"
  entry_controller :: nat

text \<open>
  \<open>findRaidInfo\<close> of the AHCI, ISCI and VMD controllers: the index of the \<open>RaidInfo\<close> of the controller and the
  list with the new one.  The constructor of \<open>ISCI_RaidInfo\<close> does not keep the id.
\<close>

fun find_entry :: "SSI_ControllerType \<Rightarrow> u32 \<Rightarrow> raid_entry list \<Rightarrow> nat option" where
  "find_entry t i [] = None"
| "find_entry t i (e # es) =
     (if entry_type e = t \<and> m_OromDevId e = i then Some 0 else map_option Suc (find_entry t i es))"

definition findRaidInfo ::
  "SSI_ControllerType \<Rightarrow> nat \<Rightarrow> orom_node option \<Rightarrow> raid_entry list \<Rightarrow> nat option \<times> raid_entry list" where
  "findRaidInfo t c pInfo_ext RaidInfos =
     (case pInfo_ext of
        None \<Rightarrow> (None, RaidInfos)
      | Some n \<Rightarrow>
          (case find_entry t (orom_dev_id n) RaidInfos of
             Some i \<Rightarrow> (Some i, RaidInfos[i := (RaidInfos ! i)\<lparr>entry_controller := c\<rparr>])
           | None \<Rightarrow> (Some (length RaidInfos), RaidInfos @
               [\<lparr>entry_type = t, m_OromDevId = (if t = SSI_ControllerTypeSCU then 0 else orom_dev_id n),
                 entry_table = node_data n, entry_controller = c\<rparr>])))"

text \<open>The loop of \<open>Session::initialize\<close> over the controllers: their type and what the firmware says.\<close>

fun attach_infos ::
  "(SSI_ControllerType \<times> orom_node option) list \<Rightarrow> nat \<Rightarrow> raid_entry list \<Rightarrow> nat option list \<times> raid_entry list" where
  "attach_infos [] c es = ([], es)"
| "attach_infos ((t, n) # cs) c es =
     (let (i, es1) = findRaidInfo t c n es; (is, es2) = attach_infos cs (Suc c) es1 in (i # is, es2))"

subsection \<open>What the scan of the option ROM finds\<close>

lemma read_bytes_Some: "read_bytes h a n = Some bs \<longleftrightarrow> mapped h a n \<and> bs = bytes_of h a n"
proof (induction n arbitrary: a bs)
  case (Suc n)
  then show ?case by (cases "h a") (auto simp: mapped_Suc bytes_of_Suc Option.bind_eq_Some_conv)
qed (auto simp: bytes_of_def)

lemma orom_sum_Some: "orom_sum h p n r = Some s \<longleftrightarrow> mapped h p n \<and> s = r + sum_list (bytes_of h p n)"
proof (induction n arbitrary: p r)
  case (Suc n)
  then show ?case by (cases "h p") (auto simp: mapped_Suc bytes_of_Suc add.assoc)
qed (auto simp: bytes_of_def)

text \<open>A device is in the list at \<open>a\<close>: one of its entries, and no zero stands before it.\<close>

definition in_device_list :: "heap \<Rightarrow> addr \<Rightarrow> u32 \<Rightarrow> bool" where
  "in_device_list h a dev \<longleftrightarrow>
     (\<exists>k. (\<exists>d. le16 h (a + 2 * k) = Some d \<and> ucast d = dev) \<and> (\<forall>j \<le> k. \<exists>d. le16 h (a + 2 * j) = Some d \<and> d \<noteq> 0))"

lemma in_device_list_here: "le16 h a = Some d \<Longrightarrow> d \<noteq> 0 \<Longrightarrow> ucast d = dev \<Longrightarrow> in_device_list h a dev"
  unfolding in_device_list_def by (intro exI [of _ 0]) simp

lemma in_device_list_next:
  "le16 h a = Some d \<Longrightarrow> d \<noteq> 0 \<Longrightarrow> in_device_list h (a + 2) dev \<Longrightarrow> in_device_list h a dev"
proof -
  assume d: "le16 h a = Some d" "d \<noteq> 0" and "in_device_list h (a + 2) dev"
  then obtain k where k: "\<exists>d. le16 h (a + 2 + 2 * k) = Some d \<and> ucast d = dev"
    "\<forall>j \<le> k. \<exists>d. le16 h (a + 2 + 2 * j) = Some d \<and> d \<noteq> 0"
    by (auto simp: in_device_list_def)
  have "\<exists>d. le16 h (a + 2 * j) = Some d \<and> d \<noteq> 0" if "j \<le> Suc k" for j
    using d k(2) that by (cases j) auto
  then show ?thesis using k(1) unfolding in_device_list_def by (intro exI [of _ "Suc k"]) simp
qed

lemma listed_sound: "listed h a dev i = Some r \<Longrightarrow> r \<Longrightarrow> i \<noteq> 0 \<and> in_device_list h a dev"
proof -
  let ?P = "\<lambda>h a dev i r. r \<longrightarrow> i \<noteq> 0 \<and> in_device_list h a dev"
  assume run: "listed h a dev i = Some r" and r: r
  have "?P h a dev i r"
    by (rule listed.raw_induct [where P = ?P, OF _ run])
       (fastforce simp: Option.bind_eq_Some_conv split: if_splits
          intro: in_device_list_here in_device_list_next [unfolded add_2_eq_Suc'])
  with r show ?thesis by blast
qed

definition lists_device :: "heap \<Rightarrow> addr \<Rightarrow> u32 \<Rightarrow> u16 \<Rightarrow> bool" where
  "lists_device h p dev i \<longleftrightarrow> rd32 h p = Some OROM_PCIR_SIGNATURE \<and> i \<noteq> 0
     \<and> (\<exists>v l. rd32 h (p + 4) = Some v \<and> rd32 h (p + 8) = Some l \<and> ucast v = INTEL_PCI_VENDOR_ID
          \<and> i = ucast (drop_bit 16 v) \<and> in_device_list h (p + unat (ucast l :: u16)) dev)"

lemma find_device_sound:
  "find_device h p n dev = Some i \<Longrightarrow> i \<noteq> 0 \<Longrightarrow> \<exists>k < n. lists_device h (p + 4 * k) dev i"
proof (induction n arbitrary: p)
  case (Suc n)
  have rest: "\<exists>k < Suc n. lists_device h (p + 4 * k) dev i" if "find_device h (p + 4) n dev = Some i"
  proof -
    obtain k where "k < n" "lists_device h (p + 4 + 4 * k) dev i" using Suc.IH [OF \<open>find_device h (p + 4) n dev = Some i\<close> Suc.prems(2)] by blast
    then show ?thesis by (intro exI [of _ "Suc k"]) (simp add: algebra_simps)
  qed
  from Suc.prems obtain w where w: "rd32 h p = Some w" by (auto simp: Option.bind_eq_Some_conv)
  show ?case
  proof (cases "w = OROM_PCIR_SIGNATURE")
    case False
    then show ?thesis using Suc.prems w rest by simp
  next
    case True
    obtain v l where vl: "rd32 h (p + 4) = Some v" "rd32 h (p + 8) = Some l"
      using Suc.prems w True by (auto simp: Option.bind_eq_Some_conv)
    let ?i = "ucast (drop_bit 16 v) :: u16" and ?l = "listed h (p + unat (ucast l :: u16)) dev (ucast (drop_bit 16 v))"
    consider "find_device h (p + 4) n dev = Some i" | "ucast v = INTEL_PCI_VENDOR_ID" "?l = Some True" "i = ?i"
      using Suc.prems w True vl by (auto simp: Option.bind_eq_Some_conv split: if_splits)
    then show ?thesis
    proof cases
      case 2
      then have "lists_device h p dev i" using listed_sound [OF 2(2)] w True vl by (auto simp: lists_device_def)
      then show ?thesis by (intro exI [of _ 0]) simp
    qed (rule rest)
  qed
qed simp

lemma find_version_sound:
  "find_version h p n = Some (Some q) \<Longrightarrow> \<exists>k < n. q = p + 4 * k \<and> rd32 h q = Some OROM_SVER_SIGNATURE"
proof (induction n arbitrary: p)
  case (Suc n)
  then obtain w where w: "rd32 h p = Some w" by (auto simp: Option.bind_eq_Some_conv)
  show ?case
  proof (cases "w = OROM_SVER_SIGNATURE")
    case True
    then show ?thesis using Suc.prems w by (intro exI [of _ 0]) simp
  next
    case False
    then obtain k where "k < n" "q = p + 4 + 4 * k" "rd32 h q = Some OROM_SVER_SIGNATURE"
      using Suc.IH [of "p + 4"] Suc.prems w by auto
    then show ?thesis by (intro exI [of _ "Suc k"]) simp
  qed
qed simp

text \<open>The image at \<open>off\<close> is valid and gives the node \<open>n\<close> for the device.\<close>

definition valid_image :: "heap \<Rightarrow> addr \<Rightarrow> u32 \<Rightarrow> orom_node \<Rightarrow> bool" where
  "valid_image h off dev n \<longleftrightarrow> le16 h off = Some OROM_VALID_SIGNATURE
     \<and> (\<exists>len i p q. h (off + 2) = Some len
          \<and> mapped h off (unat len * 512) \<and> sum_list (bytes_of h off (unat len * 512)) = 0
          \<and> off \<le> p \<and> p < off + unat len * 512 \<and> lists_device h p dev i \<and> orom_dev_id n = ucast i
          \<and> off \<le> q \<and> q < off + unat len * 512 \<and> rd32 h q = Some OROM_SVER_SIGNATURE
          \<and> node_data n = bytes_of h q orom_info_size)"

lemma check_block_sound:
  assumes "orom_check_block h off dev = Some (Some n)"
  shows "valid_image h off dev n \<and> device_id n = dev"
proof -
  obtain len where len: "le16 h off = Some OROM_VALID_SIGNATURE" "h (off + 2) = Some len"
    using assms by (auto simp: orom_check_block_def Option.bind_eq_Some_conv split: if_splits)
  then obtain i where i: "orom_checksum h off (unat len) = Some 0" "orom_check_for_device h off (unat len) dev = Some i" "i \<noteq> 0"
    "orom_check_for_data h off (unat len) dev (ucast i) = Some (Some n)"
    using assms by (auto simp: orom_check_block_def Option.bind_eq_Some_conv split: if_splits)
  have words: "unat len * OROM_CHUNK_SIZE div 4 = unat len * 128" "OROM_CHUNK_SIZE = 512" by (simp_all add: OROM_CHUNK_SIZE_def)
  obtain k where k: "k < unat len * 128" "lists_device h (off + 4 * k) dev i"
    using find_device_sound i(2,3) unfolding orom_check_for_device_def words(1) by blast
  obtain q where q: "find_version h off (unat len * 128) = Some (Some q)"
    "n = \<lparr>node_data = bytes_of h q orom_info_size, orom_dev_id = ucast i, device_id = dev\<rparr>"
    using i(4) unfolding orom_check_for_data_def words(1)
    by (auto simp: Option.bind_eq_Some_conv read_bytes_Some split: option.splits)
  obtain m where m: "m < unat len * 128" "q = off + 4 * m" "rd32 h q = Some OROM_SVER_SIGNATURE"
    using find_version_sound [OF q(1)] by blast
  have "mapped h off (unat len * 512)" "sum_list (bytes_of h off (unat len * 512)) = 0"
    using i(1) by (auto simp: orom_checksum_def orom_sum_Some words(2))
  then show ?thesis
    unfolding valid_image_def
    using len k m q(2) by (intro conjI exI [of _ len] exI [of _ i] exI [of _ "off + 4 * k"] exI [of _ q]) auto
qed

lemma orom_scan_sound:
  "orom_scan h off dev = Some (Some n) \<Longrightarrow>
   \<exists>k. off + k * OROM_SCAN_STEP < OROM_SCAN_LAST \<and> valid_image h (off + k * OROM_SCAN_STEP) dev n \<and> device_id n = dev"
proof (induction h off dev rule: orom_scan.induct)
  case (1 h off dev)
  then have off: "off < OROM_SCAN_LAST" by (subst (asm) (2) orom_scan.simps) (auto split: if_splits)
  obtain r where r: "orom_check_block h off dev = Some r"
    using 1(2) off by (subst (asm) orom_scan.simps) (auto simp: Option.bind_eq_Some_conv)
  show ?case
  proof (cases r)
    case (Some m)
    then have "m = n" using 1(2) off r by (subst (asm) orom_scan.simps) simp
    then show ?thesis using check_block_sound r Some off by (intro exI [of _ 0]) auto
  next
    case None
    then have "orom_scan h (off + OROM_SCAN_STEP) dev = Some (Some n)"
      using 1(2) off r by (subst (asm) orom_scan.simps) simp
    then obtain k where k: "off + OROM_SCAN_STEP + k * OROM_SCAN_STEP < OROM_SCAN_LAST"
      "valid_image h (off + OROM_SCAN_STEP + k * OROM_SCAN_STEP) dev n" "device_id n = dev"
      using 1(1) [OF off r None] by blast
    then show ?thesis by (intro exI [of _ "Suc k"]) (simp add: algebra_simps)
  qed
qed

lemma find_SomeD: "find P xs = Some x \<Longrightarrow> P x \<and> x \<in> set xs"
  by (auto simp: find_Some_iff)

text \<open>
  C28. What \<open>orom_get\<close> answers is a node of the cache for the device that was asked for, the same one whenever it is
  asked again, whatever the option ROM holds by then; and a node that was not in the cache before is the table
  behind the version mark of an image with the signature, the checksum zero and an Intel PCI data structure
  that lists the device.
\<close>

theorem orom_get_sound:
  assumes "orom_get rom dev cache = Some (Some n, cache')"
  shows "device_id n = dev \<and> n \<in> set cache' \<and> (\<forall>rom'. orom_get rom' dev cache' = Some (Some n, cache'))
    \<and> (n \<notin> set cache \<longrightarrow> (\<exists>h k. rom = Some h \<and> k * OROM_SCAN_STEP < OROM_SCAN_LAST
         \<and> valid_image h (k * OROM_SCAN_STEP) dev n))"
proof (cases "find (\<lambda>n. device_id n = dev) cache")
  case (Some m)
  then show ?thesis using assms find_SomeD [OF Some] by (auto simp: orom_get_def)
next
  case None
  then obtain h where h: "rom = Some h" "orom_scan h 0 dev = Some (Some n)" "cache' = n # cache"
    using assms by (auto simp: orom_get_def Option.bind_eq_Some_conv split: option.splits)
  obtain k where "k * OROM_SCAN_STEP < OROM_SCAN_LAST" "valid_image h (k * OROM_SCAN_STEP) dev n" "device_id n = dev"
    using orom_scan_sound [OF h(2)] by auto
  then show ?thesis using h by (auto simp: orom_get_def)
qed

text \<open>An image of one chunk: header, data structure with a device list, version mark.\<close>

definition demo_head :: "byte list" where
  "demo_head =
     [0x55, 0xAA, 1, 0, 0, 0, 0, 0, 0x50, 0x43, 0x49, 0x52, 0x86, 0x80, 0x22, 0x28, 12, 0, 0, 0, 0x26, 0x28, 0, 0,
      0x24, 0x56, 0x45, 0x52]"

definition demo_rom :: heap where
  "demo_rom = put_bytes Map.empty 0 (demo_head @ replicate 483 0 @ [0x17])"

definition demo_node :: orom_node where
  "demo_node = \<lparr>node_data = [0x24, 0x56, 0x45, 0x52] @ replicate 34 0, orom_dev_id = 0x2822, device_id = 0x2826\<rparr>"

lemma demo_rom_head: "a < 28 \<longrightarrow> demo_rom a = Some (demo_head ! a)"
proof -
  have "length demo_head = 28" by (simp add: demo_head_def)
  then show ?thesis by (simp add: demo_rom_def put_bytes_def nth_append)
qed

lemma demo_rom_scan: "orom_get (Some demo_rom) 0x2826 [] = Some (Some demo_node, [demo_node])"
proof -
  have sum: "orom_checksum demo_rom 0 1 = Some 0"
  proof -
    have "mapped demo_rom 0 512" "bytes_of demo_rom 0 512 = demo_head @ replicate 483 0 @ [0x17]"
      using bytes_of_put_same [of 0 "demo_head @ replicate 483 0 @ [0x17]" Map.empty]
      by (simp_all add: demo_rom_def demo_head_def)
    then show ?thesis
      by (simp add: orom_checksum_def orom_sum_Some OROM_CHUNK_SIZE_def demo_head_def sum_list_replicate)
  qed
  have head: "le16 demo_rom 0 = Some OROM_VALID_SIGNATURE" "demo_rom 2 = Some 1"
    "rd32 demo_rom 0 = Some 0x0001AA55" "rd32 demo_rom 4 = Some 0" "rd32 demo_rom 8 = Some OROM_PCIR_SIGNATURE"
    "rd32 demo_rom 12 = Some 0x28228086" "rd32 demo_rom 16 = Some 12" "le16 demo_rom 20 = Some 0x2826"
    "rd32 demo_rom 20 = Some 0x2826" "rd32 demo_rom 24 = Some OROM_SVER_SIGNATURE"
    by (simp_all add: le16_def rd32_def demo_rom_head demo_head_def OROM_VALID_SIGNATURE_def OROM_PCIR_SIGNATURE_def
        OROM_SVER_SIGNATURE_def)
  have list: "listed demo_rom 20 0x2826 0x2822 = Some True" by (subst listed.simps) (simp add: head)
  have dev: "orom_check_for_device demo_rom 0 1 0x2826 = Some 0x2822"
    using find_device.simps(2) [of demo_rom 0 127] find_device.simps(2) [of demo_rom 4 126] find_device.simps(2) [of demo_rom 8 125]
    by (simp add: orom_check_for_device_def OROM_CHUNK_SIZE_def head list OROM_PCIR_SIGNATURE_def INTEL_PCI_VENDOR_ID_def
        del: find_device.simps)
  have steps: "find_version demo_rom p (Suc n) = find_version demo_rom (p + 4) n" if "p \<in> {0, 4, 8, 12, 16, 20}" for p n
    using that by (auto simp: head OROM_SVER_SIGNATURE_def OROM_PCIR_SIGNATURE_def)
  have "find_version demo_rom 0 128 = find_version demo_rom 24 (Suc 121)"
    using steps [of 0 127] steps [of 4 126] steps [of 8 125] steps [of 12 124] steps [of 16 123] steps [of 20 122] by simp
  then have ver: "find_version demo_rom 0 128 = Some (Some 24)"
    unfolding find_version.simps(2) [of demo_rom 24 121] head(10) by simp
  have part: "bytes_of (put_bytes Map.empty 0 bs) i n = take n (drop i bs)" if "i + n \<le> length bs" for i n and bs :: "byte list"
    using that by (intro nth_equalityI) (simp_all add: put_bytes_def)
  have "mapped demo_rom 24 38" by (simp add: demo_rom_def mapped_put_range demo_head_def)
  moreover have "bytes_of demo_rom 24 38 = node_data demo_node"
    unfolding demo_rom_def by (subst part) (simp_all add: demo_head_def demo_node_def)
  ultimately have "orom_check_for_data demo_rom 0 1 0x2826 0x2822 = Some (Some demo_node)"
    using ver by (simp add: orom_check_for_data_def OROM_CHUNK_SIZE_def orom_info_size_def read_bytes_Some
        demo_node_def Option.bind_eq_Some_conv)
  then have "orom_check_block demo_rom 0 0x2826 = Some (Some demo_node)"
    using head(1) head(2) [unfolded numeral_2_eq_2] sum dev by (simp add: orom_check_block_def)
  then show ?thesis
    by (subst orom_get_def) (simp add: orom_scan.simps [of _ 0] OROM_SCAN_LAST_def VIDEO_BIOS_START_ADDR_def)
qed

theorem orom_get_sound_witness:
  "(\<forall>rom'. orom_get rom' 0x2826 [demo_node] = Some (Some demo_node, [demo_node]))
   \<and> (\<exists>k. valid_image demo_rom (k * OROM_SCAN_STEP) 0x2826 demo_node)"
  using orom_get_sound [OF demo_rom_scan] by auto

text \<open>
  The checksum of an image is computed before anything else is known about its length: a scan that meets an
  image whose claimed length reaches behind the mapped region reads outside it, when no image before it has
  answered.
\<close>

theorem long_image_read_behind:
  assumes "find (\<lambda>n. device_id n = dev) cache = None" "\<forall>a. h a = None \<longleftrightarrow> OROM_REGION_SIZE \<le> a"
    and "k * OROM_SCAN_STEP < OROM_SCAN_LAST" "\<forall>j < k. orom_check_block h (j * OROM_SCAN_STEP) dev = Some None"
    and "le16 h (k * OROM_SCAN_STEP) = Some OROM_VALID_SIGNATURE" "h (k * OROM_SCAN_STEP + 2) = Some len"
    and "OROM_REGION_SIZE < k * OROM_SCAN_STEP + unat len * OROM_CHUNK_SIZE"
  shows "orom_get (Some h) dev cache = None"
proof -
  let ?off = "k * OROM_SCAN_STEP"
  have "\<not> mapped h ?off (unat len * OROM_CHUNK_SIZE)"
  proof
    assume m: "mapped h ?off (unat len * OROM_CHUNK_SIZE)"
    have "?off \<le> OROM_REGION_SIZE"
      using assms(3) by (simp add: OROM_SCAN_LAST_def OROM_REGION_SIZE_def VIDEO_BIOS_START_ADDR_def SYSTEM_BIOS_START_ADDR_def)
    then have "h OROM_REGION_SIZE \<noteq> None" using mapped_at [OF m] assms(7) by simp
    then show False using assms(2) by simp
  qed
  then have "orom_checksum h ?off (unat len) = None"
    using orom_sum_Some [of h ?off "unat len * OROM_CHUNK_SIZE" 0] unfolding orom_checksum_def
    by (cases "orom_sum h ?off (unat len * OROM_CHUNK_SIZE) 0") auto
  then have last: "orom_check_block h ?off dev = None" using assms(5,6) by (simp add: orom_check_block_def)
  have "orom_scan h (j * OROM_SCAN_STEP) dev = None" if "j \<le> k" for j
    using that
  proof (induction "k - j" arbitrary: j)
    case 0
    then have "j = k" by simp
    then show ?case using last assms(3) by (subst orom_scan.simps) simp
  next
    case (Suc m)
    then have j: "j < k" "m = k - Suc j" by simp_all
    have "j * OROM_SCAN_STEP \<le> ?off" using j(1) by simp
    then have "j * OROM_SCAN_STEP < OROM_SCAN_LAST" using assms(3) by linarith
    moreover have "orom_scan h (Suc j * OROM_SCAN_STEP) dev = None" using Suc.hyps(1) [of "Suc j"] j by simp
    ultimately show ?case using assms(4) j(1) by (subst orom_scan.simps) (simp add: add.commute)
  qed
  from this [of 0] show ?thesis using assms(1) by (simp add: orom_get_def)
qed

definition demo_long_image :: heap where
  "demo_long_image a =
     (if a < OROM_REGION_SIZE then Some (if a = 129024 then 0x55 else if a = 129025 then 0xAA else if a = 129026 then 255 else 0)
      else None)"

theorem long_image_read_behind_witness: "orom_get (Some demo_long_image) 0x2826 [] = None"
proof (rule long_image_read_behind [of _ _ _ 63 255])
  show "\<forall>j < 63. orom_check_block demo_long_image (j * OROM_SCAN_STEP) 0x2826 = Some None"
  proof (intro allI impI)
    fix j :: nat assume "j < 63"
    then have "le16 demo_long_image (j * OROM_SCAN_STEP) = Some 0"
      by (simp add: le16_def demo_long_image_def OROM_SCAN_STEP_def OROM_REGION_SIZE_def VIDEO_BIOS_START_ADDR_def
          SYSTEM_BIOS_START_ADDR_def)
    then show "orom_check_block demo_long_image (j * OROM_SCAN_STEP) 0x2826 = Some None"
      by (simp add: orom_check_block_def OROM_VALID_SIGNATURE_def)
  qed
qed (simp_all add: demo_long_image_def le16_def OROM_REGION_SIZE_def VIDEO_BIOS_START_ADDR_def SYSTEM_BIOS_START_ADDR_def
    OROM_SCAN_STEP_def OROM_SCAN_LAST_def OROM_VALID_SIGNATURE_def OROM_CHUNK_SIZE_def)

subsection \<open>The name of an EFI variable\<close>

lemma guid_values: "guid2str VENDOR_GUID = ''193dfefa-a445-4''" "guid_text VENDOR_GUID = ''193dfefa-a445-4302-99d8-ef3aad1a04c6''"
  by code_simp+

text \<open>
  \<open>guid2str\<close> prints into as many bytes as the GUID has, not as its text has, so the name of the file that is opened
  ends in the middle of the GUID: on a system whose variables are named by the whole GUID
  none is ever found through \<open>efivars\<close>.
\<close>

theorem efivars_never_found:
  assumes "\<And>p. file_bytes files p \<noteq> None \<Longrightarrow> \<exists>name. p = EFIVARS_DIR @ ''/'' @ name @ ''-'' @ guid_text VENDOR_GUID"
  shows "read_efi_var files var_name = None"
proof -
  let ?p = "EFIVARS_DIR @ ''/'' @ var_name @ ''-'' @ guid2str VENDOR_GUID"
  have "file_bytes files ?p = None"
  proof (rule ccontr)
    assume "file_bytes files ?p \<noteq> None"
    then obtain name where "?p = EFIVARS_DIR @ ''/'' @ name @ ''-'' @ guid_text VENDOR_GUID" using assms by blast
    then have "last ?p = last (EFIVARS_DIR @ ''/'' @ name @ ''-'' @ guid_text VENDOR_GUID)" by simp
    then show False by (simp add: guid_values)
  qed
  then show ?thesis by (simp add: read_efi_var_def)
qed

theorem efivars_never_found_witness:
  "read_efi_var \<lparr>file_bytes = (\<lambda>p. if p = EFIVARS_DIR @ ''/RstSataV-'' @ guid_text VENDOR_GUID then Some (replicate 42 0) else None),
     file_number = (\<lambda>_. None)\<rparr> ''RstSataV'' = None"
  by (rule efivars_never_found) (auto split: if_splits intro: exI [of _ "''RstSataV''"])

subsection \<open>Who shares what\<close>

definition key_of :: "raid_entry \<Rightarrow> SSI_ControllerType \<times> u32" where
  "key_of e = (entry_type e, m_OromDevId e)"

definition wanted :: "SSI_ControllerType \<Rightarrow> orom_node \<Rightarrow> SSI_ControllerType \<times> u32" where
  "wanted t n = (t, if t = SSI_ControllerTypeSCU then 0 else orom_dev_id n)"

text \<open>One entry for each type and id, entries of SCU controllers apart, which have no id.\<close>

definition entries_ok :: "raid_entry list \<Rightarrow> bool" where
  "entries_ok es \<longleftrightarrow> distinct (filter (\<lambda>k. fst k \<noteq> SSI_ControllerTypeSCU) (map key_of es))
     \<and> (\<forall>e \<in> set es. entry_type e = SSI_ControllerTypeSCU \<longrightarrow> m_OromDevId e = 0)"

lemma find_entry_Some: "find_entry t i es = Some k \<Longrightarrow> k < length es \<and> key_of (es ! k) = (t, i)"
  by (induction es arbitrary: k) (auto simp: key_of_def split: if_splits)

lemma find_entry_None: "find_entry t i es = None \<longleftrightarrow> (t, i) \<notin> set (map key_of es)"
  by (induction es) (auto simp: key_of_def)

lemma findRaidInfo_some:
  assumes ok: "entries_ok es" and id: "orom_dev_id n \<noteq> 0"
  shows "\<exists>k es'. findRaidInfo t c (Some n) es = (Some k, es') \<and> entries_ok es' \<and> k < length es'
    \<and> map key_of es' ! k = wanted t n \<and> entry_controller (es' ! k) = c
    \<and> (map key_of es' = map key_of es \<or> map key_of es' = map key_of es @ [wanted t n] \<and> k = length es)
    \<and> (t = SSI_ControllerTypeSCU \<longrightarrow> k = length es)"
proof (cases "find_entry t (orom_dev_id n) es")
  case (Some k)
  have k: "k < length es" "key_of (es ! k) = (t, orom_dev_id n)" using find_entry_Some [OF Some] by simp_all
  have t: "t \<noteq> SSI_ControllerTypeSCU"
    using ok k id nth_mem [OF k(1)] by (auto simp: entries_ok_def key_of_def)
  let ?es = "es[k := (es ! k)\<lparr>entry_controller := c\<rparr>]"
  have keys: "map key_of ?es = map key_of es"
    using k(1) by (simp add: map_update list_update_same_conv) (simp add: key_of_def)
  have "\<forall>e \<in> set ?es. entry_type e = SSI_ControllerTypeSCU \<longrightarrow> m_OromDevId e = 0"
    using ok k(1) set_update_subset_insert [of es k "(es ! k)\<lparr>entry_controller := c\<rparr>"] nth_mem [OF k(1)]
    by (auto simp: entries_ok_def)
  then have "entries_ok ?es" using ok by (simp only: entries_ok_def keys)
  then show ?thesis using Some k t keys by (simp add: findRaidInfo_def wanted_def nth_list_update key_of_def)
next
  case None
  let ?e = "\<lparr>entry_type = t, m_OromDevId = (if t = SSI_ControllerTypeSCU then 0 else orom_dev_id n),
    entry_table = node_data n, entry_controller = c\<rparr>"
  have "key_of ?e = wanted t n" by (simp add: key_of_def wanted_def)
  moreover have "entries_ok (es @ [?e])"
    using ok None by (auto simp: entries_ok_def find_entry_None key_of_def)
  ultimately show ?thesis using None by (simp add: findRaidInfo_def nth_append)
qed

text \<open>What the loop over the controllers does with the entry at position \<open>i\<close> of its answer.\<close>

definition served ::
  "raid_entry list \<Rightarrow> raid_entry list \<Rightarrow> nat option list \<Rightarrow> nat \<Rightarrow> SSI_ControllerType \<Rightarrow> orom_node \<Rightarrow> bool" where
  "served es es' rs i t n \<longleftrightarrow> (\<exists>k < length es'. rs ! i = Some k \<and> map key_of es' ! k = wanted t n
     \<and> (t = SSI_ControllerTypeSCU \<longrightarrow> length es \<le> k \<and> (\<forall>j < i. rs ! j \<noteq> Some k)))"

lemma attach_infos_Cons:
  assumes one: "findRaidInfo t c n es = (i, es1)" and rest: "attach_infos cs (Suc c) es1 = (rs, es')"
    and ok: "entries_ok es" "case n of None \<Rightarrow> True | Some m \<Rightarrow> orom_dev_id m \<noteq> 0"
  shows "\<exists>ks. map key_of es1 = map key_of es @ ks" "entries_ok es1"
    "\<And>k. i = Some k \<Longrightarrow> k < length es1"
    "\<And>m. n = Some m \<Longrightarrow> \<exists>k. i = Some k \<and> map key_of es1 ! k = wanted t m \<and> (t = SSI_ControllerTypeSCU \<longrightarrow> k = length es)"
proof -
  have *: "(\<exists>ks. map key_of es1 = map key_of es @ ks) \<and> entries_ok es1 \<and> (\<forall>k. i = Some k \<longrightarrow> k < length es1)
    \<and> (\<forall>m. n = Some m \<longrightarrow> (\<exists>k. i = Some k \<and> map key_of es1 ! k = wanted t m \<and> (t = SSI_ControllerTypeSCU \<longrightarrow> k = length es)))"
  proof (cases n)
    case None
    then show ?thesis using one ok by (simp add: findRaidInfo_def)
  next
    case (Some m)
    then show ?thesis using findRaidInfo_some [OF ok(1), of m t c] one ok(2) by auto
  qed
  show "\<exists>ks. map key_of es1 = map key_of es @ ks" "entries_ok es1"
    "\<And>k. i = Some k \<Longrightarrow> k < length es1"
    "\<And>m. n = Some m \<Longrightarrow> \<exists>k. i = Some k \<and> map key_of es1 ! k = wanted t m \<and> (t = SSI_ControllerTypeSCU \<longrightarrow> k = length es)"
    using * by blast+
qed

lemma attach_infos_spec:
  assumes "attach_infos cs c es = (rs, es')" "entries_ok es"
    "\<forall>(t, n) \<in> set cs. case n of None \<Rightarrow> True | Some m \<Rightarrow> orom_dev_id m \<noteq> 0"
  shows "length rs = length cs \<and> entries_ok es' \<and> (\<exists>ks. map key_of es' = map key_of es @ ks)
    \<and> (\<forall>i < length cs. \<forall>t m. cs ! i = (t, Some m) \<longrightarrow> served es es' rs i t m)"
  using assms
proof (induction cs c es arbitrary: rs es' rule: attach_infos.induct)
  case (2 t n cs c es)
  obtain i es1 where one: "findRaidInfo t c n es = (i, es1)" by fastforce
  obtain is1 where rest: "attach_infos cs (Suc c) es1 = (is1, es')" and rs: "rs = i # is1"
    using "2.prems"(1) one by (auto split: prod.splits)
  have id: "case n of None \<Rightarrow> True | Some m \<Rightarrow> orom_dev_id m \<noteq> 0" using "2.prems"(3) by auto
  note head = attach_infos_Cons [OF one rest "2.prems"(2) id]
  have IH: "length is1 = length cs \<and> entries_ok es' \<and> (\<exists>ks. map key_of es' = map key_of es1 @ ks)
    \<and> (\<forall>i < length cs. \<forall>t m. cs ! i = (t, Some m) \<longrightarrow> served es1 es' is1 i t m)"
    using "2.IH" [OF one [symmetric] refl rest head(2)] "2.prems"(3) by auto
  obtain ks where ks: "map key_of es1 = map key_of es @ ks" using head(1) by blast
  obtain ks' where ks': "map key_of es' = map key_of es1 @ ks'" using IH by blast
  have len: "length es \<le> length es1" "length es1 \<le> length es'"
    using arg_cong [OF ks, of size] arg_cong [OF ks', of size] by simp_all
  have "served es es' rs j t' m" if j: "j < Suc (length cs)" and c: "((t, n) # cs) ! j = (t', Some m)" for j t' m
  proof (cases j)
    case 0
    then obtain k where k: "i = Some k" "map key_of es1 ! k = wanted t' m" "t' = SSI_ControllerTypeSCU \<longrightarrow> k = length es"
      using head(4) [of m] c by auto
    then have "map key_of es' ! k = wanted t' m" using ks' head(3) [OF k(1)] by (simp add: nth_append)
    then show ?thesis using k head(3) [OF k(1)] len 0 rs by (auto simp: served_def)
  next
    case (Suc j')
    then have "served es1 es' is1 j' t' m" using IH j c by auto
    then obtain k where k: "k < length es'" "is1 ! j' = Some k" "map key_of es' ! k = wanted t' m"
      "t' = SSI_ControllerTypeSCU \<longrightarrow> length es1 \<le> k \<and> (\<forall>j < j'. is1 ! j \<noteq> Some k)" unfolding served_def by blast
    have "rs ! j'' \<noteq> Some k" if "t' = SSI_ControllerTypeSCU" "j'' < j" for j''
      using that k(4) Suc rs head(3) by (cases j'') auto
    then show ?thesis using k len Suc rs by (auto simp: served_def)
  qed
  then show ?case using IH rs ks ks' by auto
qed simp

lemma entries_ok_same:
  assumes "entries_ok es" "j < length es" "k < length es" "map key_of es ! j = map key_of es ! k"
    "fst (map key_of es ! j) \<noteq> SSI_ControllerTypeSCU"
  shows "j = k"
proof (rule ccontr)
  let ?K = "map key_of es"
  assume "j \<noteq> k"
  then obtain a b where ab: "a < b" "b < length ?K" "?K ! a = ?K ! b" "fst (?K ! b) \<noteq> SSI_ControllerTypeSCU"
    using assms by (cases "j < k") (auto simp: not_less dest: le_neq_implies_less)
  have "?K = take b ?K @ ?K ! b # drop (Suc b) ?K" by (rule id_take_nth_drop [OF ab(2)])
  moreover have "?K ! b \<in> set (take b ?K)" using ab(1,2) by (auto simp: in_set_conv_nth ab(3) [symmetric] intro!: exI [of _ a])
  moreover have "distinct (filter (\<lambda>x. fst x \<noteq> SSI_ControllerTypeSCU) ?K)" using assms(1) by (simp add: entries_ok_def)
  ultimately have "distinct (filter (\<lambda>x. fst x \<noteq> SSI_ControllerTypeSCU) (take b ?K @ ?K ! b # drop (Suc b) ?K))" by simp
  then show False using ab(4) \<open>?K ! b \<in> set (take b ?K)\<close> by simp
qed

text \<open>
  C29. The controllers of a session share their RAID capabilities by type and option ROM: of two AHCI or VMD
  controllers for which the firmware has a table, both get the same \<open>RaidInfo\<close> exactly when they have the same type and
  the same option ROM device id.  Two SCU controllers never share one, because the constructor of \<open>ISCI_RaidInfo\<close>
  drops the id that \<open>ISCI::findRaidInfo\<close> compares.
\<close>

theorem capabilities_shared:
  assumes run: "attach_infos cs 0 [] = (rs, es)"
    and ids: "\<forall>(t, n) \<in> set cs. case n of None \<Rightarrow> True | Some m \<Rightarrow> orom_dev_id m \<noteq> 0"
    and i: "i < length cs" "cs ! i = (t, Some m)" and j: "j < i" "cs ! j = (u, Some n)"
  shows "rs ! i \<noteq> None \<and> (rs ! i = rs ! j \<longleftrightarrow> t = u \<and> t \<noteq> SSI_ControllerTypeSCU \<and> orom_dev_id m = orom_dev_id n)"
proof -
  have ok: "entries_ok es" and all: "\<forall>i < length cs. \<forall>t m. cs ! i = (t, Some m) \<longrightarrow> served [] es rs i t m"
    using attach_infos_spec [OF run _ ids] by (simp_all add: entries_ok_def)
  obtain a where a: "a < length es" "rs ! i = Some a" "map key_of es ! a = wanted t m"
    "t = SSI_ControllerTypeSCU \<longrightarrow> (\<forall>j < i. rs ! j \<noteq> Some a)" using all i unfolding served_def by blast
  obtain b where b: "b < length es" "rs ! j = Some b" "map key_of es ! b = wanted u n"
    using all i(1) j less_trans [OF j(1) i(1)] unfolding served_def by blast
  have scu: "t = SSI_ControllerTypeSCU \<Longrightarrow> a \<noteq> b" using a(4) b(2) j(1) by auto
  have "a = b \<longleftrightarrow> wanted t m = wanted u n \<and> t \<noteq> SSI_ControllerTypeSCU"
  proof
    assume "a = b" then show "wanted t m = wanted u n \<and> t \<noteq> SSI_ControllerTypeSCU" using a(3) b(3) scu by auto
  next
    assume "wanted t m = wanted u n \<and> t \<noteq> SSI_ControllerTypeSCU"
    moreover have "fst (wanted t m) = t" by (simp add: wanted_def)
    ultimately show "a = b" by (metis entries_ok_same [OF ok a(1) b(1)] a(3) b(3))
  qed
  then show ?thesis using a(2) b(2) by (auto simp: wanted_def split: if_splits)
qed

definition demo_controllers :: "(SSI_ControllerType \<times> orom_node option) list" where
  "demo_controllers = [(SSI_ControllerTypeAHCI, Some demo_node), (SSI_ControllerTypeSCU, Some demo_node),
     (SSI_ControllerTypeAHCI, Some demo_node), (SSI_ControllerTypeSCU, Some demo_node)]"

theorem capabilities_shared_witness:
  "fst (attach_infos demo_controllers 0 []) ! 2 = fst (attach_infos demo_controllers 0 []) ! 0
   \<and> fst (attach_infos demo_controllers 0 []) ! 3 \<noteq> fst (attach_infos demo_controllers 0 []) ! 1"
proof -
  let ?r = "attach_infos demo_controllers 0 []"
  have run: "?r = (fst ?r, snd ?r)" by simp
  have ids: "\<forall>(t, n) \<in> set demo_controllers. case n of None \<Rightarrow> True | Some m \<Rightarrow> orom_dev_id m \<noteq> 0"
    by (simp add: demo_controllers_def demo_node_def)
  show ?thesis
    using capabilities_shared [OF run ids, of 2 SSI_ControllerTypeAHCI demo_node 0 SSI_ControllerTypeAHCI demo_node]
      capabilities_shared [OF run ids, of 3 SSI_ControllerTypeSCU demo_node 1 SSI_ControllerTypeSCU demo_node]
    by (simp add: demo_controllers_def)
qed

end
