(* ===== verification/Safe_Format.thy ===== *)
theory Safe_Format
  imports Safe_Str
begin

text \<open>
  The checked formatting functions of \<open>snprintf_support.c\<close>.  \<open>parse_format\<close> lists the conversions of a format and the
  four functions compare the list with the arguments they have before they call \<open>snprintf\<close> of the C library.

  A format is the array that \<open>format[index]\<close> reads: None is an index outside of the object that holds it, where the
  program must not read.  An index stays below \<open>2 ^ 32\<close> there.  What \<open>parse_format\<close> prints about a conversion that
  it does not know is left out.  \<open>snprintf\<close> is a parameter: its result and the memory it leaves, None when the
  call is undefined.
\<close>

datatype fmt =
    FMT_CHAR | FMT_WCHAR | FMT_SHORT | FMT_INT | FMT_LONG | FMT_STRING | FMT_WSTRING | FMT_DOUBLE | FMT_LDOUBLE
  | FMT_VOID | FMT_PCHAR | FMT_PSHORT | FMT_PINT | FMT_PLONG

definition MAX_FORMAT_ELEMENTS :: nat where "MAX_FORMAT_ELEMENTS = 16"

type_synonym chars = "nat \<Rightarrow> char option"

abbreviation (input) NUL :: char where "NUL \<equiv> CHR 0x00"
abbreviation (input) percent :: char where "percent \<equiv> CHR 0x25"

subsection \<open>\<open>parse_format\<close>\<close>

definition is_digit :: "char \<Rightarrow> bool" where
  "is_digit c \<longleftrightarrow> c \<in> set ''0123456789''"

partial_function (option) skip_digits :: "chars \<Rightarrow> nat \<Rightarrow> nat option" where
  "skip_digits format index =
     do { c \<leftarrow> format index; if is_digit c then skip_digits format (index + 1) else Some index }"

declare skip_digits.simps [code]

definition skip_flag :: "chars \<Rightarrow> nat \<Rightarrow> nat option" where
  "skip_flag format index = do { c \<leftarrow> format index; Some (if c \<in> set ''#0- +'' then index + 1 else index) }"

definition skip_precision :: "chars \<Rightarrow> nat \<Rightarrow> nat option" where
  "skip_precision format index =
     do { c \<leftarrow> format index; if c = CHR ''.'' then skip_digits format (index + 1) else Some index }"

text \<open>The length modifier and the index behind it; the index is not moved behind an \<open>L\<close>.\<close>

definition length_modifier :: "chars \<Rightarrow> nat \<Rightarrow> (char \<times> nat) option" where
  "length_modifier format index =
     do { c \<leftarrow> format index;
          if c = CHR ''h'' then
            do { c' \<leftarrow> format (index + 1);
                 Some (if c' = CHR ''h'' then (CHR ''H'', index + 2) else (CHR ''h'', index + 1)) }
          else if c = CHR ''l'' then
            do { c' \<leftarrow> format (index + 1);
                 Some (if c' = CHR ''l'' then (CHR ''d'', index + 2) else (CHR ''l'', index + 1)) }
          else if c = CHR ''L'' then Some (CHR ''L'', index)
          else if c \<in> set ''jzt'' then Some (CHR '' '', index + 1)
          else Some (CHR '' '', index) }"

definition conversion :: "char \<Rightarrow> char \<Rightarrow> fmt option" where
  "conversion lmod c =
     (if c = CHR ''c'' then Some (if lmod = CHR ''l'' then FMT_WCHAR else FMT_CHAR)
      else if c \<in> set ''diouxX'' then
        Some (if lmod = CHR ''H'' then FMT_CHAR else if lmod = CHR ''l'' then FMT_LONG
              else if lmod = CHR ''h'' then FMT_SHORT else FMT_INT)
      else if c \<in> set ''eEfFgGaA'' then Some (if lmod = CHR ''L'' then FMT_LDOUBLE else FMT_DOUBLE)
      else if c = CHR ''s'' then Some (if lmod = CHR ''l'' \<or> lmod = CHR ''L'' then FMT_WSTRING else FMT_STRING)
      else if c = CHR ''p'' then Some FMT_VOID
      else if c = CHR ''n'' then
        Some (if lmod = CHR ''H'' then FMT_PCHAR else if lmod = CHR ''l'' then FMT_PLONG
              else if lmod = CHR ''h'' then FMT_PSHORT else FMT_PINT)
      else None)"

text \<open>
  One turn of the loop at a percent sign, \<open>index\<close> standing behind it: what is recorded, and the index at which the
  loop goes on.  Behind a conversion the index is moved twice.
\<close>

definition directive :: "chars \<Rightarrow> nat \<Rightarrow> (fmt option \<times> nat) option" where
  "directive format index =
     do { c \<leftarrow> format index;
          if c = NUL \<or> c = percent then Some (None, index)
          else do { i1 \<leftarrow> skip_flag format index;
                    i2 \<leftarrow> skip_digits format i1;
                    i3 \<leftarrow> skip_precision format i2;
                    (lmod, i4) \<leftarrow> length_modifier format i3;
                    c' \<leftarrow> format i4;
                    Some (case conversion lmod c' of
                            Some f \<Rightarrow> (Some f, i4 + 2)
                          | None \<Rightarrow> (None, i4 + 1)) } }"

partial_function (option) parse_loop :: "chars \<Rightarrow> nat \<Rightarrow> nat \<Rightarrow> fmt list \<Rightarrow> fmt list option" where
  "parse_loop format index maxFormats fs =
     (if RSIZE_MAX_STR \<le> index then Some fs
      else do { c \<leftarrow> format index;
                if c = NUL \<or> maxFormats \<le> length fs then Some fs
                else if c = percent then
                  do { (f, i) \<leftarrow> directive format (index + 1);
                       parse_loop format i maxFormats (case f of Some f \<Rightarrow> fs @ [f] | None \<Rightarrow> fs) }
                else parse_loop format (index + 1) maxFormats fs })"

declare parse_loop.simps [code]

definition parse_format :: "chars \<Rightarrow> nat \<Rightarrow> fmt list option" where
  "parse_format format maxFormats = parse_loop format 0 maxFormats []"

subsection \<open>The four functions\<close>

definition check_integer_format :: "fmt \<Rightarrow> bool" where
  "check_integer_format f \<longleftrightarrow> f \<in> {FMT_CHAR, FMT_SHORT, FMT_INT}"

datatype arg = Int_arg u32 | Long_arg u64 | String_arg addr

type_synonym formatter = "addr \<Rightarrow> nat \<Rightarrow> addr \<Rightarrow> arg list \<Rightarrow> heap \<Rightarrow> (int \<times> heap) option"

definition text_at :: "heap \<Rightarrow> addr \<Rightarrow> chars" where
  "text_at h a i = map_option (\<lambda>b. char_of (unat b)) (rd8 h (a + i))"

definition SNPRFNEGATE :: "errno \<Rightarrow> int" where
  "SNPRFNEGATE e = - 1 * errno_code e"

definition reject :: "addr \<Rightarrow> errno \<Rightarrow> heap \<Rightarrow> (int \<times> heap) option" where
  "reject dest e h = do { h1 \<leftarrow> wr8 h dest 0; Some (SNPRFNEGATE e, h1) }"

definition snprintf_s_i :: "formatter \<Rightarrow> addr \<Rightarrow> nat \<Rightarrow> addr \<Rightarrow> u32 \<Rightarrow> heap \<Rightarrow> (int \<times> heap) option" where
  "snprintf_s_i snprintf dest dmax format a h =
     do { fs \<leftarrow> parse_format (text_at h format) MAX_FORMAT_ELEMENTS;
          if length fs \<noteq> 1 then reject dest ESBADFMT h
          else if \<not> check_integer_format (fs ! 0) then reject dest ESFMTTYP h
          else snprintf dest dmax format [Int_arg a] h }"

definition snprintf_s_l :: "formatter \<Rightarrow> addr \<Rightarrow> nat \<Rightarrow> addr \<Rightarrow> u64 \<Rightarrow> heap \<Rightarrow> (int \<times> heap) option" where
  "snprintf_s_l snprintf dest dmax format a h =
     do { fs \<leftarrow> parse_format (text_at h format) MAX_FORMAT_ELEMENTS;
          if length fs \<noteq> 1 then reject dest ESBADFMT h
          else if fs ! 0 \<noteq> FMT_LONG then reject dest ESFMTTYP h
          else snprintf dest dmax format [Long_arg a] h }"

definition snprintf_s_si ::
  "formatter \<Rightarrow> addr \<Rightarrow> nat \<Rightarrow> addr \<Rightarrow> addr \<Rightarrow> u32 \<Rightarrow> heap \<Rightarrow> (int \<times> heap) option" where
  "snprintf_s_si snprintf dest dmax format s a h =
     do { fs \<leftarrow> parse_format (text_at h format) MAX_FORMAT_ELEMENTS;
          if length fs \<noteq> 2 then reject dest ESBADFMT h
          else if fs ! 0 \<noteq> FMT_STRING then reject dest ESFMTTYP h
          else if \<not> check_integer_format (fs ! 1) then reject dest ESFMTTYP h
          else snprintf dest dmax format [String_arg s, Int_arg a] h }"

definition snprintf_s_sl ::
  "formatter \<Rightarrow> addr \<Rightarrow> nat \<Rightarrow> addr \<Rightarrow> addr \<Rightarrow> u64 \<Rightarrow> heap \<Rightarrow> (int \<times> heap) option" where
  "snprintf_s_sl snprintf dest dmax format s a h =
     do { fs \<leftarrow> parse_format (text_at h format) MAX_FORMAT_ELEMENTS;
          if length fs \<noteq> 2 then reject dest ESBADFMT h
          else if fs ! 0 \<noteq> FMT_STRING then reject dest ESFMTTYP h
          else if fs ! 1 \<noteq> FMT_LONG then reject dest ESFMTTYP h
          else snprintf dest dmax format [String_arg s, Long_arg a] h }"

subsection \<open>Reading a format\<close>

definition reads :: "chars \<Rightarrow> nat \<Rightarrow> string \<Rightarrow> bool" where
  "reads format i cs \<longleftrightarrow> (\<forall>j < length cs. format (i + j) = Some (cs ! j))"

lemma reads_Nil [simp]: "reads format i []"
  by (simp add: reads_def)

lemma reads_Cons [simp]: "reads format i (c # cs) \<longleftrightarrow> format i = Some c \<and> reads format (Suc i) cs"
  by (auto simp: reads_def nth_Cons less_Suc_eq_0_disj split: nat.splits)

lemma reads_append: "reads format i (xs @ ys) \<longleftrightarrow> reads format i xs \<and> reads format (i + length xs) ys"
  by (induction xs arbitrary: i) auto

lemma skip_digits_all:
  "reads format i ds \<Longrightarrow> list_all is_digit ds \<Longrightarrow> format (i + length ds) = Some c \<Longrightarrow> \<not> is_digit c \<Longrightarrow>
   skip_digits format i = Some (i + length ds)"
proof (induction ds arbitrary: i)
  case (Cons d ds)
  then have "skip_digits format (Suc i) = Some (Suc i + length ds)" by simp
  then show ?case using Cons.prems by (subst skip_digits.simps) simp
qed (subst skip_digits.simps, simp)

lemma parse_loop_plain:
  "reads format i cs \<Longrightarrow> NUL \<notin> set cs \<Longrightarrow> percent \<notin> set cs \<Longrightarrow> i + length cs \<le> RSIZE_MAX_STR \<Longrightarrow> length fs < maxFormats \<Longrightarrow>
   parse_loop format i maxFormats fs = parse_loop format (i + length cs) maxFormats fs"
proof (induction cs arbitrary: i)
  case (Cons c cs)
  have "parse_loop format i maxFormats fs = parse_loop format (Suc i) maxFormats fs"
    using Cons.prems by (subst parse_loop.simps) auto
  also have "\<dots> = parse_loop format (Suc i + length cs) maxFormats fs"
    using Cons.prems by (intro Cons.IH) auto
  finally show ?case by simp
qed simp

lemma parse_loop_end:
  "format i = Some NUL \<or> RSIZE_MAX_STR \<le> i \<Longrightarrow> parse_loop format i maxFormats fs = Some fs"
  by (subst parse_loop.simps) auto

subsection \<open>One conversion\<close>

text \<open>A conversion as the C standard writes it, with at most one flag, the integer length modifiers only.\<close>

record spec =
  flag :: "char option"
  width :: string
  precision :: "string option"
  lenmod :: string
  conv :: char

definition render :: "spec \<Rightarrow> string" where
  "render d = (case flag d of None \<Rightarrow> [] | Some f \<Rightarrow> [f]) @ width d
     @ (case precision d of None \<Rightarrow> [] | Some p \<Rightarrow> CHR ''.'' # p) @ lenmod d @ [conv d]"

definition spec_ok :: "spec \<Rightarrow> bool" where
  "spec_ok d \<longleftrightarrow> (case flag d of None \<Rightarrow> take 1 (width d) \<noteq> ''0'' | Some f \<Rightarrow> f \<in> set ''#0- +'')
     \<and> list_all is_digit (width d) \<and> (case precision d of None \<Rightarrow> True | Some p \<Rightarrow> list_all is_digit p)
     \<and> lenmod d \<in> {'''', ''h'', ''hh'', ''l'', ''ll'', ''j'', ''z'', ''t''} \<and> conv d \<in> set ''cdiouxXeEfFgGaAspn''"

text \<open>The type that is recorded for it.\<close>

definition kind :: "spec \<Rightarrow> fmt" where
  "kind d = the (conversion (if lenmod d = ''hh'' then CHR ''H'' else if lenmod d = ''h'' then CHR ''h''
     else if lenmod d = ''l'' then CHR ''l'' else if lenmod d = ''ll'' then CHR ''d'' else CHR '' '') (conv d))"

lemma conversion_known: "c \<in> set ''cdiouxXeEfFgGaAspn'' \<Longrightarrow> conversion l c \<noteq> None"
proof -
  have "''cdiouxXeEfFgGaAspn'' = ''c'' @ ''diouxX'' @ ''eEfFgGaA'' @ ''s'' @ ''p'' @ ''n''" by simp
  moreover assume "c \<in> set ''cdiouxXeEfFgGaAspn''"
  ultimately have "c = CHR ''c'' \<or> c \<in> set ''diouxX'' \<or> c \<in> set ''eEfFgGaA'' \<or> c = CHR ''s'' \<or> c = CHR ''p'' \<or> c = CHR ''n''"
    by (simp only: set_append Un_iff list.set insert_iff empty_iff simp_thms)
  then show ?thesis
    unfolding conversion_def
    by (cases "c = CHR ''c''"; cases "c \<in> set ''diouxX''"; cases "c \<in> set ''eEfFgGaA''"; cases "c = CHR ''s''";
      cases "c = CHR ''p''"; cases "c = CHR ''n''"; simp only: if_True if_False option.distinct simp_thms)
qed

lemma not_modifier: "c \<in> set ''cdiouxXeEfFgGaAspn'' \<Longrightarrow> c \<noteq> CHR ''h'' \<and> c \<noteq> CHR ''l'' \<and> c \<noteq> CHR ''L'' \<and> c \<notin> set ''jzt''"
  by (simp only: list.set insert_iff empty_iff simp_thms) (elim disjE; simp)

lemma length_modifier_spec:
  assumes "reads format i (lenmod d @ [conv d])" "spec_ok d"
  shows "\<exists>l. length_modifier format i = Some (l, i + length (lenmod d)) \<and> conversion l (conv d) = Some (kind d)"
proof -
  have conv: "conv d \<in> set ''cdiouxXeEfFgGaAspn''" using assms(2) by (simp only: spec_ok_def)
  note not = not_modifier [OF conv] and known = conversion_known [OF conv]
  consider "lenmod d = []" | "lenmod d = ''h''" | "lenmod d = ''hh''" | "lenmod d = ''l''" | "lenmod d = ''ll''"
    | "lenmod d = ''j''" | "lenmod d = ''z''" | "lenmod d = ''t''"
    using assms(2) by (auto simp: spec_ok_def)
  then show ?thesis
    using assms(1) not known by cases (simp_all add: length_modifier_def reads_append kind_def)
qed

lemma rest_head:
  assumes "spec_ok d"
  shows "\<not> is_digit (hd (lenmod d @ [conv d])) \<and> hd (lenmod d @ [conv d]) \<noteq> CHR ''.''
    \<and> hd (lenmod d @ [conv d]) \<notin> set ''#0- +'' \<and> hd (lenmod d @ [conv d]) \<noteq> NUL \<and> hd (lenmod d @ [conv d]) \<noteq> percent"
proof -
  have conv: "conv d \<in> set ''cdiouxXeEfFgGaAspn''" using assms by (simp only: spec_ok_def)
  then have "hd (lenmod d @ [conv d]) \<in> set ''cdiouxXeEfFgGaAspnhljzt''"
    using assms by (auto simp: spec_ok_def)
  then show ?thesis
    by (simp only: list.set insert_iff empty_iff simp_thms) (elim disjE; simp add: is_digit_def)
qed

lemma digit_plain: "is_digit c \<Longrightarrow> c \<noteq> NUL \<and> c \<noteq> percent \<and> (c \<noteq> CHR ''0'' \<longrightarrow> c \<notin> set ''#0- +'')"
  by (simp only: is_digit_def list.set insert_iff empty_iff simp_thms) (elim disjE; simp)

lemma first_char:
  assumes "spec_ok d" "reads format i (case flag d of None \<Rightarrow> [] | Some f \<Rightarrow> [f])"
    "reads format (i + length (case flag d of None \<Rightarrow> [] | Some f \<Rightarrow> [f])) (width d)"
    "format (i + length (case flag d of None \<Rightarrow> [] | Some f \<Rightarrow> [f]) + length (width d)) = Some b"
    "b \<notin> set ''#0- +''" "b \<noteq> NUL" "b \<noteq> percent"
  shows "\<exists>a. format i = Some a \<and> a \<noteq> NUL \<and> a \<noteq> percent
    \<and> skip_flag format i = Some (i + length (case flag d of None \<Rightarrow> [] | Some f \<Rightarrow> [f]))"
proof (cases "flag d")
  case (Some f)
  then have f: "f \<in> set ''#0- +''" "format i = Some f" using assms(1,2) by (simp_all add: spec_ok_def del: list.set)
  then have "f \<noteq> NUL \<and> f \<noteq> percent"
    by (simp only: list.set insert_iff empty_iff simp_thms) (elim disjE; simp)
  then show ?thesis using f Some by (simp add: skip_flag_def del: list.set)
next
  case None
  show ?thesis
  proof (cases "width d")
    case Nil
    then show ?thesis using None assms(4-) by (simp add: skip_flag_def del: list.set)
  next
    case (Cons w ws)
    then have w: "is_digit w" "w \<noteq> CHR ''0''" "format i = Some w"
      using assms(1,3) None by (simp_all add: spec_ok_def)
    then show ?thesis using digit_plain [OF w(1)] None by (simp add: skip_flag_def del: list.set)
  qed
qed

lemma directive_spec:
  assumes shown: "reads format i (render d)" and ok: "spec_ok d"
  shows "directive format i = Some (Some (kind d), i + length (render d) + 1)"
proof -
  let ?f = "case flag d of None \<Rightarrow> [] | Some f \<Rightarrow> [f]"
  let ?p = "case precision d of None \<Rightarrow> [] | Some p \<Rightarrow> CHR ''.'' # p"
  let ?rest = "lenmod d @ [conv d]"
  let ?i1 = "i + length ?f" and ?i2 = "i + length ?f + length (width d)"
  let ?i3 = "?i2 + length ?p"
  have r: "reads format i ?f" "reads format ?i1 (width d)" "reads format ?i2 ?p" "reads format ?i3 ?rest"
    using shown by (simp_all add: render_def reads_append add.assoc)
  obtain c where c: "format ?i3 = Some c" "c = hd ?rest" using r(4) by (cases "lenmod d") auto
  have hd: "\<not> is_digit c" "c \<noteq> CHR ''.''" "c \<notin> set ''#0- +''" "c \<noteq> NUL" "c \<noteq> percent" using rest_head [OF ok] c(2) by simp_all
  obtain b where b: "format ?i2 = Some b" "b = hd (?p @ ?rest)"
    using r(3) c by (cases "precision d") auto
  have b': "\<not> is_digit b" "b \<notin> set ''#0- +''" "b \<noteq> NUL" "b \<noteq> percent"
    using b(2) hd c(2) by (cases "precision d"; simp add: is_digit_def)+
  have width: "skip_digits format ?i1 = Some ?i2"
    using skip_digits_all [OF r(2) _ b(1) b'(1)] ok by (simp add: spec_ok_def)
  have precision: "skip_precision format ?i2 = Some ?i3"
  proof (cases "precision d")
    case None
    then show ?thesis using c hd by (simp add: skip_precision_def)
  next
    case (Some p)
    then have "skip_digits format (?i2 + 1) = Some ?i3"
      using skip_digits_all [of format "?i2 + 1" p c] r(3) ok c(1) hd(1) by (simp add: spec_ok_def)
    then show ?thesis using r(3) Some by (simp add: skip_precision_def)
  qed
  obtain a where a: "format i = Some a" "a \<noteq> NUL" "a \<noteq> percent" "skip_flag format i = Some ?i1"
    using first_char [OF ok r(1,2) b(1) b'(2-4)] by blast
  obtain l where l: "length_modifier format ?i3 = Some (l, ?i3 + length (lenmod d))" "conversion l (conv d) = Some (kind d)"
    using length_modifier_spec [OF r(4) ok] by blast
  have "format (?i3 + length (lenmod d)) = Some (conv d)" using r(4) by (simp add: reads_append)
  then show ?thesis
    using a width precision l by (simp add: directive_def render_def)
qed

subsection \<open>Formats with many conversions\<close>

text \<open>A format in pieces: plain text, a conversion, and the one character behind it, whatever that is.\<close>

type_synonym piece = "string \<times> spec \<times> char"

fun layout :: "piece list \<Rightarrow> string" where
  "layout [] = []"
| "layout ((pre, d, c) # ps) = pre @ percent # render d @ c # layout ps"

definition plain :: "string \<Rightarrow> bool" where
  "plain cs \<longleftrightarrow> NUL \<notin> set cs \<and> percent \<notin> set cs"

fun piece_ok :: "piece \<Rightarrow> bool" where
  "piece_ok (pre, d, c) \<longleftrightarrow> plain pre \<and> spec_ok d"

definition specs :: "piece list \<Rightarrow> spec list" where
  "specs ps = map (\<lambda>(pre, d, c). d) ps"

lemma parse_loop_directive:
  assumes "reads format i (pre @ percent # render d)" "plain pre" "spec_ok d"
    "i + length pre < RSIZE_MAX_STR" "length fs < maxFormats"
  shows "parse_loop format i maxFormats fs = parse_loop format (i + length pre + length (render d) + 2) maxFormats (fs @ [kind d])"
proof -
  have r: "reads format i pre" "format (i + length pre) = Some percent" "reads format (i + length pre + 1) (render d)"
    using assms(1) by (simp_all add: reads_append)
  have "parse_loop format i maxFormats fs = parse_loop format (i + length pre) maxFormats fs"
    using parse_loop_plain [OF r(1)] assms(2,4,5) by (simp add: plain_def)
  also have "\<dots> = parse_loop format (i + length pre + length (render d) + 2) maxFormats (fs @ [kind d])"
    using assms(4,5) r(2) directive_spec [OF r(3) assms(3)] by (subst parse_loop.simps) (simp add: not_le)
  finally show ?thesis .
qed

lemma parse_loop_pieces:
  "reads format i (layout ps @ suf @ [NUL]) \<Longrightarrow> list_all piece_ok ps \<Longrightarrow> plain suf \<Longrightarrow>
   i + length (layout ps) + length suf \<le> RSIZE_MAX_STR \<Longrightarrow> length fs + length ps < maxFormats \<Longrightarrow>
   parse_loop format i maxFormats fs = Some (fs @ map kind (specs ps))"
proof (induction ps arbitrary: i fs)
  case Nil
  then show ?case
    using parse_loop_plain [of format i suf fs maxFormats]
    by (simp add: specs_def plain_def reads_append parse_loop_end)
next
  case (Cons p ps)
  obtain pre d c where p: "p = (pre, d, c)" by (cases p)
  let ?j = "i + length pre + length (render d) + 2"
  have r: "reads format i (pre @ percent # render d)" "reads format ?j (layout ps @ suf @ [NUL])"
    using Cons.prems(1) by (simp_all add: p reads_append)
  have "parse_loop format i maxFormats fs = parse_loop format ?j maxFormats (fs @ [kind d])"
    using Cons.prems by (intro parse_loop_directive [OF r(1)]) (simp_all add: p)
  also have "\<dots> = Some ((fs @ [kind d]) @ map kind (specs ps))"
    using Cons.prems r(2) by (intro Cons.IH) (simp_all add: p)
  finally show ?case by (simp add: p specs_def)
qed

lemma parse_format_pieces:
  "reads format 0 (layout ps @ suf @ [NUL]) \<Longrightarrow> list_all piece_ok ps \<Longrightarrow> plain suf \<Longrightarrow>
   length (layout ps) + length suf \<le> RSIZE_MAX_STR \<Longrightarrow> length ps < maxFormats \<Longrightarrow>
   parse_format format maxFormats = Some (map kind (specs ps))"
  by (simp add: parse_format_def parse_loop_pieces)

subsection \<open>What the functions accept\<close>

text \<open>The conversions that the functions take for an \<open>int\<close>, a \<open>long\<close> and a string.\<close>

definition int_spec :: "spec \<Rightarrow> bool" where
  "int_spec d \<longleftrightarrow> conv d \<in> set ''cdiouxX'' \<and> lenmod d \<noteq> ''l''"

definition long_spec :: "spec \<Rightarrow> bool" where
  "long_spec d \<longleftrightarrow> conv d \<in> set ''diouxX'' \<and> lenmod d = ''l''"

definition string_spec :: "spec \<Rightarrow> bool" where
  "string_spec d \<longleftrightarrow> conv d = CHR ''s'' \<and> lenmod d \<noteq> ''l''"

lemma kind_types:
  assumes "spec_ok d"
  shows "check_integer_format (kind d) \<longleftrightarrow> int_spec d" "kind d = FMT_LONG \<longleftrightarrow> long_spec d"
    "kind d = FMT_STRING \<longleftrightarrow> string_spec d"
proof -
  have "conv d \<in> set ''cdiouxXeEfFgGaAspn''" using assms by (simp only: spec_ok_def)
  then have "(check_integer_format (kind d) \<longleftrightarrow> int_spec d) \<and> (kind d = FMT_LONG \<longleftrightarrow> long_spec d)
    \<and> (kind d = FMT_STRING \<longleftrightarrow> string_spec d)"
    by (simp only: list.set insert_iff empty_iff simp_thms)
      (elim disjE; simp add: kind_def conversion_def check_integer_format_def int_spec_def long_spec_def string_spec_def)
  then show "check_integer_format (kind d) \<longleftrightarrow> int_spec d" "kind d = FMT_LONG \<longleftrightarrow> long_spec d"
    "kind d = FMT_STRING \<longleftrightarrow> string_spec d" by simp_all
qed

definition format_in :: "heap \<Rightarrow> addr \<Rightarrow> piece list \<Rightarrow> string \<Rightarrow> bool" where
  "format_in h format ps suf \<longleftrightarrow> reads (text_at h format) 0 (layout ps @ suf @ [NUL]) \<and> list_all piece_ok ps \<and> plain suf
     \<and> length (layout ps) + length suf \<le> RSIZE_MAX_STR \<and> length ps < MAX_FORMAT_ELEMENTS"

lemma format_in_parses: "format_in h format ps suf \<Longrightarrow> parse_format (text_at h format) MAX_FORMAT_ELEMENTS = Some (map kind (specs ps))"
  by (rule parse_format_pieces [of _ ps suf]) (simp_all add: format_in_def)

lemma format_in_specs: "format_in h format ps suf \<Longrightarrow> d \<in> set (specs ps) \<Longrightarrow> spec_ok d"
  by (auto simp: format_in_def specs_def list_all_iff)


definition demo_spec :: spec where
  "demo_spec = \<lparr>flag = Some CHR ''0'', width = ''4'', precision = None, lenmod = ''h'', conv = CHR ''x''\<rparr>"

definition demo_format :: heap where
  "demo_format = (\<lambda>a. if 1 \<le> a \<and> a < 10 then Some (of_nat (of_char ((''a %04hx '' @ [NUL]) ! (a - 1)))) else None)"

definition demo_snprintf :: formatter where
  "demo_snprintf dest dmax format as h = Some (int (length as), h)"


text \<open>
  The character behind a conversion is never looked at, not even a percent sign: \<open>%d%n\<close> counts as one conversion,
  so \<open>snprintf_s_i\<close> hands a format to \<open>snprintf\<close> that writes through a pointer which is not among its arguments.
\<close>

theorem hidden_conversion:
  assumes "reads (text_at h format) 0 (pre @ ''%d%n'' @ suf @ [NUL])" "plain pre" "plain suf"
    "length pre + length suf + 4 \<le> RSIZE_MAX_STR"
  shows "snprintf_s_i snprintf dest dmax format a h = snprintf dest dmax format [Int_arg a] h"
proof -
  let ?d = "\<lparr>flag = None, width = [], precision = None, lenmod = [], conv = CHR ''d''\<rparr> :: spec"
  have "reads (text_at h format) 0 (layout [(pre, ?d, percent)] @ (CHR ''n'' # suf) @ [NUL])"
    using assms(1) by (simp add: render_def)
  then have "parse_format (text_at h format) MAX_FORMAT_ELEMENTS = Some (map kind (specs [(pre, ?d, percent)]))"
    using assms(2-4) by (intro parse_format_pieces [of _ _ "CHR ''n'' # suf"])
      (simp_all add: plain_def render_def spec_ok_def MAX_FORMAT_ELEMENTS_def)
  then show ?thesis by (simp add: snprintf_s_i_def specs_def kind_def conversion_def check_integer_format_def)
qed

definition demo_hidden :: heap where
  "demo_hidden = (\<lambda>a. if 1 \<le> a \<and> a < 6 then Some (of_nat (of_char ((''%d%n'' @ [NUL]) ! (a - 1)))) else None)"

theorem hidden_conversion_witness: "snprintf_s_i demo_snprintf 20 8 1 7 demo_hidden = Some (1, demo_hidden)"
proof -
  have "reads (text_at demo_hidden 1) 0 ([] @ ''%d%n'' @ [] @ [NUL])"
    by (simp add: text_at_def rd8_def demo_hidden_def) code_simp
  from hidden_conversion [OF this] show ?thesis by (simp add: plain_def RSIZE_MAX_STR_def demo_snprintf_def)
qed

text \<open>
  A format that ends in its conversion is read behind its terminating null: none of the four functions is safe with it
  when nothing stands behind it, and \<open>snprintf_s_i\<close> with \<open>"%d"\<close> is such a call.
\<close>

theorem final_conversion_read_behind:
  assumes "reads (text_at h format) 0 (pre @ percent # render d @ [NUL])" "plain pre" "spec_ok d"
    "length pre + length (render d) + 2 < RSIZE_MAX_STR" "text_at h format (length pre + length (render d) + 2) = None"
  shows "snprintf_s_i snprintf dest dmax format a h = None \<and> snprintf_s_l snprintf dest dmax format b h = None
    \<and> snprintf_s_si snprintf dest dmax format s a h = None \<and> snprintf_s_sl snprintf dest dmax format s b h = None"
proof -
  have "reads (text_at h format) 0 (pre @ percent # render d)" using assms(1) by (simp add: reads_append)
  then have "parse_loop (text_at h format) 0 MAX_FORMAT_ELEMENTS [] =
      parse_loop (text_at h format) (0 + length pre + length (render d) + 2) MAX_FORMAT_ELEMENTS ([] @ [kind d])"
    using assms(2-4) by (intro parse_loop_directive) (simp_all add: MAX_FORMAT_ELEMENTS_def)
  then have "parse_format (text_at h format) MAX_FORMAT_ELEMENTS = None"
    using assms(4,5) by (subst (asm) (2) parse_loop.simps) (simp add: parse_format_def)
  then show ?thesis by (simp add: snprintf_s_i_def snprintf_s_l_def snprintf_s_si_def snprintf_s_sl_def)
qed

definition demo_final :: heap where
  "demo_final = (\<lambda>a. if 1 \<le> a \<and> a < 4 then Some (of_nat (of_char ((''%d'' @ [NUL]) ! (a - 1)))) else None)"

theorem final_conversion_read_behind_witness: "snprintf_s_i demo_snprintf 20 8 1 7 demo_final = None"
proof -
  let ?d = "\<lparr>flag = None, width = [], precision = None, lenmod = [], conv = CHR ''d''\<rparr> :: spec"
  have "reads (text_at demo_final 1) 0 ([] @ percent # render ?d @ [NUL])" "text_at demo_final 1 (Suc (Suc (Suc 0))) = None"
    by (simp_all add: text_at_def rd8_def demo_final_def render_def) code_simp
  then show ?thesis
    using final_conversion_read_behind [of demo_final 1 "[]" ?d]
    by (simp add: plain_def spec_ok_def render_def RSIZE_MAX_STR_def)
qed

end
