(* ===== verification/Topology_Types.thy ===== *)
theory Topology_Types
  imports Discovery
begin

text \<open>
  The types of the object store of \<open>Topology\<close>: every pointer of an object leads to an existing object of a class
  that the C++ type of the field allows.  All the functions that attach objects to each other, the discovery and
  the registration keep the store well typed, for every machine, port multipliers included, and whether or not they
  succeed; the dynamic casts of the queries rest on it.
\<close>

subsection \<open>Well-typed stores\<close>

definition is_port :: "obj_class \<Rightarrow> bool" where
  "is_port c \<longleftrightarrow> is_plain_port c \<or> c = RemotePort"

definition is_device :: "obj_class \<Rightarrow> bool" where
  "is_device c \<longleftrightarrow> is_controller c \<or> is_routing_device c \<or> is_end_device c"

definition ref :: "(obj_class \<Rightarrow> bool) \<Rightarrow> topo \<Rightarrow> nat \<Rightarrow> bool" where
  "ref P s x \<longleftrightarrow> x < fresh s \<and> P (class_in s x)"

definition opt_ref :: "(obj_class \<Rightarrow> bool) \<Rightarrow> topo \<Rightarrow> nat option \<Rightarrow> bool" where
  "opt_ref P s r \<longleftrightarrow> (case r of None \<Rightarrow> True | Some x \<Rightarrow> ref P s x)"

definition list_ref :: "(obj_class \<Rightarrow> bool) \<Rightarrow> topo \<Rightarrow> nat list \<Rightarrow> bool" where
  "list_ref P s xs \<longleftrightarrow> list_all (ref P s) xs"

definition obj_typed :: "topo \<Rightarrow> obj \<Rightarrow> bool" where
  "obj_typed s ob \<longleftrightarrow>
     opt_ref is_device s (obj_parent ob) \<and> list_ref is_phy s (phys ob) \<and> list_ref is_port s (ports ob)
     \<and> list_ref is_end_device s (direct_devices ob) \<and> list_ref is_end_device s (indirect_devices ob)
     \<and> list_ref is_routing_device s (direct_routers ob) \<and> list_ref is_routing_device s (indirect_routers ob)
     \<and> opt_ref is_phy s (own_phy ob) \<and> opt_ref is_port s (own_port ob) \<and> opt_ref is_port s (remote_port ob)
     \<and> opt_ref is_phy s (remote_phy ob) \<and> opt_ref is_port s (port_of_phy ob)"

definition typed :: "topo \<Rightarrow> bool" where
  "typed s \<longleftrightarrow> (\<forall>x < fresh s. obj_typed s (store s x))"

text \<open>What every operation does to a well-typed store: it stays so, and no object changes its class.\<close>

definition grows :: "topo \<Rightarrow> topo \<Rightarrow> bool" where
  "grows s s' \<longleftrightarrow> typed s' \<and> fresh s \<le> fresh s' \<and> (\<forall>x < fresh s. class_in s' x = class_in s x)"

definition keeps :: "topo \<Rightarrow> attach_outcome \<Rightarrow> bool" where
  "keeps s r \<longleftrightarrow> (\<forall>s'. r = Some (Inr s') \<longrightarrow> grows s s')"

named_theorems typing \<open>rules for well-typed stores\<close>

lemma opt_ref_simps [simp]: "opt_ref P s None" "opt_ref P s (Some x) \<longleftrightarrow> ref P s x"
  by (simp_all add: opt_ref_def)

lemma list_ref_simps [simp]:
  "list_ref P s []" "list_ref P s (x # xs) \<longleftrightarrow> ref P s x \<and> list_ref P s xs"
  "list_ref P s (xs @ ys) \<longleftrightarrow> list_ref P s xs \<and> list_ref P s ys"
  by (simp_all add: list_ref_def)

lemma list_refD: "list_ref P s xs \<Longrightarrow> x \<in> set xs \<Longrightarrow> ref P s x"
  by (simp add: list_ref_def list_all_iff)

lemma typedD: "typed s \<Longrightarrow> ref P s x \<Longrightarrow> obj_typed s (store s x)"
  by (simp add: typed_def ref_def)

lemma refD: "ref P s x \<Longrightarrow> x < fresh s" "ref P s x \<Longrightarrow> P (class_in s x)"
  by (simp_all add: ref_def)

lemma ref_mono: "ref P s x \<Longrightarrow> (\<And>c. P c \<Longrightarrow> Q c) \<Longrightarrow> ref Q s x"
  by (simp add: ref_def)

lemma ref_any: "ref P s x \<Longrightarrow> ref (\<lambda>_. True) s x"
  by (simp add: ref_def)

lemma store_grows_refl: "typed s \<Longrightarrow> grows s s"
  by (simp add: grows_def)

lemma grows_trans: "grows s s1 \<Longrightarrow> grows s1 s2 \<Longrightarrow> grows s s2"
  by (auto simp: grows_def)

lemma grows_typed: "grows s s' \<Longrightarrow> typed s'"
  by (simp add: grows_def)

lemma grows_ref: "grows s s' \<Longrightarrow> ref P s x \<Longrightarrow> ref P s' x"
  by (auto simp: grows_def ref_def)

lemma grows_opt_ref: "grows s s' \<Longrightarrow> opt_ref P s r \<Longrightarrow> opt_ref P s' r"
  by (cases r) (auto intro: grows_ref)

lemma keeps_simps [simp]:
  "keeps s None" "keeps s (Some (Inl e))" "keeps s (Some (Inr s')) \<longleftrightarrow> grows s s'"
  by (simp_all add: keeps_def)

lemma keeps_from: "grows s s1 \<Longrightarrow> keeps s1 r \<Longrightarrow> keeps s r"
  by (auto simp: keeps_def intro: grows_trans)

lemma keeps_andThen:
  "keeps s r \<Longrightarrow> (\<And>s1. grows s s1 \<Longrightarrow> keeps s1 (f s1)) \<Longrightarrow> keeps s (andThen r f)"
  by (cases r rule: option.exhaust [case_names None Some]; simp add: keeps_def andThen_def split: sum.splits)
    (blast intro: grows_trans)

subsection \<open>Updates and new objects\<close>

lemma obj_typed_mono:
  assumes "obj_typed s ob" "fresh s \<le> fresh s'" "\<And>x. x < fresh s \<Longrightarrow> class_in s' x = class_in s x"
  shows "obj_typed s' ob"
proof -
  have ref: "ref P s x \<Longrightarrow> ref P s' x" for P x using assms(2,3) by (auto simp: ref_def)
  have opt: "opt_ref P s r \<Longrightarrow> opt_ref P s' r" for P r using ref by (cases r) auto
  have lst: "list_ref P s xs \<Longrightarrow> list_ref P s' xs" for P xs using ref by (auto simp: list_ref_def list_all_iff)
  show ?thesis using assms(1) opt lst unfolding obj_typed_def by blast
qed

lemma grows_upd:
  assumes s: "typed s" and x: "ref P s x" and c: "\<And>ob. obj_class (f ob) = obj_class ob"
    and f: "obj_typed s (store s x) \<Longrightarrow> obj_typed s (f (store s x))"
  shows "grows s (upd x f s)"
proof -
  have same: "class_in (upd x f s) y = class_in s y" for y using c by simp
  have "obj_typed (upd x f s) (store (upd x f s) y)" if "y < fresh s" for y
  proof -
    have "obj_typed s (store (upd x f s) y)" using s that f x by (auto simp: typed_def ref_def)
    moreover have "fresh s \<le> fresh (upd x f s)" by simp
    ultimately show ?thesis by (rule obj_typed_mono) (rule same)
  qed
  then show ?thesis using same by (simp add: grows_def typed_def del: upd_simps(1))
qed

lemma grows_alloc:
  assumes s: "typed s" and parent: "opt_ref is_device s q"
  shows "grows s (snd (alloc c p q n s))" "ref ((=) c) (snd (alloc c p q n s)) (fst (alloc c p q n s))"
proof -
  let ?s = "snd (alloc c p q n s)"
  have same: "class_in ?s y = class_in s y" if "y < fresh s" for y using that by simp
  have new: "obj_typed s (new_obj c p q n)" using parent by (simp add: obj_typed_def new_obj_def)
  have "obj_typed ?s (store ?s y)" if "y < Suc (fresh s)" for y
  proof (rule obj_typed_mono [where s = s])
    show "obj_typed s (store ?s y)" using that s new by (auto simp: typed_def less_Suc_eq)
  qed (use same in simp_all)
  then show "grows s ?s" by (simp add: grows_def typed_def)
  show "ref ((=) c) ?s (fst (alloc c p q n s))" by (simp add: ref_def)
qed

lemma grows_setParent: "typed s \<Longrightarrow> ref P s x \<Longrightarrow> opt_ref is_device s q \<Longrightarrow> grows s (setParent x q s)"
  unfolding setParent_def by (auto intro!: store_grows_refl grows_upd simp: obj_typed_def)

subsection \<open>Attaching\<close>

lemma attachEndDevice_keeps:
  assumes "typed s" "ref P s x" "ref is_end_device s e"
  shows "keeps s (attachEndDevice x e s)"
proof -
  let ?Q = "\<lambda>x e s r. typed s \<and> ref (\<lambda>_. True) s x \<and> ref is_end_device s e \<longrightarrow> keeps s (Some r)"
  have "?Q x e s r" if "attachEndDevice x e s = Some r" for r
  proof (rule attachEndDevice.raw_induct [of ?Q "((x, e), s)" r, unfolded prod.case, OF _ that], intro impI)
    fix g x e s r
    assume IH: "\<And>x e s r. g x e s = Some r \<Longrightarrow> ?Q x e s r"
      and run: "(let ob = store s x; c = obj_class ob in
        if is_controller c \<or> is_routing_device c then Some (Inr (upd x (direct_devices_update (\<lambda>ds. ds @ [e])) s))
        else if is_plain_port c \<or> c = RemotePort then (case obj_parent ob of None \<Rightarrow> Some (Inr s) | Some y \<Rightarrow> g y e s)
        else Some (Inl E_INVALID_OPERATION)) = Some r"
      and pre: "typed s \<and> ref (\<lambda>_. True) s x \<and> ref is_end_device s e"
    have "grows s (upd x (direct_devices_update (\<lambda>ds. ds @ [e])) s)"
      using pre by (intro grows_upd [of _ "\<lambda>_. True"]) (auto simp: obj_typed_def)
    moreover have "ref (\<lambda>_. True) s y" if "obj_parent (store s x) = Some y" for y
      using typedD [of s "\<lambda>_. True" x] pre that by (auto simp: obj_typed_def intro: ref_any)
    ultimately show "keeps s (Some r)"
      using run pre IH store_grows_refl [of s] by (auto simp: Let_def split: if_splits option.splits)
  qed
  then show ?thesis using assms ref_any [OF assms(2)] by (cases "attachEndDevice x e s") auto
qed

lemma below_typed:
  assumes "typed s" "ref P s r"
  shows "list_ref is_end_device s (getEndDevices r True s)" "list_ref is_routing_device s (getRoutingDevices r True s)"
  using typedD [OF assms] by (simp_all add: obj_typed_def getEndDevices_def getRoutingDevices_def)

lemma parent_ref: "typed s \<Longrightarrow> ref P s x \<Longrightarrow> obj_parent (store s x) = Some y \<Longrightarrow> ref is_device s y"
  using typedD [of s P x] by (simp add: obj_typed_def)

lemma attachRoutingDevice_keeps:
  assumes "typed s" "ref P s x" "ref is_routing_device s e"
  shows "keeps s (attachRoutingDevice x e s)"
proof -
  let ?Q = "\<lambda>x e s r. typed s \<and> ref (\<lambda>_. True) s x \<and> ref is_routing_device s e \<longrightarrow> keeps s (Some r)"
  have "?Q x e s r" if "attachRoutingDevice x e s = Some r" for r
  proof (rule attachRoutingDevice.raw_induct [of ?Q "((x, e), s)" r, unfolded prod.case, OF _ that], intro impI)
    fix g x e s r
    assume IH: "\<And>x e s r. g x e s = Some r \<Longrightarrow> ?Q x e s r"
      and run: "(let ob = store s x; c = obj_class ob in
        if is_controller c \<or> is_routing_device c
        then Some (Inr (upd x (\<lambda>ob. ob\<lparr>direct_routers := direct_routers ob @ [e],
               indirect_devices := indirect_devices ob @ getEndDevices e True s,
               indirect_routers := indirect_routers ob @ getRoutingDevices e True s\<rparr>) s))
        else if is_plain_port c \<or> c = RemotePort then (case obj_parent ob of None \<Rightarrow> Some (Inr s) | Some y \<Rightarrow> g y e s)
        else Some (Inl E_INVALID_OPERATION)) = Some r"
      and pre: "typed s \<and> ref (\<lambda>_. True) s x \<and> ref is_routing_device s e"
    have "grows s (upd x (\<lambda>ob. ob\<lparr>direct_routers := direct_routers ob @ [e],
               indirect_devices := indirect_devices ob @ getEndDevices e True s,
               indirect_routers := indirect_routers ob @ getRoutingDevices e True s\<rparr>) s)"
      using pre below_typed [of s is_routing_device e] by (intro grows_upd [of _ "\<lambda>_. True"]) (auto simp: obj_typed_def)
    moreover have "ref (\<lambda>_. True) s y" if "obj_parent (store s x) = Some y" for y
      using parent_ref [of s "\<lambda>_. True" x] pre that by (auto intro: ref_any)
    ultimately show "keeps s (Some r)"
      using run pre IH store_grows_refl [of s] by (auto simp: Let_def split: if_splits option.splits)
  qed
  then show ?thesis using assms ref_any [OF assms(2)] by (cases "attachRoutingDevice x e s") auto
qed

lemma is_port_other: "\<not> is_controller c \<Longrightarrow> \<not> is_routing_device c \<Longrightarrow> \<not> is_end_device c \<Longrightarrow> \<not> is_phy c \<Longrightarrow> is_port c"
  by (cases c) (auto simp: class_defs is_port_def)

text \<open>The updates of single pointers that the functions make.\<close>

lemma grows_pointers:
  assumes "typed s" "ref P s x"
  shows "ref is_port s p \<Longrightarrow> grows s (upd x (ports_update (\<lambda>ps. ps @ [p])) s)"
    "ref is_port s p \<Longrightarrow> grows s (upd x (own_port_update (\<lambda>_. Some p)) s)"
    "ref is_port s p \<Longrightarrow> grows s (upd x (port_of_phy_update (\<lambda>_. Some p)) s)"
    "ref is_port s p \<Longrightarrow> grows s (upd x (remote_port_update (\<lambda>_. Some p)) s)"
    "ref is_phy s f \<Longrightarrow> grows s (upd x (phys_update (\<lambda>fs. fs @ [f])) s)"
    "ref is_phy s f \<Longrightarrow> grows s (upd x (own_phy_update (\<lambda>_. Some f)) s)"
    "ref is_phy s f \<Longrightarrow> grows s (upd x (remote_phy_update (\<lambda>_. Some f)) s)"
    "grows s (upd x (raid_arrays_update u) s)" "grows s (upd x (raid_volumes_update u) s)"
    "grows s (upd x (array_of_disk_update v) s)"
  by (rule grows_upd [OF assms]; simp add: obj_typed_def)+

lemma attachPort_keeps:
  assumes "typed s" "ref P s x" "ref is_port s p"
  shows "keeps s (attachPort x p s)"
proof -
  let ?Q = "\<lambda>x p s r. typed s \<and> ref (\<lambda>_. True) s x \<and> ref is_port s p \<longrightarrow> keeps s (Some r)"
  have "?Q x p s r" if "attachPort x p s = Some r" for r
  proof (rule attachPort.raw_induct [of ?Q "((x, p), s)" r, unfolded prod.case, OF _ that], intro impI)
    fix g x p s r
    assume IH: "\<And>x p s r. g x p s = Some r \<Longrightarrow> ?Q x p s r"
      and run: "(let ob = store s x; c = obj_class ob in
        if is_controller c \<or> is_routing_device c then Some (Inr (upd x (ports_update (\<lambda>ps. ps @ [p])) s))
        else if is_end_device c then Some (Inr (upd x (own_port_update (\<lambda>_. Some p)) s))
        else if is_phy c then Some (Inr (upd x (port_of_phy_update (\<lambda>_. Some p)) s))
        else if p = x then Some (Inl E_INVALID_OBJECT)
        else let s1 = upd x (remote_port_update (\<lambda>_. Some p)) s in
             if c = RemotePort
             then (case obj_parent ob of
                     None \<Rightarrow> Some (Inr s1)
                   | Some d \<Rightarrow>
                       (if is_routing_device (class_in s d) then attachRoutingDevice p d s1
                        else if is_end_device (class_in s d) then attachEndDevice p d s1
                        else Some (Inr s1)))
             else g p x s1) = Some r"
      and pre: "typed s \<and> ref (\<lambda>_. True) s x \<and> ref is_port s p"
    let ?c = "class_in s x" and ?s1 = "upd x (remote_port_update (\<lambda>_. Some p)) s"
    note grow = grows_pointers [of s "\<lambda>_. True" x, OF conjunct1 [OF pre] conjunct1 [OF conjunct2 [OF pre]]]
    have p: "ref is_port s p" using pre by blast
    have s1: "grows s ?s1" by (rule grow(4) [OF p])
    have parent: "ref is_device s d" if "obj_parent (store s x) = Some d" for d
      using parent_ref [of s "\<lambda>_. True" x] pre that by auto
    have p1: "ref is_port ?s1 p" by (rule grows_ref [OF s1 p])
    have router: "keeps s (attachRoutingDevice p d ?s1)" if "obj_parent (store s x) = Some d" "is_routing_device (class_in s d)" for d
      using attachRoutingDevice_keeps [OF grows_typed [OF s1] p1] grows_ref [OF s1, of is_routing_device d] parent [OF that(1)] that(2)
      by (intro keeps_from [OF s1]) (simp add: ref_def)
    have device: "keeps s (attachEndDevice p d ?s1)" if "obj_parent (store s x) = Some d" "is_end_device (class_in s d)" for d
      using attachEndDevice_keeps [OF grows_typed [OF s1] p1] grows_ref [OF s1, of is_end_device d] parent [OF that(1)] that(2)
      by (intro keeps_from [OF s1]) (simp add: ref_def)
    have recall: "keeps s (Some r)" if "g p x ?s1 = Some r" "is_port ?c"
      using IH [OF that(1)] grows_typed [OF s1] ref_any [OF p1] grows_ref [OF s1, of is_port x] that(2) pre
      by (intro keeps_from [OF s1]) (auto simp: ref_def)
    show "keeps s (Some r)"
      using run grow(1-3) [OF p] s1 router device recall is_port_other [of ?c]
      by (auto simp: Let_def split: if_splits option.splits)
  qed
  then show ?thesis using assms ref_any [OF assms(2)] by (cases "attachPort x p s") auto
qed

lemma attachPhy_keeps:
  assumes "typed s" "ref P s x" "ref is_phy s f"
  shows "keeps s (attachPhy x f s)"
proof -
  let ?Q = "\<lambda>x f s r. typed s \<and> ref (\<lambda>_. True) s x \<and> ref is_phy s f \<longrightarrow> keeps s (Some r)"
  have "?Q x f s r" if "attachPhy x f s = Some r" for r
  proof (rule attachPhy.raw_induct [of ?Q "((x, f), s)" r, unfolded prod.case, OF _ that], intro impI)
    fix g x f s r
    assume IH: "\<And>x f s r. g x f s = Some r \<Longrightarrow> ?Q x f s r"
      and run: "(let c = class_in s x in
        if is_controller c \<or> is_routing_device c then Some (Inr (upd x (phys_update (\<lambda>fs. fs @ [f])) s))
        else if is_end_device c then Some (Inr (upd x (own_phy_update (\<lambda>_. Some f)) s))
        else if is_phy c
        then (if f = x then Some (Inr s) else g f x (upd x (remote_phy_update (\<lambda>_. Some f)) s))
        else attachPort f x (upd x (phys_update (\<lambda>fs. fs @ [f])) s)) = Some r"
      and pre: "typed s \<and> ref (\<lambda>_. True) s x \<and> ref is_phy s f"
    note grow = grows_pointers [of s "\<lambda>_. True" x, OF conjunct1 [OF pre] conjunct1 [OF conjunct2 [OF pre]]]
    have f: "ref is_phy s f" using pre by blast
    let ?c = "class_in s x" and ?s1 = "upd x (remote_phy_update (\<lambda>_. Some f)) s" and ?s2 = "upd x (phys_update (\<lambda>fs. fs @ [f])) s"
    have s1: "grows s ?s1" and s2: "grows s ?s2" by (rule grow(7) [OF f], rule grow(5) [OF f])
    have phy: "keeps s (Some r)" if "g f x ?s1 = Some r" "is_phy ?c"
      using IH [OF that(1)] grows_typed [OF s1] ref_any [OF grows_ref [OF s1 f]] grows_ref [OF s1, of is_phy x] that(2) pre
      by (intro keeps_from [OF s1]) (auto simp: ref_def)
    have port: "keeps s (attachPort f x ?s2)" if "is_port ?c"
      using attachPort_keeps [OF grows_typed [OF s2] grows_ref [OF s2 f], of x] grows_ref [OF s2, of is_port x] that pre
      by (intro keeps_from [OF s2]) (auto simp: ref_def)
    show "keeps s (Some r)"
      using run grow(5,6) [OF f] phy port is_port_other [of ?c] store_grows_refl [of s] pre
      by (auto simp: Let_def split: if_splits)
  qed
  then show ?thesis using assms ref_any [OF assms(2)] by (cases "attachPhy x f s") auto
qed

lemma attachArray_keeps:
  assumes "typed s" "ref P s x"
  shows "keeps s (attachArray x a s)"
proof -
  let ?Q = "\<lambda>x a s r. typed s \<and> ref (\<lambda>_. True) s x \<longrightarrow> keeps s (Some r)"
  have "?Q x a s r" if "attachArray x a s = Some r" for r
  proof (rule attachArray.raw_induct [of ?Q "((x, a), s)" r, unfolded prod.case, OF _ that], intro impI)
    fix g x a s r
    assume IH: "\<And>x a s r. g x a s = Some r \<Longrightarrow> ?Q x a s r"
      and run: "(let ob = store s x; c = obj_class ob in
      if is_controller c
      then Some (Inr (if a \<in> set (raid_arrays ob) then s else upd x (raid_arrays_update (\<lambda>as. as @ [a])) s))
      else if is_routing_device c
      then (case own_port ob of None \<Rightarrow> None | Some p \<Rightarrow> g p a s)
      else if c = RemotePort then (case remote_port ob of None \<Rightarrow> Some (Inr s) | Some q \<Rightarrow> g q a s)
      else if is_plain_port c then (case obj_parent ob of None \<Rightarrow> Some (Inr s) | Some y \<Rightarrow> g y a s)
      else if is_block_device c
      then (case own_port ob of
              None \<Rightarrow> None
            | Some p \<Rightarrow> g p a (upd x (array_of_disk_update (\<lambda>_. Some a)) s))
      else Some (Inl E_INVALID_OPERATION)) = Some r"
      and pre: "typed s \<and> ref (\<lambda>_. True) s x"
    have ob: "obj_typed s (store s x)" using typedD pre by blast
    note grow = grows_pointers [of s "\<lambda>_. True" x, OF conjunct1 [OF pre] conjunct2 [OF pre]]
    have up: "ref (\<lambda>_. True) s y" if "own_port (store s x) = Some y \<or> remote_port (store s x) = Some y \<or> obj_parent (store s x) = Some y" for y
      using ob that by (auto simp: obj_typed_def intro: ref_any)
    have call: "keeps s (Some r)" if "g y a s = Some r" "own_port (store s x) = Some y \<or> remote_port (store s x) = Some y \<or> obj_parent (store s x) = Some y" for y
      using IH [OF that(1)] up [OF that(2)] pre by blast
    let ?s1 = "upd x (array_of_disk_update (\<lambda>_. Some a)) s"
    have s1: "grows s ?s1" by (rule grow(10))
    have disk: "keeps s (Some r)" if "g y a ?s1 = Some r" "own_port (store s x) = Some y" for y
      using IH [OF that(1)] grows_ref [OF s1 up, of y] grows_typed [OF s1] that(2) by (intro keeps_from [OF s1]) blast
    show "keeps s (Some r)"
      using run grow(8) store_grows_refl [of s] pre call disk by (auto simp: Let_def split: if_splits option.splits)
  qed
  then show ?thesis using assms ref_any [OF assms(2)] by (cases "attachArray x a s") auto
qed

lemma attachVolume_keeps:
  assumes "typed s" "ref P s x"
  shows "keeps s (attachVolume x a s)"
proof -
  let ?Q = "\<lambda>x a s r. typed s \<and> ref (\<lambda>_. True) s x \<longrightarrow> keeps s (Some r)"
  have "?Q x a s r" if "attachVolume x a s = Some r" for r
  proof (rule attachVolume.raw_induct [of ?Q "((x, a), s)" r, unfolded prod.case, OF _ that], intro impI)
    fix g x a s r
    assume IH: "\<And>x a s r. g x a s = Some r \<Longrightarrow> ?Q x a s r"
      and run: "(let ob = store s x; c = obj_class ob in
      if is_controller c
      then Some (Inr (if a \<in> set (raid_volumes ob) then s else upd x (raid_volumes_update (\<lambda>as. as @ [a])) s))
      else if is_routing_device c
      then (case own_port ob of None \<Rightarrow> None | Some p \<Rightarrow> g p a s)
      else if c = RemotePort then (case remote_port ob of None \<Rightarrow> Some (Inr s) | Some q \<Rightarrow> g q a s)
      else if is_plain_port c then (case obj_parent ob of None \<Rightarrow> Some (Inr s) | Some y \<Rightarrow> g y a s)
      else if is_block_device c
      then (case own_port ob of
              None \<Rightarrow> None
            | Some p \<Rightarrow> g p a (upd x (raid_volumes_update (\<lambda>vs. vs @ [a])) s))
      else Some (Inl E_INVALID_OPERATION)) = Some r"
      and pre: "typed s \<and> ref (\<lambda>_. True) s x"
    have ob: "obj_typed s (store s x)" using typedD pre by blast
    note grow = grows_pointers [of s "\<lambda>_. True" x, OF conjunct1 [OF pre] conjunct2 [OF pre]]
    have up: "ref (\<lambda>_. True) s y" if "own_port (store s x) = Some y \<or> remote_port (store s x) = Some y \<or> obj_parent (store s x) = Some y" for y
      using ob that by (auto simp: obj_typed_def intro: ref_any)
    have call: "keeps s (Some r)" if "g y a s = Some r" "own_port (store s x) = Some y \<or> remote_port (store s x) = Some y \<or> obj_parent (store s x) = Some y" for y
      using IH [OF that(1)] up [OF that(2)] pre by blast
    let ?s1 = "upd x (raid_volumes_update (\<lambda>vs. vs @ [a])) s"
    have s1: "grows s ?s1" by (rule grow(9))
    have disk: "keeps s (Some r)" if "g y a ?s1 = Some r" "own_port (store s x) = Some y" for y
      using IH [OF that(1)] grows_ref [OF s1 up, of y] grows_typed [OF s1] that(2) by (intro keeps_from [OF s1]) blast
    show "keeps s (Some r)"
      using run grow(9) store_grows_refl [of s] pre call disk by (auto simp: Let_def split: if_splits option.splits)
  qed
  then show ?thesis using assms ref_any [OF assms(2)] by (cases "attachVolume x a s") auto
qed

subsection \<open>Discovery\<close>

lemma ref_eq: "ref ((=) c) s x \<Longrightarrow> P c \<Longrightarrow> ref P s x"
  by (auto simp: ref_def)

text \<open>A block of a discovery that begins with a new object.\<close>

lemma keeps_alloc:
  assumes "typed s" "opt_ref is_device s q"
    "\<And>x s1. alloc c p q n s = (x, s1) \<Longrightarrow> grows s s1 \<Longrightarrow> ref ((=) c) s1 x \<Longrightarrow> keeps s1 (f x s1)"
  shows "keeps s (let (x, s1) = alloc c p q n s in f x s1)"
proof -
  obtain x s1 where a: "alloc c p q n s = (x, s1)" by fastforce
  then have g: "grows s s1" "ref ((=) c) s1 x" using grows_alloc [OF assms(1,2), of c p n] by (simp_all del: alloc_simps)
  show ?thesis unfolding a prod.case Let_def by (rule keeps_from [OF g(1) assms(3) [OF a g]])
qed

lemma keeps_opt:
  "(opt = None \<Longrightarrow> keeps s a) \<Longrightarrow> (\<And>x. opt = Some x \<Longrightarrow> keeps s (f x)) \<Longrightarrow> keeps s (case opt of None \<Rightarrow> a | Some x \<Rightarrow> f x)"
  by (cases opt) auto

lemma end_device_discover_keeps:
  assumes s: "typed s" and e: "ref is_end_device s e"
  shows "keeps s (end_device_discover e s)"
  unfolding end_device_discover_def Let_def [of "obj_path (store s e)"]
proof (rule keeps_alloc [OF s])
  show "opt_ref is_device s (Some e)" using e by (auto simp: is_device_def ref_def)
next
  fix f s1 assume g1: "grows s s1" and f: "ref ((=) Plain_phy) s1 f"
  let ?s1 = "upd e (own_phy_update (\<lambda>_. Some f)) s1"
  have f': "ref is_phy s1 f" using ref_eq [OF f] by (simp add: class_defs)
  have e1: "ref is_end_device s1 e" by (rule grows_ref [OF g1 e])
  have g2: "grows s1 ?s1" by (rule grows_pointers(6) [OF grows_typed [OF g1] e1 f'])
  have e2: "ref is_end_device ?s1 e" and f2: "ref is_phy ?s1 f" by (rule grows_ref [OF g2 e1], rule grows_ref [OF g2 f'])
  show "keeps s1 (let (r, s2) = alloc RemotePort (obj_path (store s e)) None 0 ?s1 in
      attachPhy r f (setParent r (Some e) (upd e (own_port_update (\<lambda>_. Some r)) s2)))"
  proof (rule keeps_from [OF g2 keeps_alloc [OF grows_typed [OF g2]]])
    fix r s2 assume g3: "grows ?s1 s2" and r: "ref ((=) RemotePort) s2 r"
    let ?s2 = "upd e (own_port_update (\<lambda>_. Some r)) s2" and ?s3 = "setParent r (Some e) (upd e (own_port_update (\<lambda>_. Some r)) s2)"
    have r': "ref is_port s2 r" using ref_eq [OF r] by (simp add: is_port_def)
    have e3: "ref is_end_device s2 e" by (rule grows_ref [OF g3 e2])
    have g4: "grows s2 ?s2" by (rule grows_pointers(2) [OF grows_typed [OF g3] e3 r'])
    have r4: "ref is_port ?s2 r" and e4: "ref is_device ?s2 e"
      using grows_ref [OF g4 r'] grows_ref [OF g4 e3] by (auto simp: ref_def is_device_def)
    have "grows ?s2 ?s3" using grows_setParent [OF grows_typed [OF g4] r4] e4 by simp
    then have g5: "grows s2 ?s3" by (rule grows_trans [OF g4])
    have "keeps ?s3 (attachPhy r f ?s3)"
      using attachPhy_keeps [OF grows_typed [OF g5] grows_ref [OF g5 r'] grows_ref [OF g5 grows_ref [OF g3 f2]]] .
    then show "keeps s2 (attachPhy r f ?s3)" by (rule keeps_from [OF g5])
  qed simp
qed

lemma keeps_new_end_device:
  assumes s: "typed s" and c: "is_end_device c"
    and f: "\<And>e s1. grows s s1 \<Longrightarrow> ref is_end_device s1 e \<Longrightarrow> keeps s1 (f e s1)"
  shows "keeps s (let (e, r) = new_end_device c p s in andThen r (f e))"
proof -
  obtain e s1 where a: "alloc c p None 0 s = (e, s1)" by fastforce
  have g: "grows s s1" "ref ((=) c) s1 e" using grows_alloc [OF s, of None c p 0] a by (simp_all del: alloc_simps)
  have e: "ref is_end_device s1 e" by (rule ref_eq [where P = is_end_device, OF g(2) c])
  have "keeps s1 (andThen (end_device_discover e s1) (f e))"
    using end_device_discover_keeps [OF grows_typed [OF g(1)] e] grows_ref [OF _ e] f grows_trans [OF g(1)]
    by (intro keeps_andThen) blast+
  then show ?thesis using keeps_from [OF g(1)] by (simp add: new_end_device_def a del: alloc_simps)
qed

lemma connect_device_keeps:
  assumes s: "typed s" and e: "ref is_end_device s e" and q: "opt_ref is_device s q" and p: "ref is_port s p"
  shows "keeps s (connect_device q p e s)"
proof -
  let ?s = "setParent e q s"
  have g: "grows s ?s" by (rule grows_setParent [OF s e q])
  have "keeps ?s (attachPort p r ?s)" if "own_port (store ?s e) = Some r" for r
    using typedD [OF grows_typed [OF g] grows_ref [OF g e]] that
    by (intro attachPort_keeps [OF grows_typed [OF g] grows_ref [OF g p]]) (simp add: obj_typed_def)
  then show ?thesis unfolding connect_device_def Let_def by (intro keeps_opt) (auto intro: keeps_from [OF g])
qed

lemma attach_found_keeps:
  assumes s: "typed s" and d: "\<And>c path. d = Some (c, path) \<Longrightarrow> is_end_device c"
    and q: "opt_ref is_device s q" and p: "ref is_port s p"
  shows "keeps s (attach_found q p d s)"
proof (cases d)
  case None
  then show ?thesis using s by (simp add: attach_found_def store_grows_refl)
next
  case (Some x)
  obtain c path where x: "x = (c, path)" by (cases x)
  have "keeps s (let (e, r) = new_end_device c path s in andThen r (connect_device q p e))"
  proof (rule keeps_new_end_device [OF s])
    show "is_end_device c" using d Some x by simp
    fix e s1 assume g: "grows s s1" and e: "ref is_end_device s1 e"
    show "keeps s1 (connect_device q p e s1)"
      by (rule connect_device_keeps [OF grows_typed [OF g] e grows_opt_ref [OF g q] grows_ref [OF g p]])
  qed
  then show ?thesis by (simp add: attach_found_def Some x)
qed

lemma driver_class_device: "driver_class fs p = Some c \<Longrightarrow> is_end_device c"
  by (auto simp: driver_class_def ahci_drivers_def class_defs split: if_splits)

text \<open>A new port on a phy: what AHCI and NVMe phys begin with.\<close>

lemma new_port_keeps:
  assumes s: "typed s" and f: "ref is_phy s f" and c: "is_port c" and q: "opt_ref is_device s q"
    and rest: "\<And>p s3. grows s s3 \<Longrightarrow> ref is_port s3 p \<Longrightarrow> keeps s3 (k p s3)"
  shows "keeps s (let (p, s1) = alloc c path None 0 s; s2 = setParent p q (upd f (port_of_phy_update (\<lambda>_. Some p)) s1)
    in andThen (attachPhy p f s2) (k p))"
proof (rule keeps_alloc [OF s])
  fix p s1 assume g1: "grows s s1" and p: "ref ((=) c) s1 p"
  let ?s1 = "upd f (port_of_phy_update (\<lambda>_. Some p)) s1" and ?s2 = "setParent p q (upd f (port_of_phy_update (\<lambda>_. Some p)) s1)"
  have p1: "ref is_port s1 p" by (rule ref_eq [where P = is_port, OF p c])
  have g2: "grows s1 ?s1" by (rule grows_pointers(3) [OF grows_typed [OF g1] grows_ref [OF g1 f] p1])
  have "grows ?s1 ?s2"
    by (rule grows_setParent [OF grows_typed [OF g2] grows_ref [OF g2 p1] grows_opt_ref [OF g2 grows_opt_ref [OF g1 q]]])
  then have g3: "grows s1 ?s2" by (rule grows_trans [OF g2])
  have "keeps ?s2 (andThen (attachPhy p f ?s2) (k p))"
  proof (rule keeps_andThen)
    show "keeps ?s2 (attachPhy p f ?s2)"
      by (rule attachPhy_keeps [OF grows_typed [OF g3] grows_ref [OF g3 p1] grows_ref [OF g3 grows_ref [OF g1 f]]])
    fix s3 assume "grows ?s2 s3"
    then show "keeps s3 (k p s3)"
      using rest grows_ref [OF _ grows_ref [OF g3 p1]] grows_trans [OF g1 grows_trans [OF g3]] by blast
  qed
  then show "keeps s1 (let s2 = ?s2 in andThen (attachPhy p f s2) (k p))" using keeps_from [OF g3] by simp
qed simp

lemma nvme_phy_discover_keeps:
  assumes s: "typed s" and f: "ref is_phy s f"
  shows "keeps s (nvme_phy_discover identified f s)"
  unfolding nvme_phy_discover_def Let_def [of "obj_path (store s f)"] Let_def [of "obj_parent (store s f)"]
proof (rule new_port_keeps [OF s f])
  show q: "opt_ref is_device s (obj_parent (store s f))" using typedD [OF s f] by (simp add: obj_typed_def)
  show "is_port NVME_Port" by (simp add: is_port_def class_defs)
  fix p s3 assume g: "grows s s3" and p: "ref is_port s3 p"
  show "keeps s3 (andThen (attach_found (obj_parent (store s f)) p
        (if identified (obj_path (store s f)) then Some (NVME_Disk, obj_path (store s f)) else None) s3)
      (\<lambda>s4. case obj_parent (store s f) of None \<Rightarrow> Some (Inr s4) | Some y \<Rightarrow> attachPort y p s4))"
  proof (rule keeps_andThen)
    show "keeps s3 (attach_found (obj_parent (store s f)) p
        (if identified (obj_path (store s f)) then Some (NVME_Disk, obj_path (store s f)) else None) s3)"
      by (rule attach_found_keeps [OF grows_typed [OF g] _ grows_opt_ref [OF g q] p])
        (auto simp: class_defs split: if_splits)
    fix s4 assume g4: "grows s3 s4"
    show "keeps s4 (case obj_parent (store s f) of None \<Rightarrow> Some (Inr s4) | Some y \<Rightarrow> attachPort y p s4)"
      using attachPort_keeps [OF grows_typed [OF g4] _ grows_ref [OF g4 p]] grows_opt_ref [OF g4 grows_opt_ref [OF g q]]
        store_grows_refl [OF grows_typed [OF g4]]
      by (auto split: option.splits)
  qed
qed

lemma multiplier_attach_keeps:
  assumes s: "typed s" and m: "ref is_routing_device s m" and c: "is_end_device c"
  shows "keeps s (multiplier_attach m c path n s)"
  unfolding multiplier_attach_def
proof (rule keeps_new_end_device [OF s c])
  fix e s1 assume g1: "grows s s1" and e: "ref is_end_device s1 e"
  have m1: "ref is_routing_device s1 m" by (rule grows_ref [OF g1 m])
  show "keeps s1 (let (f, s2) = alloc Plain_phy path (Some m) n s1 in
        andThen (attachPhy m f s2) (\<lambda>s3.
          let (p, s4) = alloc Plain_port path None 0 s3 in
          andThen (attachPort m p s4) (\<lambda>s5.
            andThen (attachPhy p f (setParent p (Some m) s5)) (\<lambda>s6.
              case own_port (store s6 e) of None \<Rightarrow> None | Some q \<Rightarrow> attachPort p q s6))))"
  proof (rule keeps_alloc [OF grows_typed [OF g1]])
    show "opt_ref is_device s1 (Some m)" using m1 by (auto simp: ref_def is_device_def)
    fix f s2 assume g2: "grows s1 s2" and f: "ref ((=) Plain_phy) s2 f"
    have f2: "ref is_phy s2 f" using ref_eq [OF f] by (simp add: class_defs)
    have m2: "ref is_routing_device s2 m" and e2: "ref is_end_device s2 e" by (rule grows_ref [OF g2 m1], rule grows_ref [OF g2 e])
    show "keeps s2 (andThen (attachPhy m f s2) (\<lambda>s3.
          let (p, s4) = alloc Plain_port path None 0 s3 in
          andThen (attachPort m p s4) (\<lambda>s5.
            andThen (attachPhy p f (setParent p (Some m) s5)) (\<lambda>s6.
              case own_port (store s6 e) of None \<Rightarrow> None | Some q \<Rightarrow> attachPort p q s6))))"
    proof (rule keeps_andThen [OF attachPhy_keeps [OF grows_typed [OF g2] m2 f2]], rule keeps_alloc)
      fix s3 assume g3: "grows s2 s3"
      then show "typed s3" by (rule grows_typed)
      fix p s4 assume g4: "grows s3 s4" and p: "ref ((=) Plain_port) s4 p"
      have p4: "ref is_port s4 p" using ref_eq [OF p] by (simp add: is_port_def class_defs)
      have g: "grows s2 s4" by (rule grows_trans [OF g3 g4])
      show "keeps s4 (andThen (attachPort m p s4) (\<lambda>s5. andThen (attachPhy p f (setParent p (Some m) s5))
            (\<lambda>s6. case own_port (store s6 e) of None \<Rightarrow> None | Some q \<Rightarrow> attachPort p q s6)))"
      proof (rule keeps_andThen [OF attachPort_keeps [OF grows_typed [OF g4] grows_ref [OF g m2] p4]])
        fix s5 assume g5: "grows s4 s5"
        let ?s5 = "setParent p (Some m) s5"
        have p5: "ref is_port s5 p" and d5: "ref is_device s5 m"
          using grows_ref [OF g5 p4] grows_ref [OF g5 grows_ref [OF g m2]] by (auto simp: ref_def is_device_def)
        have g6: "grows s5 ?s5" using grows_setParent [OF grows_typed [OF g5] p5] d5 by simp
        have "keeps ?s5 (andThen (attachPhy p f ?s5) (\<lambda>s6. case own_port (store s6 e) of None \<Rightarrow> None | Some q \<Rightarrow> attachPort p q s6))"
        proof (rule keeps_andThen)
          show "keeps ?s5 (attachPhy p f ?s5)"
            by (rule attachPhy_keeps [OF grows_typed [OF g6] grows_ref [OF g6 p5] grows_ref [OF grows_trans [OF g grows_trans [OF g5 g6]] f2]])
          fix s6 assume g7: "grows ?s5 s6"
          have e6: "ref is_end_device s6 e" and p6: "ref is_port s6 p"
            using grows_ref [OF grows_trans [OF g grows_trans [OF g5 grows_trans [OF g6 g7]]] e2]
              grows_ref [OF grows_trans [OF g6 g7] p5] by simp_all
          show "keeps s6 (case own_port (store s6 e) of None \<Rightarrow> None | Some q \<Rightarrow> attachPort p q s6)"
            using attachPort_keeps [OF grows_typed [OF g7] p6] typedD [OF grows_typed [OF g7] e6]
            by (auto simp: obj_typed_def split: option.splits)
        qed
        then show "keeps s5 (andThen (attachPhy p f ?s5) (\<lambda>s6. case own_port (store s6 e) of None \<Rightarrow> None | Some q \<Rightarrow> attachPort p q s6))"
          by (rule keeps_from [OF g6])
      qed
    qed simp
  qed
qed

lemma multiplier_target_keeps:
  "typed s \<Longrightarrow> ref is_routing_device s m \<Longrightarrow> keeps s (snd (multiplier_target fs m ps n s))"
  by (induction ps arbitrary: n) (auto simp: store_grows_refl intro!: multiplier_attach_keeps dest: driver_class_device split: option.splits)

lemma multiplier_targets_keeps:
  "typed s \<Longrightarrow> ref is_routing_device s m \<Longrightarrow> keeps s (multiplier_targets fs m ts n s)"
proof (induction ts arbitrary: n s)
  case (Cons t ts)
  obtain n' r where r: "multiplier_target fs m (dirs fs t []) n s = (n', r)" by fastforce
  have "keeps s (andThen r (multiplier_targets fs m ts n'))"
  proof (rule keeps_andThen)
    show "keeps s r" using multiplier_target_keeps [OF Cons.prems, of fs "dirs fs t []" n] r by simp
    show "keeps s1 (multiplier_targets fs m ts n' s1)" if "grows s s1" for s1
      using Cons.IH [OF grows_typed [OF that] grows_ref [OF that Cons.prems(2)]] .
  qed
  then show ?case by (simp add: r)
qed (simp add: store_grows_refl)

lemma multiplier_discover_keeps:
  assumes s: "typed s" and m: "ref is_routing_device s m"
  shows "keeps s (multiplier_discover fs tgts m s)"
  unfolding multiplier_discover_def Let_def [of "obj_path (store s m)"]
proof (rule keeps_alloc [OF s])
  show "opt_ref is_device s (Some m)" using m by (auto simp: is_device_def ref_def)
next
  fix f s1 assume g1: "grows s s1" and f: "ref ((=) AHCI_Phy) s1 f"
  let ?s1 = "upd m (own_phy_update (\<lambda>_. Some f)) s1"
  have f': "ref is_phy s1 f" using ref_eq [OF f] by (simp add: class_defs)
  have m1: "ref is_routing_device s1 m" by (rule grows_ref [OF g1 m])
  have g2: "grows s1 ?s1" by (rule grows_pointers(6) [OF grows_typed [OF g1] m1 f'])
  have m2: "ref is_routing_device ?s1 m" and f2: "ref is_phy ?s1 f" by (rule grows_ref [OF g2 m1], rule grows_ref [OF g2 f'])
  show "keeps s1 (let (r, s2) = alloc RemotePort (obj_path (store s m)) None 0 ?s1 in
      andThen (attachPhy r f (setParent r (Some m) (upd m (own_port_update (\<lambda>_. Some r)) s2)))
        (multiplier_targets fs m tgts 0))"
  proof (rule keeps_from [OF g2 keeps_alloc [OF grows_typed [OF g2]]])
    fix r s2 assume g3: "grows ?s1 s2" and r: "ref ((=) RemotePort) s2 r"
    let ?s2 = "upd m (own_port_update (\<lambda>_. Some r)) s2" and ?s3 = "setParent r (Some m) (upd m (own_port_update (\<lambda>_. Some r)) s2)"
    have r': "ref is_port s2 r" using ref_eq [OF r] by (simp add: is_port_def)
    have m3: "ref is_routing_device s2 m" by (rule grows_ref [OF g3 m2])
    have g4: "grows s2 ?s2" by (rule grows_pointers(2) [OF grows_typed [OF g3] m3 r'])
    have r4: "ref is_port ?s2 r" and m4: "ref is_device ?s2 m"
      using grows_ref [OF g4 r'] grows_ref [OF g4 m3] by (auto simp: ref_def is_device_def)
    have "grows ?s2 ?s3" using grows_setParent [OF grows_typed [OF g4] r4] m4 by simp
    then have g5: "grows s2 ?s3" by (rule grows_trans [OF g4])
    have "keeps ?s3 (andThen (attachPhy r f ?s3) (multiplier_targets fs m tgts 0))"
    proof (rule keeps_andThen)
      show "keeps ?s3 (attachPhy r f ?s3)"
        by (rule attachPhy_keeps [OF grows_typed [OF g5] grows_ref [OF g5 r'] grows_ref [OF g5 grows_ref [OF g3 f2]]])
      show "keeps s4 (multiplier_targets fs m tgts 0 s4)" if "grows ?s3 s4" for s4
        by (rule multiplier_targets_keeps [OF grows_typed [OF that] grows_ref [OF that grows_ref [OF g5 m3]]])
    qed
    then show "keeps s2 (andThen (attachPhy r f ?s3) (multiplier_targets fs m tgts 0))" by (rule keeps_from [OF g5])
  qed simp
qed

lemma ahci_phy_discover_keeps:
  assumes s: "typed s" and f: "ref is_phy s f"
  shows "keeps s (ahci_phy_discover fs f s)"
proof (cases "Sysfs.count fs (obj_path (store s f)) ''target'' = 0")
  case True
  then show ?thesis using s by (simp add: ahci_phy_discover_def Let_def store_grows_refl)
next
  case False
  let ?path = "obj_path (store s f)" and ?q = "obj_parent (store s f)"
  have q: "opt_ref is_device s ?q" using typedD [OF s f] by (simp add: obj_typed_def)
  show ?thesis
    unfolding ahci_phy_discover_def Let_def [of ?path] Let_def [of ?q] if_not_P [OF False]
  proof (rule new_port_keeps [OF s f _ q])
    show "is_port AHCI_Port" by (simp add: is_port_def class_defs)
    fix p s3 assume g: "grows s s3" and p: "ref is_port s3 p"
    note s3 = grows_typed [OF g] and q3 = grows_opt_ref [OF g q]
    have single: "keeps s3 (case dirs fs ?path ''target'' of [] \<Rightarrow> None
        | t # ts \<Rightarrow> attach_found ?q p (first_device fs (dirs fs t [])) s3)"
      using attach_found_keeps [OF s3 _ q3 p] first_device_class by (auto split: list.splits)
    have many: "keeps s3 (let (m, s4) = alloc AHCI_Multiplier ?path None 0 s3 in
        andThen (multiplier_discover fs (dirs fs ?path ''target'') m s4) (\<lambda>s5.
          case own_port (store s5 m) of None \<Rightarrow> None | Some r \<Rightarrow> attachPort p r (setParent m ?q s5)))"
    proof (rule keeps_alloc [OF s3])
      fix m s4 assume g4: "grows s3 s4" and m: "ref ((=) AHCI_Multiplier) s4 m"
      have m4: "ref is_routing_device s4 m" using ref_eq [OF m] by (simp add: class_defs)
      show "keeps s4 (andThen (multiplier_discover fs (dirs fs ?path ''target'') m s4) (\<lambda>s5.
          case own_port (store s5 m) of None \<Rightarrow> None | Some r \<Rightarrow> attachPort p r (setParent m ?q s5)))"
      proof (rule keeps_andThen [OF multiplier_discover_keeps [OF grows_typed [OF g4] m4]])
        fix s5 assume g5: "grows s4 s5"
        let ?s5 = "setParent m ?q s5"
        have m5: "ref is_routing_device s5 m" by (rule grows_ref [OF g5 m4])
        have g6: "grows s5 ?s5" using grows_setParent [OF grows_typed [OF g5] m5] grows_opt_ref [OF grows_trans [OF g4 g5] q3] by blast
        have p6: "ref is_port ?s5 p" by (rule grows_ref [OF grows_trans [OF g4 grows_trans [OF g5 g6]] p])
        have "keeps s5 (attachPort p r ?s5)" if "own_port (store s5 m) = Some r" for r
          using typedD [OF grows_typed [OF g5] m5] that
          by (intro keeps_from [OF g6] attachPort_keeps [OF grows_typed [OF g6] p6] grows_ref [OF g6]) (simp add: obj_typed_def)
        then show "keeps s5 (case own_port (store s5 m) of None \<Rightarrow> None | Some r \<Rightarrow> attachPort p r ?s5)"
          by (auto split: option.splits)
      qed
    qed simp
    have last: "keeps s6 (case ?q of None \<Rightarrow> Some (Inr s6) | Some y \<Rightarrow> attachPort y p s6)" if "grows s3 s6" for s6
      using attachPort_keeps [OF grows_typed [OF that] _ grows_ref [OF that p]] grows_opt_ref [OF that q3]
        store_grows_refl [OF grows_typed [OF that]] by (auto split: option.splits)
    show "keeps s3 (andThen (if Sysfs.count fs ?path ''target'' = 1
        then (case dirs fs ?path ''target'' of [] \<Rightarrow> None | t # ts \<Rightarrow> attach_found ?q p (first_device fs (dirs fs t [])) s3)
        else let (m, s4) = alloc AHCI_Multiplier ?path None 0 s3 in
             andThen (multiplier_discover fs (dirs fs ?path ''target'') m s4) (\<lambda>s5.
               case own_port (store s5 m) of None \<Rightarrow> None | Some r \<Rightarrow> attachPort p r (setParent m ?q s5)))
        (\<lambda>s6. case ?q of None \<Rightarrow> Some (Inr s6) | Some y \<Rightarrow> attachPort y p s6))"
      by (rule keeps_andThen [OF _ last]) (use single many in \<open>simp only: simp_thms split: if_split\<close>)
  qed
qed

lemma ahci_hosts_discover_keeps:
  "typed s \<Longrightarrow> ref is_controller s c \<Longrightarrow> keeps s (ahci_hosts_discover fs c hs n s)"
proof (induction hs arbitrary: n s)
  case (Cons h hs)
  have "keeps s (let (f, s1) = alloc AHCI_Phy (canonical fs h) (Some c) n s in
      andThen (attachPhy c f s1) (\<lambda>s2. andThen (ahci_phy_discover fs f s2) (ahci_hosts_discover fs c hs (Suc n))))"
  proof (rule keeps_alloc [OF Cons.prems(1)])
    show "opt_ref is_device s (Some c)" using Cons.prems(2) by (auto simp: is_device_def ref_def)
    fix f s1 assume g1: "grows s s1" and f: "ref ((=) AHCI_Phy) s1 f"
    have f1: "ref is_phy s1 f" using ref_eq [OF f] by (simp add: class_defs)
    have c1: "ref is_controller s1 c" by (rule grows_ref [OF g1 Cons.prems(2)])
    show "keeps s1 (andThen (attachPhy c f s1) (\<lambda>s2. andThen (ahci_phy_discover fs f s2) (ahci_hosts_discover fs c hs (Suc n))))"
    proof (rule keeps_andThen [OF attachPhy_keeps [OF grows_typed [OF g1] c1 f1]], rule keeps_andThen)
      fix s2 assume g2: "grows s1 s2"
      show "keeps s2 (ahci_phy_discover fs f s2)" by (rule ahci_phy_discover_keeps [OF grows_typed [OF g2] grows_ref [OF g2 f1]])
      show "keeps s3 (ahci_hosts_discover fs c hs (Suc n) s3)" if "grows s2 s3" for s3
        by (rule Cons.IH [OF grows_typed [OF that] grows_ref [OF grows_trans [OF g2 that] c1]])
    qed
  qed
  then show ?case using Cons by simp
qed (simp add: store_grows_refl)

lemma ahci_discover_keeps: "typed s \<Longrightarrow> ref is_controller s c \<Longrightarrow> keeps s (ahci_discover fs c s)"
  by (simp add: ahci_discover_def ahci_hosts_discover_keeps split: option.splits)

lemma vmd_paths_discover_keeps:
  "typed s \<Longrightarrow> ref is_controller s c \<Longrightarrow> keeps s (snd (vmd_paths_discover fs identified c p is n s))"
proof (induction "is" arbitrary: n s)
  case (Cons i "is")
  let ?r = "let (f, s1) = alloc NVME_Phy (canonical fs i) (Some c) n s in
      andThen (attachPhy c f s1) (nvme_phy_discover identified f)"
  have r: "keeps s ?r"
  proof (rule keeps_alloc [OF Cons.prems(1)])
    show "opt_ref is_device s (Some c)" using Cons.prems(2) by (auto simp: is_device_def ref_def)
    fix f s1 assume g1: "grows s s1" and f: "ref ((=) NVME_Phy) s1 f"
    have f1: "ref is_phy s1 f" using ref_eq [OF f] by (simp add: class_defs)
    have c1: "ref is_controller s1 c" by (rule grows_ref [OF g1 Cons.prems(2)])
    show "keeps s1 (andThen (attachPhy c f s1) (nvme_phy_discover identified f))"
      by (rule keeps_andThen [OF attachPhy_keeps [OF grows_typed [OF g1] c1 f1]])
        (blast intro: nvme_phy_discover_keeps grows_typed grows_ref [OF _ f1])
  qed
  have rest: "keeps s (snd (vmd_paths_discover fs identified c p is (Suc n) s2))" if "?r = Some (Inr s2)" for s2
  proof -
    have g: "grows s s2" using r that by (simp add: keeps_def del: alloc_simps)
    show ?thesis by (rule keeps_from [OF g Cons.IH [OF grows_typed [OF g] grows_ref [OF g Cons.prems(2)]]])
  qed
  show ?case
    using r rest Cons.IH [OF Cons.prems]
    by (auto simp: Let_def keeps_def split: option.splits sum.splits)
qed (simp add: store_grows_refl)

subsection \<open>The whole scan\<close>

text \<open>The kind under which an object is registered says what it is.\<close>

definition kind_class :: "kind \<Rightarrow> obj_class \<Rightarrow> bool" where
  "kind_class k c \<longleftrightarrow>
     (case k of Controller \<Rightarrow> is_controller c | Phy \<Rightarrow> is_phy c | Port \<Rightarrow> is_port c | RoutingDevice \<Rightarrow> is_routing_device c
      | EndDevice \<Rightarrow> is_end_device c | _ \<Rightarrow> False)"

definition registered_ok :: "topo \<Rightarrow> (kind \<times> nat) list \<Rightarrow> bool" where
  "registered_ok s xs \<longleftrightarrow> (\<forall>(k, x) \<in> set xs. ref (kind_class k) s x)"

definition task_ok :: "topo \<Rightarrow> task \<Rightarrow> bool" where
  "task_ok s t \<longleftrightarrow> (case t of Visit x \<Rightarrow> x < fresh s | Register k x \<Rightarrow> ref (kind_class k) s x)"

lemma registered_simps:
  "registered_ok s []" "registered_ok s ((k, x) # xs) \<longleftrightarrow> ref (kind_class k) s x \<and> registered_ok s xs"
  "registered_ok s (xs @ ys) \<longleftrightarrow> registered_ok s xs \<and> registered_ok s ys"
  by (auto simp: registered_ok_def)

lemma registered_grows: "registered_ok s xs \<Longrightarrow> grows s s' \<Longrightarrow> registered_ok s' xs"
  by (auto simp: registered_ok_def intro: grows_ref)

lemma tasks_ok:
  assumes s: "typed s" and x: "x < fresh s" and run: "addToSession_tasks x s = Some ts"
  shows "list_all (task_ok s) ts"
proof -
  have ob: "obj_typed s (store s x)" using s x by (simp add: typed_def)
  have lists: "\<forall>y \<in> set (direct_devices (store s x) @ direct_routers (store s x) @ ports (store s x) @ phys (store s x)). y < fresh s"
    using ob by (auto simp: obj_typed_def dest: list_refD refD(1))
  have own: "\<And>f. own_phy (store s x) = Some f \<Longrightarrow> ref is_phy s f" "\<And>p. own_port (store s x) = Some p \<Longrightarrow> ref is_port s p"
    using ob by (auto simp: obj_typed_def)
  show ?thesis
    using run lists own x is_port_other [of "class_in s x"]
    by (auto simp: addToSession_tasks_def Let_def register_own_def list_all_iff task_ok_def ref_def kind_class_def
        split: if_splits bind_splits option.splits)
qed

lemma addToSession_registered:
  assumes "typed s" "list_all (task_ok s) ts" "addToSession s ts = Some xs"
  shows "registered_ok s xs"
proof -
  let ?Q = "\<lambda>s ts xs. typed s \<longrightarrow> list_all (task_ok s) ts \<longrightarrow> registered_ok s xs"
  have "?Q s ts xs"
  proof (rule addToSession.raw_induct [where P = ?Q, OF _ assms(3)], intro impI)
    fix g s ts xs
    assume IH: "\<And>s ts xs. g s ts = Some xs \<Longrightarrow> ?Q s ts xs"
      and run: "(case ts of [] \<Rightarrow> Some []
        | Visit x # ts \<Rightarrow> do { below \<leftarrow> addToSession_tasks x s; g s (below @ ts) }
        | Register k x # ts \<Rightarrow> do { rest \<leftarrow> g s ts; Some ((k, x) # rest) }) = Some xs"
      and pre: "typed s" "list_all (task_ok s) ts"
    have visit: "registered_ok s xs" if "g s (below @ ts') = Some xs" "addToSession_tasks x s = Some below" "ts = Visit x # ts'" for x below ts'
      using IH [OF that(1)] tasks_ok [OF pre(1) _ that(2)] pre that(3) by (simp add: task_ok_def)
    have rest: "registered_ok s ys" if "g s ts' = Some ys" "ts = Register k x # ts'" for k x ts' ys
      using IH [OF that(1)] pre that(2) by simp
    show "registered_ok s xs"
      using run visit rest pre
      by (auto simp: registered_simps task_ok_def split: list.splits task.splits bind_splits)
  qed
  then show ?thesis using assms(1,2) by blast
qed

text \<open>A scan whose result, if there is one, is well typed with all that has been registered.\<close>

definition scan_keeps :: "topo \<Rightarrow> scan_outcome \<Rightarrow> bool" where
  "scan_keeps s o' \<longleftrightarrow> (\<forall>xs s'. o' = (xs, Some (Inr s')) \<longrightarrow> grows s s' \<and> registered_ok s' xs)"

lemma add_controller_keeps:
  assumes r: "keeps s r" and c: "ref P s c" and rest: "\<And>s1. grows s s1 \<Longrightarrow> scan_keeps s1 (rest s1)"
  shows "scan_keeps s (add_controller c r rest)"
  unfolding scan_keeps_def
proof (intro allI impI)
  fix xs s' assume run: "add_controller c r rest = (xs, Some (Inr s'))"
  then obtain s1 ys zs where s1: "r = Some (Inr s1)" "addToSession s1 [Visit c] = Some ys" "rest s1 = (zs, Some (Inr s'))"
    "xs = ys @ zs"
    by (auto simp: add_controller_def split: option.splits sum.splits prod.splits)
  have g: "grows s s1" using r s1(1) by simp
  have "registered_ok s1 ys"
    using addToSession_registered [OF grows_typed [OF g] _ s1(2)] grows_ref [OF g c] by (simp add: task_ok_def ref_def)
  moreover have "grows s1 s'" "registered_ok s' zs" using rest [OF g] s1(3) by (simp_all add: scan_keeps_def)
  ultimately show "grows s s' \<and> registered_ok s' xs"
    using g s1(4) by (auto simp: registered_simps intro: grows_trans registered_grows)
qed

lemma scan_keeps_from: "grows s s1 \<Longrightarrow> scan_keeps s1 o' \<Longrightarrow> scan_keeps s o'"
  by (auto simp: scan_keeps_def intro: grows_trans)

lemma ahci_scan_keeps: "typed s \<Longrightarrow> scan_keeps s (ahci_scan fs attribute ps s)"
proof (induction ps arbitrary: s)
  case Nil
  then show ?case by (simp add: scan_keeps_def store_grows_refl registered_simps)
next
  case (Cons p ps)
  obtain c s1 where a: "alloc AHCI (canonical fs p) None 0 s = (c, s1)" by fastforce
  have g: "grows s s1" "ref ((=) AHCI) s1 c" using grows_alloc [OF Cons.prems, of None AHCI "canonical fs p" 0] a
    by (simp_all del: alloc_simps)
  have c: "ref is_controller s1 c" using ref_eq [OF g(2)] by (simp add: class_defs)
  have "scan_keeps s1 (add_controller c (ahci_discover fs c s1) (ahci_scan fs attribute ps))"
    by (rule add_controller_keeps [OF ahci_discover_keeps [OF grows_typed [OF g(1)] c] c Cons.IH]) (rule grows_typed)
  then show ?case using scan_keeps_from [OF g(1)] Cons by (simp add: a del: alloc_simps)
qed

lemma vmd_domains_keeps:
  "typed s \<Longrightarrow> opt_ref is_controller s ctrl \<Longrightarrow> vmd_domains fs identified ps ctrl n s = (ctrl', Some (Inr s')) \<Longrightarrow>
   grows s s' \<and> opt_ref is_controller s' ctrl'"
proof (induction ps arbitrary: ctrl n s)
  case Nil
  then show ?case by (auto simp: store_grows_refl)
next
  case (Cons p ps)
  show ?case
  proof (cases "canonical fs (join p ''driver'') = ''/sys/bus/pci/drivers/vmd''")
    case False
    then show ?thesis using Cons by simp
  next
    case True
    obtain c s1 where a: "(case ctrl of None \<Rightarrow> alloc VMD (canonical fs p) None 0 s | Some c \<Rightarrow> (c, s)) = (c, s1)" by fastforce
    have "is_controller VMD" by (simp add: class_defs)
    then have g1: "grows s s1" "ref is_controller s1 c"
      using a grows_alloc [OF Cons.prems(1), of None VMD "canonical fs p" 0] Cons.prems(2) store_grows_refl [OF Cons.prems(1)]
        ref_eq [where c = VMD and P = is_controller]
      by (auto split: option.splits simp del: alloc_simps)
    obtain n' s2 where s2: "vmd_discover fs identified c p n s1 = (n', Some (Inr s2))"
      "vmd_domains fs identified ps (Some c) n' s2 = (ctrl', Some (Inr s'))"
      using Cons.prems(3) True by (auto simp: a split: prod.splits option.splits sum.splits)
    have g2: "grows s1 s2"
      using vmd_paths_discover_keeps [OF grows_typed [OF g1(1)] g1(2)] s2(1)
      by (simp add: vmd_discover_def keeps_def) (metis snd_conv)
    have "grows s2 s' \<and> opt_ref is_controller s' ctrl'"
      using Cons.IH [OF grows_typed [OF g2] _ s2(2)] grows_ref [OF g2 g1(2)] by simp
    then show ?thesis using grows_trans [OF g1(1) grows_trans [OF g2]] by blast
  qed
qed

lemma vmd_scan_keeps: "typed s \<Longrightarrow> scan_keeps s (vmd_scan fs identified ps s)"
proof -
  assume s: "typed s"
  obtain ctrl r where d: "vmd_domains fs identified ps None 0 s = (ctrl, r)" by fastforce
  have all: "\<And>s'. r = Some (Inr s') \<Longrightarrow> grows s s' \<and> opt_ref is_controller s' ctrl"
    using vmd_domains_keeps [OF s, of None] d by simp
  show ?thesis
  proof (cases ctrl)
    case None
    then show ?thesis using d all by (auto simp: vmd_scan_def scan_keeps_def registered_simps)
  next
    case (Some c)
    show ?thesis
    proof (cases "\<exists>s1. r = Some (Inr s1)")
      case False
      then show ?thesis using d Some by (auto simp: vmd_scan_def scan_keeps_def add_controller_def split: option.splits sum.splits)
    next
      case True
      then obtain s1 where r: "r = Some (Inr s1)" by blast
      have g: "grows s s1" "ref is_controller s1 c" using all [OF r] Some by simp_all
      have "scan_keeps s1 (add_controller c r (\<lambda>s. ([], Some (Inr s))))"
        using g store_grows_refl [OF grows_typed [OF g(1)]]
        by (intro add_controller_keeps) (auto simp: r scan_keeps_def registered_simps intro: store_grows_refl grows_typed)
      then show ?thesis using scan_keeps_from [OF g(1)] d Some by (simp add: vmd_scan_def)
    qed
  qed
qed



end
