(* ===== verification/Numbers.thy ===== *)
theory Numbers
  imports Raid_Create
begin

text \<open>
  Numbers in text: what \<open>strtoull\<close> and the extraction of a number from a stream (\<open>from_hex\<close> of \<open>utils.cpp\<close>) make
  of a string, and \<open>parse_pci_address\<close>.  White space and a sign may stand in front, what follows the digits is
  ignored, and a number that does not fit gives the largest one.
\<close>

definition is_space :: "char \<Rightarrow> bool" where
  "is_space c \<longleftrightarrow> (let n = of_char c :: nat in n = 32 \<or> 9 \<le> n \<and> n \<le> 13)"

definition digit_value :: "char \<Rightarrow> nat option" where
  "digit_value c =
     (let n = of_char c :: nat in
      if 48 \<le> n \<and> n \<le> 57 then Some (n - 48)
      else if 97 \<le> n \<and> n \<le> 122 then Some (n - 87)
      else if 65 \<le> n \<and> n \<le> 90 then Some (n - 55)
      else None)"

fun read_digits :: "nat \<Rightarrow> nat \<Rightarrow> string \<Rightarrow> nat" where
  "read_digits b n [] = n"
| "read_digits b n (c # cs) =
     (case digit_value c of Some d \<Rightarrow> if d < b then read_digits b (n * b + d) cs else n | None \<Rightarrow> n)"

text \<open>Base 0 means that the text tells the base.\<close>

definition read_number :: "nat \<Rightarrow> string \<Rightarrow> 'w::len word" where
  "read_number base s =
     (let s1 = dropWhile is_space s;
          s2 = (if take 1 s1 = ''-'' \<or> take 1 s1 = ''+'' then drop 1 s1 else s1);
          prefixed = (case s2 of
                        z # x # d # _ \<Rightarrow> z = CHR ''0'' \<and> x \<in> set ''xX''
                          \<and> (case digit_value d of Some v \<Rightarrow> v < 16 | None \<Rightarrow> False)
                      | _ \<Rightarrow> False);
          (b, s3) = (if prefixed \<and> (base = 0 \<or> base = 16) then (16, drop 2 s2)
                     else if base \<noteq> 0 then (base, s2)
                     else if take 1 s2 = ''0'' then (8, s2) else (10, s2));
          n = read_digits b 0 s3 in
      if 2 ^ LENGTH('w) \<le> n then - 1
      else if take 1 s1 = ''-'' then - of_nat n else of_nat n)"

definition strtoull :: "string \<Rightarrow> u64" where
  "strtoull s = read_number 0 s"

definition from_hex :: "string \<Rightarrow> u32" where
  "from_hex s = read_number 16 s"

subsection \<open>PCI addresses\<close>

record SSI_ScsiAddress =
  host :: byte
  bus :: byte
  target :: byte
  lun :: byte

record SSI_BdfAddress =
  bdf_domain :: u32
  bdf_bus :: byte
  bdf_device :: byte
  bdf_function :: byte

record SSI_Address =
  scsiAddress :: SSI_ScsiAddress
  sasAddressPresent :: bool
  sasAddress :: u64
  bdfAddressPresent :: bool
  bdfAddress :: SSI_BdfAddress

definition no_scsi :: SSI_ScsiAddress where
  "no_scsi = \<lparr>host = 0, bus = 0, target = 0, lun = 0\<rparr>"

text \<open>
  \<open>parse_pci_address\<close>; \<open>reverse_find\<close> and \<open>find\<close> throw when they find nothing, and the handler writes zeros.
\<close>

definition pci_fields :: "string \<Rightarrow> (string \<times> string \<times> string \<times> string) option" where
  "pci_fields path =
     do { slash \<leftarrow> find_sub_last ''/'' path;
          let addr = drop (slash + 1) path;
          first \<leftarrow> find_sub '':'' addr;
          let addr' = drop (first + 1) addr;
          second \<leftarrow> find_sub '':'' addr';
          let addr'' = drop (second + 1) addr';
          dot \<leftarrow> find_sub ''.'' addr'';
          Some (take first addr, take second addr', take dot addr'', drop (dot + 1) addr'') }"

definition parse_pci_address :: "string \<Rightarrow> SSI_Address" where
  "parse_pci_address path =
     (case pci_fields path of
        Some (domain, b, d, f) \<Rightarrow>
          \<lparr>scsiAddress = no_scsi, sasAddressPresent = False, sasAddress = 0, bdfAddressPresent = True,
           bdfAddress = \<lparr>bdf_domain = from_hex domain, bdf_bus = ucast (from_hex b), bdf_device = ucast (from_hex d),
                         bdf_function = ucast (from_hex f)\<rparr>\<rparr>
      | None \<Rightarrow>
          \<lparr>scsiAddress = no_scsi, sasAddressPresent = False, sasAddress = 0, bdfAddressPresent = False,
           bdfAddress = \<lparr>bdf_domain = 0, bdf_bus = 0, bdf_device = 0, bdf_function = 0\<rparr>\<rparr>)"

subsection \<open>Printed numbers\<close>

definition base_digit :: "nat \<Rightarrow> char" where
  "base_digit n = ''0123456789abcdef'' ! n"

fun show_number :: "nat \<Rightarrow> nat \<Rightarrow> string" where
  "show_number b n =
     (if n < b \<or> b < 2 then [base_digit n] else show_number b (n div b) @ [base_digit (n mod b)])"

declare show_number.simps [simp del]

definition padded_hex :: "nat \<Rightarrow> nat \<Rightarrow> string" where
  "padded_hex w n = replicate (w - length (show_number 16 n)) (CHR ''0'') @ show_number 16 n"

definition hex_text :: "string \<Rightarrow> bool" where
  "hex_text s \<longleftrightarrow> list_all (\<lambda>c. \<exists>d < 16. c = base_digit d) s"

lemma digit_value_base: "d < 16 \<Longrightarrow> digit_value (base_digit d) = Some d"
proof -
  have "\<forall>d \<in> set [0..<16]. digit_value (base_digit d) = Some d" by code_simp
  then show "d < 16 \<Longrightarrow> digit_value (base_digit d) = Some d" by simp
qed

lemma base_digit_plain:
  "d < 16 \<Longrightarrow> \<not> is_space (base_digit d) \<and> base_digit d \<notin> set ''+-xX/:.''"
proof -
  have "\<forall>d \<in> set [0..<16]. \<not> is_space (base_digit d) \<and> base_digit d \<notin> set ''+-xX/:.''" by code_simp
  then show "d < 16 \<Longrightarrow> \<not> is_space (base_digit d) \<and> base_digit d \<notin> set ''+-xX/:.''" by simp
qed

lemma read_digits_append:
  "list_all (\<lambda>c. \<exists>d < b. digit_value c = Some d) ds \<Longrightarrow> read_digits b n (ds @ cs) = read_digits b (read_digits b n ds) cs"
  by (induction ds arbitrary: n) auto

lemma show_number_digits: "2 \<le> b \<Longrightarrow> b \<le> 16 \<Longrightarrow> list_all (\<lambda>c. \<exists>d < b. c = base_digit d) (show_number b n)"
proof (induction b n rule: show_number.induct)
  case (1 b n)
  have "\<exists>d < b. base_digit (n mod b) = base_digit d" using "1.prems" by (intro exI [of _ "n mod b"]) simp
  then show ?case using 1 by (subst show_number.simps) auto
qed

lemma digits_values: "b \<le> 16 \<Longrightarrow> list_all (\<lambda>c. \<exists>d < b. c = base_digit d) s \<Longrightarrow> list_all (\<lambda>c. \<exists>d < b. digit_value c = Some d) s"
  by (auto simp: list_all_iff) (metis digit_value_base order_less_le_trans)

lemma read_show: "2 \<le> b \<Longrightarrow> b \<le> 16 \<Longrightarrow> read_digits b 0 (show_number b n) = n"
proof (induction b n rule: show_number.induct)
  case (1 b n)
  show ?case
  proof (cases "n < b")
    case True
    then show ?thesis using "1.prems" by (subst show_number.simps) (simp add: digit_value_base)
  next
    case False
    have "n mod b < b" using "1.prems" by simp
    then have "read_digits b (n div b) [base_digit (n mod b)] = n"
      using "1.prems" digit_value_base [of "n mod b"] \<open>n mod b < b\<close> by (simp add: order_less_le_trans)
    then show ?thesis
      using 1 False digits_values [OF _ show_number_digits, of b "n div b"]
      by (subst show_number.simps) (simp add: read_digits_append)
  qed
qed

lemma read_zeros: "0 < b \<Longrightarrow> read_digits b 0 (replicate k (CHR ''0'') @ s) = read_digits b 0 s"
  by (induction k) (simp_all add: digit_value_def)

lemma show_number_nonempty: "show_number b n \<noteq> []"
  by (subst show_number.simps) simp

lemma hex_text_show: "hex_text (show_number 16 n)" "hex_text (padded_hex w n)"
proof -
  show s: "hex_text (show_number 16 n)" using show_number_digits [of 16 n] by (simp add: hex_text_def)
  have "CHR ''0'' = base_digit 0" by (simp add: base_digit_def)
  then have "\<exists>d<16. CHR ''0'' = base_digit d" by (intro exI [of _ 0]) simp
  then show "hex_text (padded_hex w n)" using s by (auto simp: hex_text_def padded_hex_def list_all_iff)
qed

text \<open>A string of hexadecimal digits is read as its value.\<close>

lemma read_hex:
  assumes s: "hex_text s" "s \<noteq> []"
  shows "read_number 16 s = (if 2 ^ LENGTH('w::len) \<le> read_digits 16 0 s then - 1 else of_nat (read_digits 16 0 s) :: 'w word)"
proof -
  obtain c cs where c: "s = c # cs" using s(2) by (cases s) auto
  have all: "\<And>x. x \<in> set s \<Longrightarrow> \<not> is_space x \<and> x \<notin> set ''+-xX/:.''"
    using s(1) base_digit_plain by (fastforce simp: hex_text_def list_all_iff)
  have c': "\<not> is_space c" "c \<noteq> CHR ''+''" "c \<noteq> CHR ''-''" using all [of c] c by simp_all
  have "\<not> (\<exists>z x d r. s = z # x # d # r \<and> x \<in> set ''xX'')"
  proof
    assume "\<exists>z x d r. s = z # x # d # r \<and> x \<in> set ''xX''"
    then obtain z x d r where "s = z # x # d # r" and x: "x \<in> set ''xX''" by blast
    then have "x \<in> set s" by simp
    from all [OF this] x show False by auto
  qed
  then show ?thesis using c' by (auto simp: read_number_def Let_def c split: list.splits)
qed

lemma from_hex_padded: "n < 2 ^ 32 \<Longrightarrow> from_hex (padded_hex w n) = of_nat n"
  using read_hex [OF hex_text_show(2), of w n, where 'w = 32] read_show [of 16 n] show_number_nonempty [of 16 n]
  by (simp add: from_hex_def padded_hex_def read_zeros)

text \<open>
  C32. The PCI address of a controller is read back from the name of its directory: for a path that ends in the domain, bus,
  device and function as the kernel prints them, \<open>parse_pci_address\<close> gives these numbers and marks the
  address as present.
\<close>

theorem pci_address_roundtrip:
  assumes "dom' < 2 ^ 32" "b < 256" "d < 256" "f < 256"
  shows "parse_pci_address (dir @ ''/'' @ padded_hex 4 dom' @ '':'' @ padded_hex 2 b @ '':'' @ padded_hex 2 d @ ''.'' @ padded_hex 1 f) =
    \<lparr>scsiAddress = no_scsi, sasAddressPresent = False, sasAddress = 0, bdfAddressPresent = True,
     bdfAddress = \<lparr>bdf_domain = of_nat dom', bdf_bus = of_nat b, bdf_device = of_nat d, bdf_function = of_nat f\<rparr>\<rparr>"
proof -
  have plain: "c \<notin> set (padded_hex w n)" if "c \<in> set ''/:.''" for c w n
    using hex_text_show(2) [of w n] base_digit_plain that by (fastforce simp: hex_text_def list_all_iff)
  let ?addr = "padded_hex 4 dom' @ '':'' @ padded_hex 2 b @ '':'' @ padded_hex 2 d @ ''.'' @ padded_hex 1 f"
  have "CHR ''/'' \<notin> set ?addr" using plain [of "CHR ''/''"] by simp
  then have slash: "find_sub_last ''/'' (dir @ ''/'' @ ?addr) = Some (length dir)"
    using find_sub_last_char [of "CHR ''/''" ?addr dir] by simp
  have "pci_fields (dir @ ''/'' @ ?addr) = Some (padded_hex 4 dom', padded_hex 2 b, padded_hex 2 d, padded_hex 1 f)"
    using plain [of "CHR '':''"] plain [of "CHR ''.''"]
    unfolding pci_fields_def slash by (simp add: Let_def find_sub_char del: drop_drop)
  moreover have "from_hex (padded_hex 4 dom') = of_nat dom'" "from_hex (padded_hex 2 b) = of_nat b" "from_hex (padded_hex 2 d) = of_nat d"
    "from_hex (padded_hex 1 f) = of_nat f"
    using assms by (simp_all add: from_hex_padded)
  moreover have "ucast (of_nat n :: u32) = (of_nat n :: byte)" for n
    by (simp add: unsigned_of_nat word_of_nat_eq_iff)
  ultimately show ?thesis by (simp add: parse_pci_address_def)
qed

theorem pci_address_roundtrip_witness:
  "bdf_device (bdfAddress (parse_pci_address ''/sys/devices/pci0000:00/0000:00:1f.2'')) = 31"
proof -
  have "''/sys/devices/pci0000:00/0000:00:1f.2'' =
      ''/sys/devices/pci0000:00'' @ ''/'' @ padded_hex 4 0 @ '':'' @ padded_hex 2 0 @ '':'' @ padded_hex 2 31 @ ''.'' @ padded_hex 1 2"
    by code_simp
  then show ?thesis using pci_address_roundtrip [of 0 0 31 2 "''/sys/devices/pci0000:00''"] by simp
qed

end
