(* ===== verification/Enclosures.thy ===== *)
theory Enclosures
  imports Numbers Sysfs Disks
begin

text \<open>
  Enclosures (\<open>enclosure.cpp\<close>): what is read from sysfs and from the reports of \<open>sg_ses\<close>, the slots of the
  report, and the queries.  A file that cannot be read gives None, as does an attribute that is not
  there.  \<open>shell_cap\<close> gives the status of \<open>pclose\<close>, and leaves the text alone when \<open>popen\<close> fails.
\<close>

unbundle bit_operations_syntax

subsection \<open>Reports\<close>

text \<open>\<open>String::between\<close> and \<open>String::left\<close> with a position.\<close>

definition str_between :: "string \<Rightarrow> string \<Rightarrow> string \<Rightarrow> string" where
  "str_between s p e =
     (case find_sub p s of
        None \<Rightarrow> []
      | Some n \<Rightarrow> (let t = n + length p in case str_find s e t of None \<Rightarrow> [] | Some k \<Rightarrow> take (k - t) (drop t s)))"

abbreviation (input) newline :: string where "newline \<equiv> [CHR 0x0A]"

definition element_index :: string where "element_index = ''element index''"

record Slot =
  slotNumber :: u64
  slot_address :: u64

text \<open>The body of the loop of \<open>__get_slot_info\<close> for one block of the report.\<close>

definition block_slots :: "string \<Rightarrow> Slot list" where
  "block_slots info =
     (let tmp = str_between info ''bay number: '' newline in
      if tmp = [] then []
      else let a = strtoull (str_left (str_reverse_after info ''SAS address:'') newline) in
           if a \<noteq> 0 then [\<lparr>slotNumber = strtoull tmp, slot_address = a\<rparr>] else [])"

text \<open>A pattern that is found at the very beginning counts as not found.\<close>

function slots_from :: "string \<Rightarrow> Slot list" where
  "slots_from right =
     (if right = [] then []
      else case find_sub element_index right of
             Some (Suc n) \<Rightarrow> block_slots (take (Suc n) right) @ slots_from (drop (Suc n + 13) right)
           | _ \<Rightarrow> block_slots right)"
  by pat_completeness auto
termination by (relation "measure length") auto

declare slots_from.simps [simp del]

definition get_slot_info :: "string \<Rightarrow> Slot list" where
  "get_slot_info buffer = slots_from (str_after buffer element_index)"

subsection \<open>The enclosure\<close>

record enclosure =
  m_SgName :: string
  m_VendorId :: string
  m_ProductId :: string
  m_Rev :: string
  m_SlotCount :: u32
  m_LogicalId :: string
  m_SubenclosureCount :: u32
  m_Slots :: "Slot list"
  enclosure_devices :: "nat list"
  enclosure_routers :: "nat list"

definition text_or :: "string \<Rightarrow> string option \<Rightarrow> string" where
  "text_or d r = (case r of None \<Rightarrow> d | Some s \<Rightarrow> s)"

text \<open>The loop over the directories below \<open>enclosure\<close>: the last one that can be read counts.\<close>

definition slot_count :: "sys_tree \<Rightarrow> (string \<Rightarrow> string option) \<Rightarrow> string \<Rightarrow> u32" where
  "slot_count fs attribute path =
     foldl (\<lambda>n d. case attribute (join d ''components'') of None \<Rightarrow> n | Some s \<Rightarrow> ucast (strtoull s)) 0
       (dirs fs (path @ ''/enclosure'') [])"

definition new_enclosure ::
  "env \<Rightarrow> sys_tree \<Rightarrow> (string \<Rightarrow> string option) \<Rightarrow> string \<Rightarrow> world \<Rightarrow> enclosure \<times> world" where
  "new_enclosure os fs attribute path w =
     (let sg = str_reverse_after (canonical fs (path @ ''/generic'')) ''/'';
          ((status1, buffer1), w1) = shell_cap os (''sg_ses -p 0x1 /dev/'' @ sg) [] w;
          ((status2, buffer2), w2) = shell_cap os (''sg_ses -p 0xa /dev/'' @ sg) buffer1 w1 in
      (\<lparr>m_SgName = sg,
        m_VendorId = text_or [] (attribute (path @ ''/vendor'')),
        m_ProductId = text_or [] (attribute (path @ ''/model'')),
        m_Rev = text_or [] (attribute (path @ ''/rev'')),
        m_SlotCount = slot_count fs attribute path,
        m_LogicalId = (if status1 = 0 then str_trim (str_between buffer1 ''logical identifier (hex): '' newline) else []),
        m_SubenclosureCount =
          (if status1 = 0 then ucast (strtoull (str_between buffer1 ''number of secondary subenclosures:'' newline)) else 0),
        m_Slots = (if buffer2 \<noteq> [] then get_slot_info buffer2 else []),
        enclosure_devices = [], enclosure_routers = []\<rparr>, w2))"

definition getSlotNumber :: "enclosure \<Rightarrow> u64 \<Rightarrow> u64" where
  "getSlotNumber e sas =
     (case find (\<lambda>s. slot_address s = sas) (m_Slots e) of None \<Rightarrow> - 1 | Some s \<Rightarrow> slotNumber s)"

definition attachedTo :: "(nat \<Rightarrow> nat option) \<Rightarrow> enclosure \<Rightarrow> nat \<Rightarrow> bool" where
  "attachedTo getParent e pObject \<longleftrightarrow> (\<exists>r \<in> set (enclosure_routers e). getParent r = Some pObject)"

text \<open>\<open>String::get\<close> into a buffer of \<open>n\<close> bytes.\<close>

definition text_field :: "nat \<Rightarrow> string \<Rightarrow> string" where
  "text_field n s = take (n - 1) s"

record SSI_EnclosureInfo =
  enclosureHandle :: SSI_Handle
  en_uniqueId :: string
  enclosureKey :: u32
  vendorInfo :: string
  en_productId :: string
  en_productRev :: string
  logicalId :: string
  processorCount :: u32
  subenclosureCount :: u32
  elementCount :: u32
  numberOfSlots :: u32

text \<open>\<open>on_controller\<close> tells of a routing device whether its parent is a controller.\<close>

definition enclosure_getInfo ::
  "SSI_Handle \<Rightarrow> (nat \<Rightarrow> bool) \<Rightarrow> enclosure \<Rightarrow> SSI_EnclosureInfo option \<Rightarrow> SSI_Status \<times> SSI_EnclosureInfo option" where
  "enclosure_getInfo handle on_controller e pInfo =
     (case pInfo of
        None \<Rightarrow> (SSI_StatusInvalidParameter, None)
      | Some info \<Rightarrow>
          (SSI_StatusOk, Some
            \<lparr>enclosureHandle = handle,
             en_uniqueId = text_field 40 (''en:'' @ m_LogicalId e),
             enclosureKey = (let key = handle AND 0x0fffffff in
               if \<exists>r \<in> set (enclosure_routers e). on_controller r then key OR 0x10000000 else key),
             vendorInfo = text_field 8 (m_VendorId e),
             en_productId = text_field 16 (m_ProductId e),
             en_productRev = text_field 5 (m_Rev e),
             logicalId = text_field 17 (m_LogicalId e),
             processorCount = 0,
             subenclosureCount = m_SubenclosureCount e,
             elementCount = of_nat (length (m_Slots e)),
             numberOfSlots = m_SlotCount e\<rparr>))"

subsection \<open>Patterns in a text\<close>

lemma find_sub_prefix: "find_sub p (p @ s) = Some 0"
  by (subst find_sub.simps) simp

lemma find_sub_step: "take (length p) (c # s) \<noteq> p \<Longrightarrow> find_sub p (c # s) = map_option Suc (find_sub p s)"
  by (subst find_sub.simps) simp

lemma find_sub_NoneD: "find_sub p s = None \<Longrightarrow> take (length p) (drop k s) \<noteq> p \<or> length s < k"
proof (induction s arbitrary: k)
  case Nil
  then show ?case by (cases k) (auto simp: find_sub.simps [of p "[]"] split: if_splits)
next
  case (Cons c s)
  then have "take (length p) (c # s) \<noteq> p" "find_sub p s = None"
    by (auto simp: find_sub.simps [of p "c # s"] split: if_splits)
  then show ?case using Cons.IH by (cases k) auto
qed

text \<open>A pattern that is not found in a text is not found in its end.\<close>

lemma find_sub_None_tl: "find_sub p (c # s) = None \<Longrightarrow> find_sub p s = None"
  by (auto simp: find_sub.simps [of p "c # s"] split: if_splits)

text \<open>
  The first occurrence of \<open>p\<close> in \<open>b @ p @ s\<close> is behind \<open>b\<close> when \<open>p\<close> does not occur in \<open>b\<close> and no proper beginning of
  \<open>p\<close> is an end of \<open>p\<close>.
\<close>

definition no_border :: "string \<Rightarrow> bool" where
  "no_border p \<longleftrightarrow> list_all (\<lambda>k. drop k p \<noteq> take (length p - k) p) [1..<length p]"

lemma take_across:
  assumes nb: "no_border p" and b: "b \<noteq> []" "take (length p) b \<noteq> p"
  shows "take (length p) (b @ p @ s) \<noteq> p"
proof
  assume eq: "take (length p) (b @ p @ s) = p"
  show False
  proof (cases "length p \<le> length b")
    case True
    then show False using eq b by simp
  next
    case False
    let ?k = "length b"
    have "p = b @ take (length p - ?k) (p @ s)" using eq False by simp
    then have "drop ?k p = take (length p - ?k) (p @ s)" by (metis append_eq_conv_conj)
    then have "drop ?k p = take (length p - ?k) p" by simp
    moreover have "?k \<in> set [1..<length p]" using False b(1) by (cases b) auto
    ultimately show False using nb by (auto simp: no_border_def list_all_iff)
  qed
qed

lemma find_sub_behind: "no_border p \<Longrightarrow> find_sub p b = None \<Longrightarrow> find_sub p (b @ p @ s) = Some (length b)"
proof (induction b)
  case Nil
  then show ?case by (simp add: find_sub_prefix)
next
  case (Cons c b)
  have "take (length p) ((c # b) @ p @ s) \<noteq> p"
    using Cons.prems find_sub_NoneD [of p "c # b" 0] by (intro take_across) auto
  then show ?case using Cons find_sub_None_tl [of p c b] find_sub_step [of p c "b @ p @ s"] by simp
qed

lemma find_sub_last_only:
  assumes "take (length p) (drop n s) = p" "n + length p \<le> length s"
    "\<And>k. n < k \<Longrightarrow> k + length p \<le> length s \<Longrightarrow> take (length p) (drop k s) \<noteq> p"
  shows "find_sub_last p s = Some n"
proof -
  let ?P = "\<lambda>k. take (length p) (drop k s) = p"
  let ?N = "Suc (length s - length p)"
  have N: "n < ?N" using assms(2) by linarith
  then have "[0..<?N] = [0..<n] @ [n..<?N]" using upt_add_eq_append [of 0 n "?N - n"] by (simp del: upt_Suc)
  then have "[0..<?N] = [0..<n] @ n # [Suc n..<?N]" using upt_conv_Cons [OF N] by (simp only:)
  moreover have "filter ?P [Suc n..<Suc (length s - length p)] = []"
    using assms(2,3) by (auto simp: filter_empty_conv simp del: upt_Suc)
  ultimately have f: "filter ?P [0..<Suc (length s - length p)] = filter ?P [0..<n] @ [n]" using assms(1) by simp
  show ?thesis unfolding find_sub_last_def f by (cases "filter ?P [0..<n]") auto
qed

subsection \<open>What is read of a report\<close>

record element =
  el_head :: string
  el_number :: nat
  el_middle :: string
  el_address :: nat
  el_tail :: string

definition element_text :: "element \<Rightarrow> string" where
  "element_text e = el_head e @ ''bay number: '' @ dec (el_number e) @ newline @ el_middle e @ ''SAS address:''
     @ '' 0x'' @ show_number 16 (el_address e) @ newline @ el_tail e"

definition element_ok :: "element \<Rightarrow> bool" where
  "element_ok e \<longleftrightarrow> CHR ''b'' \<notin> set (el_head e) \<and> CHR ''S'' \<notin> set (el_tail e) \<and> find_sub element_index (element_text e) = None
     \<and> el_number e < 2 ^ 64 \<and> 0 < el_address e \<and> el_address e < 2 ^ 64"

lemma find_sub_head:
  assumes "c \<notin> set u"
  shows "find_sub (c # p) (u @ v) = map_option ((+) (length u)) (find_sub (c # p) v)"
  using assms
proof (induction u)
  case (Cons d u)
  then show ?case by (subst find_sub.simps) (cases "find_sub (c # p) v"; auto)
qed (cases "find_sub (c # p) v"; simp)

lemma dec_show: "dec n = show_number 10 n"
proof (induction n rule: dec.induct)
  case (1 n)
  have d: "digit k = base_digit k" if "k < 10" for k
  proof -
    have "\<forall>k \<in> set [0..<10]. digit k = base_digit k" by code_simp
    then show ?thesis using that by simp
  qed
  show ?case using 1 d [of n] d [of "n mod 10"] by (subst dec.simps, subst show_number.simps) auto
qed


lemma take_parts: "drop (length xs + length ys) (xs @ ys @ zs) = zs"
  by simp

lemma between_field:
  assumes "find_sub p (u @ p @ v @ newline @ r) = Some (length u)" "CHR 0x0A \<notin> set v"
  shows "str_between (u @ p @ v @ newline @ r) p newline = v"
proof -
  let ?s = "u @ p @ v @ newline @ r" and ?t = "length u + length p"
  have "drop ?t ?s = v @ CHR 0x0A # r" by simp
  then have "str_find ?s newline ?t = Some (?t + length v)"
    using find_sub_char [OF assms(2), of r] by (simp add: str_find_def)
  then show ?thesis using assms(1) by (simp add: str_between_def Let_def)
qed

lemma hex_no: "c \<notin> set (show_number 16 n)" if "c \<notin> set ''0123456789abcdef''"
proof
  assume "c \<in> set (show_number 16 n)"
  then obtain d where d: "d < 16" "c = base_digit d" using hex_text_show(1) [of n] by (auto simp: hex_text_def list_all_iff)
  have "\<forall>d \<in> set [0..<16]. base_digit d \<in> set ''0123456789abcdef''" by code_simp
  then show False using d that by simp
qed

lemma dec_digits: "c \<in> set (dec n) \<Longrightarrow> \<exists>d < 10. c = base_digit d"
  using show_number_digits [of 10 n] by (simp add: dec_show list_all_iff)

lemma dec_leading_zero: "hd (dec n) = CHR ''0'' \<Longrightarrow> n = 0"
proof (induction n rule: dec.induct)
  case (1 n)
  show ?case
  proof (cases "n < 10")
    case True
    have "\<forall>k \<in> set [1..<10]. digit k \<noteq> CHR ''0''" by code_simp
    then show ?thesis using "1.prems" True by (subst (asm) dec.simps) (cases n; auto)
  next
    case False
    have "dec (n div 10) \<noteq> []" by (simp add: dec_show show_number_nonempty)
    then have "hd (dec (n div 10)) = CHR ''0''" using "1.prems" False by (subst (asm) dec.simps) simp
    then show ?thesis using "1.IH" False by simp
  qed
qed

lemma dec_no: "c \<notin> set (dec n)" if "c \<notin> set ''0123456789''"
proof
  assume "c \<in> set (dec n)"
  then obtain d where d: "d < 10" "c = base_digit d" using dec_digits by blast
  have "\<forall>d \<in> set [0..<10]. base_digit d \<in> set ''0123456789''" by code_simp
  then show False using d that by simp
qed

lemma strtoull_dec: "n < 2 ^ 64 \<Longrightarrow> strtoull (dec n) = of_nat n"
proof -
  assume n: "n < 2 ^ 64"
  obtain c cs where c: "dec n = c # cs" using show_number_nonempty [of 10 n] by (cases "dec n") (auto simp: dec_show)
  have all: "\<not> is_space x \<and> x \<notin> set ''+-xX''" if "x \<in> set (dec n)" for x
  proof -
    obtain d where "d < 10" "x = base_digit d" using dec_digits \<open>x \<in> set (dec n)\<close> by blast
    then show ?thesis using base_digit_plain [of d] by simp
  qed
  have c': "\<not> is_space c" "c \<noteq> CHR ''+''" "c \<noteq> CHR ''-''" using all [of c] c by simp_all
  have x: "\<not> (\<exists>z x d r. dec n = z # x # d # r \<and> x \<in> set ''xX'')"
  proof
    assume "\<exists>z x d r. dec n = z # x # d # r \<and> x \<in> set ''xX''"
    then obtain z x d r where "dec n = z # x # d # r" and x: "x \<in> set ''xX''" by blast
    then have "x \<in> set (dec n)" by simp
    from all [OF this] x show False by auto
  qed
  have zero: "c = CHR ''0'' \<Longrightarrow> n = 0" using dec_leading_zero [of n] c by simp
  have val: "read_digits 10 0 (dec n) = n" using read_show [of 10 n] by (simp add: dec_show)
  show ?thesis
  proof (cases "c = CHR ''0''")
    case True
    have "digit 0 = CHR ''0''" by code_simp
    then have "dec 0 = ''0''" by (subst dec.simps) simp
    then have "strtoull (dec 0) = (of_nat 0 :: u64)"
      by (simp add: strtoull_def read_number_def is_space_def digit_value_def Let_def)
    then show ?thesis unfolding zero [OF True] .
  next
    case False
    then show ?thesis using c' x val n by (auto simp: strtoull_def read_number_def Let_def c split: list.splits)
  qed
qed

lemma strtoull_0x: "n < 2 ^ 64 \<Longrightarrow> strtoull ('' 0x'' @ show_number 16 n) = of_nat n"
proof -
  assume n: "n < 2 ^ 64"
  obtain c cs where c: "show_number 16 n = c # cs" using show_number_nonempty by (cases "show_number 16 n") auto
  obtain d where d: "d < 16" "c = base_digit d" using show_number_digits [of 16 n] by (auto simp: c)
  have "is_space CHR '' ''" "\<not> is_space CHR ''0''" by code_simp+
  then show ?thesis
    using n read_show [of 16 n] digit_value_base [OF d(1)] d
    by (simp add: strtoull_def read_number_def Let_def c)
qed

lemma find_sub_last_field:
  assumes nb: "no_border p" and p: "p \<noteq> []" "hd p \<notin> set v"
  shows "find_sub_last p (u @ p @ v) = Some (length u)"
proof (rule find_sub_last_only)
  let ?s = "u @ p @ v"
  show "take (length p) (drop (length u) ?s) = p" "length u + length p \<le> length ?s" by simp_all
  fix k assume k: "length u < k" "k + length p \<le> length ?s"
  define j where "j = k - length u"
  have j: "0 < j" "drop k ?s = drop j (p @ v)" "j + length p \<le> length (p @ v)" using k by (simp_all add: j_def)
  show "take (length p) (drop k ?s) \<noteq> p"
  proof
    assume "take (length p) (drop k ?s) = p"
    then have t: "take (length p) (drop j (p @ v)) = p" unfolding j(2) .
    show False
    proof (cases "j < length p")
      case True
      have "take (length p - j) (take (length p) (drop j (p @ v))) = drop j p" using True by simp
      then have "drop j p = take (length p - j) p" unfolding t by simp
      then show False using nb True j(1) by (auto simp: no_border_def list_all_iff)
    next
      case False
      have "hd (take (length p) (drop j (p @ v))) = (p @ v) ! j" 
        using p(1) j(3) by (subst hd_take; cases p) (auto simp: hd_drop_conv_nth simp del: drop_append take_append)
      then have "hd p = v ! (j - length p)" unfolding t using False by (simp add: nth_append)
      moreover have "v ! (j - length p) \<in> set v" using False j(3) p(1) by (intro nth_mem) (cases p; simp)
      ultimately show False using p(2) by simp
    qed
  qed
qed

lemma no_border_sas: "no_border ''SAS address:''"
  by code_simp

lemma reverse_after_field:
  assumes "no_border p" "p \<noteq> []" "hd p \<notin> set v"
  shows "str_reverse_after (u @ p @ v) p = v"
  using find_sub_last_field [OF assms, of u] by (simp add: str_reverse_after_def)

lemma block_slots_element:
  assumes "element_ok e"
  shows "block_slots (element_text e) = [\<lparr>slotNumber = of_nat (el_number e), slot_address = of_nat (el_address e)\<rparr>]"
proof -
  let ?n = "dec (el_number e)" and ?a = "show_number 16 (el_address e)"
  let ?r = "el_middle e @ ''SAS address:'' @ '' 0x'' @ ?a @ newline @ el_tail e"
  let ?u = "el_head e @ ''bay number: '' @ ?n @ newline @ el_middle e"
  have "find_sub ''bay number: '' (el_head e @ ''bay number: '' @ ?n @ newline @ ?r) = Some (length (el_head e))"
    using assms find_sub_head [of "CHR ''b''" "el_head e" "''ay number: ''"] find_sub_prefix [of "''bay number: ''"]
    by (simp add: element_ok_def)
  then have tmp: "str_between (element_text e) ''bay number: '' newline = ?n"
    unfolding element_text_def by (rule between_field) (rule dec_no, simp)
  have whole: "element_text e = ?u @ ''SAS address:'' @ '' 0x'' @ ?a @ newline @ el_tail e" by (simp add: element_text_def)
  have "CHR ''S'' \<notin> set ('' 0x'' @ ?a @ newline @ el_tail e)"
    using assms hex_no [of "CHR ''S''"] by (simp add: element_ok_def)
  then have last: "str_reverse_after (element_text e) ''SAS address:'' = '' 0x'' @ ?a @ newline @ el_tail e"
    using reverse_after_field [OF no_border_sas, of _ ?u] whole by simp
  have "CHR 0x0A \<notin> set ('' 0x'' @ ?a)" using hex_no [of "CHR 0x0A"] by simp
  from str_left_char [OF this, of "el_tail e"]
  have "str_left ('' 0x'' @ ?a @ newline @ el_tail e) newline = '' 0x'' @ ?a" by simp
  then have address: "strtoull (str_left (str_reverse_after (element_text e) ''SAS address:'') newline) = of_nat (el_address e)"
    using strtoull_0x assms by (simp only: last element_ok_def)
  have "(of_nat (el_address e) :: u64) \<noteq> 0"
    using assms unat_of_nat_u64 [of "el_address e"] by (auto simp: element_ok_def)
  moreover have "?n \<noteq> []" by (simp add: dec_show show_number_nonempty)
  moreover have "strtoull ?n = of_nat (el_number e)" using assms by (intro strtoull_dec) (simp add: element_ok_def)
  ultimately show ?thesis by (simp add: block_slots_def tmp address)
qed

lemma no_border_index: "no_border element_index"
  by code_simp

lemma slots_from_elements:
  assumes "element_ok e" "list_all element_ok es"
  shows "slots_from (element_text e @ concat (map (\<lambda>e. element_index @ element_text e) es)) =
    map (\<lambda>e. \<lparr>slotNumber = of_nat (el_number e), slot_address = of_nat (el_address e)\<rparr>) (e # es)"
  using assms
proof (induction es arbitrary: e)
  case Nil
  then have "find_sub element_index (element_text e) = None" "element_text e \<noteq> []" by (simp_all add: element_ok_def element_text_def)
  then show ?case using block_slots_element [OF Nil(1)] by (subst slots_from.simps) simp
next
  case (Cons e' es)
  let ?t = "element_text e" and ?rest = "element_text e' @ concat (map (\<lambda>e. element_index @ element_text e) es)"
  have "find_sub element_index ?t = None" using Cons.prems(1) by (simp add: element_ok_def)
  then have found: "find_sub element_index (?t @ element_index @ ?rest) = Some (length ?t)"
    by (rule find_sub_behind [OF no_border_index])
  obtain n where n: "length ?t = Suc n" by (auto simp: element_text_def)
  have "length ?t + length element_index = Suc n + 13" by (simp add: n element_index_def)
  with take_parts [of ?t element_index ?rest] have "drop (Suc n + 13) (?t @ element_index @ ?rest) = ?rest" by (simp only:)
  moreover have "take (Suc n) (?t @ element_index @ ?rest) = ?t" using n by simp
  moreover have "?t @ element_index @ ?rest \<noteq> []" by (simp add: element_index_def)
  ultimately have "slots_from (?t @ element_index @ ?rest) = block_slots ?t @ slots_from ?rest"
    using found [unfolded n] by (subst slots_from.simps) (simp only: if_False option.case nat.case)
  then show ?case using Cons block_slots_element by simp
qed


text \<open>A report with one element.\<close>

definition sample_element :: element where
  "sample_element = \<lparr>el_head = '': 0, '', el_number = 5, el_middle = '', '', el_address = 80, el_tail = '' ''\<rparr>"

lemma sample_element_ok: "element_ok sample_element"
proof -
  have "find_sub element_index (element_text sample_element) = None" by code_simp
  then show ?thesis by (simp add: element_ok_def) (simp add: sample_element_def)
qed


end
