(* ===== verification/Monitor.thy ===== *)
theory Monitor
  imports Enclosures Events Safe_Str_Copy
begin

text \<open>
  The event monitor (\<open>tools/ssieventmonitor.cpp\<close>), the daemon that watches \<open>/proc/mdstat\<close> and a directory and tells
  clients that something has changed by running \<open>ssimsg\<close> (\<open>tools/ssimsg.cpp\<close>), which posts the semaphore of
  \<open>Events\<close>.

  What a read of \<open>/proc/mdstat\<close> gives is a parameter, the text of the i-th read or None when the descriptor
  cannot be duplicated; so are the results of the system calls.  An outer None is an access behind a text.
\<close>

unbundle bit_operations_syntax

subsection \<open>State\<close>

definition MAX_CONTAINERS :: nat where "MAX_CONTAINERS = 10"

definition MAX_LINE_LEN :: nat where "MAX_LINE_LEN = 1024"

definition INACTIVE_STR :: string where "INACTIVE_STR = ''inactive''"

record container_dev =
  devnum :: int
  devs :: "string list"

text \<open>
  \<open>containers\<close> are the two sets of readings, \<open>sems\<close> the semaphores of the kernel, \<open>reads\<close> counts the reads of \<open>/proc/mdstat\<close>, and
  \<open>suspended\<close> the processes that wait in \<open>vfork\<close> for the one that runs.
\<close>

record monitor =
  containers :: "container_dev list list"
  current :: nat
  sems :: kernel
  reads :: nat
  suspended :: nat

definition blank :: container_dev where "blank = \<lparr>devnum = -1, devs = []\<rparr>"

definition init_containers :: "monitor \<Rightarrow> monitor" where
  "init_containers m = m\<lparr>containers := replicate 2 (replicate MAX_CONTAINERS blank), current := 1\<rparr>"

definition switch_current :: "monitor \<Rightarrow> monitor" where
  "switch_current m = m\<lparr>current := 1 - current m\<rparr>"

definition current_container :: "monitor \<Rightarrow> container_dev list" where
  "current_container m = containers m ! current m"

definition other_container :: "monitor \<Rightarrow> container_dev list" where
  "other_container m = containers m ! (1 - current m)"

definition clear_other_container :: "monitor \<Rightarrow> monitor" where
  "clear_other_container m =
     m\<lparr>containers := (containers m)[1 - current m :=
        map (\<lambda>c. if 0 \<le> devnum c then blank else c) (other_container m)]\<rparr>"

subsection \<open>Reading \<open>/proc/mdstat\<close>\<close>

text \<open>\<open>atoi\<close>, in which \<open>strtol\<close> clamps to 64 bits and the result is cut to 32.\<close>

definition atoi :: "string \<Rightarrow> int" where
  "atoi s =
     (let s1 = dropWhile is_space s;
          s2 = (if take 1 s1 = ''-'' \<or> take 1 s1 = ''+'' then drop 1 s1 else s1);
          n = int (read_digits 10 0 s2) in
      signed_take_bit 31 (if take 1 s1 = ''-'' then max (- (2 ^ 63)) (- n) else min (2 ^ 63 - 1) n))"

definition get_devnum :: "string \<Rightarrow> int" where
  "get_devnum devname = (case find_sub ''md'' devname of None \<Rightarrow> -1 | Some n \<Rightarrow> atoi (drop (n + 2) devname))"

definition add_member_devname :: "string list \<Rightarrow> string \<Rightarrow> string list" where
  "add_member_devname m name = (case find_sub ''['' name of None \<Rightarrow> m | Some n \<Rightarrow> take n name # m)"

text \<open>The loop of \<open>_collect_devices\<close>: \<open>buf\<close> moves by one before it is tested and used.\<close>

function collect_names :: "string \<Rightarrow> string list \<Rightarrow> string list option" where
  "collect_names [] m = None"
| "collect_names (c # buf) m =
     (let m' = add_member_devname m buf in
      case find_sub '' '' buf of None \<Rightarrow> Some m' | Some n \<Rightarrow> collect_names (drop n buf) m')"
  by pat_completeness auto
termination by (relation "measure (length \<circ> fst)") auto

fun first_free :: "container_dev list \<Rightarrow> nat option" where
  "first_free [] = None"
| "first_free (c # cs) = (if devnum c < 0 then Some 0 else map_option Suc (first_free cs))"

definition collect_devices :: "string \<Rightarrow> container_dev list \<Rightarrow> container_dev list option" where
  "collect_devices buf conts =
     (case first_free conts of
        None \<Rightarrow> Some conts
      | Some i \<Rightarrow>
          (let c = conts[i := (conts ! i)\<lparr>devnum := get_devnum buf\<rparr>] in
           case find_sub INACTIVE_STR buf of
             None \<Rightarrow> Some c
           | Some n \<Rightarrow>
               do { ds \<leftarrow> collect_names (drop (n + length INACTIVE_STR) buf) (devs (c ! i));
                    Some (c[i := (c ! i)\<lparr>devs := ds\<rparr>]) }))"

text \<open>\<open>fgets\<close> into a buffer of \<open>room\<close> bytes: a line with its end, or as much of it as fits.\<close>

definition fgets :: "nat \<Rightarrow> string \<Rightarrow> (string \<times> string) option" where
  "fgets room s =
     (if s = [] then None
      else let k = min (room - 1) (case find_sub newline s of None \<Rightarrow> length s | Some n \<Rightarrow> n + 1) in
           Some (take k s, drop k s))"

lemma fgets_shorter: "1 < room \<Longrightarrow> fgets room s = Some (line, r) \<Longrightarrow> length r < length s"
  by (auto simp: fgets_def Let_def split: if_splits option.splits)

text \<open>The loop of \<open>_read_mdstat\<close>, with the value the function returns.\<close>

function read_lines :: "string \<Rightarrow> container_dev list \<Rightarrow> (int \<times> container_dev list) option" where
  "read_lines s conts =
     (case fgets (MAX_LINE_LEN - 1) s of
        None \<Rightarrow> Some (0, conts)
      | Some (line, s1) \<Rightarrow>
          if take 2 line = ''md'' \<and> find_sub INACTIVE_STR line \<noteq> None
          then (case fgets (1024 - 1) s1 of
                  None \<Rightarrow> Some (1, conts)
                | Some (nextline, s2) \<Rightarrow>
                    if find_sub ''external:imsm'' nextline = None then read_lines s2 conts
                    else do { c \<leftarrow> collect_devices line conts; read_lines s2 c })
          else read_lines s1 conts)"
  by pat_completeness auto
termination
proof (relation "measure (length \<circ> fst)", goal_cases)
  case (2 s conts a line s1 b nextline s2)
  then show ?case
    using fgets_shorter [of "MAX_LINE_LEN - 1" s line s1] fgets_shorter [of "1024 - 1" s1 nextline s2]
    by (simp add: MAX_LINE_LEN_def)
next
  case (3 s conts a line s1 b nextline s2 c)
  then show ?case
    using fgets_shorter [of "MAX_LINE_LEN - 1" s line s1] fgets_shorter [of "1024 - 1" s1 nextline s2]
    by (simp add: MAX_LINE_LEN_def)
next
  case (4 s conts a line s1)
  then show ?case using fgets_shorter [of "MAX_LINE_LEN - 1" s line s1] by (simp add: MAX_LINE_LEN_def)
qed simp

declare read_lines.simps [simp del]

definition read_mdstat :: "(nat \<Rightarrow> string option) \<Rightarrow> monitor \<Rightarrow> (int \<times> monitor) option" where
  "read_mdstat mdstat m =
     (let m1 = switch_current (clear_other_container m) in
      case mdstat (reads m1) of
        None \<Rightarrow> Some (1, m1\<lparr>reads := reads m1 + 1\<rparr>)
      | Some s \<Rightarrow>
          do { (r, c) \<leftarrow> read_lines s (current_container m1);
               Some (r, m1\<lparr>reads := reads m1 + 1, containers := (containers m1)[current m1 := c]\<rparr>) })"

subsection \<open>Comparing two readings\<close>

text \<open>The comparisons return true for a difference.\<close>

fun compare_member_lists :: "string list \<Rightarrow> string list \<Rightarrow> bool" where
  "compare_member_lists [] om \<longleftrightarrow> False"
| "compare_member_lists (c # cm) om \<longleftrightarrow> (if c \<in> set om then compare_member_lists cm om else True)"

definition compare_members :: "container_dev \<Rightarrow> container_dev \<Rightarrow> bool" where
  "compare_members c other \<longleftrightarrow>
     compare_member_lists (devs c) (devs other) \<or> compare_member_lists (devs other) (devs c)"

fun compare_container_list :: "container_dev list \<Rightarrow> container_dev list \<Rightarrow> bool" where
  "compare_container_list [] second \<longleftrightarrow> False"
| "compare_container_list (f # first) second \<longleftrightarrow>
     (if devnum f < 0 then compare_container_list first second
      else case find (\<lambda>s. devnum s = devnum f) second of
             None \<Rightarrow> True
           | Some s \<Rightarrow> if compare_members f s then True else compare_container_list first second)"

definition members_changed :: "monitor \<Rightarrow> bool" where
  "members_changed m \<longleftrightarrow>
     compare_container_list (current_container m) (other_container m)
     \<or> compare_container_list (other_container m) (current_container m)"

subsection \<open>Telling the clients\<close>

text \<open>\<open>ssimsg\<close>: without the key, or the set of the key, nobody waits.\<close>

definition ssimsg :: "bool \<Rightarrow> kernel \<Rightarrow> int \<times> kernel" where
  "ssimsg ftok_ok k =
     (if \<not> ftok_ok then (-1, k)
      else case key_set k of
             None \<Rightarrow> (-1, k)
           | Some i \<Rightarrow>
               (case sem_value k i of
                  None \<Rightarrow> (-1, k)
                | Some v \<Rightarrow> if 1 \<le> v then (0, k) else (0, k\<lparr>sem_value := (sem_value k)(i \<mapsto> v + 1)\<rparr>)))"

text \<open>
  \<open>strrchr\<close> in an object of \<open>n\<close> bytes, and the path beside the program itself that the child puts into \<open>buffer\<close>; \<open>cp\<close> is the
  string of \<open>canonicalize_file_name\<close>, \<open>name\<close> the constant \<open>ssimsg\<close>.
\<close>

fun strrchr :: "heap \<Rightarrow> addr \<Rightarrow> byte \<Rightarrow> nat \<Rightarrow> addr option \<Rightarrow> addr option option" where
  "strrchr h a c 0 r = None"
| "strrchr h a c (Suc n) r =
     do { x \<leftarrow> rd8 h a; if x = 0 then Some r else strrchr h (a + 1) c n (if x = c then Some a else r) }"

definition PATH_MAX :: nat where "PATH_MAX = 4096"

definition sibling_path :: "bool \<Rightarrow> addr \<Rightarrow> addr \<Rightarrow> addr \<Rightarrow> cstate \<Rightarrow> errno crun" where
  "sibling_path slack buffer cp name s =
     do { (r, s1) \<leftarrow> strcpy_s slack buffer PATH_MAX cp s;
          case r of
            Aborted \<Rightarrow> Some (Aborted, s1)
          | Returned _ \<Rightarrow>
              do { slash \<leftarrow> strrchr (mem s1) buffer 0x2F PATH_MAX None;
                   strcpy_s slack (case slash of None \<Rightarrow> buffer | Some a \<Rightarrow> a + 1) (7 - 1) name s1 } }"

text \<open>
  \<open>tools\<close> is what \<open>vfork\<close> and \<open>execve\<close> do: \<open>runs\<close> tells at which paths there is a program, \<open>beside\<close> is the path of
  \<open>buffer\<close>.  When no path runs, the child returns from the function and goes on as the monitor.
\<close>

record tools =
  vfork_ok :: bool
  runs :: "string \<Rightarrow> bool"
  beside :: string
  tool_ftok_ok :: bool

definition ssimsg_paths :: "tools \<Rightarrow> string list" where
  "ssimsg_paths t = [beside t, ''/usr/local/bin/ssimsg'', ''/usr/bin/ssimsg'', ''/bin/ssimsg'', ''ssimsg'']"

definition exec_ssimsg :: "tools \<Rightarrow> monitor \<Rightarrow> int \<times> monitor" where
  "exec_ssimsg t m =
     (if \<not> vfork_ok t then (1, m)
      else case find (runs t) (ssimsg_paths t) of
             None \<Rightarrow> (1, m\<lparr>suspended := suspended m + 1\<rparr>)
           | Some _ \<Rightarrow>
               (let (status, k) = ssimsg (tool_ftok_ok t) (sems m) in (if status \<noteq> 0 then 1 else 0, m\<lparr>sems := k\<rparr>)))"

definition handle_mdstat :: "tools \<Rightarrow> (nat \<Rightarrow> string option) \<Rightarrow> monitor \<Rightarrow> (int \<times> monitor) option" where
  "handle_mdstat t mdstat m =
     do { (r, m1) \<leftarrow> read_mdstat mdstat m;
          Some (if members_changed m1 then exec_ssimsg t m1 else (0, m1)) }"

subsection \<open>The watched directory\<close>

text \<open>
  The data of a read is a sequence of events of 16 bytes and a name: watch, mask, cookie, and the length of the name.
\<close>

definition le32 :: "byte list \<Rightarrow> nat" where
  "le32 bs = unat (bs ! 0) + 2 ^ 8 * unat (bs ! 1) + 2 ^ 16 * unat (bs ! 2) + 2 ^ 24 * unat (bs ! 3)"

function get_event_count :: "byte list \<Rightarrow> nat option" where
  "get_event_count bs =
     (if bs = [] then Some 0
      else if length bs < 16 then None
      else map_option Suc (get_event_count (drop (le32 (drop 12 bs) + 16) bs)))"
  by pat_completeness auto
termination by (relation "measure length") auto

declare get_event_count.simps [simp del]

function inotify_loop :: "tools \<Rightarrow> (nat \<Rightarrow> string option) \<Rightarrow> nat \<Rightarrow> byte list \<Rightarrow> monitor \<Rightarrow> monitor option" where
  "inotify_loop t mdstat watch_fd bs m =
     (if bs = [] then Some m
      else if length bs < 16 then None
      else if le32 bs = 0 then inotify_loop t mdstat watch_fd (drop 16 bs) m
      else do { m1 \<leftarrow> (if le32 bs = watch_fd
                      then map_option snd (read_mdstat mdstat (snd (exec_ssimsg t m)))
                      else Some m);
                inotify_loop t mdstat watch_fd (drop (le32 (drop 12 bs) + 16) bs) m1 })"
  by pat_completeness auto
termination by (relation "measure (\<lambda>(_, _, _, bs, _). length bs)") auto

declare inotify_loop.simps [simp del]

text \<open>\<open>data\<close> is what \<open>read\<close> returns, None for an error.\<close>

definition handle_inotify ::
  "tools \<Rightarrow> (nat \<Rightarrow> string option) \<Rightarrow> nat \<Rightarrow> byte list option \<Rightarrow> monitor \<Rightarrow> (int \<times> monitor) option" where
  "handle_inotify t mdstat watch_fd data m =
     (case data of
        None \<Rightarrow> Some (1, m)
      | Some [] \<Rightarrow> Some (0, m)
      | Some bs \<Rightarrow>
          do { n \<leftarrow> get_event_count bs;
               if n < 1 then Some (1, m)
               else do { m' \<leftarrow> inotify_loop t mdstat watch_fd bs m; Some (0, m') } })"

subsection \<open>The loop of the monitor\<close>

text \<open>
  What \<open>pselect\<close> returns: an error, nothing within the timeout, or which of the two descriptors is set, with the data
  that waits in the second.
\<close>

datatype wakeup = Pselect_failed | Timeout | Ready bool "byte list option option"

fun handle_all ::
  "tools \<Rightarrow> (nat \<Rightarrow> string option) \<Rightarrow> nat \<Rightarrow> wakeup list \<Rightarrow> monitor \<Rightarrow> (int option \<times> monitor) option" where
  "handle_all t mdstat watch_fd [] m = Some (None, m)"
| "handle_all t mdstat watch_fd (Pselect_failed # ws) m = Some (Some 1, m)"
| "handle_all t mdstat watch_fd (Timeout # ws) m =
     do { (r, m1) \<leftarrow> handle_mdstat t mdstat m; handle_all t mdstat watch_fd ws m1 }"
| "handle_all t mdstat watch_fd (Ready stat_set inotify # ws) m =
     do { m1 \<leftarrow> (if stat_set then map_option snd (handle_mdstat t mdstat m) else Some m);
          m2 \<leftarrow> (case inotify of
                   None \<Rightarrow> Some m1
                 | Some data \<Rightarrow> map_option snd (handle_inotify t mdstat watch_fd data m1));
          handle_all t mdstat watch_fd ws m2 }"

text \<open>
  \<open>_configure_inotify\<close> with the results of \<open>inotify_init\<close> and \<open>inotify_add_watch\<close>: the descriptor it returns and the watch.
\<close>

definition configure_inotify :: "int \<Rightarrow> int \<Rightarrow> int \<times> int" where
  "configure_inotify ifd wd = (if ifd < 0 then (1, -1) else if wd < 0 then (-1, wd) else (ifd, wd))"

definition event_watch ::
  "bool \<Rightarrow> int \<Rightarrow> int \<Rightarrow> tools \<Rightarrow> (nat \<Rightarrow> string option) \<Rightarrow> wakeup list \<Rightarrow> monitor \<Rightarrow> (int option \<times> monitor) option" where
  "event_watch mdstat_opens ifd wd t mdstat ws m =
     (let m1 = init_containers m in
      if \<not> mdstat_opens then Some (Some 1, m1)
      else do { (r, m2) \<leftarrow> read_mdstat mdstat m1;
                let (inot_fd, iwatch_fd) = configure_inotify ifd wd;
                if inot_fd < 0 then Some (Some 1, m2)
                else do { (r, m3) \<leftarrow> handle_all t mdstat (nat iwatch_fd) ws m2;
                          Some (map_option (\<lambda>_. 0) r, m3) } })"

subsection \<open>The text of \<open>/proc/mdstat\<close>\<close>

text \<open>
  An entry is a container with its number, its members, each with the role that follows the name, and the rest of the
  line that follows, or any other line.
\<close>

type_synonym reading = "(nat \<times> (string \<times> string) list) list"

datatype entry = Container nat "(string \<times> string) list" string string | Other_line string

definition member_texts :: "(string \<times> string) list \<Rightarrow> string" where
  "member_texts ms = concat (map (\<lambda>(name, role). '' '' @ name @ role) ms) @ newline"

definition container_line :: "nat \<Rightarrow> (string \<times> string) list \<Rightarrow> string" where
  "container_line n ms = ''md'' @ dec n @ '' : '' @ INACTIVE_STR @ member_texts ms"

fun entry_text :: "entry \<Rightarrow> string" where
  "entry_text (Container n ms blocks rest) = container_line n ms @ blocks @ ''external:imsm'' @ rest @ newline"
| "entry_text (Other_line l) = l @ newline"

definition mdstat_text :: "entry list \<Rightarrow> string" where
  "mdstat_text es = concat (map entry_text es)"

fun reading_of :: "entry list \<Rightarrow> reading" where
  "reading_of [] = []"
| "reading_of (Container n ms blocks rest # es) = (n, ms) # reading_of es"
| "reading_of (Other_line l # es) = reading_of es"

definition member_ok :: "string \<times> string \<Rightarrow> bool" where
  "member_ok x \<longleftrightarrow> CHR ''['' \<notin> set (fst x) \<and> take 1 (snd x) = ''['' \<and> CHR '' '' \<notin> set (fst x @ snd x)
     \<and> CHR 0x0A \<notin> set (fst x @ snd x)"

fun entry_ok :: "entry \<Rightarrow> bool" where
  "entry_ok (Container n ms blocks rest) \<longleftrightarrow>
     n < 2 ^ 31 \<and> list_all member_ok ms \<and> length (container_line n ms) < 1023
     \<and> find_sub ''external:imsm'' blocks = None \<and> CHR 0x0A \<notin> set (blocks @ rest) \<and> length (blocks @ rest) < 1000"
| "entry_ok (Other_line l) \<longleftrightarrow>
     CHR 0x0A \<notin> set l \<and> length l < 1022 \<and> (take 2 l = ''md'' \<longrightarrow> find_sub INACTIVE_STR (l @ newline) = None)"

text \<open>What the monitor keeps of a reading, and what a set of containers is about.\<close>

definition enc :: "nat \<times> (string \<times> string) list \<Rightarrow> container_dev" where
  "enc x = \<lparr>devnum = int (fst x), devs = rev (map fst (snd x))\<rparr>"

definition kept :: "reading \<Rightarrow> container_dev list" where
  "kept cs = map enc (take MAX_CONTAINERS cs) @ replicate (MAX_CONTAINERS - length cs) blank"

definition layout :: "reading \<Rightarrow> (nat \<times> string set) set" where
  "layout cs = (\<lambda>(n, ms). (n, fst ` set ms)) ` set (take MAX_CONTAINERS cs)"

subsection \<open>Reading the text back\<close>

lemma find_sub_char_None: "c \<notin> set xs \<Longrightarrow> find_sub [c] xs = None"
  by (induction xs) (subst find_sub.simps; auto)+

lemma collect_names_members:
  "list_all member_ok ms \<Longrightarrow> collect_names (member_texts ms) acc = Some (rev (map fst ms) @ acc)"
proof (induction ms arbitrary: acc)
  case Nil
  then show ?case by (simp add: member_texts_def add_member_devname_def find_sub_char_None)
next
  case (Cons x ms)
  obtain name role where x: "x = (name, role)" by fastforce
  obtain role' where role: "role = CHR ''['' # role'"
    using Cons.prems by (cases role) (simp_all add: x member_ok_def)
  have no: "CHR ''['' \<notin> set name" "CHR '' '' \<notin> set (name @ role)"
    using Cons.prems by (simp_all add: x member_ok_def)
  let ?buf = "name @ role @ member_texts ms"
  have t: "member_texts (x # ms) = CHR '' '' # ?buf" by (simp add: member_texts_def x)
  have add: "add_member_devname acc ?buf = name # acc"
    using find_sub_char [OF no(1), of "role' @ member_texts ms"] by (simp add: add_member_devname_def role)
  show ?case
  proof (cases ms)
    case Nil
    then have "find_sub '' '' ?buf = None" using no(2) by (intro find_sub_char_None) (auto simp: member_texts_def)
    then have "collect_names (CHR '' '' # ?buf) acc = Some (name # acc)" by (simp add: add Let_def)
    then show ?thesis unfolding t [symmetric] using Nil by (simp add: x)
  next
    case (Cons y ys)
    then obtain r where r: "member_texts ms = CHR '' '' # r" by (cases y) (simp add: member_texts_def)
    have "find_sub '' '' ?buf = Some (length (name @ role))" using find_sub_char [OF no(2), of r] by (simp add: r)
    moreover have "drop (length (name @ role)) ?buf = member_texts ms" by simp
    ultimately have "collect_names (CHR '' '' # ?buf) acc = collect_names (member_texts ms) (name # acc)"
      by (simp add: add Let_def del: drop_append)
    then show ?thesis unfolding t [symmetric] using Cons.IH [of "name # acc"] Cons.prems by (simp add: x)
  qed
qed

lemma read_dec: "digit_value c = None \<Longrightarrow> read_digits 10 0 (dec n @ c # cs) = n"
proof -
  have "list_all (\<lambda>c. \<exists>d < 10. digit_value c = Some d) (dec n)"
    using dec_digits digit_value_base by (fastforce simp: list_all_iff)
  from read_digits_append [OF this, of 0 "c # cs"] show "digit_value c = None \<Longrightarrow> ?thesis"
    using read_show [of 10 n] by (simp add: dec_show)
qed

lemma atoi_dec: "n < 2 ^ 31 \<Longrightarrow> digit_value c = None \<Longrightarrow> atoi (dec n @ c # cs) = int n"
proof -
  assume n: "n < 2 ^ 31" and c: "digit_value c = None"
  obtain d ds where d: "dec n = d # ds" using show_number_nonempty [of 10 n] by (cases "dec n") (auto simp: dec_show)
  have "\<exists>k < 10. d = base_digit k" using dec_digits [of d n] by (simp add: d)
  then have p: "\<not> is_space d" "d \<noteq> CHR ''-''" "d \<noteq> CHR ''+''" using base_digit_plain by fastforce+
  have "signed_take_bit 31 (min (2 ^ 63 - 1) (int n)) = int n"
    using n by (simp add: signed_take_bit_int_eq_self min_def)
  then show ?thesis using p read_dec [OF c, of n cs] by (simp add: atoi_def d Let_def)
qed


definition line_head :: "nat \<Rightarrow> string" where
  "line_head n = ''md'' @ dec n @ '' : ''"

lemma container_line_head: "container_line n ms = line_head n @ INACTIVE_STR @ member_texts ms"
  by (simp add: container_line_def line_head_def)

lemma get_devnum_line: "n < 2 ^ 31 \<Longrightarrow> get_devnum (container_line n ms) = int n"
proof -
  assume n: "n < 2 ^ 31"
  have "find_sub ''md'' (container_line n ms) = Some 0"
    unfolding container_line_def by (rule find_sub_prefix)
  moreover have "digit_value CHR '' '' = None" by code_simp
  ultimately show ?thesis using atoi_dec [OF n, of "CHR '' ''"] by (simp add: get_devnum_def container_line_def)
qed

lemma find_inactive: "find_sub INACTIVE_STR (container_line n ms) = Some (length (line_head n))"
proof -
  have "CHR ''i'' \<notin> set (line_head n)" using dec_no [of "CHR ''i''" n] by (simp add: line_head_def)
  from find_sub_head [OF this, of "''nactive''" "INACTIVE_STR @ member_texts ms"] show ?thesis
    using find_sub_prefix [of "''inactive''" "member_texts ms"] by (simp add: container_line_head INACTIVE_STR_def)
qed

lemma first_free_enc: "first_free (map enc xs @ replicate k blank) = (if k = 0 then None else Some (length xs))"
  by (induction xs) (cases k; simp add: blank_def enc_def)+

lemma collect_devices_kept:
  assumes "n < 2 ^ 31" "list_all member_ok ms"
  shows "collect_devices (container_line n ms) (kept cs) = Some (kept (cs @ [(n, ms)]))"
proof (cases "length cs < MAX_CONTAINERS")
  case True
  then obtain k where k: "MAX_CONTAINERS - length cs = Suc k" by (cases "MAX_CONTAINERS - length cs") auto
  then have k': "MAX_CONTAINERS - Suc (length cs) = k" by simp
  have kept: "kept cs = map enc cs @ blank # replicate k blank" using True k by (simp add: kept_def)
  have free: "first_free (kept cs) = Some (length cs)" using first_free_enc [of cs "Suc k"] kept by simp
  have "collect_names (member_texts ms) [] = Some (rev (map fst ms))"
    using collect_names_members [OF assms(2), of "[]"] by simp
  moreover have "drop (length (line_head n) + length INACTIVE_STR) (container_line n ms) = member_texts ms"
    unfolding container_line_head by (rule take_parts)
  ultimately have "collect_devices (container_line n ms) (kept cs)
      = Some (map enc cs @ \<lparr>devnum = int n, devs = rev (map fst ms)\<rparr> # replicate k blank)"
    unfolding collect_devices_def free find_inactive get_devnum_line [OF assms(1)]
    by (simp add: kept blank_def list_update_append nth_append del: drop_append)
  moreover have "take MAX_CONTAINERS (cs @ [(n, ms)]) = cs @ [(n, ms)]" using True by simp
  ultimately show ?thesis by (simp add: kept_def enc_def k')
next
  case False
  then have "first_free (kept cs) = None" using first_free_enc [of "take MAX_CONTAINERS cs" 0] by (simp add: kept_def)
  then show ?thesis using False by (simp add: collect_devices_def kept_def)
qed

lemma fgets_line:
  "CHR 0x0A \<notin> set l \<Longrightarrow> length l < room - 1 \<Longrightarrow> fgets room (l @ newline @ s) = Some (l @ newline, s)"
proof -
  assume l: "CHR 0x0A \<notin> set l" "length l < room - 1"
  then have "min (room - 1) (length l + 1) = Suc (length l)" by simp
  then show ?thesis using find_sub_char [OF l(1), of s] by (simp add: fgets_def Let_def)
qed

lemma container_line_body:
  assumes "list_all member_ok ms"
  obtains body where "container_line n ms = body @ newline" "CHR 0x0A \<notin> set body" "take 2 (container_line n ms) = ''md''"
proof
  let ?body = "line_head n @ INACTIVE_STR @ concat (map (\<lambda>(name, role). '' '' @ name @ role) ms)"
  show "container_line n ms = ?body @ newline" by (simp add: container_line_head member_texts_def)
  have "CHR 0x0A \<notin> set (concat (map (\<lambda>(name, role). '' '' @ name @ role) ms))"
    using assms by (induction ms) (auto simp: member_ok_def)
  then show "CHR 0x0A \<notin> set ?body" using dec_no [of "CHR 0x0A" n] by (simp add: line_head_def INACTIVE_STR_def)
  show "take 2 (container_line n ms) = ''md''" by (simp add: container_line_def)
qed

lemma no_border_imsm: "no_border ''external:imsm''"
  by code_simp

lemma read_lines_entries:
  "list_all entry_ok es \<Longrightarrow> read_lines (mdstat_text es) (kept cs) = Some (0, kept (cs @ reading_of es))"
proof (induction es arbitrary: cs)
  case Nil
  then show ?case by (subst read_lines.simps) (simp add: mdstat_text_def fgets_def)
next
  case (Cons e es)
  note IH = Cons.IH
  show ?case
  proof (cases e)
    case (Container n ms blocks rest)
    let ?follow = "blocks @ ''external:imsm'' @ rest"
    have ok: "n < 2 ^ 31" "list_all member_ok ms" "length (container_line n ms) < 1023"
      "find_sub ''external:imsm'' blocks = None" "CHR 0x0A \<notin> set ?follow" "length ?follow < 1022"
      using Cons.prems by (simp_all add: Container)
    obtain body where body: "container_line n ms = body @ newline" "CHR 0x0A \<notin> set body"
      "take 2 (container_line n ms) = ''md''"
      using container_line_body [OF ok(2), of n thesis] by blast
    have whole: "mdstat_text (e # es) = body @ newline @ ?follow @ newline @ mdstat_text es"
      using body(1) by (simp add: mdstat_text_def Container)
    have line: "fgets (MAX_LINE_LEN - 1) (body @ newline @ ?follow @ newline @ mdstat_text es)
        = Some (container_line n ms, ?follow @ newline @ mdstat_text es)"
      using body ok(3) by (subst fgets_line) (simp_all add: MAX_LINE_LEN_def)
    have line2: "fgets (1024 - 1) (?follow @ newline @ mdstat_text es) = Some (?follow @ newline, mdstat_text es)"
      using ok(5,6) by (intro fgets_line) simp_all
    have imsm: "find_sub ''external:imsm'' (?follow @ newline) = Some (length blocks)"
      using find_sub_behind [OF no_border_imsm ok(4), of "rest @ newline"] by simp
    show ?thesis
      unfolding whole
      by (subst read_lines.simps, unfold line option.case prod.case line2 imsm body(3) find_inactive collect_devices_kept [OF ok(1,2)])
        (use IH Cons.prems in \<open>simp add: Container\<close>)
  next
    case (Other_line l)
    have ok: "CHR 0x0A \<notin> set l" "length l < 1022" "take 2 l = ''md'' \<longrightarrow> find_sub INACTIVE_STR (l @ newline) = None"
      using Cons.prems by (simp_all add: Other_line)
    have line: "fgets (MAX_LINE_LEN - 1) (l @ newline @ mdstat_text es) = Some (l @ newline, mdstat_text es)"
      using ok by (intro fgets_line) (simp_all add: MAX_LINE_LEN_def)
    have "take 2 (l @ newline) \<noteq> ''md'' \<or> find_sub INACTIVE_STR (l @ newline) = None"
      using ok(3) by (cases l rule: remdups_adj.cases) auto
    then have "read_lines (l @ newline @ mdstat_text es) (kept cs) = read_lines (mdstat_text es) (kept cs)"
      by (subst read_lines.simps, unfold line) auto
    moreover have "mdstat_text (e # es) = l @ newline @ mdstat_text es" by (simp add: mdstat_text_def Other_line)
    ultimately show ?thesis using IH Cons.prems by (simp add: Other_line)
  qed
qed


subsection \<open>Changes\<close>

lemma compare_member_lists_iff: "compare_member_lists a b \<longleftrightarrow> \<not> set a \<subseteq> set b"
  by (induction a) auto

lemma compare_members_enc: "compare_members (enc x) (enc y) \<longleftrightarrow> fst ` set (snd x) \<noteq> fst ` set (snd y)"
  by (auto simp: compare_members_def compare_member_lists_iff enc_def)

lemma find_kept:
  "find (\<lambda>s. devnum s = int n) (kept cs) = map_option enc (find (\<lambda>x. fst x = n) (take MAX_CONTAINERS cs))"
proof -
  have "find (\<lambda>s. devnum s = int n) (map enc xs @ replicate k blank) = map_option enc (find (\<lambda>x. fst x = n) xs)" for xs k
    by (induction xs) (auto simp: enc_def blank_def find_None_iff)
  then show ?thesis by (simp add: kept_def)
qed

lemma compare_kept:
  assumes "distinct (map fst (take MAX_CONTAINERS bs))"
  shows "compare_container_list (kept as) (kept bs) \<longleftrightarrow> \<not> layout as \<subseteq> layout bs"
proof -
  let ?B = "take MAX_CONTAINERS bs" and ?l = "\<lambda>(n, ms). (n, fst ` set ms)"
  have blanks: "\<not> compare_container_list (replicate k blank) s" for k s by (induction k) (simp_all add: blank_def)
  have one: "(case find (\<lambda>y. fst y = fst x) ?B of None \<Rightarrow> True | Some y \<Rightarrow> fst ` set (snd x) \<noteq> fst ` set (snd y))
      \<longleftrightarrow> ?l x \<notin> ?l ` set ?B" for x :: "nat \<times> (string \<times> string) list"
  proof -
    have l: "?l x \<in> ?l ` set ?B \<longleftrightarrow> (\<exists>z \<in> set ?B. fst z = fst x \<and> fst ` set (snd z) = fst ` set (snd x))"
      unfolding image_iff split_beta prod.inject by metis
    show ?thesis
    proof (cases "find (\<lambda>y. fst y = fst x) ?B")
      case None
      then have "fst y \<noteq> fst x" if "y \<in> set ?B" for y using that unfolding find_None_iff by blast
      then show ?thesis using None unfolding l by simp
    next
      case (Some y)
      then obtain i where "i < length ?B" "fst (?B ! i) = fst x" "y = ?B ! i" unfolding find_Some_iff by blast
      then have y: "y \<in> set ?B" "fst y = fst x" using nth_mem by blast+
      have "z = y" if "z \<in> set ?B" "fst z = fst x" for z
        using assms that y by (simp add: distinct_map inj_on_def)
      then have "(\<exists>z \<in> set ?B. fst z = fst x \<and> fst ` set (snd z) = fst ` set (snd x)) \<longleftrightarrow> fst ` set (snd y) = fst ` set (snd x)"
        using y by blast
      then show ?thesis unfolding l Some by auto
    qed
  qed
  have "compare_container_list (map enc xs @ replicate k blank) (kept bs) \<longleftrightarrow> \<not> ?l ` set xs \<subseteq> ?l ` set ?B" for xs k
  proof (induction xs)
    case Nil
    then show ?case by (simp add: blanks)
  next
    case (Cons x xs)
    have d: "\<not> devnum (enc x) < 0" "devnum (enc x) = int (fst x)" by (simp_all add: enc_def)
    have "compare_container_list (map enc (x # xs) @ replicate k blank) (kept bs)
      \<longleftrightarrow> (case find (\<lambda>y. fst y = fst x) ?B of None \<Rightarrow> True | Some y \<Rightarrow> fst ` set (snd x) \<noteq> fst ` set (snd y))
        \<or> compare_container_list (map enc xs @ replicate k blank) (kept bs)"
      by (cases "find (\<lambda>y. fst y = fst x) ?B") (simp_all add: d find_kept compare_members_enc)
    then show ?case unfolding one Cons.IH by simp
  qed
  then show ?thesis by (simp add: kept_def layout_def)
qed

text \<open>The monitor holds the reading \<open>cs\<close>.\<close>

definition watching :: "monitor \<Rightarrow> reading \<Rightarrow> bool" where
  "watching m cs \<longleftrightarrow> current m < 2 \<and> length (containers m) = 2 \<and> current_container m = kept cs
     \<and> (\<exists>ds. other_container m = kept ds)"

lemma kept_Nil: "kept [] = replicate MAX_CONTAINERS blank"
  by (simp add: kept_def)

lemma watching_init: "watching (init_containers m) []"
  by (auto simp: watching_def init_containers_def current_container_def other_container_def kept_Nil [symmetric] eval_nat_numeral)

lemma clear_kept: "map (\<lambda>c. if 0 \<le> devnum c then blank else c) (kept cs) = kept []"
proof -
  let ?f = "\<lambda>c. if 0 \<le> devnum c then blank else c"
  have "?f \<circ> enc = (\<lambda>_. blank)" "?f blank = blank" by (auto simp: enc_def)
  then have "map ?f (kept cs) = replicate (length (take MAX_CONTAINERS cs) + (MAX_CONTAINERS - length cs)) blank"
    by (simp only: kept_def map_append map_map map_replicate map_replicate_const replicate_add)
  then show ?thesis by (simp add: kept_Nil)
qed

lemma read_mdstat_watching:
  assumes w: "watching m cs" and mdstat: "mdstat (reads m) = Some (mdstat_text es)" and ok: "list_all entry_ok es"
  shows "\<exists>m1. read_mdstat mdstat m = Some (0, m1) \<and> watching m1 (reading_of es) \<and> other_container m1 = kept cs
    \<and> sems m1 = sems m \<and> suspended m1 = suspended m \<and> reads m1 = reads m + 1"
proof -
  let ?m0 = "switch_current (clear_other_container m)"
  obtain ds where ds: "other_container m = kept ds" using w by (auto simp: watching_def)
  have c: "current m < 2" "length (containers m) = 2" "current_container m = kept cs" using w by (auto simp: watching_def)
  have set0: "current_container ?m0 = kept []" "other_container ?m0 = kept cs"
    using c ds clear_kept [of ds]
    by (auto simp: switch_current_def clear_other_container_def current_container_def other_container_def less_2_cases_iff)
  have "read_lines (mdstat_text es) (kept []) = Some (0, kept (reading_of es))" using read_lines_entries [OF ok, of "[]"] by simp
  moreover have "reads ?m0 = reads m" by (simp add: switch_current_def clear_other_container_def)
  ultimately have "read_mdstat mdstat m = Some (0, ?m0\<lparr>reads := reads m + 1, containers := (containers ?m0)[current ?m0 := kept (reading_of es)]\<rparr>)"
    using mdstat by (simp only: read_mdstat_def Let_def set0(1)) simp
  moreover have "watching (?m0\<lparr>reads := reads m + 1, containers := (containers ?m0)[current ?m0 := kept (reading_of es)]\<rparr>) (reading_of es)
    \<and> other_container (?m0\<lparr>reads := reads m + 1, containers := (containers ?m0)[current ?m0 := kept (reading_of es)]\<rparr>) = kept cs"
    using c set0 by (auto simp: watching_def switch_current_def clear_other_container_def current_container_def other_container_def less_2_cases_iff)
  ultimately show ?thesis by (simp add: switch_current_def clear_other_container_def)
qed

lemma members_changed_kept:
  assumes "watching m bs" "other_container m = kept as" "distinct (map fst (take MAX_CONTAINERS as))"
    "distinct (map fst (take MAX_CONTAINERS bs))"
  shows "members_changed m \<longleftrightarrow> layout as \<noteq> layout bs"
  using assms compare_kept [of as bs] compare_kept [of bs as] by (auto simp: members_changed_def watching_def)


lemma watching_sems: "watching (m\<lparr>sems := k\<rparr>) cs = watching m cs" "watching (m\<lparr>suspended := n\<rparr>) cs = watching m cs"
  by (simp_all add: watching_def current_container_def other_container_def)

lemma watching_exec: "watching (snd (exec_ssimsg t m)) cs = watching m cs"
  by (simp add: exec_ssimsg_def watching_sems split: option.split prod.split)

text \<open>
  C34. Of a text of \<open>/proc/mdstat\<close> the monitor keeps the first ten containers with their members, whatever other lines
  it has, and a reading runs \<open>ssimsg\<close> exactly when these containers or the sets of their members are not those of
  the reading before; their order does not matter, and the eleventh container is not looked at.
\<close>

theorem mdstat_changes_told:
  assumes "watching m cs" "mdstat (reads m) = Some (mdstat_text es)" "list_all entry_ok es"
    "distinct (map fst (take MAX_CONTAINERS cs))" "distinct (map fst (take MAX_CONTAINERS (reading_of es)))"
  shows "\<exists>m1. handle_mdstat t mdstat m = Some (if layout cs = layout (reading_of es) then (0, m1) else exec_ssimsg t m1)
    \<and> watching m1 (reading_of es) \<and> sems m1 = sems m \<and> suspended m1 = suspended m \<and> reads m1 = reads m + 1"
proof -
  obtain m1 where m1: "read_mdstat mdstat m = Some (0, m1)" "watching m1 (reading_of es)" "other_container m1 = kept cs"
    "sems m1 = sems m" "suspended m1 = suspended m" "reads m1 = reads m + 1"
    using read_mdstat_watching [of m cs mdstat es, OF assms(1-3)] by blast
  then have "members_changed m1 \<longleftrightarrow> layout cs \<noteq> layout (reading_of es)"
    using members_changed_kept [OF m1(2,3) assms(4,5)] by simp
  then show ?thesis using m1 by (auto simp: handle_mdstat_def)
qed

text \<open>A reading with one container.\<close>

definition sample_mdstat :: "entry list" where
  "sample_mdstat = [Other_line ''Personalities : [raid1]'',
     Container 127 [(''sdb'', ''[1](S)''), (''sda'', ''[0](S)'')] ''      6306 blocks super '' [], Other_line []]"

lemma sample_mdstat_ok: "list_all entry_ok sample_mdstat"
proof -
  have "digit 1 = CHR ''1''" "digit 2 = CHR ''2''" "digit 7 = CHR ''7''" by code_simp+
  then have "dec 127 = ''127''" by (subst dec.simps, simp, subst dec.simps, simp, subst dec.simps, simp)
  then have "length (container_line 127 [(''sdb'', ''[1](S)''), (''sda'', ''[0](S)'')]) < 1023"
    by (simp add: container_line_def member_texts_def INACTIVE_STR_def)
  moreover have "find_sub ''external:imsm'' ''      6306 blocks super '' = None" by code_simp
  ultimately show ?thesis by (simp add: sample_mdstat_def member_ok_def)
qed

definition sample_kernel :: kernel where
  "sample_kernel = \<lparr>sem_value = (\<lambda>i. if i = 7 then Some 0 else None), key_set = Some 7, next_set = 8\<rparr>"

definition sample_monitor :: monitor where
  "sample_monitor = init_containers \<lparr>containers = [], current = 0, sems = sample_kernel, reads = 0, suspended = 0\<rparr>"

lemma sample_watching: "watching sample_monitor []" "sems sample_monitor = sample_kernel"
  by (simp_all add: sample_monitor_def watching_init) (simp add: init_containers_def)

lemma sample_changes: "layout [] \<noteq> layout (reading_of sample_mdstat)"
  "distinct (map fst (take MAX_CONTAINERS (reading_of sample_mdstat)))"
  by (simp_all add: layout_def sample_mdstat_def MAX_CONTAINERS_def)

theorem mdstat_changes_told_witness:
  "\<forall>t. \<exists>m1. handle_mdstat t (\<lambda>_. Some (mdstat_text sample_mdstat)) sample_monitor = Some (exec_ssimsg t m1)"
  using mdstat_changes_told [OF sample_watching(1) _ sample_mdstat_ok, of "\<lambda>_. Some (mdstat_text sample_mdstat)"] sample_changes
  by simp blast


definition sample_tools :: tools where
  "sample_tools = \<lparr>vfork_ok = True, runs = (\<lambda>p. p = ''/usr/bin/ssimsg''), beside = [], tool_ftok_ok = True\<rparr>"


subsection \<open>The program beside the monitor\<close>

lemma strrchr_none: "cstr h a xs \<Longrightarrow> c \<notin> set xs \<Longrightarrow> length xs < n \<Longrightarrow> strrchr h a c n r = Some r"
proof (induction xs arbitrary: a n r)
  case Nil
  then show ?case by (cases n) (simp_all add: cstr_def rd8_def)
next
  case (Cons x xs)
  then show ?case by (cases n) (auto simp: cstr_Cons rd8_def)
qed

lemma strrchr_last:
  "cstr h a (dir @ c # file) \<Longrightarrow> c \<notin> set file \<Longrightarrow> length (dir @ c # file) < n
    \<Longrightarrow> strrchr h a c n r = Some (Some (a + length dir))"
proof (induction dir arbitrary: a n r)
  case Nil
  then show ?case using strrchr_none [of h "Suc a" "file" c "n - 1"] by (cases n) (auto simp: cstr_Cons rd8_def)
next
  case (Cons x dir)
  then show ?case by (cases n) (auto simp: cstr_Cons rd8_def)
qed

lemma strcpy_s_ready:
  "writable (mem s) dest dmax \<Longrightarrow> src \<noteq> 0 \<Longrightarrow> src \<noteq> dest \<Longrightarrow> cstr (mem s) src xs
    \<Longrightarrow> (\<lambda>(src, xs) h dest dmax. writable h dest dmax \<and> src \<noteq> 0 \<and> src \<noteq> dest \<and> cstr h src xs) (src, xs) (mem s) dest dmax"
  by simp

definition ssimsg_name :: "byte list" where "ssimsg_name = [0x73, 0x73, 0x69, 0x6D, 0x73, 0x67]"

text \<open>
  C36. The \<open>ssimsg\<close> beside the monitor is never run: the room that the child gives to the name is one byte short, so that
  \<open>strcpy_s\<close> refuses it, and the path it tries to run is the directory, with its slash at the end.
\<close>

theorem sibling_path_is_directory:
  assumes buffer: "writable (mem s) buffer PATH_MAX" "str_handler s \<noteq> Some Abort_handler_s"
    and cp: "cp \<noteq> 0" "cstr (mem s) cp (dir @ 0x2F # file)" "0x2F \<notin> set file" "length dir + 7 \<le> PATH_MAX"
      "length (dir @ 0x2F # file) < PATH_MAX" "length (dir @ 0x2F # file) < gap buffer cp"
    and name: "name \<noteq> 0" "cstr (mem s) name ssimsg_name" "name + 7 \<le> buffer \<or> buffer + PATH_MAX \<le> name"
  shows "\<exists>s'. sibling_path slack buffer cp name s = Some (Returned ESNOSPC, s') \<and> cstr (mem s') buffer (dir @ [0x2F])"
proof -
  let ?xs = "dir @ 0x2F # file" and ?dest = "buffer + length dir + 1"
  define s1 where "s1 = s\<lparr>mem := put_bytes (mem s) buffer (padded slack PATH_MAX ?xs)\<rparr>"
  have ne: "cp \<noteq> buffer" using cp(6) by (auto simp: gap_def)
  have verdict: "text_verdict PATH_MAX (gap buffer cp) (length ?xs) = EOK" using cp(5,6) by (simp add: text_verdict_def)
  from strcpy_s_effect [OF buffer(1) cp(1) ne cp(2), of slack] have run1: "strcpy_s slack buffer PATH_MAX cp s = Some (Returned EOK, s1)"
    unfolding verdict by (simp add: string_effect_def s1_def)
  note ready1 = strcpy_s_ready [OF buffer(1) cp(1) ne cp(2)]
  have copied: "cstr (mem s1) buffer ?xs"
    using strcpy.holds_text [OF ready1, of slack "Returned EOK" s1] run1 verdict by simp
  have frame1: "mem s1 x = mem s x" if "x < buffer \<or> buffer + PATH_MAX \<le> x" for x
    using strcpy.frame [OF ready1, of slack "Returned EOK" s1 x] run1 that by simp
  have dom1: "dom (mem s1) = dom (mem s)"
    using strcpy.same_objects [OF ready1, of slack "Returned EOK" s1] run1 by simp
  have slash: "strrchr (mem s1) buffer 0x2F PATH_MAX None = Some (Some (buffer + length dir))"
    by (rule strrchr_last [OF copied cp(3,5)])
  have name1: "cstr (mem s1) name ssimsg_name"
    using name(2,3) frame1 chars_at_cong [of ssimsg_name "mem s1" name "mem s"] by (auto simp: cstr_def ssimsg_name_def)
  have w: "writable (mem s1) ?dest 6"
  proof -
    have "mem s1 (?dest + i) \<noteq> None" if "i < 6" for i
    proof -
      have "\<forall>k < PATH_MAX. mem s (buffer + k) \<noteq> None" using buffer(1) by (simp add: writable_def mapped_def)
      moreover have "length dir + 1 + i < PATH_MAX" using cp(4) that by simp
      ultimately have "mem s (buffer + (length dir + 1 + i)) \<noteq> None" by blast
      then show ?thesis using dom1 by (metis add.assoc domIff)
    qed
    then show ?thesis by (simp add: writable_def mapped_def RSIZE_MAX_STR_def)
  qed
  have far: "name \<noteq> ?dest" "text_verdict 6 (gap ?dest name) (length ssimsg_name) = ESNOSPC"
    using name(3) cp(4) by (auto simp: gap_def text_verdict_def ssimsg_name_def)
  note ready2 = strcpy_s_ready [OF w name(1) far(1) name1]
  have "active (str_handler s1) = Ignore_handler_s"
    using buffer(2) by (cases "str_handler s") (auto simp: active_def s1_def intro: handler.exhaust)
  then obtain s2 where run2: "strcpy_s slack ?dest 6 name s1 = Some (Returned ESNOSPC, s2)"
    using strcpy_s_effect [OF w name(1) far(1) name1, of slack] far(2)
    by (auto simp: string_effect_def str_fail_eq handler_outcome_def)
  have end2: "cstr (mem s2) ?dest []"
    using strcpy.holds_text [OF ready2, of slack "Returned ESNOSPC" s2] run2 far(2) by simp
  have frame2: "mem s2 x = mem s1 x" if "x < ?dest" for x
    using strcpy.frame [OF ready2, of slack "Returned ESNOSPC" s2 x] run2 that by simp
  have "chars_at (mem s1) buffer (dir @ [0x2F])" using copied chars_at_append [of "mem s1" buffer "dir @ [0x2F]" "file"] by (simp add: cstr_def)
  then have "chars_at (mem s2) buffer (dir @ [0x2F])"
    using chars_at_cong [of "dir @ [0x2F]" "mem s2" buffer "mem s1"] frame2 by simp
  then have "cstr (mem s2) buffer (dir @ [0x2F])" using end2 by (simp add: cstr_def)
  then show ?thesis using run1 run2 slash by (simp add: sibling_path_def)
qed

abbreviation (input) exe_heap :: heap where
  "exe_heap \<equiv> put_bytes (put_bytes (put_bytes Map.empty 8192 (replicate 4096 0)) 64 [0x2F, 0x62, 0x2F, 0x6D, 0]) 128 (ssimsg_name @ [0])"

theorem sibling_path_is_directory_witness:
  "\<exists>s'. sibling_path True 8192 64 128 (demo_state exe_heap) = Some (Returned ESNOSPC, s') \<and> cstr (mem s') 8192 [0x2F, 0x62, 0x2F]"
proof -
  have "mapped exe_heap 8192 4096" by (auto simp: mapped_def put_bytes_def ssimsg_name_def)
  then have "writable exe_heap 8192 PATH_MAX" by (simp add: writable_def RSIZE_MAX_STR_def PATH_MAX_def)
  moreover have "cstr exe_heap 64 [0x2F, 0x62, 0x2F, 0x6D]" "cstr exe_heap 128 ssimsg_name"
    by (simp_all add: cstr_Cons ssimsg_name_def) (simp_all add: cstr_def put_bytes_def)
  ultimately show ?thesis
    using sibling_path_is_directory [of "demo_state exe_heap" 8192 64 "[0x2F, 0x62]" "[0x6D]" 128 True]
    by (simp add: PATH_MAX_def gap_def)
qed

end
