(* ===== verification/Controller_Info.thy ===== *)
theory Controller_Info
  imports Orom Raid_Info Enclosures
begin

text \<open>
  What a controller knows of itself and tells a client: the constructors of \<open>controller.cpp\<close>, \<open>ahci.cpp\<close>, \<open>vmd.cpp\<close>,
  \<open>nvme.cpp\<close> and \<open>isci.cpp\<close>, which read the PCI header, the version of mdadm and the firmware tables of \<open>Orom\<close>, and
  \<open>Controller::getInfo\<close>.  The bytes of the file \<open>config\<close> are a parameter, None when it cannot be read; an outer None is a
  read behind the bytes there are.
\<close>

unbundle bit_operations_syntax

subsection \<open>Tables\<close>

definition u16_at :: "byte list \<Rightarrow> nat \<Rightarrow> u16" where
  "u16_at bs i = ucast (bs ! i) OR push_bit 8 (ucast (bs ! (i + 1)))"

definition u32_at :: "byte list \<Rightarrow> nat \<Rightarrow> u32" where
  "u32_at bs i = ucast (u16_at bs i) OR push_bit 16 (ucast (u16_at bs (i + 2)))"

text \<open>The fields of the packed \<open>struct orom_info\<close> at their offsets.\<close>

definition orom_info_of :: "byte list \<Rightarrow> orom_info" where
  "orom_info_of bs = \<lparr>rlc = u16_at bs 16, chk = u16_at bs 18, dpa = u16_at bs 20, tds = u16_at bs 22, vpa = bs ! 24, vphba = bs ! 25\<rparr>"

definition prod_ver :: "byte list \<Rightarrow> string" where
  "prod_ver bs = dec (unat (u16_at bs 6)) @ ''.'' @ dec (unat (u16_at bs 8)) @ ''.'' @ dec (unat (u16_at bs 10)) @ ''.''
     @ dec (unat (u16_at bs 12))"

definition a_nvm :: "byte list \<Rightarrow> bool" where "a_nvm bs \<longleftrightarrow> bit (u32_at bs 26) 25"
definition a_2tb_disk :: "byte list \<Rightarrow> bool" where "a_2tb_disk bs \<longleftrightarrow> bit (u32_at bs 26) 26"
definition a_2tb_vol :: "byte list \<Rightarrow> bool" where "a_2tb_vol bs \<longleftrightarrow> bit (u32_at bs 26) 29"
definition c_esata :: "byte list \<Rightarrow> bool" where "c_esata bs \<longleftrightarrow> bit (u32_at bs 30) 0"
definition c_hdd_passwd :: "byte list \<Rightarrow> bool" where "c_hdd_passwd bs \<longleftrightarrow> bit (u32_at bs 30) 2"
definition f_led_locate :: "byte list \<Rightarrow> bool" where "f_led_locate bs \<longleftrightarrow> bit (u32_at bs 34) 1"
definition f_read_patrol :: "byte list \<Rightarrow> bool" where "f_read_patrol bs \<longleftrightarrow> bit (u32_at bs 34) 6"
definition f_hardware_xor :: "byte list \<Rightarrow> bool" where "f_hardware_xor bs \<longleftrightarrow> bit (u32_at bs 34) 7"
definition f_sku_mode :: "byte list \<Rightarrow> u32" where "f_sku_mode bs = drop_bit 8 (u32_at bs 34) AND 3"
definition f_tpv :: "byte list \<Rightarrow> bool" where "f_tpv bs \<longleftrightarrow> bit (u32_at bs 34) 10"

text \<open>The fields of the PCI header that are used.\<close>

record PCIHeader =
  vendorId :: u16
  deviceId :: u16
  revisionId :: byte
  prgIface :: byte
  subClassId :: byte
  classId :: byte
  subSystemVendorId :: u16
  subSystemId :: u16

definition pci_header_size :: nat where "pci_header_size = 48"

definition pci_header :: "byte list \<Rightarrow> PCIHeader" where
  "pci_header bs =
     \<lparr>vendorId = u16_at bs 0, deviceId = u16_at bs 2, revisionId = bs ! 8, prgIface = bs ! 9, subClassId = bs ! 10,
      classId = bs ! 11, subSystemVendorId = u16_at bs 44, subSystemId = u16_at bs 46\<rparr>"

subsection \<open>Controllers\<close>

datatype SSI_TrialState =
    SSI_Trial_State_Unknown | SSI_Trial_State_Not_Started | SSI_Trial_State_Started | SSI_Trial_State_Expired

record controller_state = pci_controller +
  co_path :: string
  m_Name :: string
  m_PrebootMgrVersion :: string
  m_DriverVersion :: string
  m_PciVendorId :: u16
  m_SubSystemId :: u16
  m_HardwareRevisionId :: byte
  m_SubVendorId :: u16
  m_twoTbVolumePrebootSupported :: bool
  m_twoTbDiskPrebootSupported :: bool
  m_ESATASpanning :: bool
  m_NVSRAMSupported :: bool
  m_HWXORSupported :: bool
  m_PhyLocate :: bool
  m_PhyRemoveDisk :: bool
  m_DiskUnlock :: bool
  m_PatrolReadSupport :: bool
  m_ROHISupport :: bool
  m_hardwareMode :: SSI_HardwareKeyType
  m_supportsTpv :: bool
  m_trialState :: SSI_TrialState
  m_remainingDays :: int
  co_sasAddressPresent :: bool
  co_sasAddress :: u64

definition getVersionFromMdadm :: "env \<Rightarrow> world \<Rightarrow> string \<times> world" where
  "getVersionFromMdadm os w =
     (let ((status, result), w1) = shell_output os ''mdadm --misc --detail-platform'' False w in
      (if status = 0
       then (case find (\<lambda>line. str_find line ''Version'' 0 \<noteq> None) (splitStringToLines result) of
               None \<Rightarrow> [] | Some line \<Rightarrow> str_trim (str_after line '':''))
       else [], w1))"

definition blank_controller :: "SSI_ControllerType \<Rightarrow> string \<Rightarrow> controller_state" where
  "blank_controller t path =
     \<lparr>pci_type = t, m_PciDeviceId = 0, m_ClassId = 0, m_SubClassCode = 0, m_prgIface = 0, co_path = path, m_Name = [],
      m_PrebootMgrVersion = [], m_DriverVersion = [], m_PciVendorId = 0, m_SubSystemId = 0, m_HardwareRevisionId = 0,
      m_SubVendorId = 0, m_twoTbVolumePrebootSupported = False, m_twoTbDiskPrebootSupported = False, m_ESATASpanning = False,
      m_NVSRAMSupported = False, m_HWXORSupported = False, m_PhyLocate = False, m_PhyRemoveDisk = False, m_DiskUnlock = False,
      m_PatrolReadSupport = False, m_ROHISupport = False, m_hardwareMode = SSI_Unknown_SKU, m_supportsTpv = False,
      m_trialState = SSI_Trial_State_Unknown, m_remainingDays = 0,
      co_sasAddressPresent = False, co_sasAddress = 0\<rparr>"

definition read_header :: "byte list option \<Rightarrow> controller_state \<Rightarrow> controller_state option" where
  "read_header config c =
     (case config of
        None \<Rightarrow> Some c
      | Some bs \<Rightarrow>
          if length bs < pci_header_size then None
          else let h = pci_header bs in
               Some (c\<lparr>m_PciVendorId := vendorId h, m_PciDeviceId := deviceId h, m_SubSystemId := subSystemId h,
                       m_HardwareRevisionId := revisionId h, m_SubClassCode := subClassId h,
                       m_SubVendorId := subSystemVendorId h, m_prgIface := prgIface h, m_ClassId := classId h\<rparr>))"

definition read_orom :: "orom_node option \<Rightarrow> controller_state \<Rightarrow> controller_state" where
  "read_orom info c =
     (case info of
        None \<Rightarrow> c
      | Some n \<Rightarrow>
          let bs = node_data n in
          c\<lparr>m_PrebootMgrVersion := prod_ver bs, m_twoTbVolumePrebootSupported := a_2tb_vol bs,
            m_twoTbDiskPrebootSupported := a_2tb_disk bs, m_ESATASpanning := c_esata bs, m_NVSRAMSupported := a_nvm bs,
            m_HWXORSupported := f_hardware_xor bs, m_PhyLocate := f_led_locate bs, m_DiskUnlock := c_hdd_passwd bs,
            m_PatrolReadSupport := f_read_patrol bs\<rparr>)"

definition new_controller ::
  "env \<Rightarrow> byte list option \<Rightarrow> SSI_ControllerType \<Rightarrow> string \<Rightarrow> firmware \<Rightarrow> world
    \<Rightarrow> (controller_state \<times> firmware \<times> world) option" where
  "new_controller os config t path fw w =
     (let (version, w1) = getVersionFromMdadm os w;
          c0 = (blank_controller t path)\<lparr>m_DriverVersion := (if version = [] then ''UNKNOWN'' else version)\<rparr> in
      do { c1 \<leftarrow> read_header config c0;
           (info, cache) \<leftarrow> orom_get (option_rom fw) (ucast (m_PciDeviceId c1)) (orom_cache fw);
           Some (read_orom info c1, fw\<lparr>orom_cache := cache\<rparr>, w1) })"

text \<open>\<open>String::reverse_right\<close>: from the last occurrence on.\<close>

definition str_reverse_right :: "string \<Rightarrow> string \<Rightarrow> string" where
  "str_reverse_right s p = (case find_sub_last p s of None \<Rightarrow> [] | Some n \<Rightarrow> drop n s)"

text \<open>The hardware key in the table of a VMD controller.\<close>

definition vmd_key :: "byte list \<Rightarrow> controller_state \<Rightarrow> controller_state" where
  "vmd_key bs c =
     (let (mode, text1) =
        (if f_sku_mode bs = 0 then (SSI_HardwareKey3story, '' (in pass-thru mode)'')
         else if f_sku_mode bs = 1 then (SSI_HardwareKeyVROCStandard, '' (Standard)'')
         else if f_sku_mode bs = 2 then (SSI_HardwareKeyVROCPremium, '' (Premium)'')
         else (SSI_HardwareKeyVROCIntelSSDonly, '' (Intel-SSD-only)'')) in
      c\<lparr>m_hardwareMode := mode, m_Name := m_Name c @ text1, m_supportsTpv := f_tpv bs\<rparr>)"

definition new_ahci :: "env \<Rightarrow> byte list option \<Rightarrow> string \<Rightarrow> firmware \<Rightarrow> world \<Rightarrow> (controller_state \<times> firmware \<times> world) option" where
  "new_ahci os config path fw w =
     do { (c, fw1, w1) \<leftarrow> new_controller os config SSI_ControllerTypeAHCI path fw w;
          Some (c\<lparr>m_Name := ''AHCI at '' @ str_reverse_right path ''0000:''\<rparr>, fw1, w1) }"

definition new_isci :: "env \<Rightarrow> byte list option \<Rightarrow> string \<Rightarrow> firmware \<Rightarrow> world \<Rightarrow> (controller_state \<times> firmware \<times> world) option" where
  "new_isci os config path fw w =
     do { (c, fw1, w1) \<leftarrow> new_controller os config SSI_ControllerTypeSCU path fw w;
          Some (c\<lparr>m_Name := ''ISCI at '' @ str_reverse_right path ''0000:''\<rparr>, fw1, w1) }"

definition new_nvme :: "env \<Rightarrow> byte list option \<Rightarrow> string \<Rightarrow> firmware \<Rightarrow> world \<Rightarrow> (controller_state \<times> firmware \<times> world) option" where
  "new_nvme os config path fw w =
     do { (c, fw1, w1) \<leftarrow> new_controller os config SSI_ControllerTypeNVME path fw w;
          Some (c\<lparr>m_Name := ''NVME at '' @ str_reverse_right path ''0000:'', m_PhyRemoveDisk := True\<rparr>, fw1, w1) }"

definition new_vmd :: "env \<Rightarrow> byte list option \<Rightarrow> string \<Rightarrow> firmware \<Rightarrow> world \<Rightarrow> (controller_state \<times> firmware \<times> world) option" where
  "new_vmd os config path fw w =
     do { (c, fw1, w1) \<leftarrow> new_controller os config SSI_ControllerTypeVMD path fw w;
          let c1 = c\<lparr>m_Name := ''Intel(R) VROC'', m_PhyRemoveDisk := True\<rparr>;
              (info, cache) = efi_get (efi_var fw1) (pci_type c1) (ucast (m_PciDeviceId c1)) (efi_cache fw1) in
          Some (case info of None \<Rightarrow> c1 | Some n \<Rightarrow> vmd_key (node_data n) c1, fw1\<lparr>efi_cache := cache\<rparr>, w1) }"

subsection \<open>Queries\<close>

text \<open>The addresses of controllers: those of NVMe and SAS controllers do not touch every field of the structure.\<close>

definition controller_getAddress :: "controller_state \<Rightarrow> SSI_Address \<Rightarrow> SSI_Address" where
  "controller_getAddress c address =
     (if pci_type c = SSI_ControllerTypeAHCI \<or> pci_type c = SSI_ControllerTypeVMD then parse_pci_address (co_path c)
      else if pci_type c = SSI_ControllerTypeSCU
      then address\<lparr>scsiAddress := no_scsi, sasAddressPresent := co_sasAddressPresent c, sasAddress := co_sasAddress c\<rparr>
      else address\<lparr>scsiAddress := no_scsi, sasAddressPresent := False, sasAddress := 0\<rparr>)"

definition isci_setAddress :: "SSI_Address \<Rightarrow> controller_state \<Rightarrow> controller_state" where
  "isci_setAddress address c =
     c\<lparr>co_sasAddressPresent := sasAddressPresent address, co_sasAddress := sasAddress address\<rparr>"

record SSI_HardwareVersion =
  hv_vendorId :: u16
  hv_deviceId :: u16
  hv_subSystemId :: u16
  hardwareRevisionId :: byte
  subClassCode :: byte
  subVendorId :: u16

record SSI_ControllerInfo =
  ci_controllerHandle :: SSI_Handle
  ci_uniqueId :: string
  controllerAddress :: SSI_Address
  controllerName :: string
  controllerType :: SSI_ControllerType
  raidInfoHandle :: SSI_Handle
  driverVer :: string
  prebootManagerVer :: string
  hardwareVer :: SSI_HardwareVersion
  prebootManagerLoaded :: bool
  twoTbVolumePrebootSupport :: bool
  twoTbDiskPrebootSupport :: bool
  disableESataSpanning :: bool
  xorSupported :: bool
  nvsramSupported :: bool
  phyLocateSupport :: bool
  phyRemoveDiskSupport :: bool
  diskUnlockSupport :: bool
  assignStoragePoolSupport :: bool
  markAsNormalSupport :: bool
  volumeDeleteSupport :: bool
  arrayCreateSupport :: bool
  volumeModifySupport :: bool
  volumeRenameSupport :: bool
  addDisksToArraySupport :: bool
  volumeSetCachePolicySupport :: bool
  volumeCancelVerifySupport :: bool
  markAsSpareSupport :: bool
  readPatrolSupport :: bool
  readPatrolEnabled :: bool
  xorEnabled :: bool
  rohiSupport :: bool
  rohiEnabled :: bool
  hardwareSkuMode :: SSI_HardwareKeyType
  supportsTPV :: bool
  trialState :: SSI_TrialState
  remainingDays :: int

text \<open>\<open>raid\<close> is the handle of \<open>m_pRaidInfo\<close>, None when there is none.\<close>

definition controller_getInfo ::
  "SSI_Handle \<Rightarrow> SSI_Handle option \<Rightarrow> controller_state \<Rightarrow> SSI_ControllerInfo option \<Rightarrow> SSI_Status \<times> SSI_ControllerInfo option" where
  "controller_getInfo handle raid c pInfo =
     (case pInfo of
        None \<Rightarrow> (SSI_StatusInvalidParameter, None)
      | Some info \<Rightarrow>
          (SSI_StatusOk, Some
            (info\<lparr>ci_controllerHandle := handle,
              ci_uniqueId := text_field 40 (''co:'' @ dec (unat (m_PciDeviceId c))),
              controllerAddress := controller_getAddress c (controllerAddress info),
              controllerName := text_field 256 (m_Name c),
              controllerType := pci_type c,
              raidInfoHandle := (case raid of None \<Rightarrow> SSI_NULL_HANDLE | Some h \<Rightarrow> h),
              driverVer := text_field 32 (m_DriverVersion c),
              prebootManagerVer := text_field 32 (m_PrebootMgrVersion c),
              hardwareVer := \<lparr>hv_vendorId = m_PciVendorId c, hv_deviceId = m_PciDeviceId c, hv_subSystemId = m_SubSystemId c,
                hardwareRevisionId = m_HardwareRevisionId c, subClassCode = m_SubClassCode c, subVendorId = m_SubVendorId c\<rparr>,
              prebootManagerLoaded := m_PrebootMgrVersion c \<noteq> [],
              twoTbVolumePrebootSupport := m_twoTbVolumePrebootSupported c,
              twoTbDiskPrebootSupport := m_twoTbDiskPrebootSupported c,
              disableESataSpanning := m_ESATASpanning c,
              xorSupported := m_HWXORSupported c,
              nvsramSupported := (if m_NVSRAMSupported c then False else False),
              phyLocateSupport := m_PhyLocate c,
              phyRemoveDiskSupport := m_PhyRemoveDisk c,
              diskUnlockSupport := m_DiskUnlock c,
              assignStoragePoolSupport := False, markAsNormalSupport := False, volumeDeleteSupport := True,
              arrayCreateSupport := True, volumeModifySupport := True, volumeRenameSupport := True,
              addDisksToArraySupport := True, volumeCancelVerifySupport := True, markAsSpareSupport := True,
              readPatrolSupport := m_PatrolReadSupport c, readPatrolEnabled := m_PatrolReadSupport c,
              rohiEnabled := False, rohiSupport := m_ROHISupport c,
              hardwareSkuMode := m_hardwareMode c, supportsTPV := m_supportsTpv c,
              trialState := m_trialState c, remainingDays := m_remainingDays c\<rparr>)))"

subsection \<open>What a client is told\<close>

text \<open>The class that the scan makes of a controller.\<close>

definition new_of_type ::
  "SSI_ControllerType \<Rightarrow> env \<Rightarrow> byte list option \<Rightarrow> string \<Rightarrow> firmware \<Rightarrow> world \<Rightarrow> (controller_state \<times> firmware \<times> world) option" where
  "new_of_type t =
     (case t of
        SSI_ControllerTypeAHCI \<Rightarrow> new_ahci | SSI_ControllerTypeSCU \<Rightarrow> new_isci | SSI_ControllerTypeNVME \<Rightarrow> new_nvme
      | SSI_ControllerTypeVMD \<Rightarrow> new_vmd | SSI_ControllerTypeUnknown \<Rightarrow> (\<lambda>os config path. new_controller os config t path))"

lemma read_header_keeps:
  "read_header config c = Some c1 \<Longrightarrow> m_PrebootMgrVersion c1 = m_PrebootMgrVersion c \<and> m_PhyRemoveDisk c1 = m_PhyRemoveDisk c
    \<and> m_hardwareMode c1 = m_hardwareMode c \<and> pci_type c1 = pci_type c"
  by (auto simp: read_header_def Let_def split: option.splits if_splits)

lemma read_orom_keeps [simp]:
  "m_PhyRemoveDisk (read_orom n c) = m_PhyRemoveDisk c" "m_hardwareMode (read_orom n c) = m_hardwareMode c"
  "pci_type (read_orom n c) = pci_type c" "m_PciDeviceId (read_orom n c) = m_PciDeviceId c"
  by (simp_all add: read_orom_def Let_def split: option.split)

lemma read_orom_version: "m_PrebootMgrVersion c = [] \<Longrightarrow> m_PrebootMgrVersion (read_orom n c) \<noteq> [] \<longleftrightarrow> n \<noteq> None"
  by (simp add: read_orom_def Let_def prod_ver_def split: option.split)

lemma new_controller_facts:
  assumes "new_controller os config t path fw w = Some (c, fw', w')"
  shows "\<exists>n. orom_get (option_rom fw) (ucast (m_PciDeviceId c)) (orom_cache fw) = Some (n, orom_cache fw')
    \<and> (m_PrebootMgrVersion c \<noteq> [] \<longleftrightarrow> n \<noteq> None) \<and> \<not> m_PhyRemoveDisk c \<and> m_hardwareMode c = SSI_Unknown_SKU
    \<and> pci_type c = t \<and> efi_var fw' = efi_var fw \<and> efi_cache fw' = efi_cache fw"
proof -
  obtain version w1 where v: "getVersionFromMdadm os w = (version, w1)" by fastforce
  let ?c0 = "(blank_controller t path)\<lparr>m_DriverVersion := (if version = [] then ''UNKNOWN'' else version)\<rparr>"
  obtain c1 n cache where c1: "read_header config ?c0 = Some c1"
    and n: "orom_get (option_rom fw) (ucast (m_PciDeviceId c1)) (orom_cache fw) = Some (n, cache)"
    and c: "c = read_orom n c1" "fw' = fw\<lparr>orom_cache := cache\<rparr>"
    using assms v by (auto simp: new_controller_def Let_def bind_eq_Some_conv)
  show ?thesis using read_header_keeps [OF c1] n c read_orom_version [of c1 n] by (auto simp: blank_controller_def)
qed

lemma vmd_key_keeps [simp]:
  "m_PrebootMgrVersion (vmd_key bs c) = m_PrebootMgrVersion c" "m_PhyRemoveDisk (vmd_key bs c) = m_PhyRemoveDisk c"
  "m_PciDeviceId (vmd_key bs c) = m_PciDeviceId c" "m_hardwareMode (vmd_key bs c) \<noteq> SSI_Unknown_SKU"
  by (simp_all add: vmd_key_def Let_def)

definition facts_of :: "SSI_ControllerType \<Rightarrow> firmware \<Rightarrow> controller_state \<Rightarrow> bool" where
  "facts_of t fw c \<longleftrightarrow>
     (m_PrebootMgrVersion c \<noteq> []
        \<longleftrightarrow> (\<exists>n cache. orom_get (option_rom fw) (ucast (m_PciDeviceId c)) (orom_cache fw) = Some (Some n, cache)))
     \<and> (m_PhyRemoveDisk c \<longleftrightarrow> t = SSI_ControllerTypeNVME \<or> t = SSI_ControllerTypeVMD)
     \<and> (m_hardwareMode c \<noteq> SSI_Unknown_SKU \<longleftrightarrow>
          t = SSI_ControllerTypeVMD \<and> fst (efi_get (efi_var fw) t (ucast (m_PciDeviceId c)) (efi_cache fw)) \<noteq> None)"

lemma new_of_type_facts:
  assumes "new_of_type t os config path fw w = Some (c, fw', w')"
  shows "facts_of t fw c"
proof -
  obtain c0 fw1 w1 where base: "new_controller os config t path fw w = Some (c0, fw1, w1)"
    using assms by (cases t) (auto simp: new_of_type_def new_ahci_def new_isci_def new_nvme_def new_vmd_def bind_eq_Some_conv)
  obtain n where f: "orom_get (option_rom fw) (ucast (m_PciDeviceId c0)) (orom_cache fw) = Some (n, orom_cache fw1)"
    "m_PrebootMgrVersion c0 \<noteq> [] \<longleftrightarrow> n \<noteq> None" "\<not> m_PhyRemoveDisk c0" "m_hardwareMode c0 = SSI_Unknown_SKU"
    "pci_type c0 = t" "efi_var fw1 = efi_var fw" "efi_cache fw1 = efi_cache fw"
    using new_controller_facts [OF base] by blast
  have rom: "(\<exists>n cache. orom_get (option_rom fw) (ucast (m_PciDeviceId c0)) (orom_cache fw) = Some (Some n, cache))
      \<longleftrightarrow> m_PrebootMgrVersion c0 \<noteq> []" using f(1,2) by auto
  show ?thesis
  proof (cases "t = SSI_ControllerTypeVMD")
    case True
    obtain info cache where e: "efi_get (efi_var fw) t (ucast (m_PciDeviceId c0)) (efi_cache fw) = (info, cache)" by fastforce
    then have "c = (case info of None \<Rightarrow> c0\<lparr>m_Name := ''Intel(R) VROC'', m_PhyRemoveDisk := True\<rparr>
        | Some n \<Rightarrow> vmd_key (node_data n) (c0\<lparr>m_Name := ''Intel(R) VROC'', m_PhyRemoveDisk := True\<rparr>))"
      using assms True base f(5-7) by (simp add: new_of_type_def new_vmd_def Let_def)
    then show ?thesis using f(3,4) e True rom by (cases info) (simp_all add: facts_of_def)
  next
    case False
    then have "c = c0\<lparr>m_Name := m_Name c, m_PhyRemoveDisk := (t = SSI_ControllerTypeNVME)\<rparr>"
      using assms base f by (cases t) (auto simp: new_of_type_def new_ahci_def new_isci_def new_nvme_def)
    then obtain name b where "c = c0\<lparr>m_Name := name, m_PhyRemoveDisk := b\<rparr>" "b = (t = SSI_ControllerTypeNVME)" by blast
    then show ?thesis using f(3,4) rom False by (simp add: facts_of_def)
  qed
qed


text \<open>A VMD controller whose key stands in an EFI variable.\<close>

definition sample_firmware :: firmware where
  "sample_firmware = \<lparr>efi_var = (\<lambda>v. if v = ''RstUefiV'' then Some (replicate 38 0) else None), option_rom = None,
     efi_cache = [], orom_cache = []\<rparr>"

definition silent_env :: env where
  "silent_env = \<lparr>popen = (\<lambda>_ _. None), open_error = (\<lambda>_ _. None), read_file = (\<lambda>_ _. None), path_exists = (\<lambda>_ _. False),
     canonical_path = id\<rparr>"


end
