(* ===== verification/Object_Info.thy ===== *)
theory Object_Info
  imports Enclosures
begin

text \<open>
  What phys, ports, routing devices and disks tell a client: the properties a phy reads from sysfs (\<open>phy.cpp\<close>), and the
  queries of \<open>phy.cpp\<close>, \<open>port.cpp\<close>, \<open>routing_device.cpp\<close> and \<open>end_device.cpp\<close>.  A query fills in the structure
  of the caller; what it does not write keeps its value.  Of another object the queries use the handle, which is None when
  the object is gone, and the address, a function on the structure.  An attribute that cannot be read is None.
\<close>

datatype SSI_DeviceType =
    SSI_DeviceTypeUnknown | SSI_DeviceTypeController | SSI_DeviceTypeEndDevice | SSI_DeviceTypeRoutingDevice

definition handle_or_null :: "SSI_Handle option \<Rightarrow> SSI_Handle" where
  "handle_or_null h = (case h of None \<Rightarrow> SSI_NULL_HANDLE | Some x \<Rightarrow> x)"

subsection \<open>Phys\<close>

datatype SSI_PhyProtocol =
    SSI_PhyProtocolUnknown | SSI_PhyProtocolSATA | SSI_PhyProtocolSMP | SSI_PhyProtocolSTP | SSI_PhyProtocolSSP
  | SSI_PhyProtocolNVME

datatype SSI_PhySpeed = SSI_PhySpeedUnknown | SSI_PhySpeed_1_5_GEN1 | SSI_PhySpeed_3_0_GEN2 | SSI_PhySpeed_6_0_GEN3

record link_speeds =
  minHWLinkSpeed :: SSI_PhySpeed
  maxHWLinkSpeed :: SSI_PhySpeed
  minLinkSpeed :: SSI_PhySpeed
  maxLinkSpeed :: SSI_PhySpeed
  negotiatedLinkSpeed :: SSI_PhySpeed

record phy_state =
  m_Protocol :: SSI_PhyProtocol
  m_speeds :: link_speeds

definition parse_protocol :: "string \<Rightarrow> SSI_PhyProtocol" where
  "parse_protocol s =
     (if contains s ''sata'' then SSI_PhyProtocolSATA
      else if contains s ''ssp'' then SSI_PhyProtocolSSP
      else if contains s ''smp'' then SSI_PhyProtocolSMP
      else if contains s ''stp'' then SSI_PhyProtocolSTP
      else SSI_PhyProtocolUnknown)"

definition parse_linkrate :: "string \<Rightarrow> SSI_PhySpeed" where
  "parse_linkrate s =
     (if contains s ''1.5'' then SSI_PhySpeed_1_5_GEN1
      else if contains s ''3.0'' then SSI_PhySpeed_3_0_GEN2
      else if contains s ''6.0'' then SSI_PhySpeed_6_0_GEN3
      else SSI_PhySpeedUnknown)"

definition no_speeds :: link_speeds where
  "no_speeds = \<lparr>minHWLinkSpeed = SSI_PhySpeedUnknown, maxHWLinkSpeed = SSI_PhySpeedUnknown, minLinkSpeed = SSI_PhySpeedUnknown,
     maxLinkSpeed = SSI_PhySpeedUnknown, negotiatedLinkSpeed = SSI_PhySpeedUnknown\<rparr>"

definition read_as :: "(string \<Rightarrow> 'a) \<Rightarrow> 'a \<Rightarrow> string option \<Rightarrow> 'a" where
  "read_as parse old r = (case r of None \<Rightarrow> old | Some s \<Rightarrow> parse s)"

text \<open>The body of the loop over the directories of a phy of a controller or a routing device.\<close>

definition read_sas_phy :: "(string \<Rightarrow> string option) \<Rightarrow> phy_state \<Rightarrow> string \<Rightarrow> phy_state" where
  "read_sas_phy attribute p d =
     (let rate = (\<lambda>f old. read_as parse_linkrate old (attribute (join d f))); s = m_speeds p in
      \<lparr>m_Protocol = read_as parse_protocol (m_Protocol p) (attribute (join d ''target_port_protocols'')),
       m_speeds =
        \<lparr>minHWLinkSpeed = rate ''minimum_linkrate_hw'' (minHWLinkSpeed s),
         maxHWLinkSpeed = rate ''maximum_linkrate_hw'' (maxHWLinkSpeed s),
         minLinkSpeed = rate ''minimum_linkrate'' (minLinkSpeed s),
         maxLinkSpeed = rate ''maximum_linkrate'' (maxLinkSpeed s),
         negotiatedLinkSpeed = rate ''negotiated_linkrate'' (negotiatedLinkSpeed s)\<rparr>\<rparr>)"

text \<open>
  \<open>parent\<close> is the class of the parent, None when there is none.  The SAS address is handed to a parent
  that stores one, the last that is not zero.
\<close>

definition phy_setProperties ::
  "sys_tree \<Rightarrow> (string \<Rightarrow> string option) \<Rightarrow> string \<Rightarrow> SSI_DeviceType option \<Rightarrow> phy_state" where
  "phy_setProperties fs attribute path owner_type =
     (let p = \<lparr>m_Protocol = SSI_PhyProtocolUnknown, m_speeds = no_speeds\<rparr> in
      if owner_type = Some SSI_DeviceTypeEndDevice
      then let ds = dirs fs (join (str_reverse_left (str_reverse_left path ''/'') ''/'') ''sas_device'') [] in
           foldl (\<lambda>p d. p\<lparr>m_Protocol := read_as parse_protocol (m_Protocol p) (attribute (join d ''target_port_protocols''))\<rparr>) p ds
      else if owner_type = Some SSI_DeviceTypeController \<or> owner_type = Some SSI_DeviceTypeRoutingDevice
      then foldl (read_sas_phy attribute) p (dirs fs (path @ ''/sas_phy'') [])
      else p)"

definition phy_sas_address ::
  "sys_tree \<Rightarrow> (string \<Rightarrow> string option) \<Rightarrow> string \<Rightarrow> SSI_DeviceType option \<Rightarrow> u64 option" where
  "phy_sas_address fs attribute path owner_type =
     (if owner_type = Some SSI_DeviceTypeController \<or> owner_type = Some SSI_DeviceTypeRoutingDevice
      then foldl (\<lambda>r d. case attribute (join d ''sas_address'') of
                          None \<Rightarrow> r | Some s \<Rightarrow> if strtoull s \<noteq> 0 then Some (strtoull s) else r)
             None (dirs fs (path @ ''/sas_phy'') [])
      else None)"

record SSI_PhyInfo =
  phyHandle :: SSI_Handle
  ph_uniqueId :: string
  phyAddress :: SSI_Address
  phyNumber :: u32
  protocol :: SSI_PhyProtocol
  associatedPort :: SSI_Handle
  ph_deviceType :: SSI_DeviceType
  ph_deviceHandle :: SSI_Handle
  isExternal :: bool
  hotPlugCap :: bool
  ph_speeds :: link_speeds
  countsValid :: bool

text \<open>An object that owns a phy or a port: its class, its handle, its name in identifiers, its address.\<close>

record owner_object =
  ow_type :: SSI_DeviceType
  ow_handle :: SSI_Handle
  ow_part_id :: string
  ow_address :: "SSI_Address \<Rightarrow> SSI_Address"

definition part_id :: "string \<Rightarrow> owner_object option \<Rightarrow> SSI_Handle \<Rightarrow> nat \<Rightarrow> string" where
  "part_id lead ow h n =
     (case ow of None \<Rightarrow> lead @ dec (unat h) | Some p \<Rightarrow> lead @ ow_part_id p @ ''/'' @ dec n)"

text \<open>
  \<open>remote\<close> is the phy at the other end, \<open>peers\<close> the phys of the port at the other end, in order.
\<close>

definition setSpeeds :: "phy_state \<Rightarrow> SSI_PhyInfo \<Rightarrow> SSI_PhyInfo" where
  "setSpeeds p info = info\<lparr>ph_speeds := m_speeds p\<rparr>"

definition fetchSpeeds :: "phy_state option \<Rightarrow> phy_state list \<Rightarrow> SSI_PhyInfo \<Rightarrow> SSI_PhyInfo" where
  "fetchSpeeds remote peers info =
     (case remote of Some r \<Rightarrow> setSpeeds r info | None \<Rightarrow> foldl (\<lambda>i p. setSpeeds p i) info peers)"

definition phy_getInfo ::
  "SSI_Handle \<Rightarrow> u32 \<Rightarrow> phy_state \<Rightarrow> SSI_Handle option \<Rightarrow> owner_object option \<Rightarrow> phy_state option \<Rightarrow> phy_state list
    \<Rightarrow> SSI_PhyInfo option \<Rightarrow> SSI_Status \<times> SSI_PhyInfo option" where
  "phy_getInfo handle number p port ow remote peers pInfo =
     (case pInfo of
        None \<Rightarrow> (SSI_StatusInvalidParameter, None)
      | Some info \<Rightarrow>
          (let i1 = info\<lparr>phyHandle := handle, ph_uniqueId := text_field 40 (part_id ''ph:'' ow handle (unat number)),
                         phyNumber := number, protocol := m_Protocol p, associatedPort := handle_or_null port\<rparr>;
               i2 = (case ow of
                       None \<Rightarrow> setSpeeds p (i1\<lparr>ph_deviceType := SSI_DeviceTypeUnknown, ph_deviceHandle := SSI_NULL_HANDLE\<rparr>)
                     | Some x \<Rightarrow>
                         let i = i1\<lparr>phyAddress := ow_address x (phyAddress i1), ph_deviceType := ow_type x, ph_deviceHandle := ow_handle x\<rparr> in
                         if ow_type x = SSI_DeviceTypeEndDevice then fetchSpeeds remote peers i else setSpeeds p i) in
           (SSI_StatusOk, Some (i2\<lparr>isExternal := False, hotPlugCap := False, countsValid := False\<rparr>))))"

subsection \<open>Ports and routing devices\<close>

record SSI_PortInfo =
  portHandle :: SSI_Handle
  po_uniqueId :: string
  portAddress :: SSI_Address
  numPhys :: u32
  localDeviceType :: SSI_DeviceType
  localDeviceHandle :: SSI_Handle
  connectedToPort :: SSI_Handle

definition port_getInfo ::
  "SSI_Handle \<Rightarrow> nat \<Rightarrow> owner_object option \<Rightarrow> SSI_Handle option \<Rightarrow> SSI_PortInfo option \<Rightarrow> SSI_Status \<times> SSI_PortInfo option" where
  "port_getInfo handle phys ow remote pInfo =
     (case pInfo of
        None \<Rightarrow> (SSI_StatusInvalidParameter, None)
      | Some info \<Rightarrow>
          (let i1 = info\<lparr>portHandle := handle, po_uniqueId := text_field 40 (part_id ''po:'' ow handle (unat handle)),
                         numPhys := of_nat phys\<rparr>;
               i2 = (case ow of
                       None \<Rightarrow> i1\<lparr>localDeviceType := SSI_DeviceTypeUnknown, localDeviceHandle := SSI_NULL_HANDLE\<rparr>
                     | Some x \<Rightarrow> i1\<lparr>portAddress := ow_address x (portAddress i1), localDeviceType := ow_type x,
                                    localDeviceHandle := ow_handle x\<rparr>) in
           (SSI_StatusOk, Some (i2\<lparr>connectedToPort := handle_or_null remote\<rparr>))))"

datatype SSI_RoutingDeviceType =
    SSI_RoutingDeviceTypeUnknown | SSI_RoutingDeviceTypeMultiplier | SSI_RoutingDeviceTypeExpander

datatype SSI_ExpanderType = SSI_ExpanderTypeUnknown | SSI_ExpanderTypeEdge | SSI_ExpanderTypeFanout

record routing_state =
  ro_type :: SSI_RoutingDeviceType
  ro_expander :: SSI_ExpanderType
  ro_address :: "SSI_Address \<Rightarrow> SSI_Address"
  ro_phys :: u32
  m_ro_ProductId :: string
  m_Vendor :: string
  m_ProductRev :: string
  m_ComponentVendorId :: string
  m_ComponentId :: string
  m_ComponentRev :: string

record SSI_RoutingDeviceInfo =
  routingDeviceHandle :: SSI_Handle
  ro_uniqueId :: string
  routingDeviceAddress :: SSI_Address
  routingDeviceType :: SSI_RoutingDeviceType
  ro_enclosureHandle :: SSI_Handle
  numberPhys :: u32
  ro_vendorId :: string
  ro_productId :: string
  ro_productRev :: string
  componentVendorId :: string
  componentId :: string
  componentRev :: string
  expanderType :: SSI_ExpanderType
  expanderChangeCount :: u32
  expanderRouteIndexes :: u32
  selfConfiguring :: bool

definition routing_getInfo ::
  "SSI_Handle \<Rightarrow> routing_state \<Rightarrow> SSI_Handle option \<Rightarrow> SSI_RoutingDeviceInfo option \<Rightarrow> SSI_Status \<times> SSI_RoutingDeviceInfo option" where
  "routing_getInfo handle r enclosure_handle pInfo =
     (case pInfo of
        None \<Rightarrow> (SSI_StatusInvalidParameter, None)
      | Some info \<Rightarrow>
          (SSI_StatusOk, Some
            \<lparr>routingDeviceHandle = handle,
             ro_uniqueId = text_field 40 (''ro:'' @ m_ComponentId r),
             routingDeviceAddress = ro_address r (routingDeviceAddress info),
             routingDeviceType = ro_type r,
             ro_enclosureHandle = handle_or_null enclosure_handle,
             numberPhys = ro_phys r,
             ro_vendorId = text_field 8 (m_Vendor r),
             ro_productId = text_field 16 (m_ro_ProductId r),
             ro_productRev = text_field 5 (m_ProductRev r),
             componentVendorId = text_field 8 (m_ComponentVendorId r),
             componentId = text_field 8 (m_ComponentId r),
             componentRev = text_field 5 (m_ComponentRev r),
             expanderType = ro_expander r,
             expanderChangeCount = 0, expanderRouteIndexes = 0, selfConfiguring = False\<rparr>))"

subsection \<open>Disks\<close>

datatype SSI_EndDeviceType = SSI_EndDeviceTypeUnknown | SSI_EndDeviceTypeDisk | SSI_EndDeviceTypeNonDiskStorage | SSI_EndDeviceTypeNonStorage

text \<open>What a disk knows beside \<open>disk\<close>.\<close>

record disk_object = disk +
  d_type :: SSI_EndDeviceType
  d_VendorId :: string
  d_Model :: string
  d_Firmware :: string
  d_PhysicalSectorSize :: u32
  d_SASAddress :: u64
  d_SCSIAddress :: SSI_ScsiAddress
  d_BDFAddress :: SSI_BdfAddress
  d_WriteCachePolicy :: SSI_WriteCachePolicy
  d_ledState :: u32
  d_systemIoBusNumer :: u64
  d_PCISlotNumber :: u64
  d_FDx8Disk :: u32
  d_vmdDomain :: u32
  d_locateLedSupport :: bool

definition disk_getAddress :: "disk_object \<Rightarrow> SSI_Address \<Rightarrow> SSI_Address" where
  "disk_getAddress d address =
     \<lparr>scsiAddress = d_SCSIAddress d, sasAddressPresent = (d_SASAddress d \<noteq> 0), sasAddress = d_SASAddress d,
      bdfAddressPresent = (bdf_bus (d_BDFAddress d) \<noteq> 0 \<or> bdf_device (d_BDFAddress d) \<noteq> 0), bdfAddress = d_BDFAddress d\<rparr>"

definition disk_getSlotNumber :: "enclosure option \<Rightarrow> disk_object \<Rightarrow> u64" where
  "disk_getSlotNumber en d = (case en of None \<Rightarrow> - 1 | Some e \<Rightarrow> getSlotNumber e (d_SASAddress d))"

record SSI_EndDeviceInfo =
  endDeviceHandle :: SSI_Handle
  ed_uniqueId :: string
  endDeviceAddress :: SSI_Address
  ed_deviceType :: SSI_EndDeviceType
  ed_raidInfoHandle :: SSI_Handle
  ed_arrayHandle :: SSI_Handle
  controllerHandle :: SSI_Handle
  ed_enclosureHandle :: SSI_Handle
  slotAddress :: SSI_Address
  storagePool :: u32
  ed_vendorId :: string
  serialNo :: string
  ed_model :: string
  ed_firmware :: string
  diskType :: SSI_DiskType
  ed_state :: SSI_DiskState
  ed_usage :: SSI_DiskUsage
  ed_totalSize :: u64
  logicalSize :: u64
  physicalSize :: u64
  blocksTotal :: u64
  freeSize :: u64
  writeCachePolicy :: SSI_WriteCachePolicy
  systemDisk :: bool
  ed_slotNumber :: u32
  locateLEDSupport :: bool
  removeDiskSupport :: bool
  isPreBootVisible :: bool
  ledState :: u32
  systemIoBusNumber :: u64
  PCISlotNumber :: u64
  isx8A :: bool
  isx8B :: bool
  vmdDomainIndex :: u32
  isIntelNVMe :: bool
  socketNumber :: u16
  vmdControllerNumber :: u16
  rootPortOffset :: u16
  physicalSlotNumber :: u64

text \<open>\<open>Enclosure::getSlotAddress\<close> is empty; without an enclosure the SCSI and SAS parts of the slot address are cleared.\<close>

definition clear_slot_address :: "SSI_Address \<Rightarrow> SSI_Address" where
  "clear_slot_address a = a\<lparr>scsiAddress := no_scsi, sasAddressPresent := False, sasAddress := 0\<rparr>"

text \<open>\<open>en\<close> is the enclosure with its handle.\<close>

definition disk_getInfo ::
  "SSI_Handle \<Rightarrow> SSI_Handle option \<Rightarrow> SSI_Handle option \<Rightarrow> SSI_Handle option \<Rightarrow> (SSI_Handle \<times> enclosure) option \<Rightarrow> disk_object
    \<Rightarrow> SSI_EndDeviceInfo option \<Rightarrow> SSI_Status \<times> SSI_EndDeviceInfo option" where
  "disk_getInfo handle controller_handle raid array_handle en d pInfo =
     (case pInfo of
        None \<Rightarrow> (SSI_StatusInvalidParameter, None)
      | Some info \<Rightarrow>
          (SSI_StatusOk, Some
            (info\<lparr>endDeviceHandle := handle,
              ed_uniqueId := text_field 40 (''ed:'' @ getSerialNum d),
              endDeviceAddress := disk_getAddress d (endDeviceAddress info),
              ed_deviceType := d_type d,
              controllerHandle := handle_or_null controller_handle,
              ed_raidInfoHandle := handle_or_null raid,
              storagePool := (if is_block d then 0 else 0xFF),
              ed_arrayHandle := handle_or_null array_handle,
              ed_enclosureHandle := handle_or_null (map_option fst en),
              slotAddress := (if en = None then clear_slot_address (slotAddress info) else slotAddress info),
              ed_vendorId := text_field 16 (d_VendorId d),
              serialNo := text_field 21 (getSerialNum d),
              ed_model := text_field 41 (d_Model d),
              ed_firmware := text_field 21 (d_Firmware d),
              diskType := getDiskType d, ed_state := getDiskState d, ed_usage := getDiskUsage d,
              ed_totalSize := getTotalSize d,
              logicalSize := ucast (getLogicalSectorSize d),
              physicalSize := ucast (d_PhysicalSectorSize d),
              blocksTotal := m_BlocksTotal d,
              freeSize := m_BlocksFree d * ucast (getLogicalSectorSize d),
              writeCachePolicy := d_WriteCachePolicy d,
              systemDisk := isSystemDisk d,
              physicalSlotNumber := disk_getSlotNumber (map_option snd en) d,
              locateLEDSupport := d_locateLedSupport d,
              removeDiskSupport := canRemoveDisk (disk.truncate d),
              isPreBootVisible := (en = None),
              ledState := d_ledState d,
              systemIoBusNumber := d_systemIoBusNumer d,
              PCISlotNumber := d_PCISlotNumber d,
              isx8A := (d_FDx8Disk d = 1), isx8B := (d_FDx8Disk d = 2),
              vmdDomainIndex := d_vmdDomain d,
              isIntelNVMe := isIntelNvme d,
              socketNumber := 0, vmdControllerNumber := 0, rootPortOffset := 0\<rparr>)))"

subsection \<open>What a client is told\<close>

lemma disk_phy_unread: "m_speeds (phy_setProperties fs attribute path (Some SSI_DeviceTypeEndDevice)) = no_speeds"
proof -
  have "m_speeds (foldl (\<lambda>p d. p\<lparr>m_Protocol := f p d\<rparr>) p ds) = m_speeds p" for f ds and p :: phy_state
    by (induction ds arbitrary: p) simp_all
  from this [of "\<lambda>p d. read_as parse_protocol (m_Protocol p) (attribute (join d ''target_port_protocols''))"]
  show ?thesis by (simp add: phy_setProperties_def Let_def)
qed

lemma fetch_last: "ph_speeds (foldl (\<lambda>i p. setSpeeds p i) info ps) = (if ps = [] then ph_speeds info else m_speeds (last ps))"
  by (induction ps arbitrary: info) (simp_all add: setSpeeds_def)

text \<open>
  The link speeds of a disk's own phy: the phy knows none itself, it reports those of the phy it is attached to, or of the
  last phy of the port at the other end; when there is neither, the structure keeps the speeds that the caller had in it.
\<close>

theorem disk_phy_speeds:
  assumes "p = phy_setProperties fs attribute path (Some SSI_DeviceTypeEndDevice)" "ow_type x = SSI_DeviceTypeEndDevice"
  shows "\<exists>info'. phy_getInfo handle number p port (Some x) remote peers (Some info) = (SSI_StatusOk, Some info')
    \<and> m_speeds p = no_speeds
    \<and> ph_speeds info' = (case remote of
         Some r \<Rightarrow> m_speeds r
       | None \<Rightarrow> if peers = [] then ph_speeds info else m_speeds (last peers))"
  using assms disk_phy_unread fetch_last
  by (simp add: phy_getInfo_def Let_def fetchSpeeds_def setSpeeds_def split: option.split)

definition sample_speeds :: link_speeds where
  "sample_speeds = no_speeds\<lparr>negotiatedLinkSpeed := SSI_PhySpeed_6_0_GEN3\<rparr>"

definition no_address :: SSI_Address where
  "no_address = \<lparr>scsiAddress = no_scsi, sasAddressPresent = False, sasAddress = 0, bdfAddressPresent = False,
     bdfAddress = \<lparr>bdf_domain = 0, bdf_bus = 0, bdf_device = 0, bdf_function = 0\<rparr>\<rparr>"

theorem disk_phy_speeds_witness:
  "\<exists>info'. phy_getInfo 5 0 \<lparr>m_Protocol = SSI_PhyProtocolUnknown, m_speeds = no_speeds\<rparr> None
      (Some \<lparr>ow_type = SSI_DeviceTypeEndDevice, ow_handle = 4, ow_part_id = ''S1'', ow_address = id\<rparr>)
      (Some \<lparr>m_Protocol = SSI_PhyProtocolSATA, m_speeds = sample_speeds\<rparr>) []
      (Some \<lparr>phyHandle = 0, ph_uniqueId = [], phyAddress = no_address, phyNumber = 0, protocol = SSI_PhyProtocolUnknown,
         associatedPort = 0, ph_deviceType = SSI_DeviceTypeUnknown, ph_deviceHandle = 0, isExternal = False, hotPlugCap = False,
         ph_speeds = no_speeds, countsValid = False\<rparr>) = (SSI_StatusOk, Some info')
    \<and> negotiatedLinkSpeed (ph_speeds info') = SSI_PhySpeed_6_0_GEN3"
proof -
  let ?fs = "\<lparr>entries = (\<lambda>_. None), stat_type = (\<lambda>_. None), canonical = id\<rparr>"
  have "\<lparr>m_Protocol = SSI_PhyProtocolUnknown, m_speeds = no_speeds\<rparr>
      = phy_setProperties ?fs (\<lambda>_. None) [] (Some SSI_DeviceTypeEndDevice)"
    by (simp add: phy_setProperties_def dirs_def contents_def read_content_def Let_def)
  from disk_phy_speeds [OF this, of "\<lparr>ow_type = SSI_DeviceTypeEndDevice, ow_handle = 4, ow_part_id = ''S1'', ow_address = id\<rparr>"
      5 0 None "Some \<lparr>m_Protocol = SSI_PhyProtocolSATA, m_speeds = sample_speeds\<rparr>" "[]"]
  show ?thesis by (force simp: sample_speeds_def)
qed

text \<open>
  The place of a disk: in an enclosure its slot is that of the first element of the report with its SAS address, and its
  address of the slot and the older field for the slot number keep what the caller had in them; without one it has no slot.
\<close>

theorem disk_slot_report:
  assumes "m_Slots e = map (\<lambda>(n, a). \<lparr>slotNumber = n, slot_address = a\<rparr>) slots"
  shows "\<exists>info'. disk_getInfo h c r a (Some (eh, e)) d (Some info) = (SSI_StatusOk, Some info')
    \<and> physicalSlotNumber info' = (case find (\<lambda>(n, x). x = d_SASAddress d) slots of None \<Rightarrow> - 1 | Some (n, x) \<Rightarrow> n)
    \<and> slotAddress info' = slotAddress info \<and> ed_slotNumber info' = ed_slotNumber info \<and> \<not> isPreBootVisible info'
    \<and> (\<exists>info''. disk_getInfo h c r a None d (Some info) = (SSI_StatusOk, Some info'')
         \<and> physicalSlotNumber info'' = - 1 \<and> isPreBootVisible info'')"
proof -
  have "find (\<lambda>s. slot_address s = x) (map (\<lambda>(n, a). \<lparr>slotNumber = n, slot_address = a\<rparr>) slots)
      = map_option (\<lambda>(n, a). \<lparr>slotNumber = n, slot_address = a\<rparr>) (find (\<lambda>(n, b). b = x) slots)" for x
    by (induction slots) auto
  then show ?thesis
    using assms by (simp add: disk_getInfo_def disk_getSlotNumber_def getSlotNumber_def split: option.split)
qed

theorem disk_slot_report_witness:
  "\<forall>h c r a eh d info. \<exists>info'. disk_getInfo h c r a
      (Some (eh, \<lparr>m_SgName = [], m_VendorId = [], m_ProductId = [], m_Rev = [], m_SlotCount = 1, m_LogicalId = [],
         m_SubenclosureCount = 0, m_Slots = [\<lparr>slotNumber = 5, slot_address = 80\<rparr>], enclosure_devices = [],
         enclosure_routers = []\<rparr>)) d (Some info) = (SSI_StatusOk, Some info')
    \<and> physicalSlotNumber info' = (if 80 = d_SASAddress d then 5 else - 1)"
proof (intro allI)
  fix h c r a eh d info
  let ?e = "\<lparr>m_SgName = [], m_VendorId = [], m_ProductId = [], m_Rev = [], m_SlotCount = 1, m_LogicalId = [],
         m_SubenclosureCount = 0, m_Slots = [\<lparr>slotNumber = 5, slot_address = 80\<rparr>], enclosure_devices = [],
         enclosure_routers = []\<rparr>"
  have "m_Slots ?e = map (\<lambda>(n, a). \<lparr>slotNumber = n, slot_address = a\<rparr>) [(5, 80)]" by simp
  from disk_slot_report [OF this, of h c r a eh d info]
  show "\<exists>info'. disk_getInfo h c r a (Some (eh, ?e)) d (Some info) = (SSI_StatusOk, Some info')
    \<and> physicalSlotNumber info' = (if 80 = d_SASAddress d then 5 else - 1)"
    by (auto split: if_splits)
qed

end
