(* ===== verification/Messages.thy ===== *)
theory Messages
  imports Utf8_String Safe_Str_Cat Ssi_Types
begin

text \<open>
  The error message of the last command, as a client fetches it (\<open>SsiGetLastErrorMessage\<close> of \<open>src/session.cpp\<close>): an entry
  point that uses the class String and the bounded copies together.  \<open>text\<close> are the bytes of the message; \<open>src\<close> is the
  address of the buffer of the local copy \<open>source\<close>, whose length in characters is counted anew.
\<close>

definition message_length :: "byte list \<Rightarrow> nat" where
  "message_length m = utf8_length m 0 npos"

text \<open>
  \<open>num\<close> is None for a null pointer, the size of the buffer otherwise; the result is the status, what is in \<open>*num\<close>, and
  the message the library keeps.
\<close>

definition SsiGetLastErrorMessage ::
  "bool \<Rightarrow> addr \<Rightarrow> u32 option \<Rightarrow> byte list \<Rightarrow> addr \<Rightarrow> cstate \<Rightarrow> (SSI_Status \<times> u32 option \<times> byte list) crun" where
  "SsiGetLastErrorMessage slack dest num m src s =
     (case num of
        None \<Rightarrow> Some (Returned (SSI_StatusInvalidParameter, None, m), s)
      | Some n \<Rightarrow>
          if m = [] \<or> message_length m = 0 then Some (Returned (SSI_StatusOk, Some 0, m), s)
          else let ssiErrorLength = of_nat (message_length m) :: u32 in
               if n \<le> ssiErrorLength then Some (Returned (SSI_StatusBufferTooSmall, Some (ssiErrorLength + 1), m), s)
               else if dest = NULL then Some (Returned (SSI_StatusInvalidParameter, num, m), s)
               else do {
                 (r, s1) \<leftarrow> strncpy_s slack dest (unat n) src (unat ssiErrorLength) s;
                 Some (case r of Returned _ \<Rightarrow> Returned (SSI_StatusOk, num, []) | Aborted \<Rightarrow> Aborted, s1) })"

lemma message_length_le: "message_length m \<le> length m"
  using utf8_length_within [of m "length m" 0 npos] by (simp add: message_length_def byte_at_def)

lemma message_length_ascii: "ascii t \<Longrightarrow> length t < npos \<Longrightarrow> message_length (bytes t) = length t"
  using ascii_length [of "bytes t" t 0 npos] by (simp add: message_length_def holds_def bytes_def byte_at_def)

lemma src_text_take:
  assumes "cstr h a xs" "n \<le> length xs"
  shows "src_text h a n (take n xs)"
  using assms chars_at_take [of h a xs n] by (simp add: src_text_def cstr_def)

lemma strncpy_s_too_large:
  "dest \<noteq> NULL \<Longrightarrow> RSIZE_MAX_STR < dmax \<Longrightarrow>
   strncpy_s slack dest dmax src slen s = Some (str_fail ''strncpy_s: dmax exceeds max'' ESLEMAX ESLEMAX s)"
  by (auto simp: strncpy_s_def RSIZE_MAX_STR_def)

text \<open>The three cases of the size of the buffer.\<close>

lemma fetch_reaches_copy:
  assumes "0 < message_length m" "message_length m < 2 ^ 32 - 1" "dest \<noteq> NULL" "message_length m < unat n"
  shows "SsiGetLastErrorMessage slack dest (Some n) m src s =
      do { (r, s1) \<leftarrow> strncpy_s slack dest (unat n) src (message_length m) s;
           Some (case r of Returned _ \<Rightarrow> Returned (SSI_StatusOk, Some n, []) | Aborted \<Rightarrow> Aborted, s1) }"
proof -
  have "unat (of_nat (message_length m) :: u32) = message_length m" using assms(2) by (simp add: unat_of_nat_u32)
  moreover have "m \<noteq> []" using assms(1) message_length_le [of m] by auto
  ultimately show ?thesis
    using assms by (simp add: SsiGetLastErrorMessage_def word_le_nat_alt)
qed

lemma fetch_too_small:
  assumes "0 < message_length m" "message_length m < 2 ^ 32 - 1" "unat n \<le> message_length m"
  shows "SsiGetLastErrorMessage slack dest (Some n) m src s
    = Some (Returned (SSI_StatusBufferTooSmall, Some (of_nat (message_length m) + 1), m), s)"
proof -
  have "unat (of_nat (message_length m) :: u32) = message_length m" using assms(2) by (simp add: unat_of_nat_u32)
  moreover have "m \<noteq> []" using assms(1) message_length_le [of m] by auto
  ultimately show ?thesis
    using assms by (simp add: SsiGetLastErrorMessage_def word_le_nat_alt)
qed

lemma message_copied:
  assumes "cstr (mem s) src m" "src \<noteq> NULL" "0 < message_length m" "dest \<noteq> NULL" "message_length m < gap dest src"
    and "message_length m < dmax" "dmax \<le> RSIZE_MAX_STR" "mapped (mem s) dest dmax"
  shows "\<exists>s'. strncpy_s slack dest dmax src (message_length m) s = Some (Returned EOK, s')
    \<and> cstr (mem s') dest (take (message_length m) m)"
proof -
  let ?l = "message_length m"
  have t: "length (take ?l m) = ?l" "0 \<notin> set (take ?l m)"
    using message_length_le [of m] cstr_nonzero [OF assms(1)] by (auto dest: in_set_takeD)
  have "writable (mem s) dest dmax" using assms by (simp add: writable_def)
  then obtain msg part where "strncpy_s slack dest dmax src ?l s =
      Some (string_effect slack dest dmax (text_verdict dmax (gap dest src) ?l) msg part (take ?l m) s)"
    using strncpy_s_effect [of s dest dmax src ?l "take ?l m" slack] assms
      src_text_take [OF assms(1) message_length_le] t(1) by auto
  then show ?thesis
    using assms(5,6) cstr_padded [of "take ?l m" dmax "mem s" dest slack] t
    by (simp add: string_effect_def text_verdict_def)
qed

text \<open>
  C40. Fetching the error message.  A buffer that is too small is refused with the size that is needed, and the message is
  kept.  A buffer of that size up to 4096 bytes gets the first bytes of the message, as many as it has characters, and a
  terminator; the library then forgets the message.  With a larger buffer nothing is copied: the call still answers Ok, and
  the message is lost.
\<close>

theorem error_message_fetched:
  assumes "cstr (mem s) src m" "src \<noteq> NULL" "0 < message_length m" "message_length m < 2 ^ 32 - 1"
    and "active (str_handler s) = Ignore_handler_s"
    and "dest \<noteq> NULL" "mapped (mem s) dest (unat n)" "message_length m < gap dest src"
  shows "\<exists>s'. SsiGetLastErrorMessage slack dest (Some n) m src s =
      Some (Returned (if unat n \<le> message_length m
                      then (SSI_StatusBufferTooSmall, Some (of_nat (message_length m) + 1), m)
                      else (SSI_StatusOk, Some n, [])), s')
    \<and> (if message_length m < unat n \<and> unat n \<le> RSIZE_MAX_STR
       then cstr (mem s') dest (take (message_length m) m) else mem s' = mem s)"
proof (cases "message_length m < unat n")
  case False
  then show ?thesis using fetch_too_small [OF assms(3,4), of n slack dest src s] by simp
next
  case n: True
  show ?thesis
  proof (cases "unat n \<le> RSIZE_MAX_STR")
    case True
    then show ?thesis
      using message_copied [OF assms(1-3,6,8) n True assms(7), of slack] n fetch_reaches_copy [OF assms(3,4,6) n, of slack src s]
      by auto
  next
    case False
    then show ?thesis
      using strncpy_s_too_large [OF assms(6), of "unat n" slack src "message_length m" s] n assms(5)
        fetch_reaches_copy [OF assms(3,4,6) n, of slack src s]
      by (simp add: str_fail_eq)
  qed
qed

theorem error_message_fetched_witness:
  "\<exists>s'. SsiGetLastErrorMessage True 16 (Some 6) [97, 98] 64 (demo_state demo_heap)
     = Some (Returned (SSI_StatusOk, Some 6, []), s') \<and> cstr (mem s') 16 [97, 98]"
proof -
  have "ascii ''ab''" "bytes ''ab'' = [97, 98]" by code_simp+
  then have l: "message_length [97, 98] = 2" using message_length_ascii [of "''ab''"] by (simp add: npos_def)
  have "mapped demo_heap 16 6" using demo_heap_facts(2) by (simp add: writable_def)
  then show ?thesis
    using error_message_fetched [of "demo_state demo_heap" 64 "[97, 98]" 16 6 True] demo_heap_facts(1)
    by (simp add: l gap_def RSIZE_MAX_STR_def active_def)
qed

end
