(* ===== verification/Configuration.thy ===== *)
theory Configuration
  imports Enclosures Raid_Array
begin

text \<open>
  The configuration of mdadm and its monitor (\<open>mdadm_config.cpp\<close>), which every scan checks, and the version that a client
  is told (\<open>context_manager.cpp\<close>, \<open>check_dots\<close> of \<open>utils.cpp\<close>).  The messages of the log are left out.
\<close>

subsection \<open>The configuration file\<close>

definition mdadmMonitorPid :: string where "mdadmMonitorPid = ''/var/run/mdadm/autorebuild.pid''"

definition stdConfig :: string where
  "stdConfig =
     ''# This config has been automatically generated by SSI API library'' @ newline
     @ ''# for use with CIM Provider. Please do not edit'' @ newline
     @ newline
     @ ''MAILADDR root'' @ newline
     @ ''AUTO +imsm +1.x -all'' @ newline
     @ ''policy domain=global metadata=imsm path=* action=spare-same-slot'' @ newline"

text \<open>\<open>attr >> s\<close>: what is read is trimmed.\<close>

definition read_trimmed :: "env \<Rightarrow> string \<Rightarrow> world \<Rightarrow> string option" where
  "read_trimmed os path w = map_option str_trim (read_file os (trace w) path)"

definition correct_config :: "string \<Rightarrow> bool" where
  "correct_config config \<longleftrightarrow> config @ newline = stdConfig"

definition write_config :: "env \<Rightarrow> string \<Rightarrow> string \<Rightarrow> world \<Rightarrow> int \<times> world" where
  "write_config os path config w = (case file_write os path config w of Inl _ \<Rightarrow> (1, w) | Inr w1 \<Rightarrow> (0, w1))"

definition backup_config :: "env \<Rightarrow> string \<Rightarrow> world \<Rightarrow> world" where
  "backup_config os config w = snd (write_config os ''/etc/mdadm.conf.original'' config w)"

subsection \<open>The monitor of mdadm\<close>

definition monitor_running :: "env \<Rightarrow> world \<Rightarrow> bool \<times> world" where
  "monitor_running os w =
     (case read_trimmed os mdadmMonitorPid w of
        None \<Rightarrow> (False, w)
      | Some pid \<Rightarrow>
          (let ((status, buffer), w1) = shell_cap os (''ps '' @ pid) [] w in
           (status = 0 \<and> contains buffer ''mdadm'' \<and> contains buffer ''ssimsg'', w1)))"

definition start_monitor :: "env \<Rightarrow> world \<Rightarrow> bool \<times> world" where
  "start_monitor os w =
     (let (running, w1) = monitor_running os w in
      if running then (True, w1)
      else let ((status, s), w2) = shell_cap os ''whereis -b ssimsg'' ''ssimsg'' w1;
               s' = (if status = 0 then str_reverse_after s '' '' else s);
               (rc, w3) = shell_command os (''mdadm --monitor -y --scan --daemonise -p '' @ s') w2 in
           (rc = 0, w3))"

definition stop_monitor :: "env \<Rightarrow> world \<Rightarrow> world" where
  "stop_monitor os w =
     (case read_trimmed os mdadmMonitorPid w of
        None \<Rightarrow> w
      | Some pid \<Rightarrow> snd (shell_command os (''kill -n 15 '' @ pid) w))"

definition restart_monitor :: "env \<Rightarrow> world \<Rightarrow> bool \<times> world" where
  "restart_monitor os w = start_monitor os (stop_monitor os w)"

definition configuration_init :: "env \<Rightarrow> world \<Rightarrow> world" where
  "configuration_init os w =
     (let config = read_trimmed os MDADM_CONFIG_PATH w;
          configOk = (case config of None \<Rightarrow> False | Some c \<Rightarrow> correct_config c);
          (running, w1) = (if configOk then monitor_running os w else (False, w)) in
      if configOk \<and> running then w1
      else let w2 = (if configOk then w1
                     else snd (write_config os MDADM_CONFIG_PATH stdConfig
                       (case config of None \<Rightarrow> w1 | Some c \<Rightarrow> backup_config os c w1))) in
           snd (restart_monitor os w2))"

definition configuration_fini :: "env \<Rightarrow> world \<Rightarrow> world" where
  "configuration_fini os w = stop_monitor os w"

subsection \<open>Versions\<close>

text \<open>The loop of \<open>check_dots\<close>, with the rounds that are left.\<close>

fun dots :: "nat \<Rightarrow> string \<Rightarrow> string \<Rightarrow> string" where
  "dots 0 tmp s = s"
| "dots (Suc i) tmp s =
     (let tmp' = str_after tmp ''.'' in dots i tmp' (if tmp' = [] then s @ ''.0'' else s))"

definition check_dots :: "string \<Rightarrow> string" where
  "check_dots s = dots 3 s s"

text \<open>The result is None when the buffer is left as it is.\<close>

definition get_mdadm_version :: "env \<Rightarrow> nat \<Rightarrow> world \<Rightarrow> string option \<times> world" where
  "get_mdadm_version os room w =
     (if room = 0 then (None, w)
      else let ((status, ver), w1) = shell_cap os ''mdadm --version 2>&1'' [] w in
           (if status = 0 then Some (text_field room (check_dots (str_between ver ''- v'' '' ''))) else None, w1))"

record SSI_SystemInfo =
  interfaceVersionMajor :: u32
  interfaceVersionMinor :: u32
  libraryVersion :: string
  mdadm_version :: "string option"
  maxSessions :: u32
  setVolCacheSizeSupport :: bool
  passthroughCommandSupport :: bool

text \<open>
  \<open>libraryVersion\<close> of the structure holds two strings, the second behind the end of the first; 32 is the size of the field.
\<close>

definition SSI_LIBRARY_VERSION :: string where "SSI_LIBRARY_VERSION = ''0.1.0.1''"

definition getSystemInfo :: "env \<Rightarrow> bool \<Rightarrow> world \<Rightarrow> (SSI_Status \<times> SSI_SystemInfo option) \<times> world" where
  "getSystemInfo os pInfo_null w =
     (if pInfo_null then ((SSI_StatusInvalidParameter, None), w)
      else let at = length SSI_LIBRARY_VERSION + 1;
               (v, w1) = (if at < 32 then get_mdadm_version os (32 - at) w else (None, w)) in
           ((SSI_StatusOk, Some
              \<lparr>interfaceVersionMajor = 1, interfaceVersionMinor = 0, libraryVersion = text_field 32 SSI_LIBRARY_VERSION, mdadm_version = v,
               maxSessions = - 1, setVolCacheSizeSupport = False, passthroughCommandSupport = False\<rparr>), w1))"

subsection \<open>The configuration settles\<close>

text \<open>A file reads back what was written to it last, and nothing else changes it.\<close>

definition file_laws :: "env \<Rightarrow> string \<Rightarrow> bool" where
  "file_laws os path \<longleftrightarrow>
     (\<forall>tr c. read_file os (tr @ [Write path c]) path = Some c)
     \<and> (\<forall>tr a. (\<forall>c. a \<noteq> Write path c) \<longrightarrow> read_file os (tr @ [a]) path = read_file os tr path)"

lemma shell_keeps:
  assumes "file_laws os path"
  shows "read_file os (trace (snd (shell_cap os s r w))) path = read_file os (trace w) path"
    "read_file os (trace (snd (shell_command os s w))) path = read_file os (trace w) path"
  using assms by (auto simp: shell_cap_def shell_command_def shell_output_def file_laws_def Let_def split: option.split prod.split)

lemma monitor_running_keeps:
  "file_laws os path \<Longrightarrow> read_file os (trace (snd (monitor_running os w))) path = read_file os (trace w) path"
  using shell_keeps(1) [of os path _ "[]" w]
  by (auto simp: monitor_running_def Let_def split: option.split prod.split) (metis snd_conv)+

lemma stop_monitor_keeps:
  "file_laws os path \<Longrightarrow> read_file os (trace (stop_monitor os w)) path = read_file os (trace w) path"
  by (simp add: stop_monitor_def shell_keeps split: option.split)

lemma start_monitor_keeps:
  assumes "file_laws os path"
  shows "read_file os (trace (snd (start_monitor os w))) path = read_file os (trace w) path"
proof -
  obtain r w1 where m: "monitor_running os w = (r, w1)" by fastforce
  obtain st s w2 where c: "shell_cap os ''whereis -b ssimsg'' ''ssimsg'' w1 = ((st, s), w2)" by (metis prod.exhaust)
  let ?cmd = "''mdadm --monitor -y --scan --daemonise -p '' @ (if st = 0 then str_reverse_after s '' '' else s)"
  have "snd (start_monitor os w) = (if r then w1 else snd (shell_command os ?cmd w2))"
    by (simp add: start_monitor_def m c Let_def split: prod.split)
  moreover have "read_file os (trace w1) path = read_file os (trace w) path"
    using monitor_running_keeps [OF assms, of w] by (simp add: m)
  moreover have "read_file os (trace w2) path = read_file os (trace w1) path"
    using shell_keeps(1) [OF assms, of "''whereis -b ssimsg''" "''ssimsg''" w1] by (simp add: c)
  ultimately show ?thesis by (simp add: shell_keeps(2) [OF assms])
qed

lemma restart_keeps:
  "file_laws os path \<Longrightarrow> read_file os (trace (snd (restart_monitor os w))) path = read_file os (trace w) path"
  by (simp add: restart_monitor_def start_monitor_keeps stop_monitor_keeps)

lemma stdConfig_trimmed: "correct_config (str_trim stdConfig)"
  by code_simp

lemma configuration_written:
  assumes "file_laws os MDADM_CONFIG_PATH" "\<forall>tr path. open_error os tr path = None"
  shows "\<exists>c. read_trimmed os MDADM_CONFIG_PATH (configuration_init os w) = Some c \<and> correct_config c"
proof (cases "\<exists>c. read_trimmed os MDADM_CONFIG_PATH w = Some c \<and> correct_config c")
  case True
  then obtain c where c: "read_trimmed os MDADM_CONFIG_PATH w = Some c" "correct_config c" by blast
  obtain r w1 where m: "monitor_running os w = (r, w1)" by fastforce
  have "configuration_init os w = (if r then w1 else snd (restart_monitor os w1))"
    using c by (simp add: configuration_init_def m Let_def)
  moreover have "read_file os (trace w1) MDADM_CONFIG_PATH = read_file os (trace w) MDADM_CONFIG_PATH"
    using monitor_running_keeps [OF assms(1), of w] by (simp add: m)
  ultimately have "read_trimmed os MDADM_CONFIG_PATH (configuration_init os w) = read_trimmed os MDADM_CONFIG_PATH w"
    using restart_keeps [OF assms(1), of w1] by (simp add: read_trimmed_def)
  then show ?thesis using c by simp
next
  case False
  then have nok: "\<not> (case read_trimmed os MDADM_CONFIG_PATH w of None \<Rightarrow> False | Some c \<Rightarrow> correct_config c)"
    by (auto split: option.split)
  let ?w2 = "snd (write_config os MDADM_CONFIG_PATH stdConfig
      (case read_trimmed os MDADM_CONFIG_PATH w of None \<Rightarrow> w | Some c \<Rightarrow> backup_config os c w))"
  have "configuration_init os w = snd (restart_monitor os ?w2)"
    using nok by (simp add: configuration_init_def Let_def)
  moreover have "read_file os (trace ?w2) MDADM_CONFIG_PATH = Some stdConfig"
    using assms by (simp add: write_config_def file_write_def file_laws_def)
  ultimately show ?thesis
    using restart_keeps [OF assms(1), of ?w2] stdConfig_trimmed by (simp add: read_trimmed_def)
qed


text \<open>A machine on which the monitor runs, with an empty configuration.\<close>

definition last_written :: "action list \<Rightarrow> string \<Rightarrow> string option" where
  "last_written tr path = foldl (\<lambda>r a. case a of Write p c \<Rightarrow> if p = path then Some c else r | _ \<Rightarrow> r) None tr"

definition plain_env :: env where
  "plain_env = \<lparr>popen = (\<lambda>_ s. Some (0, ''mdadm --monitor -p ssimsg'')), open_error = (\<lambda>_ _. None),
     read_file = (\<lambda>tr p. if p = mdadmMonitorPid then Some ''77'' else last_written tr p), path_exists = (\<lambda>_ _. True),
     canonical_path = id\<rparr>"

lemma plain_file_laws: "file_laws plain_env MDADM_CONFIG_PATH"
  by (auto simp: file_laws_def plain_env_def last_written_def MDADM_CONFIG_PATH_def mdadmMonitorPid_def split: action.split)

lemma plain_monitor: "fst (monitor_running plain_env w)"
proof -
  have "contains ''mdadm --monitor -p ssimsg'' ''mdadm''" "contains ''mdadm --monitor -p ssimsg'' ''ssimsg''" by code_simp+
  then show ?thesis by (simp add: monitor_running_def read_trimmed_def plain_env_def shell_cap_def)
qed


text \<open>
  A monitor that has not yet died of the signal counts as running, and is not started again; and the name of \<open>ssimsg\<close> that
  \<open>whereis\<close> finds keeps its line end, so that the redirections of the command stand on a line of their own.
\<close>

lemma restart_trusts_ps:
  assumes "monitor_running os (stop_monitor os w) = (True, w1)"
  shows "restart_monitor os w = (True, w1)"
  by (simp add: restart_monitor_def start_monitor_def assms)

lemma start_command_split:
  assumes "monitor_running os w = (False, w1)" "popen os (trace w1) ''whereis -b ssimsg'' = Some (0, ''ssimsg: '' @ path @ newline)"
    and "CHR '' '' \<notin> set path"
    and "popen os (trace w1 @ [Command ''whereis -b ssimsg''])
      (''mdadm --monitor -y --scan --daemonise -p '' @ path @ newline @ '' 2>&1 1>/dev/null'') = Some (code, out1)"
  shows "fst (start_monitor os w) = (WEXITSTATUS code = 0)"
proof -
  have "no_border '' ''" by code_simp
  then have "str_reverse_after (''ssimsg:'' @ '' '' @ path @ newline) '' '' = path @ newline"
    using assms(3) by (intro reverse_after_field) simp_all
  then have after: "str_reverse_after (''ssimsg: '' @ path @ newline) '' '' = path @ newline" by simp
  show ?thesis
    using assms(4) by (simp add: start_monitor_def assms(1,2) shell_cap_def after [simplified] shell_command_def shell_output_def Let_def)
qed

end
