(* ===== verification/Queries.thy ===== *)
theory Queries
  imports Sessions Configuration
begin

text \<open>
  The queries of a client: the entry points \<open>SsiGet...Handles\<close> and \<open>SsiGet...Info\<close> of \<open>src/\<close>, the virtual functions
  of \<open>scope_object.h\<close> they call on the object that gives the scope, and the entry points of \<open>system.cpp\<close>.

  The objects are those of \<open>Sessions\<close>; \<open>fields\<close> are the members of an object that the queries read, of which an
  object has those of its class.  \<open>f_pPhy\<close>, \<open>f_pPort\<close> and \<open>f_pSubtractivePort\<close> are set by \<open>discover\<close> and not null.
\<close>

record 'o fields =
  f_EndDevices_Direct :: "'o list"
  f_EndDevices :: "'o list"
  f_RoutingDevices_Direct :: "'o list"
  f_RoutingDevices :: "'o list"
  f_Ports :: "'o list"
  f_Phys :: "'o list"
  f_Arrays :: "'o list"
  f_Volumes :: "'o list"
  f_Enclosures_Direct :: "'o list"
  f_BlockDevices :: "'o list"
  f_pPhy :: 'o
  f_pPort :: 'o
  f_pSubtractivePort :: 'o
  f_multiplier :: bool
  f_array_member :: bool
  f_parent :: "'o option"
  f_controller :: "'o option"
  f_enclosure :: "'o option"

type_synonym 'o members = "'o \<Rightarrow> 'o fields"

subsection \<open>Scopes\<close>

text \<open>\<open>scopeTypeMatches\<close>; a volume keeps the default of \<open>ScopeObject\<close>.\<close>

fun scope_matches :: "'o scope \<Rightarrow> SSI_ScopeType \<Rightarrow> bool" where
  "scope_matches The_session t \<longleftrightarrow> t = SSI_ScopeTypeNone"
| "scope_matches (Object Controller x) t \<longleftrightarrow> t = SSI_ScopeTypeControllerDirect \<or> t = SSI_ScopeTypeControllerAll"
| "scope_matches (Object RaidInfo x) t \<longleftrightarrow> t = SSI_ScopeTypeRaidInfo"
| "scope_matches (Object EndDevice x) t \<longleftrightarrow> t = SSI_ScopeTypeEndDevice"
| "scope_matches (Object RoutingDevice x) t \<longleftrightarrow> t = SSI_ScopeTypeRoutingDevice"
| "scope_matches (Object Port x) t \<longleftrightarrow> t = SSI_ScopeTypePort"
| "scope_matches (Object Phy x) t \<longleftrightarrow> t = SSI_ScopeTypePhy"
| "scope_matches (Object Array x) t \<longleftrightarrow> t = SSI_ScopeTypeArray"
| "scope_matches (Object Enclosure x) t \<longleftrightarrow> t = SSI_ScopeTypeEnclosure"
| "scope_matches (Object Volume x) t \<longleftrightarrow> False"

text \<open>
  What the virtual functions put into the empty container; None is the exception of \<open>ScopeObject\<close>.  \<open>s\<close> is the session.
\<close>

fun scope_EndDevices :: "'o members \<Rightarrow> 'o session \<Rightarrow> 'o scope \<Rightarrow> bool \<Rightarrow> 'o list option" where
  "scope_EndDevices g s The_session all = Some (m_EndDevices s)"
| "scope_EndDevices g s (Object Controller x) all =
     Some (if all then container_append (f_EndDevices (g x)) (f_EndDevices_Direct (g x)) else f_EndDevices_Direct (g x))"
| "scope_EndDevices g s (Object RoutingDevice x) all =
     Some (if all then container_append (f_EndDevices (g x)) (f_EndDevices_Direct (g x)) else f_EndDevices_Direct (g x))"
| "scope_EndDevices g s (Object Enclosure x) all = Some (f_EndDevices (g x))"
| "scope_EndDevices g s (Object Array x) all = Some (filter (\<lambda>d. all \<or> f_array_member (g d)) (f_BlockDevices (g x)))"
| "scope_EndDevices g s (Object Volume x) all = Some (f_BlockDevices (g x))"
| "scope_EndDevices g s _ all = None"

fun scope_RoutingDevices :: "'o members \<Rightarrow> 'o session \<Rightarrow> 'o scope \<Rightarrow> bool \<Rightarrow> 'o list option" where
  "scope_RoutingDevices g s The_session all = Some (m_RoutingDevices s)"
| "scope_RoutingDevices g s (Object Controller x) all =
     Some (if all then container_append (f_RoutingDevices (g x)) (f_RoutingDevices_Direct (g x)) else f_RoutingDevices_Direct (g x))"
| "scope_RoutingDevices g s (Object RoutingDevice x) all =
     Some (if all then container_append (f_RoutingDevices (g x)) (f_RoutingDevices_Direct (g x)) else f_RoutingDevices_Direct (g x))"
| "scope_RoutingDevices g s (Object Enclosure x) all = Some (f_RoutingDevices (g x))"
| "scope_RoutingDevices g s _ all = None"

fun scope_Ports :: "'o members \<Rightarrow> 'o session \<Rightarrow> 'o scope \<Rightarrow> 'o list option" where
  "scope_Ports g s The_session = Some (m_Ports s)"
| "scope_Ports g s (Object Controller x) = Some (f_Ports (g x))"
| "scope_Ports g s (Object RoutingDevice x) = Some (container_add (f_pSubtractivePort (g x)) (f_Ports (g x)))"
| "scope_Ports g s (Object EndDevice x) = Some (container_add (f_pPort (g x)) [])"
| "scope_Ports g s _ = None"

fun scope_Phys :: "'o members \<Rightarrow> 'o session \<Rightarrow> 'o scope \<Rightarrow> 'o list option" where
  "scope_Phys g s The_session = Some (m_Phys s)"
| "scope_Phys g s (Object Controller x) = Some (f_Phys (g x))"
| "scope_Phys g s (Object Port x) = Some (f_Phys (g x))"
| "scope_Phys g s (Object RoutingDevice x) =
     Some (if f_multiplier (g x) then container_add (f_pPhy (g x)) (f_Phys (g x)) else f_Phys (g x))"
| "scope_Phys g s (Object EndDevice x) = Some (container_add (f_pPhy (g x)) [])"
| "scope_Phys g s _ = None"

fun scope_Volumes :: "'o members \<Rightarrow> 'o session \<Rightarrow> 'o scope \<Rightarrow> 'o list option" where
  "scope_Volumes g s The_session = Some (m_Volumes s)"
| "scope_Volumes g s (Object Controller x) = Some (f_Volumes (g x))"
| "scope_Volumes g s (Object Array x) = Some (f_Volumes (g x))"
| "scope_Volumes g s _ = None"

fun scope_Arrays :: "'o members \<Rightarrow> 'o session \<Rightarrow> 'o scope \<Rightarrow> 'o list option" where
  "scope_Arrays g s The_session = Some (m_Arrays s)"
| "scope_Arrays g s (Object Controller x) = Some (f_Arrays (g x))"
| "scope_Arrays g s _ = None"

fun scope_Controllers :: "'o members \<Rightarrow> 'o session \<Rightarrow> 'o scope \<Rightarrow> 'o list option" where
  "scope_Controllers g s The_session = Some (m_Controllers s)"
| "scope_Controllers g s (Object RaidInfo x) =
     Some (case f_controller (g x) of None \<Rightarrow> [] | Some c \<Rightarrow> container_add c [])"
| "scope_Controllers g s _ = None"

definition enclosure_attachedTo :: "'o members \<Rightarrow> 'o \<Rightarrow> 'o \<Rightarrow> bool" where
  "enclosure_attachedTo g e x \<longleftrightarrow> (\<exists>r \<in> set (f_RoutingDevices (g e)). f_parent (g r) = Some x)"

text \<open>\<open>Controller::getEnclosures\<close>, the second for a routing device.\<close>

definition controller_getEnclosures :: "'o members \<Rightarrow> 'o \<Rightarrow> bool \<Rightarrow> 'o list" where
  "controller_getEnclosures g x all =
     (if all then f_Enclosures_Direct (g x)
      else filter (\<lambda>e. enclosure_attachedTo g e x) (f_Enclosures_Direct (g x)))"

definition controller_getEnclosures_of :: "'o members \<Rightarrow> 'o \<Rightarrow> 'o \<Rightarrow> 'o list" where
  "controller_getEnclosures_of g x router =
     filter (\<lambda>e. f_enclosure (g router) \<noteq> Some e \<and> enclosure_attachedTo g e router) (f_Enclosures_Direct (g x))"

lemmas controller_enclosures = controller_getEnclosures_def controller_getEnclosures_of_def

fun scope_Enclosures :: "'o members \<Rightarrow> 'o session \<Rightarrow> 'o scope \<Rightarrow> bool \<Rightarrow> 'o list option" where
  "scope_Enclosures g s The_session all = Some (m_Enclosures s)"
| "scope_Enclosures g s (Object Controller x) all = Some (controller_getEnclosures g x all)"
| "scope_Enclosures g s (Object RoutingDevice x) all =
     Some (case f_controller (g x) of None \<Rightarrow> [] | Some c \<Rightarrow> controller_getEnclosures_of g c x)"
| "scope_Enclosures g s _ all = None"

subsection \<open>Entry points\<close>

text \<open>\<open>getItems\<close> of the files of \<open>src/\<close>.  The capabilities are not asked for by scope.\<close>

fun getItems :: "kind \<Rightarrow> 'o members \<Rightarrow> 'o session \<Rightarrow> 'o scope \<Rightarrow> SSI_ScopeType \<Rightarrow> 'o list option" where
  "getItems EndDevice g s sc t = scope_EndDevices g s sc (t = SSI_ScopeTypeControllerAll)"
| "getItems RoutingDevice g s sc t = scope_RoutingDevices g s sc (t = SSI_ScopeTypeControllerAll)"
| "getItems Enclosure g s sc t = scope_Enclosures g s sc (t = SSI_ScopeTypeControllerAll)"
| "getItems Port g s sc t = scope_Ports g s sc"
| "getItems Phy g s sc t = scope_Phys g s sc"
| "getItems Volume g s sc t = scope_Volumes g s sc"
| "getItems Array g s sc t = scope_Arrays g s sc"
| "getItems Controller g s sc t = scope_Controllers g s sc"
| "getItems RaidInfo g s sc t = Some (m_RaidInfo s)"

definition session_of :: "SSI_Handle \<Rightarrow> 'o context_mgr option \<Rightarrow> 'o session" where
  "session_of session pContextMgr =
     (case ssi_getSession session pContextMgr of
        Inl _ \<Rightarrow> empty_session
      | Inr i \<Rightarrow> session_at (the pContextMgr) i)"

text \<open>\<open>SsiGetEndDeviceHandles\<close>, \<open>SsiGetRoutingDeviceHandles\<close>, ..., by the kind.\<close>

definition SsiGetItemHandles ::
  "kind \<Rightarrow> 'o members \<Rightarrow> SSI_Handle \<Rightarrow> SSI_ScopeType \<Rightarrow> SSI_Handle \<Rightarrow> SSI_Handle list option \<Rightarrow> u32 option \<Rightarrow>
   'o context_mgr option \<Rightarrow> (SSI_Status \<times> SSI_Handle list option \<times> u32 option) option" where
  "SsiGetItemHandles k g session scopeType scopeHandle handleList handleCount pContextMgr =
     SsiGetHandles scope_matches (getItems k g (session_of session pContextMgr))
       session scopeType scopeHandle handleList handleCount pContextMgr"

definition SsiGetRaidInfoHandles ::
  "SSI_Handle \<Rightarrow> SSI_Handle list option \<Rightarrow> u32 option \<Rightarrow> 'o context_mgr option \<Rightarrow>
   (SSI_Status \<times> SSI_Handle list option \<times> u32 option) option" where
  "SsiGetRaidInfoHandles session handleList handleCount pContextMgr =
     (case ssi_getSession session pContextMgr of
        Inl st \<Rightarrow> Some (st, handleList, handleCount)
      | Inr i \<Rightarrow> container_getHandles (m_handle (m_HandleMgr (the pContextMgr)))
                  (m_RaidInfo (session_at (the pContextMgr) i)) handleList handleCount)"

text \<open>\<open>Session::getEndDevice\<close>, \<open>Session::getRoutingDevice\<close>, ..., by the kind: the \<open>getItem\<close> of the entry points.\<close>

definition getItem :: "kind \<Rightarrow> 'o context_mgr \<Rightarrow> nat \<Rightarrow> SSI_Handle \<Rightarrow> 'o option" where
  "getItem k c i handle = container_find (m_handle (m_HandleMgr c)) (container k (session_at c i)) handle"

text \<open>The template \<open>SsiGetInfo\<close>; \<open>getInfo\<close> is the query of the object, \<open>info\<close> what is in the structure of the caller.\<close>

definition SsiGetInfo ::
  "kind \<Rightarrow> ('o \<Rightarrow> 'i option \<Rightarrow> SSI_Status \<times> 'i option) \<Rightarrow> SSI_Handle \<Rightarrow> SSI_Handle \<Rightarrow> 'i option \<Rightarrow>
   'o context_mgr option \<Rightarrow> SSI_Status \<times> 'i option" where
  "SsiGetInfo k getInfo session itemHandle info pContextMgr =
     (case ssi_getSession session pContextMgr of
        Inl st \<Rightarrow> (st, info)
      | Inr i \<Rightarrow>
          (case getItem k (the pContextMgr) i itemHandle of
             None \<Rightarrow> (SSI_StatusInvalidHandle, info)
           | Some pItem \<Rightarrow> getInfo pItem info))"

subsection \<open>\<open>system.cpp\<close>\<close>

text \<open>The library is not initialized when \<open>null\<close>.\<close>

definition SsiGetSystemInfo ::
  "env \<Rightarrow> bool \<Rightarrow> bool \<Rightarrow> world \<Rightarrow> (SSI_Status \<times> SSI_SystemInfo option) \<times> world" where
  "SsiGetSystemInfo os null pInfo_null w =
     (if null then ((SSI_StatusNotInitialized, None), w) else getSystemInfo os pInfo_null w)"

definition SsiRescan :: "bool \<Rightarrow> SSI_Status" where
  "SsiRescan null = (if null then SSI_StatusNotInitialized else SSI_StatusNotSupported)"

definition SsiSetVolCacheSize :: "bool \<Rightarrow> SSI_Status" where
  "SsiSetVolCacheSize null = (if null then SSI_StatusNotInitialized else SSI_StatusNotSupported)"

text \<open>
  \<open>SsiReadStorageArea\<close> and \<open>SsiWriteStorageArea\<close>: no class overrides the functions of \<open>StorageDevice\<close>, which support nothing.
\<close>

definition SsiStorageArea :: "'o scan \<Rightarrow> SSI_Handle \<Rightarrow> bool \<Rightarrow> 'o context_mgr option \<Rightarrow> SSI_Status \<times> 'o context_mgr option" where
  "SsiStorageArea hw deviceHandle cim pContextMgr =
     (case pContextMgr of
        None \<Rightarrow> (SSI_StatusNotInitialized, None)
      | Some c \<Rightarrow>
          (let (i, c1) = allocate c; (c2, ok) = initialize hw i c1 in
           (if \<not> ok then SSI_StatusFailed
            else if \<not> cim then SSI_StatusInvalidParameter
            else if session_getDevice (m_handle (m_HandleMgr c2)) (session_at c2 i) deviceHandle = None
            then SSI_StatusInvalidHandle
            else SSI_StatusNotSupported,
            Some (destroy i c2))))"

subsection \<open>What a query answers\<close>

text \<open>What the objects of a session point to is in the session.\<close>

definition links :: "'o members \<Rightarrow> 'o session \<Rightarrow> 'o \<Rightarrow> bool" where
  "links g s x \<longleftrightarrow>
     set (f_EndDevices_Direct (g x)) \<subseteq> set (m_EndDevices s) \<and> set (f_EndDevices (g x)) \<subseteq> set (m_EndDevices s)
   \<and> set (f_BlockDevices (g x)) \<subseteq> set (m_EndDevices s)
   \<and> set (f_RoutingDevices_Direct (g x)) \<subseteq> set (m_RoutingDevices s) \<and> set (f_RoutingDevices (g x)) \<subseteq> set (m_RoutingDevices s)
   \<and> set (f_Ports (g x)) \<subseteq> set (m_Ports s) \<and> set (f_Phys (g x)) \<subseteq> set (m_Phys s)
   \<and> set (f_Arrays (g x)) \<subseteq> set (m_Arrays s) \<and> set (f_Volumes (g x)) \<subseteq> set (m_Volumes s)
   \<and> set (f_Enclosures_Direct (g x)) \<subseteq> set (m_Enclosures s)
   \<and> (\<forall>c. f_controller (g x) = Some c \<longrightarrow> c \<in> set (m_Controllers s))"

definition linked :: "'o members \<Rightarrow> 'o session \<Rightarrow> bool" where
  "linked g s \<longleftrightarrow>
     (\<forall>x \<in> held s. links g s x)
   \<and> (\<forall>x \<in> set (m_EndDevices s). f_pPhy (g x) \<in> set (m_Phys s) \<and> f_pPort (g x) \<in> set (m_Ports s))
   \<and> (\<forall>x \<in> set (m_RoutingDevices s). f_pSubtractivePort (g x) \<in> set (m_Ports s)
        \<and> (f_multiplier (g x) \<longrightarrow> f_pPhy (g x) \<in> set (m_Phys s)))"

lemma linkedD: "linked g s \<Longrightarrow> x \<in> set (container k s) \<Longrightarrow> links g s x"
  using held_iff [of x s] unfolding linked_def by blast

lemma enclosures_listed:
  assumes l: "linked g s" and x: "x \<in> set (container j s)" and items: "scope_Enclosures g s (Object j x) all = Some items"
  shows "set items \<subseteq> set (m_Enclosures s)"
proof -
  have d: "set (f_Enclosures_Direct (g x)) \<subseteq> set (m_Enclosures s)" "f_controller (g x) = Some c \<Longrightarrow> c \<in> set (container Controller s)" for c
    using linkedD [OF l x] by (simp_all add: links_def)
  have c: "set (f_Enclosures_Direct (g c)) \<subseteq> set (m_Enclosures s)" if "f_controller (g x) = Some c" for c
    using linkedD [OF l d(2) [OF that]] by (simp add: links_def)
  show ?thesis
    using items d(1) c by (cases j) (auto simp: controller_enclosures split: option.splits if_splits)
qed

lemma scope_lists:
  assumes l: "linked g s" and x: "x \<in> set (container j s)" and items: "getItems k g s (Object j x) t = Some items"
  shows "set items \<subseteq> set (container k s)"
proof -
  note d = linkedD [OF l x, unfolded links_def]
  have p: "j = EndDevice \<Longrightarrow> f_pPhy (g x) \<in> set (m_Phys s) \<and> f_pPort (g x) \<in> set (m_Ports s)"
    "j = RoutingDevice \<Longrightarrow> f_pSubtractivePort (g x) \<in> set (m_Ports s) \<and> (f_multiplier (g x) \<longrightarrow> f_pPhy (g x) \<in> set (m_Phys s))"
    using l x by (auto simp: linked_def)
  show ?thesis
  proof (cases k)
    case Enclosure
    then show ?thesis using enclosures_listed [OF l x] items by simp
  next
    case EndDevice
    then show ?thesis using items d by (cases j) (auto simp: container_append_def split: if_splits)
  next
    case RoutingDevice
    then show ?thesis using items d by (cases j) (auto simp: container_append_def split: if_splits)
  next
    case Phy
    then show ?thesis using items d p by (cases j) (auto simp: container_add_def split: if_splits)
  next
    case Port
    then show ?thesis using items d p by (cases j) (auto simp: container_add_def)
  next
    case Controller
    then show ?thesis using items d by (cases j) (auto simp: container_add_def split: option.splits)
  qed (use items d in \<open>cases j; auto\<close>)+
qed

lemma getItems_listed:
  assumes "linked g s" "session_getObject ho s h = Some sc" "getItems k g s sc t = Some items"
  shows "set items \<subseteq> set (container k s)"
proof (cases sc)
  case The_session
  with assms(3) show ?thesis by (cases k) auto
next
  case (Object j x)
  then have "search ho search_order s h = Some (Object j x)"
    using assms(2) by (simp add: session_getObject_def split: if_splits)
  then have x: "x \<in> set (container j s)" using search_sound by metis
  show ?thesis using scope_lists [OF assms(1) x] assms(3) Object by blast
qed

lemma getItem_registered:
  assumes "ctx_ok c" "x \<in> set (container k (session_at c i))" "\<forall>x \<in> held (session_at c i). m_handle (m_HandleMgr c) x \<noteq> SSI_NULL_HANDLE"
  shows "getItem k c i (m_handle (m_HandleMgr c) x) = Some x"
proof -
  have ok: "hm_ok (m_HandleMgr c)" using assms(1) by (simp add: ctx_ok_def)
  have "getItem k c i (m_handle (m_HandleMgr c) x) \<noteq> None"
    using assms(2) unfolding getItem_def container_find_None by blast
  then obtain y where y: "getItem k c i (m_handle (m_HandleMgr c) x) = Some y" by blast
  have "m_handle (m_HandleMgr c) y = m_handle (m_HandleMgr c) x"
    by (rule conjunct2 [OF container_find_Some [OF y [unfolded getItem_def]]])
  moreover have "x \<in> held (session_at c i)" using assms(2) held_iff [of x "session_at c i"] by blast
  with assms(3) have "m_handle (m_HandleMgr c) x \<noteq> SSI_NULL_HANDLE" by blast
  ultimately have "y = x" using hm.handles_distinct [OF ok, of y x] by simp
  with y show ?thesis by simp
qed

lemma container_getHandles_Ok:
  assumes "container_getHandles ho l (Some b) (Some n) = Some (SSI_StatusOk, Some hs, Some m)" "unat n \<le> length b"
  shows "take (unat m) hs = map ho l \<and> unat m = length l"
proof -
  have "length l \<le> unat n" using assms(1) by (auto simp: container_getHandles_def split: if_splits)
  moreover have "unat n < 2 ^ 32" using unsigned_less [of n, where ?'a = nat] by simp
  ultimately show ?thesis
    using assms getHandles_fits [of l n b ho] by (auto simp: unat_of_nat_u32)
qed


definition demo_members :: "nat members" where
  "demo_members = (\<lambda>x. \<lparr>f_EndDevices_Direct = [], f_EndDevices = [], f_RoutingDevices_Direct = [], f_RoutingDevices = [],
     f_Ports = [], f_Phys = (if x = 1 then [2] else []), f_Arrays = [], f_Volumes = [], f_Enclosures_Direct = [],
     f_BlockDevices = [], f_pPhy = 0, f_pPort = 0, f_pSubtractivePort = 0, f_multiplier = False, f_array_member = False,
     f_parent = None, f_controller = None, f_enclosure = None\<rparr>)"

definition demo_scan :: "nat scan" where
  "demo_scan = \<lparr>found = [(Controller, 1), (Phy, 2)], throws = False\<rparr>"

definition demo_ctx :: "nat context_mgr" where
  "demo_ctx = snd (openSession demo_scan new_context)"

lemma demo_ctx_ok: "ctx_ok demo_ctx"
proof -
  have "new_scan demo_scan new_context"
    unfolding demo_scan_def by (rule demo_new_scan) simp
  from ctx_ok_open [OF ctx_ok_new this] show ?thesis by (simp add: demo_ctx_def)
qed

lemma demo_session:
  "session_at demo_ctx 0 = empty_session\<lparr>m_Controllers := [1], m_Phys := [2]\<rparr>"
  "ssi_getSession 1 (Some demo_ctx) = Inr 0"
  "m_handle (m_HandleMgr demo_ctx) 1 = 1" "m_handle (m_HandleMgr demo_ctx) 2 = 2"
  "SsiGetItemHandles Phy demo_members 1 SSI_ScopeTypeControllerDirect 1 (Some [0, 0]) (Some 2) (Some demo_ctx)
     = Some (SSI_StatusOk, Some [2, 0], Some 1)"
  by code_simp+


text \<open>A phy is a scope of its own type of which every query is refused, and a volume is never a scope.\<close>

lemma refused_scopes:
  "k \<noteq> RaidInfo \<Longrightarrow> getItems k g s (Object Phy x) t = None"
  "\<not> scope_matches (Object Volume x) t"
  by (cases k; simp)+

end
