(* ===== verification/Spec2Isabelle.thy ===== *)
theory Spec2Isabelle
  imports Safe_Mem Safe_Str_Cat Sessions Raid_Migration Events Utf8_String Disk_Laws Discovery Safe_Str_Token Safe_Str_Field Orom Safe_Format Topology_Types Monitor Controller_Info Object_Info Messages Queries
begin

text \<open>
  A verification development of irstessi, the storage system interface of Intel Rapid Storage Technology for Linux:
  a C++ library (\<open>src/src\<close> and \<open>src/lib/engine\<close>) that scans the machine through sysfs for controllers, ports, disks,
  arrays and volumes, hands them out as handles in sessions, and changes them by running \<open>mdadm\<close> and other commands,
  over a C library of bounds-checked memory and string functions (\<open>src/lib/safeclib\<close>) and two readers of firmware
  tables (\<open>src/lib/orom\<close>, \<open>src/lib/efi\<close>).  Paths below are relative to \<open>src/lib/engine\<close> unless they name another
  directory.

  \<^bold>\<open>How the program is put together.\<close>  A client calls \<open>SsiInitialize\<close>, opens a session, asks for handles and queries or
  changes objects through them.  The context (\<open>context_manager.cpp\<close>) owns the registry of handles, the sessions
  (\<open>session_manager.cpp\<close>) and the event (\<open>event_manager.cpp\<close>).  Opening a session runs a scan (\<open>session.cpp\<close>), in which
  controllers read their capabilities from firmware, find phys, ports and disks, and learn of the arrays on their disks.
  A request on an array or a volume opens a session of its own, finds the object by handle, and runs the commands.

  \<^bold>\<open>Conventions.\<close>  A machine integer is a word of its width.  A class is a record of the fields that the modelled operations
  use, an enumeration is a datatype, a pointer to an object of the topology is an index into a store and a pointer into C
  memory a natural number.  The outermost None of a result is undefined behaviour (an access to no object, a null or a
  dangling pointer), or for the functions defined with \<open>partial_function (option)\<close> a run that does not return; an
  exception or an error code is a value.  The environment (\<open>env\<close> in \<open>Utils\<close>) answers, from the commands run so far, what a
  command prints and its exit status; the world holds the trace of the commands and of the files written.  No fuel is
  used: loops with a bound in the code are structural or have a measure, and the loops that may run for ever
  (\<open>device_name\<close>, \<open>listed\<close>, \<open>parse_loop\<close>, the walks over parents, \<open>addToSession\<close>) are partial functions for which returning
  is proved.

  \<^bold>\<open>The C library.\<close>
  \<^item> \<open>Prelude\<close>, \<open>CMem\<close>: the option monad, and the memory as a partial map from addresses to bytes, with reads and writes of 8,
    16 and 32 bits (the locale \<open>cell\<close> and its three interpretations).
  \<^item> \<open>Constraint\<close>: \<open>safe_mem_constraint.c\<close>, \<open>safe_str_constraint.c\<close> and the two handlers.
  \<^item> \<open>Mem_Prims\<close>: \<open>mem_primitives_lib.c\<close>, with the alignment, the unrolled runs and the 32-bit counters of the code.  The move
    routines have the effect of memmove and the set routines that of memset, for every alignment and overlap.
  \<^item> \<open>Safe_Mem\<close>: memcpy_s, memmove_s, memset_s, memzero_s, memcmp_s.  The locale \<open>bounded_copy\<close> holds the contract of a copy:
    rejected with the destination untouched, cleared, or copied.
  \<^item> \<open>Safe_Str\<close>, \<open>Safe_Str_Copy\<close>, \<open>Safe_Str_Cat\<close>, \<open>Safe_Str_Field\<close>: the copies and concatenations, with their loops as in the code.
    The locale \<open>string_writer\<close> holds their contract: on success a terminated string with a cleared tail, and on failure an
    empty string and a report to the handler.
  \<^item> \<open>Safe_Str_Search\<close>, \<open>Safe_Str_Token\<close>: the queries of strings and strtok_s, and their reference functions on lists.
  \<^item> \<open>Safe_Format\<close>: the parser of formats and the four functions of \<open>snprintf_support.c\<close>; snprintf is a parameter.

  \<^bold>\<open>Handles, sessions, events.\<close>
  \<^item> \<open>Ssi_Types\<close>: the status codes, enumerations and information structures of \<open>src/include/ssi.h\<close>.
  \<^item> \<open>Handles\<close>: \<open>handle_manager.h\<close>, \<open>container.h\<close>, \<open>object.cpp\<close>: the registry as a sorted list of handle and object with the search for
    a free handle.  The locale \<open>handle_registry\<close> states what clients rely on and is interpreted on the operations of the code.
  \<^item> \<open>Sessions\<close>: \<open>session.cpp\<close>, \<open>session_manager.cpp\<close>, \<open>context_manager.cpp\<close> and the entry points of \<open>src/src\<close> that need
    no engine object of a particular class.  The contexts reachable through the entry points are an inductive set; the invariant says that
    every session's containers agree with the registry.
  \<^item> \<open>Events\<close>: \<open>event.cpp\<close>, \<open>event_manager.cpp\<close>, \<open>src/src/event.cpp\<close> over the semaphore sets of the kernel.

  \<^bold>\<open>Arrays and volumes.\<close>
  \<^item> \<open>Utils\<close>: \<open>utils.cpp\<close> and \<open>exception.h\<close>: running a command, its status, and the message in its output; lists of characters for the
    operations of class String that the engine uses.
  \<^item> \<open>Utf8_String\<close>: \<open>string.cpp\<close> and \<open>string.h\<close>: the buffer of class String with its UTF-8 lengths and offsets, and the refinement of
    the list operations on ASCII text.
  \<^item> \<open>Raid_Info\<close>: \<open>raid_info.cpp\<close>: what the firmware allows for each RAID level.
  \<^item> \<open>Raid_Array\<close>: \<open>array.cpp\<close>, \<open>raid_device.cpp\<close>: spares (the locale \<open>spare_pool\<close>), growing, removing, sizes.
  \<^item> \<open>Raid_Volume\<close>, \<open>Raid_Migration\<close>, \<open>Raid_Create\<close>: \<open>volume.cpp\<close> with all its migrations, and creation: the search for a device name and the
    map file of mdadm.
  \<^item> \<open>Raid_Api\<close>, \<open>Api_Laws\<close>: \<open>src/src/volume.cpp\<close> and \<open>src/src/array.cpp\<close>: each entry point with its temporary session, and what a request
    leaves of the registry.

  \<^bold>\<open>Disks, controllers, topology.\<close>
  \<^item> \<open>Disks\<close>, \<open>Disk_Laws\<close>: \<open>block_device.cpp\<close>, \<open>end_device.cpp\<close>, \<open>nvme_disk.cpp\<close>, spares of \<open>controller.cpp\<close>, and the entry points on disks, phys
    and ports.
  \<^item> \<open>Sysfs\<close>: directories of \<open>filesystem.cpp\<close> over a tree.
  \<^item> \<open>Topology\<close>, \<open>Topology_Laws\<close>, \<open>Topology_Scan\<close>, \<open>Discovery\<close>, \<open>Topology_Types\<close>: the objects and how they attach to each other, the scan for
    AHCI and VMD controllers and their registration in a session; the invariant of a scanned tree, and the types of the store.
  \<^item> \<open>Orom\<close>: \<open>src/lib/orom/orom.c\<close>, \<open>src/lib/efi/efi.cpp\<close>, \<open>ahci.cpp\<close>, \<open>isci.cpp\<close>, \<open>vmd.cpp\<close>: the scan for the option ROM and its cache, reading the
    EFI variables, and the sharing of the capabilities between controllers.
  \<^item> \<open>Numbers\<close>, \<open>Enclosures\<close>: reading numbers and PCI addresses, and \<open>enclosure.cpp\<close> with the reports of \<open>sg_ses\<close>.
  \<^item> \<open>Monitor\<close>: \<open>src/tools/ssieventmonitor.cpp\<close> and \<open>src/tools/ssimsg.cpp\<close>: the daemon that compares two readings of \<open>/proc/mdstat\<close> and posts the
    semaphore of \<open>Events\<close>.
  \<^item> \<open>Controller_Info\<close>, \<open>Object_Info\<close>: the constructors of the controllers, from the PCI header, mdadm and the firmware tables,
    what a phy reads from sysfs, and the queries of controllers, phys, ports, routing devices and disks, field by field.
  \<^item> \<open>Configuration\<close>: the configuration file and the monitor of mdadm, which every scan checks, and the versions told to a
    client.
  \<^item> \<open>Queries\<close>, \<open>Messages\<close>: the entry points for lists of handles and for information, with the virtual functions of every
    scope, and how a client fetches the message of an error through the checked copy of a string.

  \<^bold>\<open>What the properties show.\<close>  Registry and sessions: fresh handles, the invariant of every reachable context, the isolation of
  sessions, when the context may be torn down.  Scan: every object of the machine is registered once, under its class,
  in a well-typed store, and a disk finds its controller.  Requests: they restore the registry, and each of them succeeds
  only when all its commands did, stops at the first that fails, and undoes what it says it undoes.  Memory and strings:
  the contracts of the functions, and inputs at which they read or write outside their bounds.  Firmware: which table is
  found and that the caches do not change the answer.  Texts: map files, PCI addresses and reports are read back.
  Where the code does not do what it is meant to do, the theorem states what it does.

  \<^bold>\<open>What is not modelled.\<close>  The vendored \<open>src/lib/boost\<close>: shared pointers are references, weak pointers are references
  that may be expired.  The log (\<open>src/lib/log\<close>) writes to a file that no modelled operation reads.  The metadata reader (\<open>src/lib/mpb\<close>) is compiled
  to stubs that open a file and answer success.  The ISCI controllers, their ports, expanders and enclosure attachment, the discovery
  of the controllers of stand-alone NVMe disks are not part of the scan here; of ISCI the sharing of the capabilities, the
  construction of the controller and what is told of a SAS phy are modelled.  Identifying a disk by ioctl, the text fields of the information structures
  that are copied without a computation, and reading and writing the content of sysfs files go through parameters.
  Failing allocations, threads and signals are not modelled: the library does not lock, and the handler of SIGBUS in
  \<open>orom.c\<close> and the daemon's own process handling have no state that the modelled operations read.  The programs of
  \<open>src/ut\<close> are tests.

\<close>

end
